(* ===== verification/Rust_Prelude.thy ===== *)
theory Rust_Prelude
  imports Main "HOL-Library.Sublist" "HOL-Library.Word" "HOL-Library.Code_Target_Nat"
begin

text \<open>
  Shared vocabulary of the development.  A Rust \<open>u8\<close> is an Isabelle \<open>char\<close> (eight bits), a byte
  slice is a \<open>string\<close>, and a Rust \<open>&str\<close> is the \<open>string\<close> of its UTF-8 bytes, so that \<open>length\<close>
  counts bytes as \<open>str::len\<close> does.  Unsigned machine integers of type \<open>usize\<close>, \<open>u64\<close>
  and \<open>u128\<close> are \<open>nat\<close> with the width written out in the checked and saturating operations;
  code that works on bits uses \<open>'a word\<close>.  \<open>Result<T, E>\<close> is \<open>'e + 't\<close> and the question-mark
  operator is \<^term>\<open>rbind\<close>.  The theory also models the parts of the Rust standard library the
  repository calls: ASCII classification, UTF-8 decoding, \<open>trim\<close>, \<open>split\<close>, \<open>split_once\<close>,
  \<open>strip_prefix\<close>, integer parsing and slice search.
\<close>

named_theorems rust_defs \<open>definitions of standard-library operations\<close>
named_theorems result_simps \<open>case analysis of fallible code\<close>

section \<open>Results\<close>

type_synonym bytes = string

definition rbind :: "'e + 'a \<Rightarrow> ('a \<Rightarrow> 'e + 'b) \<Rightarrow> 'e + 'b" where
  "rbind m f = (case m of Inl e \<Rightarrow> Inl e | Inr x \<Rightarrow> f x)"

definition ok_or :: "'a option \<Rightarrow> 'e \<Rightarrow> 'e + 'a" where
  "ok_or x e = (case x of None \<Rightarrow> Inl e | Some v \<Rightarrow> Inr v)"

definition map_err :: "('e \<Rightarrow> 'f) \<Rightarrow> 'e + 'a \<Rightarrow> 'f + 'a" where
  "map_err g m = (case m of Inl e \<Rightarrow> Inl (g e) | Inr x \<Rightarrow> Inr x)"

definition reject_if :: "bool \<Rightarrow> 'e \<Rightarrow> 'e + unit" where
  "reject_if b e = (if b then Inl e else Inr ())"

definition is_ok :: "'e + 'a \<Rightarrow> bool" where
  "is_ok m = (case m of Inl _ \<Rightarrow> False | Inr _ \<Rightarrow> True)"

section \<open>Unsigned arithmetic\<close>

definition u32_max :: nat where "u32_max = 2 ^ 32 - 1"
definition u64_max :: nat where "u64_max = 2 ^ 64 - 1"
definition u128_max :: nat where "u128_max = 2 ^ 128 - 1"

text \<open>\<open>usize\<close> is 64 bits wide on the only supported target, \<open>x86_64\<close> Windows.\<close>

definition usize_max :: nat where "usize_max = u64_max"

definition checked_add :: "nat \<Rightarrow> nat \<Rightarrow> nat \<Rightarrow> nat option" where
  "checked_add m a b = (if a + b \<le> m then Some (a + b) else None)"

definition checked_mul :: "nat \<Rightarrow> nat \<Rightarrow> nat \<Rightarrow> nat option" where
  "checked_mul m a b = (if a * b \<le> m then Some (a * b) else None)"

definition saturating_add :: "nat \<Rightarrow> nat \<Rightarrow> nat \<Rightarrow> nat" where
  "saturating_add m a b = min m (a + b)"

definition saturating_mul :: "nat \<Rightarrow> nat \<Rightarrow> nat \<Rightarrow> nat" where
  "saturating_mul m a b = min m (a * b)"

text \<open>\<open>saturating_sub\<close> is truncated subtraction, which is what \<open>-\<close> on \<open>nat\<close> computes.\<close>

definition saturating_sub :: "nat \<Rightarrow> nat \<Rightarrow> nat" where
  "saturating_sub a b = a - b"

definition try_from :: "nat \<Rightarrow> nat \<Rightarrow> nat option" where
  "try_from m a = (if a \<le> m then Some a else None)"

definition div_ceil :: "nat \<Rightarrow> nat \<Rightarrow> nat" where
  "div_ceil a b = (a + b - 1) div b"

section \<open>Bytes\<close>

definition byte :: "char \<Rightarrow> nat" where
  "byte c = of_char c"

definition is_ascii_digit :: "char \<Rightarrow> bool" where
  "is_ascii_digit c = (48 \<le> byte c \<and> byte c \<le> 57)"

definition is_ascii_uppercase :: "char \<Rightarrow> bool" where
  "is_ascii_uppercase c = (65 \<le> byte c \<and> byte c \<le> 90)"

definition is_ascii_lowercase :: "char \<Rightarrow> bool" where
  "is_ascii_lowercase c = (97 \<le> byte c \<and> byte c \<le> 122)"

definition is_ascii_alphabetic :: "char \<Rightarrow> bool" where
  "is_ascii_alphabetic c = (is_ascii_uppercase c \<or> is_ascii_lowercase c)"

definition is_ascii_alphanumeric :: "char \<Rightarrow> bool" where
  "is_ascii_alphanumeric c = (is_ascii_alphabetic c \<or> is_ascii_digit c)"

definition is_ascii_hexdigit :: "char \<Rightarrow> bool" where
  "is_ascii_hexdigit c =
     (is_ascii_digit c \<or> (65 \<le> byte c \<and> byte c \<le> 70) \<or> (97 \<le> byte c \<and> byte c \<le> 102))"

definition is_ascii_graphic :: "char \<Rightarrow> bool" where
  "is_ascii_graphic c = (33 \<le> byte c \<and> byte c \<le> 126)"

definition is_ascii_control :: "char \<Rightarrow> bool" where
  "is_ascii_control c = (byte c < 32 \<or> byte c = 127)"

definition is_ascii_whitespace :: "char \<Rightarrow> bool" where
  "is_ascii_whitespace c = (byte c \<in> {9, 10, 12, 13, 32})"

definition ascii_lower :: "char \<Rightarrow> char" where
  "ascii_lower c = (if is_ascii_uppercase c then char_of (byte c + 32) else c)"

definition to_ascii_lowercase :: "string \<Rightarrow> string" where
  "to_ascii_lowercase s = map ascii_lower s"

definition eq_ignore_ascii_case :: "string \<Rightarrow> string \<Rightarrow> bool" where
  "eq_ignore_ascii_case s t = (to_ascii_lowercase s = to_ascii_lowercase t)"

section \<open>Slices\<close>

definition strip_prefix :: "'a list \<Rightarrow> 'a list \<Rightarrow> 'a list option" where
  "strip_prefix p s = (if prefix p s then Some (drop (length p) s) else None)"

definition strip_suffix :: "'a list \<Rightarrow> 'a list \<Rightarrow> 'a list option" where
  "strip_suffix p s = (if suffix p s then Some (take (length s - length p) s) else None)"

fun split_on :: "'a \<Rightarrow> 'a list \<Rightarrow> 'a list list" where
  "split_on d [] = [[]]"
| "split_on d (x # xs) =
     (if x = d then [] # split_on d xs
      else (case split_on d xs of [] \<Rightarrow> [[x]] | p # ps \<Rightarrow> (x # p) # ps))"

definition split_once :: "'a \<Rightarrow> 'a list \<Rightarrow> ('a list \<times> 'a list) option" where
  "split_once d s =
     (case dropWhile (\<lambda>x. x \<noteq> d) s of
        [] \<Rightarrow> None
      | _ # r \<Rightarrow> Some (takeWhile (\<lambda>x. x \<noteq> d) s, r))"

fun join_with :: "'a list \<Rightarrow> 'a list list \<Rightarrow> 'a list" where
  "join_with sep [] = []"
| "join_with sep [p] = p"
| "join_with sep (p # q # ps) = p @ sep @ join_with sep (q # ps)"

text \<open>\<open>slice.windows(n).position(|w| w == pat)\<close> and \<open>str::contains\<close>.\<close>

fun find_sub :: "'a list \<Rightarrow> 'a list \<Rightarrow> nat option" where
  "find_sub p [] = (if p = [] then Some 0 else None)"
| "find_sub p (x # xs) =
     (if prefix p (x # xs) then Some 0 else map_option Suc (find_sub p xs))"

definition contains_sub :: "'a list \<Rightarrow> 'a list \<Rightarrow> bool" where
  "contains_sub p s = (find_sub p s \<noteq> None)"

definition crlf :: bytes where
  "crlf = [CHR 0x0D, CHR 0x0A]"

section \<open>UTF-8 text\<close>

definition is_cont :: "char \<Rightarrow> bool" where
  "is_cont c = (128 \<le> byte c \<and> byte c \<le> 191)"

text \<open>
  \<open>std::str::from_utf8\<close> followed by \<open>chars()\<close>: the scalar values of well-formed UTF-8, \<open>None\<close>
  for any other byte string (overlong forms, surrogates and values above \<open>0x10FFFF\<close> included).
\<close>

fun utf8_decode :: "bytes \<Rightarrow> nat list option" where
  "utf8_decode [] = Some []"
| "utf8_decode (a # xs) =
     (if byte a < 128 then map_option ((#) (byte a)) (utf8_decode xs)
      else if 194 \<le> byte a \<and> byte a \<le> 223 then
        (case xs of
           b # ys \<Rightarrow>
             if is_cont b
             then map_option ((#) ((byte a - 192) * 64 + (byte b - 128))) (utf8_decode ys)
             else None
         | _ \<Rightarrow> None)
      else if 224 \<le> byte a \<and> byte a \<le> 239 then
        (case xs of
           b # c # ys \<Rightarrow>
             if is_cont b \<and> is_cont c \<and> (byte a = 224 \<longrightarrow> 160 \<le> byte b)
                \<and> (byte a = 237 \<longrightarrow> byte b \<le> 159)
             then map_option
                    ((#) ((byte a - 224) * 4096 + (byte b - 128) * 64 + (byte c - 128)))
                    (utf8_decode ys)
             else None
         | _ \<Rightarrow> None)
      else if 240 \<le> byte a \<and> byte a \<le> 244 then
        (case xs of
           b # c # d # ys \<Rightarrow>
             if is_cont b \<and> is_cont c \<and> is_cont d \<and> (byte a = 240 \<longrightarrow> 144 \<le> byte b)
                \<and> (byte a = 244 \<longrightarrow> byte b \<le> 143)
             then map_option
                    ((#) ((byte a - 240) * 262144 + (byte b - 128) * 4096
                          + (byte c - 128) * 64 + (byte d - 128)))
                    (utf8_decode ys)
             else None
         | _ \<Rightarrow> None)
      else None)"

definition utf8_encode_char :: "nat \<Rightarrow> bytes" where
  "utf8_encode_char n =
     (if n < 128 then [char_of n]
      else if n < 2048 then [char_of (192 + n div 64), char_of (128 + n mod 64)]
      else if n < 65536 then
        [char_of (224 + n div 4096), char_of (128 + n div 64 mod 64), char_of (128 + n mod 64)]
      else
        [char_of (240 + n div 262144), char_of (128 + n div 4096 mod 64),
         char_of (128 + n div 64 mod 64), char_of (128 + n mod 64)])"

definition utf8_encode :: "nat list \<Rightarrow> bytes" where
  "utf8_encode cs = concat (map utf8_encode_char cs)"

definition is_scalar :: "nat \<Rightarrow> bool" where
  "is_scalar n = (n < 55296 \<or> (57344 \<le> n \<and> n \<le> 1114111))"

definition utf8_valid :: "bytes \<Rightarrow> bool" where
  "utf8_valid s = (utf8_decode s \<noteq> None)"

text \<open>\<open>char::is_control\<close> (category Cc) on a scalar, and \<open>text.chars().any(char::is_control)\<close>.\<close>

definition is_control :: "nat \<Rightarrow> bool" where
  "is_control n = (n < 32 \<or> (127 \<le> n \<and> n \<le> 159))"

definition has_control :: "string \<Rightarrow> bool" where
  "has_control s = (case utf8_decode s of None \<Rightarrow> False | Some cs \<Rightarrow> list_ex is_control cs)"

text \<open>The scalars of Unicode's \<open>White_Space\<close> property, which \<open>str::trim\<close> removes.\<close>

definition is_whitespace :: "nat \<Rightarrow> bool" where
  "is_whitespace n =
     ((9 \<le> n \<and> n \<le> 13) \<or> n = 32 \<or> n = 133 \<or> n = 160 \<or> n = 5760 \<or> (8192 \<le> n \<and> n \<le> 8202)
      \<or> n = 8232 \<or> n = 8233 \<or> n = 8239 \<or> n = 8287 \<or> n = 12288)"

definition whitespace_encodings :: "bytes list" where
  "whitespace_encodings =
     [[CHR 0x09], [CHR 0x0A], [CHR 0x0B], [CHR 0x0C], [CHR 0x0D], [CHR 0x20], [CHR 0xC2, CHR 0x85],
     [CHR 0xC2, CHR 0xA0], [CHR 0xE1, CHR 0x9A, CHR 0x80], [CHR 0xE2, CHR 0x80, CHR 0x80],
     [CHR 0xE2, CHR 0x80, CHR 0x81], [CHR 0xE2, CHR 0x80, CHR 0x82],
     [CHR 0xE2, CHR 0x80, CHR 0x83], [CHR 0xE2, CHR 0x80, CHR 0x84],
     [CHR 0xE2, CHR 0x80, CHR 0x85], [CHR 0xE2, CHR 0x80, CHR 0x86],
     [CHR 0xE2, CHR 0x80, CHR 0x87], [CHR 0xE2, CHR 0x80, CHR 0x88],
     [CHR 0xE2, CHR 0x80, CHR 0x89], [CHR 0xE2, CHR 0x80, CHR 0x8A],
     [CHR 0xE2, CHR 0x80, CHR 0xA8], [CHR 0xE2, CHR 0x80, CHR 0xA9],
     [CHR 0xE2, CHR 0x80, CHR 0xAF], [CHR 0xE2, CHR 0x81, CHR 0x9F], [CHR 0xE3, CHR 0x80, CHR 0x80]]"

function trim_start :: "string \<Rightarrow> string" where
  "trim_start s =
     (case find (\<lambda>w. w \<noteq> [] \<and> prefix w s) whitespace_encodings of
        Some w \<Rightarrow> trim_start (drop (length w) s)
      | None \<Rightarrow> s)"
  by pat_completeness auto
termination
  by (relation "measure length") (auto simp: find_Some_iff prefix_def)

function trim_end :: "string \<Rightarrow> string" where
  "trim_end s =
     (case find (\<lambda>w. w \<noteq> [] \<and> suffix w s) whitespace_encodings of
        Some w \<Rightarrow> trim_end (take (length s - length w) s)
      | None \<Rightarrow> s)"
  by pat_completeness auto
termination
  by (relation "measure length") (auto simp: find_Some_iff suffix_def)

declare trim_start.simps [simp del] trim_end.simps [simp del]

definition str_trim :: "string \<Rightarrow> string" where
  "str_trim s = trim_end (trim_start s)"

section \<open>Integers in text\<close>

fun digits_value :: "nat \<Rightarrow> string \<Rightarrow> nat" where
  "digits_value acc [] = acc"
| "digits_value acc (c # cs) = digits_value (acc * 10 + (byte c - 48)) cs"

text \<open>\<open>str::parse\<close> for an unsigned type of maximum \<open>m\<close>: an optional \<open>+\<close>, then digits.\<close>

definition parse_unsigned :: "nat \<Rightarrow> string \<Rightarrow> nat option" where
  "parse_unsigned m s =
     (let d = (case s of c # cs \<Rightarrow> if c = CHR ''+'' then cs else s | [] \<Rightarrow> [])
      in if d \<noteq> [] \<and> list_all is_ascii_digit d \<and> digits_value 0 d \<le> m
         then Some (digits_value 0 d) else None)"

text \<open>\<open>to_string\<close> on an unsigned integer.\<close>

fun decimal :: "nat \<Rightarrow> string" where
  "decimal n =
     (if n < 10 then [char_of (48 + n)] else decimal (n div 10) @ [char_of (48 + n mod 10)])"

declare decimal.simps [simp del]

definition hex_digit :: "nat \<Rightarrow> char" where
  "hex_digit n = (if n < 10 then char_of (48 + n) else char_of (87 + n))"

definition hex_encode :: "bytes \<Rightarrow> string" where
  "hex_encode bs = concat (map (\<lambda>b. [hex_digit (byte b div 16), hex_digit (byte b mod 16)]) bs)"

section \<open>Lemmas\<close>

subsection \<open>Results\<close>

lemma rbind_Inr_iff [simp, result_simps]:
  "rbind m f = Inr y \<longleftrightarrow> (\<exists>x. m = Inr x \<and> f x = Inr y)"
  by (auto simp: rbind_def split: sum.splits)

lemma rbind_Inl_iff [result_simps]:
  "rbind m f = Inl e \<longleftrightarrow> m = Inl e \<or> (\<exists>x. m = Inr x \<and> f x = Inl e)"
  by (auto simp: rbind_def split: sum.splits)

lemma rbind_simps [simp]:
  "rbind (Inl e) f = Inl e"
  "rbind (Inr x) f = f x"
  by (simp_all add: rbind_def)

lemma ok_or_Inr_iff [simp, result_simps]: "ok_or x e = Inr v \<longleftrightarrow> x = Some v"
  by (auto simp: ok_or_def split: option.splits)

lemma ok_or_simps [simp]: "ok_or None e = Inl e" "ok_or (Some v) e = Inr v"
  by (simp_all add: ok_or_def)

lemma map_err_Inr_iff [simp, result_simps]: "map_err g m = Inr v \<longleftrightarrow> m = Inr v"
  by (auto simp: map_err_def split: sum.splits)

lemma reject_if_Inr_iff [simp, result_simps]: "reject_if b e = Inr u \<longleftrightarrow> \<not> b"
  by (simp add: reject_if_def)

lemma reject_if_Inl_iff [result_simps]: "reject_if b e = Inl f \<longleftrightarrow> b \<and> f = e"
  by (auto simp: reject_if_def)

lemma is_ok_iff [simp]: "is_ok m \<longleftrightarrow> (\<exists>x. m = Inr x)"
  by (cases m) (auto simp: is_ok_def)

subsection \<open>Unsigned arithmetic\<close>

lemmas uint_defs [rust_defs] =
  checked_add_def checked_mul_def saturating_add_def saturating_mul_def saturating_sub_def
  try_from_def div_ceil_def usize_max_def

lemma checked_add_Some [simp]: "checked_add m a b = Some c \<longleftrightarrow> c = a + b \<and> a + b \<le> m"
  by (auto simp: checked_add_def)

lemma checked_mul_Some [simp]: "checked_mul m a b = Some c \<longleftrightarrow> c = a * b \<and> a * b \<le> m"
  by (auto simp: checked_mul_def)

lemma try_from_Some [simp]: "try_from m a = Some c \<longleftrightarrow> c = a \<and> a \<le> m"
  by (auto simp: try_from_def)

lemma saturating_le [simp]: "saturating_add m a b \<le> m" "saturating_mul m a b \<le> m"
  by (simp_all add: uint_defs)

subsection \<open>ASCII\<close>

lemmas ascii_defs [rust_defs] =
  is_ascii_digit_def is_ascii_uppercase_def is_ascii_lowercase_def is_ascii_alphabetic_def
  is_ascii_alphanumeric_def is_ascii_hexdigit_def is_ascii_graphic_def is_ascii_control_def
  is_ascii_whitespace_def

lemma byte_less_256 [simp]: "byte c < 256"
  using mod_less_divisor [of 256 "of_char c"] by (simp add: byte_def)

lemma byte_char_of [simp]: "n < 256 \<Longrightarrow> byte (char_of n) = n"
  by (simp add: byte_def)

lemma byte_inject [simp]: "byte c = byte d \<longleftrightarrow> c = d"
  by (simp add: byte_def)

lemma ascii_lower_idem [simp]: "ascii_lower (ascii_lower c) = ascii_lower c"
  by (auto simp: ascii_lower_def is_ascii_uppercase_def)

lemma to_ascii_lowercase_idem [simp]:
  "to_ascii_lowercase (to_ascii_lowercase s) = to_ascii_lowercase s"
  by (simp add: to_ascii_lowercase_def)

lemma length_to_ascii_lowercase [simp]: "length (to_ascii_lowercase s) = length s"
  by (simp add: to_ascii_lowercase_def)

lemma eq_ignore_ascii_case_refl [simp]: "eq_ignore_ascii_case s s"
  by (simp add: eq_ignore_ascii_case_def)

subsection \<open>Slices\<close>

lemma strip_prefix_Some [simp]: "strip_prefix p s = Some r \<longleftrightarrow> s = p @ r"
  by (auto simp: strip_prefix_def prefix_def)

lemma strip_suffix_Some [simp]: "strip_suffix p s = Some r \<longleftrightarrow> s = r @ p"
  by (auto simp: strip_suffix_def suffix_def)

lemma split_on_not_Nil [simp]: "split_on d s \<noteq> []"
  by (cases s) (auto split: list.splits)

lemma split_on_pieces: "p \<in> set (split_on d s) \<Longrightarrow> d \<notin> set p"
  by (induction s arbitrary: p) (auto split: list.splits if_splits)

lemma join_split_on [simp]: "join_with [d] (split_on d s) = s"
proof (induction s)
  case (Cons x xs)
  obtain p ps where "split_on d xs = p # ps"
    using split_on_not_Nil [of d xs] by (cases "split_on d xs") auto
  with Cons show ?case by (cases ps) auto
qed simp

lemma split_on_no_sep: "d \<notin> set s \<Longrightarrow> split_on d s = [s]"
  by (induction s) auto

lemma split_on_append_sep: "d \<notin> set p \<Longrightarrow> split_on d (p @ d # s) = p # split_on d s"
  by (induction p) auto

lemma split_on_join:
  "ps \<noteq> [] \<Longrightarrow> \<forall>p \<in> set ps. d \<notin> set p \<Longrightarrow> split_on d (join_with [d] ps) = ps"
proof (induction ps)
  case (Cons p ps)
  then show ?case by (cases ps) (auto simp: split_on_no_sep split_on_append_sep)
qed simp

lemma set_join_with: "p \<in> set ps \<Longrightarrow> set p \<subseteq> set (join_with sep ps)"
  by (induction sep ps rule: join_with.induct) auto

lemma split_on_subset: "p \<in> set (split_on d s) \<Longrightarrow> set p \<subseteq> set s"
  using set_join_with [of p "split_on d s" "[d]"] by simp

lemma split_once_Some_iff [simp]:
  "split_once d s = Some (a, b) \<longleftrightarrow> s = a @ d # b \<and> d \<notin> set a"
proof
  assume "split_once d s = Some (a, b)"
  then obtain x where x: "dropWhile (\<lambda>x. x \<noteq> d) s = x # b" and a: "a = takeWhile (\<lambda>x. x \<noteq> d) s"
    by (auto simp: split_once_def split: list.splits)
  have "x = d" using hd_dropWhile [of "\<lambda>x. x \<noteq> d" s] x by auto
  moreover have "s = a @ x # b"
    using takeWhile_dropWhile_id [of "\<lambda>x. x \<noteq> d" s] x a by simp
  moreover have "d \<notin> set a" using a by (auto dest: set_takeWhileD)
  ultimately show "s = a @ d # b \<and> d \<notin> set a" by blast
next
  assume *: "s = a @ d # b \<and> d \<notin> set a"
  have "takeWhile (\<lambda>x. x \<noteq> d) (a @ d # b) = a \<and> dropWhile (\<lambda>x. x \<noteq> d) (a @ d # b) = d # b"
    using * by (auto simp: takeWhile_append dropWhile_append)
  with * show "split_once d s = Some (a, b)"
    by (simp add: split_once_def)
qed

lemma find_sub_Some:
  "find_sub p s = Some i \<Longrightarrow> \<exists>a b. s = a @ p @ b \<and> length a = i"
proof (induction p s arbitrary: i rule: find_sub.induct)
  case (2 p x xs)
  show ?case
  proof (cases "prefix p (x # xs)")
    case True
    with "2.prems" show ?thesis by (auto simp: prefix_def)
  next
    case False
    with "2.prems" obtain j where "find_sub p xs = Some j" and i: "i = Suc j" by auto
    with False "2.IH" obtain a b where "xs = a @ p @ b" and "length a = j" by blast
    with i have "x # xs = (x # a) @ p @ b \<and> length (x # a) = i" by simp
    then show ?thesis by blast
  qed
qed (auto split: if_splits)

lemma find_sub_le: "s = a @ p @ b \<Longrightarrow> \<exists>i. find_sub p s = Some i \<and> i \<le> length a"
proof (induction a arbitrary: s)
  case Nil
  then have "prefix p s" by simp
  then show ?case by (cases s) auto
next
  case (Cons x a)
  then obtain i where "find_sub p (a @ p @ b) = Some i" "i \<le> length a" by blast
  with Cons show ?case by auto
qed

lemma find_sub_None: "find_sub p s = None \<longleftrightarrow> (\<forall>a b. s \<noteq> a @ p @ b)"
  by (metis find_sub_Some find_sub_le not_None_eq)

lemma contains_sub_iff: "contains_sub p s \<longleftrightarrow> (\<exists>a b. s = a @ p @ b)"
  by (auto simp: contains_sub_def find_sub_None)

lemma find_sub_append: "find_sub p s = Some i \<Longrightarrow> find_sub p (s @ t) = Some i"
proof (induction p s arbitrary: i rule: find_sub.induct)
  case (1 p)
  then show ?case by (cases t) (auto split: if_splits)
next
  case (2 p x xs)
  show ?case
  proof (cases "prefix p (x # xs)")
    case True
    then have "prefix p ((x # xs) @ t)" by (rule prefix_prefix)
    with True "2.prems" show ?thesis by simp
  next
    case False
    with "2.prems" obtain j where j: "find_sub p xs = Some j" "i = Suc j" by auto
    from find_sub_Some [OF j(1)] have "length p \<le> length (x # xs)" by auto
    moreover have "prefix (x # xs) ((x # xs) @ t)" by simp
    ultimately have "\<not> prefix p ((x # xs) @ t)"
      using False prefix_length_prefix by blast
    with False j "2.IH" show ?thesis by simp
  qed
qed

subsection \<open>Trimming\<close>

lemma trim_start_suffix: "\<exists>a. s = a @ trim_start s"
proof (induction s rule: trim_start.induct)
  case (1 s)
  show ?case
  proof (cases "find (\<lambda>w. w \<noteq> [] \<and> prefix w s) whitespace_encodings")
    case None
    then show ?thesis by (simp add: trim_start.simps [of s])
  next
    case (Some w)
    with 1 obtain a where "drop (length w) s = a @ trim_start (drop (length w) s)" by blast
    then have "s = (take (length w) s @ a) @ trim_start (drop (length w) s)"
      by (metis append.assoc append_take_drop_id)
    with Some show ?thesis unfolding trim_start.simps [of s] by (simp del: append_assoc) blast
  qed
qed

lemma trim_end_prefix: "\<exists>b. s = trim_end s @ b"
proof (induction s rule: trim_end.induct)
  case (1 s)
  show ?case
  proof (cases "find (\<lambda>w. w \<noteq> [] \<and> suffix w s) whitespace_encodings")
    case None
    then show ?thesis by (simp add: trim_end.simps [of s])
  next
    case (Some w)
    let ?n = "length s - length w"
    from Some 1 obtain b where "take ?n s = trim_end (take ?n s) @ b" by blast
    then have "s = trim_end (take ?n s) @ (b @ drop ?n s)"
      by (metis append.assoc append_take_drop_id)
    with Some show ?thesis unfolding trim_end.simps [of s] by simp blast
  qed
qed

lemma str_trim_sublist: "\<exists>a b. s = a @ str_trim s @ b"
proof -
  obtain a where a: "s = a @ trim_start s" using trim_start_suffix by blast
  obtain b where "trim_start s = trim_end (trim_start s) @ b" using trim_end_prefix by blast
  with a have "s = a @ str_trim s @ b" unfolding str_trim_def by metis
  then show ?thesis by blast
qed

lemma set_str_trim: "set (str_trim s) \<subseteq> set s"
  using str_trim_sublist [of s] by (metis UnI1 UnI2 set_append subsetI)

lemma length_str_trim: "length (str_trim s) \<le> length s"
  using str_trim_sublist [of s] by (metis le_add2 le_add1 length_append order_trans)

text \<open>A string that begins and ends with graphic ASCII is not changed by \<open>trim\<close>.\<close>

lemma whitespace_encodings_not_graphic:
  "w \<in> set whitespace_encodings \<Longrightarrow>
     w \<noteq> [] \<and> \<not> is_ascii_graphic (hd w) \<and> \<not> is_ascii_graphic (last w)"
proof -
  have "list_all (\<lambda>w. w \<noteq> [] \<and> \<not> is_ascii_graphic (hd w) \<and> \<not> is_ascii_graphic (last w))
    whitespace_encodings" by code_simp
  then show "w \<in> set whitespace_encodings \<Longrightarrow>
    w \<noteq> [] \<and> \<not> is_ascii_graphic (hd w) \<and> \<not> is_ascii_graphic (last w)"
    by (auto simp: list_all_iff)
qed

lemma trim_start_graphic: "is_ascii_graphic c \<Longrightarrow> trim_start (c # s) = c # s"
proof -
  assume c: "is_ascii_graphic c"
  have "find (\<lambda>w. w \<noteq> [] \<and> prefix w (c # s)) whitespace_encodings = None"
  proof (unfold find_None_iff, rule notI, clarify)
    fix w assume "w \<in> set whitespace_encodings" "w \<noteq> []" "prefix w (c # s)"
    with c whitespace_encodings_not_graphic [of w] show False by (cases w) auto
  qed
  then show ?thesis by (subst trim_start.simps) simp
qed

lemma trim_end_graphic: "is_ascii_graphic c \<Longrightarrow> trim_end (s @ [c]) = s @ [c]"
proof -
  assume c: "is_ascii_graphic c"
  have "find (\<lambda>w. w \<noteq> [] \<and> suffix w (s @ [c])) whitespace_encodings = None"
  proof (unfold find_None_iff, rule notI, clarify)
    fix w assume "w \<in> set whitespace_encodings" "w \<noteq> []" "suffix w (s @ [c])"
    with c whitespace_encodings_not_graphic [of w] show False
      by (cases w rule: rev_cases) (auto simp: suffix_def)
  qed
  then show ?thesis by (subst trim_end.simps) simp
qed

lemma str_trim_graphic:
  assumes "s \<noteq> []" "is_ascii_graphic (hd s)" "is_ascii_graphic (last s)"
  shows "str_trim s = s"
proof -
  have "trim_start s = s" using assms trim_start_graphic [of "hd s" "tl s"] by simp
  moreover have "trim_end s = s"
    using assms trim_end_graphic [of "last s" "butlast s"] by simp
  ultimately show ?thesis by (simp add: str_trim_def)
qed

lemma trim_start_space: "trim_start (CHR '' '' # s) = trim_start s"
  by (subst trim_start.simps) (simp add: whitespace_encodings_def)

definition no_ws_prefix :: "string \<Rightarrow> bool" where
  "no_ws_prefix s = (find (\<lambda>w. w \<noteq> [] \<and> prefix w s) whitespace_encodings = None)"

definition no_ws_suffix :: "string \<Rightarrow> bool" where
  "no_ws_suffix s = (find (\<lambda>w. w \<noteq> [] \<and> suffix w s) whitespace_encodings = None)"

lemma trim_start_fixed: "no_ws_prefix s \<Longrightarrow> trim_start s = s"
  by (subst trim_start.simps) (simp add: no_ws_prefix_def)

lemma trim_end_fixed: "no_ws_suffix s \<Longrightarrow> trim_end s = s"
  by (subst trim_end.simps) (simp add: no_ws_suffix_def)

lemma trim_start_no_ws: "no_ws_prefix (trim_start s)"
proof (induction s rule: trim_start.induct)
  case (1 s)
  then show ?case
    by (cases "find (\<lambda>w. w \<noteq> [] \<and> prefix w s) whitespace_encodings")
       (simp_all add: trim_start.simps [of s], simp add: no_ws_prefix_def)
qed

lemma trim_end_no_ws: "no_ws_suffix (trim_end s)"
proof (induction s rule: trim_end.induct)
  case (1 s)
  then show ?case
    by (cases "find (\<lambda>w. w \<noteq> [] \<and> suffix w s) whitespace_encodings")
       (simp_all add: trim_end.simps [of s], simp add: no_ws_suffix_def)
qed

lemma no_ws_prefix_trim_end: "no_ws_prefix s \<Longrightarrow> no_ws_prefix (trim_end s)"
  using trim_end_prefix [of s] unfolding no_ws_prefix_def find_None_iff
  by (metis prefix_append)

lemma str_trim_idem [simp]: "str_trim (str_trim s) = str_trim s"
  unfolding str_trim_def
  by (simp add: trim_start_fixed trim_end_fixed trim_start_no_ws trim_end_no_ws
      no_ws_prefix_trim_end)

lemma str_trim_space: "str_trim (CHR '' '' # s) = str_trim s"
  by (simp add: str_trim_def trim_start_space)

subsection \<open>Joining with a separator that starts with the split character\<close>

lemma split_on_join_space:
  assumes "ps \<noteq> []" "\<forall>p \<in> set ps. d \<notin> set p" "d \<notin> set sp"
  shows "split_on d (join_with (d # sp) ps) = hd ps # map ((@) sp) (tl ps)"
  using assms
proof (induction ps)
  case (Cons p ps)
  show ?case
  proof (cases ps)
    case Nil
    with Cons.prems show ?thesis by (simp add: split_on_no_sep)
  next
    case (Cons q qs)
    have "split_on d (sp @ t) = (sp @ hd (split_on d t)) # tl (split_on d t)" for t
      using \<open>d \<notin> set sp\<close>
      by (induction sp) (auto split: list.splits)
    with Cons Cons.prems Cons.IH show ?thesis by (simp add: split_on_append_sep)
  qed
qed simp

lemma join_with_all:
  "(\<And>p. p \<in> set ps \<Longrightarrow> list_all P p) \<Longrightarrow> list_all P sep \<Longrightarrow> list_all P (join_with sep ps)"
  by (induction sep ps rule: join_with.induct) auto

subsection \<open>UTF-8\<close>

lemmas utf8_defs = utf8_encode_char_def is_cont_def is_scalar_def

lemma radix64_digits:
  fixes n :: nat
  shows "n div 4096 * 4096 + n div 64 mod 64 * 64 + n mod 64 = n"
    and "n div 262144 * 262144 + n div 4096 mod 64 * 4096 + n div 64 mod 64 * 64 + n mod 64 = n"
    and "n mod 64 \<le> 63" "n div 64 mod 64 \<le> 63" "n div 4096 mod 64 \<le> 63"
proof -
  have 1: "n div 64 * 64 + n mod 64 = n" by simp
  have 2: "n div 4096 * 64 + n div 64 mod 64 = n div 64"
    using div_mult_mod_eq [of "n div 64" 64] by (simp add: div_mult2_eq [symmetric])
  have 3: "n div 262144 * 64 + n div 4096 mod 64 = n div 4096"
    using div_mult_mod_eq [of "n div 4096" 64] by (simp add: div_mult2_eq [symmetric])
  show "n div 4096 * 4096 + n div 64 mod 64 * 64 + n mod 64 = n" using 1 2 by linarith
  show "n div 262144 * 262144 + n div 4096 mod 64 * 4096 + n div 64 mod 64 * 64 + n mod 64 = n"
    using 1 2 3 by linarith
  show "n mod 64 \<le> 63" "n div 64 mod 64 \<le> 63" "n div 4096 mod 64 \<le> 63"
    using mod_less_divisor [of 64 n] mod_less_divisor [of 64 "n div 64"]
      mod_less_divisor [of 64 "n div 4096"] by linarith+
qed

lemma utf8_decode_encode_char:
  assumes "is_scalar n"
  shows "utf8_decode (utf8_encode_char n @ s) = map_option ((#) n) (utf8_decode s)"
proof -
  consider (one) "n < 128" | (two) "128 \<le> n" "n < 2048" | (three) "2048 \<le> n" "n < 65536"
    | (four) "65536 \<le> n" "n \<le> 1114111"
    using assms by (force simp: is_scalar_def)
  then show ?thesis
  proof cases
    case one
    then show ?thesis by (simp add: utf8_encode_char_def)
  next
    case two
    define q r where "q = n div 64" and "r = n mod 64"
    have e: "utf8_encode_char n = [char_of (192 + q), char_of (128 + r)]"
      using two by (simp add: utf8_encode_char_def q_def r_def)
    have "2 \<le> q" "q \<le> 31" "r \<le> 63" "q * 64 + r = n"
      using two by (auto simp: q_def r_def)
    then show ?thesis unfolding e by (simp add: is_cont_def)
  next
    case three
    define q r t where "q = n div 4096" and "r = n div 64 mod 64" and "t = n mod 64"
    have e: "utf8_encode_char n = [char_of (224 + q), char_of (128 + r), char_of (128 + t)]"
      using three by (simp add: utf8_encode_char_def q_def r_def t_def)
    have n: "q * 4096 + r * 64 + t = n" and b: "r \<le> 63" "t \<le> 63"
      using radix64_digits [of n] by (auto simp: q_def r_def t_def)
    with three assms have "q \<le> 15" "q = 0 \<longrightarrow> 32 \<le> r" "q = 13 \<longrightarrow> r \<le> 31"
      unfolding is_scalar_def by linarith+
    with n b show ?thesis unfolding e by (simp add: is_cont_def)
  next
    case four
    define q p r t where "q = n div 262144" and "p = n div 4096 mod 64"
      and "r = n div 64 mod 64" and "t = n mod 64"
    have e: "utf8_encode_char n =
        [char_of (240 + q), char_of (128 + p), char_of (128 + r), char_of (128 + t)]"
      using four by (simp add: utf8_encode_char_def q_def p_def r_def t_def)
    have n: "q * 262144 + p * 4096 + r * 64 + t = n" and b: "p \<le> 63" "r \<le> 63" "t \<le> 63"
      using radix64_digits [of n] by (auto simp: q_def p_def r_def t_def)
    with four have "q \<le> 4" "q = 0 \<longrightarrow> 16 \<le> p" "q = 4 \<longrightarrow> p \<le> 15" by linarith+
    with n b show ?thesis unfolding e by (simp add: is_cont_def)
  qed
qed

lemma utf8_decode_encode:
  "list_all is_scalar cs \<Longrightarrow> utf8_decode (utf8_encode cs) = Some cs"
  by (induction cs) (auto simp: utf8_encode_def utf8_decode_encode_char)

end
