(* ===== verification/Launcher_Protocol.thy ===== *)
theory Launcher_Protocol
  imports Rust_Prelude
begin

text \<open>
  \<open>crates/launcher-protocol/src/lib.rs\<close>: the bounded decoder of the launcher's standard output and
  the lifecycle state machine.  \<open>serde_json::from_slice\<close> for the strict record \<open>RawEvent\<close> is the
  argument \<open>from_slice\<close>; everything the code does with its result is modelled.
\<close>

section \<open>Definitions\<close>

definition EVENT_PREFIX :: bytes where
  "EVENT_PREFIX = ''RPACKIT_EVENT ''"

definition DEFAULT_MAX_LINE_BYTES :: nat where
  "DEFAULT_MAX_LINE_BYTES = 16 * 1024"

definition MAX_TIMESTAMP_BYTES :: nat where
  "MAX_TIMESTAMP_BYTES = 128"

definition MAX_MESSAGE_BYTES :: nat where
  "MAX_MESSAGE_BYTES = 4 * 1024"

record starting_event =
  st_timestamp :: string
  st_pid :: nat
  st_port :: nat
  st_graceful_stop :: bool

record listening_event =
  li_timestamp :: string
  li_pid :: nat
  li_port :: nat

record stopping_event =
  sg_timestamp :: string

record stopped_event =
  sd_timestamp :: string
  sd_pid :: nat

datatype error_phase = Bootstrap | Arguments | Token | App | Runtime

record error_event =
  er_timestamp :: "string option"
  er_phase :: error_phase
  er_message :: string
  er_pid :: "nat option"

datatype launcher_event =
    Starting starting_event
  | Listening listening_event
  | Stopping stopping_event
  | Stopped stopped_event
  | ErrorEvent error_event

datatype protocol_error =
    ZeroLineLimit | LineTooLong | TruncatedLine | DecoderPoisoned | InvalidJson
  | UnsupportedProtocolVersion | UnknownEvent | InvalidEventShape | InvalidExpectedPort
  | UnexpectedPort | RuntimePidChanged | GracefulStopMismatch | UnexpectedEventSequence
  | EventAfterTerminalState

record raw_event =
  re_protocol_version :: string
  re_event :: string
  re_timestamp :: "string option"
  re_pid :: "nat option"
  re_host :: "string option"
  re_port :: "nat option"
  re_token_enforced :: "bool option"
  re_graceful_stop :: "bool option"
  re_reason :: "string option"
  re_phase :: "string option"
  re_message :: "string option"

subsection \<open>Event fields\<close>

definition require_loopback_authentication ::
  "string option \<Rightarrow> bool option \<Rightarrow> protocol_error + unit" where
  "require_loopback_authentication host token_enforced =
     (if host \<noteq> Some ''127.0.0.1'' \<or> token_enforced \<noteq> Some True
      then Inl InvalidEventShape else Inr ())"

definition require_no_fields :: "bool list \<Rightarrow> protocol_error + unit" where
  "require_no_fields flags = (if list_ex (\<lambda>present. present) flags then Inl InvalidEventShape else Inr ())"

definition validate_timestamp :: "string \<Rightarrow> protocol_error + string" where
  "validate_timestamp timestamp =
     (if timestamp = [] \<or> MAX_TIMESTAMP_BYTES < length timestamp \<or> has_control timestamp
      then Inl InvalidEventShape else Inr timestamp)"

definition require_timestamp :: "string option \<Rightarrow> protocol_error + string" where
  "require_timestamp timestamp = rbind (ok_or timestamp InvalidEventShape) validate_timestamp"

definition validate_pid :: "nat \<Rightarrow> protocol_error + nat" where
  "validate_pid pid = (if pid = 0 then Inl InvalidEventShape else Inr pid)"

definition require_pid :: "nat option \<Rightarrow> protocol_error + nat" where
  "require_pid pid = rbind (ok_or pid InvalidEventShape) validate_pid"

definition require_port :: "nat option \<Rightarrow> protocol_error + nat" where
  "require_port port =
     rbind (ok_or port InvalidEventShape) (\<lambda>p. if p = 0 then Inl InvalidEventShape else Inr p)"

definition parse_error_phase :: "string option \<Rightarrow> protocol_error + error_phase" where
  "parse_error_phase phase =
     (if phase = Some ''bootstrap'' then Inr Bootstrap
      else if phase = Some ''arguments'' then Inr Arguments
      else if phase = Some ''token'' then Inr Token
      else if phase = Some ''app'' then Inr App
      else if phase = Some ''runtime'' then Inr Runtime
      else Inl InvalidEventShape)"

text \<open>A \<open>String\<close> is always well-formed UTF-8; a byte string that is not has no scalar values.\<close>

definition sanitize_message :: "string \<Rightarrow> protocol_error + string" where
  "sanitize_message message =
     (if message = [] \<or> MAX_MESSAGE_BYTES < length message then Inl InvalidEventShape
      else
        case utf8_decode message of
          None \<Rightarrow> Inl InvalidEventShape
        | Some cs \<Rightarrow>
            let sanitized = str_trim (utf8_encode (map (\<lambda>c. if is_control c then 32 else c) cs)) in
            if sanitized = [] then Inl InvalidEventShape else Inr sanitized)"

subsection \<open>Events\<close>

definition parse_starting :: "raw_event \<Rightarrow> protocol_error + launcher_event" where
  "parse_starting raw =
     rbind (require_no_fields [re_reason raw \<noteq> None, re_phase raw \<noteq> None, re_message raw \<noteq> None]) (\<lambda>_.
     rbind (require_loopback_authentication (re_host raw) (re_token_enforced raw)) (\<lambda>_.
     rbind (require_timestamp (re_timestamp raw)) (\<lambda>timestamp.
     rbind (require_pid (re_pid raw)) (\<lambda>pid.
     rbind (require_port (re_port raw)) (\<lambda>port.
     rbind (ok_or (re_graceful_stop raw) InvalidEventShape) (\<lambda>graceful.
       Inr (Starting \<lparr>st_timestamp = timestamp, st_pid = pid, st_port = port,
                      st_graceful_stop = graceful\<rparr>)))))))"

definition parse_listening :: "raw_event \<Rightarrow> protocol_error + launcher_event" where
  "parse_listening raw =
     rbind (require_no_fields [re_graceful_stop raw \<noteq> None, re_reason raw \<noteq> None,
              re_phase raw \<noteq> None, re_message raw \<noteq> None]) (\<lambda>_.
     rbind (require_loopback_authentication (re_host raw) (re_token_enforced raw)) (\<lambda>_.
     rbind (require_timestamp (re_timestamp raw)) (\<lambda>timestamp.
     rbind (require_pid (re_pid raw)) (\<lambda>pid.
     rbind (require_port (re_port raw)) (\<lambda>port.
       Inr (Listening \<lparr>li_timestamp = timestamp, li_pid = pid, li_port = port\<rparr>))))))"

definition parse_stopping :: "raw_event \<Rightarrow> protocol_error + launcher_event" where
  "parse_stopping raw =
     rbind (require_no_fields [re_pid raw \<noteq> None, re_host raw \<noteq> None, re_port raw \<noteq> None,
              re_token_enforced raw \<noteq> None, re_graceful_stop raw \<noteq> None, re_phase raw \<noteq> None,
              re_message raw \<noteq> None]) (\<lambda>_.
       if re_reason raw \<noteq> Some ''control-file'' then Inl InvalidEventShape
       else
         rbind (require_timestamp (re_timestamp raw)) (\<lambda>timestamp.
           Inr (Stopping \<lparr>sg_timestamp = timestamp\<rparr>)))"

definition parse_stopped :: "raw_event \<Rightarrow> protocol_error + launcher_event" where
  "parse_stopped raw =
     rbind (require_no_fields [re_host raw \<noteq> None, re_port raw \<noteq> None, re_token_enforced raw \<noteq> None,
              re_graceful_stop raw \<noteq> None, re_reason raw \<noteq> None, re_phase raw \<noteq> None,
              re_message raw \<noteq> None]) (\<lambda>_.
     rbind (require_timestamp (re_timestamp raw)) (\<lambda>timestamp.
     rbind (require_pid (re_pid raw)) (\<lambda>pid.
       Inr (Stopped \<lparr>sd_timestamp = timestamp, sd_pid = pid\<rparr>))))"

definition parse_error_event :: "raw_event \<Rightarrow> protocol_error + launcher_event" where
  "parse_error_event raw =
     rbind (require_no_fields [re_host raw \<noteq> None, re_port raw \<noteq> None, re_token_enforced raw \<noteq> None,
              re_graceful_stop raw \<noteq> None, re_reason raw \<noteq> None]) (\<lambda>_.
     rbind (parse_error_phase (re_phase raw)) (\<lambda>phase.
     rbind (case re_timestamp raw of
              Some value \<Rightarrow> rbind (validate_timestamp value) (\<lambda>t. Inr (Some t))
            | None \<Rightarrow> if phase = Bootstrap \<and> re_pid raw = None then Inr None
                      else Inl InvalidEventShape) (\<lambda>timestamp.
     rbind (rbind (ok_or (re_message raw) InvalidEventShape) sanitize_message) (\<lambda>message.
     rbind (case re_pid raw of
              None \<Rightarrow> Inr None
            | Some p \<Rightarrow> rbind (validate_pid p) (\<lambda>q. Inr (Some q))) (\<lambda>pid.
       Inr (ErrorEvent \<lparr>er_timestamp = timestamp, er_phase = phase, er_message = message,
                        er_pid = pid\<rparr>))))))"

definition parse_event :: "raw_event \<Rightarrow> protocol_error + launcher_event" where
  "parse_event raw =
     (if re_protocol_version raw \<noteq> ''2'' then Inl UnsupportedProtocolVersion
      else if re_event raw = ''starting'' then parse_starting raw
      else if re_event raw = ''listening'' then parse_listening raw
      else if re_event raw = ''stopping'' then parse_stopping raw
      else if re_event raw = ''stopped'' then parse_stopped raw
      else if re_event raw = ''error'' then parse_error_event raw
      else Inl UnknownEvent)"

definition decode_line ::
  "(bytes \<Rightarrow> raw_event option) \<Rightarrow> bytes \<Rightarrow> protocol_error + launcher_event option" where
  "decode_line from_slice raw_line =
     (let line = (case strip_suffix [CHR 0x0D] raw_line of None \<Rightarrow> raw_line | Some l \<Rightarrow> l) in
      case strip_prefix EVENT_PREFIX line of
        None \<Rightarrow> Inr None
      | Some json \<Rightarrow>
          if json = [] then Inl InvalidJson
          else
            rbind (ok_or (from_slice json) InvalidJson) (\<lambda>raw.
              rbind (parse_event raw) (\<lambda>event. Inr (Some event))))"

subsection \<open>The decoder\<close>

record event_decoder =
  ed_buffer :: bytes
  ed_maximum_line_bytes :: nat
  ed_poisoned :: bool
  ed_ignored_lines :: nat

definition decoder_new :: "nat \<Rightarrow> protocol_error + event_decoder" where
  "decoder_new maximum =
     (if maximum = 0 then Inl ZeroLineLimit
      else Inr \<lparr>ed_buffer = [], ed_maximum_line_bytes = maximum, ed_poisoned = False,
                ed_ignored_lines = 0\<rparr>)"

definition decoder_default :: event_decoder where
  "decoder_default =
     \<lparr>ed_buffer = [], ed_maximum_line_bytes = DEFAULT_MAX_LINE_BYTES, ed_poisoned = False,
      ed_ignored_lines = 0\<rparr>"

fun push_bytes ::
  "(bytes \<Rightarrow> raw_event option) \<Rightarrow> event_decoder \<Rightarrow> bytes \<Rightarrow> launcher_event list \<Rightarrow>
     event_decoder \<times> (protocol_error + launcher_event list)" where
  "push_bytes from_slice d [] events = (d, Inr events)"
| "push_bytes from_slice d (b # bs) events =
     (if b = CHR 0x0A then
        let line = ed_buffer d; d1 = d\<lparr>ed_buffer := []\<rparr> in
        case decode_line from_slice line of
          Inr (Some event) \<Rightarrow> push_bytes from_slice d1 bs (events @ [event])
        | Inr None \<Rightarrow>
            push_bytes from_slice
              (d1\<lparr>ed_ignored_lines := saturating_add u64_max (ed_ignored_lines d1) 1\<rparr>) bs events
        | Inl e \<Rightarrow> (d1\<lparr>ed_poisoned := True\<rparr>, Inl e)
      else if ed_maximum_line_bytes d \<le> length (ed_buffer d)
      then (d\<lparr>ed_buffer := [], ed_poisoned := True\<rparr>, Inl LineTooLong)
      else push_bytes from_slice (d\<lparr>ed_buffer := ed_buffer d @ [b]\<rparr>) bs events)"

definition decoder_push ::
  "(bytes \<Rightarrow> raw_event option) \<Rightarrow> event_decoder \<Rightarrow> bytes \<Rightarrow>
     event_decoder \<times> (protocol_error + launcher_event list)" where
  "decoder_push from_slice d bs =
     (if ed_poisoned d then (d, Inl DecoderPoisoned) else push_bytes from_slice d bs [])"

definition decoder_finish :: "event_decoder \<Rightarrow> event_decoder \<times> (protocol_error + unit)" where
  "decoder_finish d =
     (if ed_poisoned d then (d, Inl DecoderPoisoned)
      else if ed_buffer d \<noteq> []
      then (d\<lparr>ed_buffer := [], ed_poisoned := True\<rparr>, Inl TruncatedLine)
      else (d, Inr ()))"

subsection \<open>The lifecycle\<close>

datatype lifecycle_state =
  LsAwaitingStart | LsStarting | LsListening | LsStopping | LsStopped | LsFailed

definition is_terminal :: "lifecycle_state \<Rightarrow> bool" where
  "is_terminal s = (s = LsStopped \<or> s = LsFailed)"

record lifecycle_tracker =
  lt_expected_port :: nat
  lt_expected_graceful_stop :: bool
  lt_state :: lifecycle_state
  lt_runtime_pid :: "nat option"

definition tracker_new :: "nat \<Rightarrow> bool \<Rightarrow> protocol_error + lifecycle_tracker" where
  "tracker_new port graceful =
     (if port = 0 then Inl InvalidExpectedPort
      else Inr \<lparr>lt_expected_port = port, lt_expected_graceful_stop = graceful,
                lt_state = LsAwaitingStart, lt_runtime_pid = None\<rparr>)"

definition observe_active ::
  "lifecycle_tracker \<Rightarrow> launcher_event \<Rightarrow> lifecycle_tracker \<times> (protocol_error + lifecycle_state)" where
  "observe_active t event =
     (case event of
        ErrorEvent err \<Rightarrow>
          (case (lt_runtime_pid t, er_pid err) of
             (Some expected, Some observed) \<Rightarrow>
               if expected \<noteq> observed then (t, Inl RuntimePidChanged)
               else (t\<lparr>lt_state := LsFailed\<rparr>, Inr LsFailed)
           | _ \<Rightarrow> (t\<lparr>lt_state := LsFailed\<rparr>, Inr LsFailed))
      | Starting starting \<Rightarrow>
          if lt_state t = LsAwaitingStart then
            if st_port starting \<noteq> lt_expected_port t then (t, Inl UnexpectedPort)
            else if st_graceful_stop starting \<noteq> lt_expected_graceful_stop t
            then (t, Inl GracefulStopMismatch)
            else (t\<lparr>lt_runtime_pid := Some (st_pid starting), lt_state := LsStarting\<rparr>,
                  Inr LsStarting)
          else (t, Inl UnexpectedEventSequence)
      | Listening listening \<Rightarrow>
          if lt_state t = LsStarting then
            if li_port listening \<noteq> lt_expected_port t then (t, Inl UnexpectedPort)
            else if lt_runtime_pid t \<noteq> Some (li_pid listening) then (t, Inl RuntimePidChanged)
            else (t\<lparr>lt_state := LsListening\<rparr>, Inr LsListening)
          else (t, Inl UnexpectedEventSequence)
      | Stopping _ \<Rightarrow>
          if lt_state t = LsListening then
            if \<not> lt_expected_graceful_stop t then (t, Inl GracefulStopMismatch)
            else (t\<lparr>lt_state := LsStopping\<rparr>, Inr LsStopping)
          else (t, Inl UnexpectedEventSequence)
      | Stopped stopped \<Rightarrow>
          if lt_state t = LsListening \<or> lt_state t = LsStopping then
            if lt_runtime_pid t \<noteq> Some (sd_pid stopped) then (t, Inl RuntimePidChanged)
            else (t\<lparr>lt_state := LsStopped\<rparr>, Inr LsStopped)
          else (t, Inl UnexpectedEventSequence))"

definition observe ::
  "lifecycle_tracker \<Rightarrow> launcher_event \<Rightarrow> lifecycle_tracker \<times> (protocol_error + lifecycle_state)" where
  "observe t event =
     (if is_terminal (lt_state t) then (t, Inl EventAfterTerminalState)
      else
        case observe_active t event of
          (t1, Inl e) \<Rightarrow> (t1\<lparr>lt_state := LsFailed\<rparr>, Inl e)
        | (t1, Inr s) \<Rightarrow> (t1, Inr s))"

subsection \<open>Specifications\<close>

text \<open>The lines of a byte stream: the complete ones and the unfinished rest.\<close>

definition complete_lines :: "bytes \<Rightarrow> bytes list" where
  "complete_lines s = butlast (split_on (CHR 0x0A) s)"

definition open_line :: "bytes \<Rightarrow> bytes" where
  "open_line s = last (split_on (CHR 0x0A) s)"

definition decoded_events :: "(bytes \<Rightarrow> raw_event option) \<Rightarrow> bytes \<Rightarrow> launcher_event list" where
  "decoded_events f s =
     concat (map (\<lambda>l. case decode_line f l of Inr (Some e) \<Rightarrow> [e] | _ \<Rightarrow> []) (complete_lines s))"

definition noise_lines :: "(bytes \<Rightarrow> raw_event option) \<Rightarrow> bytes \<Rightarrow> nat" where
  "noise_lines f s = length (filter (\<lambda>l. decode_line f l = Inr None) (complete_lines s))"

definition acceptable_lines :: "(bytes \<Rightarrow> raw_event option) \<Rightarrow> nat \<Rightarrow> bytes \<Rightarrow> bool" where
  "acceptable_lines f m s =
     (list_all (\<lambda>l. length l \<le> m \<and> is_ok (decode_line f l)) (complete_lines s)
      \<and> length (open_line s) \<le> m)"

text \<open>The runs of the tracker in which every event is accepted.\<close>

inductive accepted_run :: "lifecycle_tracker \<Rightarrow> launcher_event list \<Rightarrow> lifecycle_tracker \<Rightarrow> bool" where
  empty: "accepted_run t [] t"
| snoc: "accepted_run t es t1 \<Longrightarrow> observe t1 e = (t2, Inr s) \<Longrightarrow> accepted_run t (es @ [e]) t2"

text \<open>
  The language of the tracker: the event sequences that lead from a fresh tracker to a state in
  which \<open>pid\<close> is the recorded process.
\<close>

definition started :: "nat \<Rightarrow> bool \<Rightarrow> nat option \<Rightarrow> starting_event \<Rightarrow> bool" where
  "started port graceful pid x =
     (st_port x = port \<and> st_graceful_stop x = graceful \<and> pid = Some (st_pid x))"

definition bound :: "nat \<Rightarrow> nat option \<Rightarrow> listening_event \<Rightarrow> bool" where
  "bound port pid y = (li_port y = port \<and> pid = Some (li_pid y))"

fun active_sequence ::
  "nat \<Rightarrow> bool \<Rightarrow> lifecycle_state \<Rightarrow> nat option \<Rightarrow> launcher_event list \<Rightarrow> bool" where
  "active_sequence port graceful LsAwaitingStart pid es = (es = [] \<and> pid = None)"
| "active_sequence port graceful LsStarting pid es =
     (\<exists>x. es = [Starting x] \<and> started port graceful pid x)"
| "active_sequence port graceful LsListening pid es =
     (\<exists>x y. es = [Starting x, Listening y] \<and> started port graceful pid x \<and> bound port pid y)"
| "active_sequence port graceful LsStopping pid es =
     (\<exists>x y z. es = [Starting x, Listening y, Stopping z] \<and> started port graceful pid x
        \<and> bound port pid y \<and> graceful)"
| "active_sequence port graceful _ pid es = False"

fun sequence_for ::
  "nat \<Rightarrow> bool \<Rightarrow> lifecycle_state \<Rightarrow> nat option \<Rightarrow> launcher_event list \<Rightarrow> bool" where
  "sequence_for port graceful LsStopped pid es =
     (\<exists>fs w. es = fs @ [Stopped w] \<and> pid = Some (sd_pid w)
        \<and> (active_sequence port graceful LsListening pid fs
           \<or> active_sequence port graceful LsStopping pid fs))"
| "sequence_for port graceful LsFailed pid es =
     (\<exists>fs e s. es = fs @ [ErrorEvent e] \<and> active_sequence port graceful s pid fs
        \<and> (pid = None \<or> er_pid e = None \<or> er_pid e = pid))"
| "sequence_for port graceful s pid es = active_sequence port graceful s pid es"

text \<open>What a consumer may rely on in an event the decoder returns.\<close>

definition timestamp_ok :: "string \<Rightarrow> bool" where
  "timestamp_ok t = (t \<noteq> [] \<and> length t \<le> MAX_TIMESTAMP_BYTES \<and> \<not> has_control t)"

definition message_ok :: "string \<Rightarrow> bool" where
  "message_ok m =
     (m \<noteq> [] \<and> length m \<le> MAX_MESSAGE_BYTES \<and> list_all (\<lambda>b. \<not> is_ascii_control b) m \<and> str_trim m = m)"

fun event_valid :: "launcher_event \<Rightarrow> bool" where
  "event_valid (Starting x) = (timestamp_ok (st_timestamp x) \<and> 0 < st_pid x \<and> 0 < st_port x)"
| "event_valid (Listening y) = (timestamp_ok (li_timestamp y) \<and> 0 < li_pid y \<and> 0 < li_port y)"
| "event_valid (Stopping z) = timestamp_ok (sg_timestamp z)"
| "event_valid (Stopped w) = (timestamp_ok (sd_timestamp w) \<and> 0 < sd_pid w)"
| "event_valid (ErrorEvent e) =
     ((case er_timestamp e of None \<Rightarrow> er_phase e = Bootstrap \<and> er_pid e = None
       | Some t \<Rightarrow> timestamp_ok t)
      \<and> er_pid e \<noteq> Some 0 \<and> message_ok (er_message e))"

text \<open>The record an event was read from: protocol 2, and for a started or listening runtime the
  loopback address with the token check enforced.\<close>

fun event_source :: "raw_event \<Rightarrow> launcher_event \<Rightarrow> bool" where
  "event_source raw (Starting x) =
     (re_event raw = ''starting'' \<and> re_host raw = Some ''127.0.0.1'' \<and> re_token_enforced raw = Some True
      \<and> re_pid raw = Some (st_pid x) \<and> re_port raw = Some (st_port x)
      \<and> re_graceful_stop raw = Some (st_graceful_stop x))"
| "event_source raw (Listening y) =
     (re_event raw = ''listening'' \<and> re_host raw = Some ''127.0.0.1'' \<and> re_token_enforced raw = Some True
      \<and> re_pid raw = Some (li_pid y) \<and> re_port raw = Some (li_port y))"
| "event_source raw (Stopping z) = (re_event raw = ''stopping'' \<and> re_reason raw = Some ''control-file'')"
| "event_source raw (Stopped w) = (re_event raw = ''stopped'' \<and> re_pid raw = Some (sd_pid w))"
| "event_source raw (ErrorEvent e) = (re_event raw = ''error'' \<and> re_pid raw = er_pid e)"

text \<open>The states of the decoder that its operations produce.\<close>

definition decoder_inv :: "event_decoder \<Rightarrow> bool" where
  "decoder_inv d \<longleftrightarrow>
     0 < ed_maximum_line_bytes d \<and> length (ed_buffer d) \<le> ed_maximum_line_bytes d
     \<and> CHR 0x0A \<notin> set (ed_buffer d) \<and> ed_ignored_lines d \<le> u64_max
     \<and> (ed_poisoned d \<longrightarrow> ed_buffer d = [])"

section \<open>Lemmas\<close>

subsection \<open>Lines\<close>

lemma lines_append_newline:
  assumes "CHR 0x0A \<notin> set l"
  shows "complete_lines (l @ CHR 0x0A # s) = l # complete_lines s"
    and "open_line (l @ CHR 0x0A # s) = open_line s"
  using assms by (simp_all add: complete_lines_def open_line_def split_on_append_sep)

lemma lines_no_newline:
  assumes "CHR 0x0A \<notin> set l"
  shows "complete_lines l = []" and "open_line l = l"
  using assms by (simp_all add: complete_lines_def open_line_def split_on_no_sep)

lemmas line_defs = decoded_events_def noise_lines_def acceptable_lines_def

subsection \<open>The decoder\<close>

lemma push_bytes_append:
  "push_bytes f d (a @ b) es =
     (case push_bytes f d a es of
        (d1, Inl e) \<Rightarrow> (d1, Inl e)
      | (d1, Inr es1) \<Rightarrow> push_bytes f d1 b es1)"
  by (induction a arbitrary: d es) (simp_all add: Let_def split: sum.splits option.splits)

lemma push_bytes_acc:
  "push_bytes f d bs es =
     (fst (push_bytes f d bs []), map_sum id ((@) es) (snd (push_bytes f d bs [])))"
proof (induction bs arbitrary: d es)
  case (Cons b bs)
  show ?case
  proof (cases "b = CHR 0x0A")
    case True
    show ?thesis
    proof (cases "decode_line f (ed_buffer d)")
      case (Inr o1)
      show ?thesis
        using True Inr Cons.IH [of "d\<lparr>ed_buffer := []\<rparr>" "es @ [the o1]"]
          Cons.IH [of "d\<lparr>ed_buffer := []\<rparr>" "[the o1]"]
          Cons.IH [of "d\<lparr>ed_buffer := [], ed_ignored_lines :=
              saturating_add u64_max (ed_ignored_lines d) 1\<rparr>" es]
        by (cases o1) (simp_all add: Let_def sum.map_comp comp_def)
    qed (simp add: True Let_def)
  next
    case False
    with Cons.IH [of "d\<lparr>ed_buffer := ed_buffer d @ [b]\<rparr>" es] show ?thesis by simp
  qed
qed simp

lemma push_bytes_state:
  assumes "push_bytes f d bs es = (d1, r)"
  shows "ed_maximum_line_bytes d1 = ed_maximum_line_bytes d"
    and "r = Inl e \<Longrightarrow> ed_poisoned d1 \<and> ed_buffer d1 = []"
    and "r = Inr es1 \<Longrightarrow> ed_poisoned d1 = ed_poisoned d"
  using assms
  by (induction bs arbitrary: d es)
    (auto simp: Let_def split: if_splits sum.splits option.splits)

lemma push_bytes_inv:
  assumes "push_bytes f d bs es = (d1, r)" and "decoder_inv d" and "\<not> ed_poisoned d"
  shows "decoder_inv d1"
  using assms
  by (induction bs arbitrary: d es)
    (auto simp: Let_def decoder_inv_def saturating_add_def split: if_splits sum.splits option.splits)

lemma first_line_length:
  assumes "CHR 0x0A \<notin> set l"
  shows "(\<exists>k \<in> set (complete_lines (l @ s)). length l \<le> length k) \<or> length l \<le> length (open_line (l @ s))"
proof -
  have "hd (split_on (CHR 0x0A) (l @ s)) = l @ hd (split_on (CHR 0x0A) s)"
    using assms by (induction l) (auto split: list.splits)
  moreover have "split_on (CHR 0x0A) (l @ s) = complete_lines (l @ s) @ [open_line (l @ s)]"
    by (simp add: complete_lines_def open_line_def)
  ultimately show ?thesis
    by (cases "complete_lines (l @ s)") auto
qed

lemma push_bytes_lines:
  assumes "CHR 0x0A \<notin> set (ed_buffer d)" and "length (ed_buffer d) \<le> ed_maximum_line_bytes d"
    and "ed_ignored_lines d \<le> u64_max"
  shows "push_bytes f d s es = (d1, Inr es1) \<longleftrightarrow>
    acceptable_lines f (ed_maximum_line_bytes d) (ed_buffer d @ s)
    \<and> es1 = es @ decoded_events f (ed_buffer d @ s)
    \<and> d1 = d\<lparr>ed_buffer := open_line (ed_buffer d @ s),
             ed_ignored_lines :=
               saturating_add u64_max (ed_ignored_lines d) (noise_lines f (ed_buffer d @ s))\<rparr>"
  using assms
proof (induction s arbitrary: d es)
  case Nil
  then show ?case
    by (auto simp: line_defs lines_no_newline saturating_add_def)
next
  case (Cons b s)
  let ?d0 = "d\<lparr>ed_buffer := []\<rparr>"
  let ?d1 = "?d0\<lparr>ed_ignored_lines := saturating_add u64_max (ed_ignored_lines d) 1\<rparr>"
  have sat: "saturating_add u64_max (saturating_add u64_max a (Suc 0)) n = saturating_add u64_max a (Suc n)" for a n
    by (simp add: saturating_add_def)
  consider (line) "b = CHR 0x0A" | (long) "b \<noteq> CHR 0x0A" "ed_maximum_line_bytes d \<le> length (ed_buffer d)"
    | (more) "b \<noteq> CHR 0x0A" "length (ed_buffer d) < ed_maximum_line_bytes d"
    by linarith
  then show ?case
  proof cases
    case line
    show ?thesis
    proof (cases "decode_line f (ed_buffer d)")
      case (Inl e)
      then show ?thesis
        using line Cons.prems(1) by (simp add: line_defs lines_append_newline Let_def)
    next
      case (Inr o1)
      show ?thesis
      proof (cases o1)
        case None
        show ?thesis
          using line Inr None Cons.prems Cons.IH [of ?d1 es]
          by (simp add: line_defs lines_append_newline Let_def sat)
      next
        case (Some ev)
        show ?thesis
          using line Inr Some Cons.prems Cons.IH [of ?d0 "es @ [ev]"]
          by (simp add: line_defs lines_append_newline Let_def)
      qed
    qed
  next
    case long
    have "\<not> acceptable_lines f (ed_maximum_line_bytes d) ((ed_buffer d @ [b]) @ s)"
      using first_line_length [of "ed_buffer d @ [b]" s] long Cons.prems(1)
      by (fastforce simp: acceptable_lines_def list_all_iff)
    with long show ?thesis by simp
  next
    case more
    then show ?thesis
      using Cons.prems Cons.IH [of "d\<lparr>ed_buffer := ed_buffer d @ [b]\<rparr>" es] by simp
  qed
qed

subsection \<open>The tracker\<close>

lemma observe_cases:
  assumes "observe t e = (t1, Inr s)"
  obtains
    (start) x where "e = Starting x" "lt_state t = LsAwaitingStart" "st_port x = lt_expected_port t"
      "st_graceful_stop x = lt_expected_graceful_stop t"
      "t1 = t\<lparr>lt_runtime_pid := Some (st_pid x), lt_state := LsStarting\<rparr>"
  | (listen) y where "e = Listening y" "lt_state t = LsStarting" "li_port y = lt_expected_port t"
      "lt_runtime_pid t = Some (li_pid y)" "t1 = t\<lparr>lt_state := LsListening\<rparr>"
  | (stopping) z where "e = Stopping z" "lt_state t = LsListening" "lt_expected_graceful_stop t"
      "t1 = t\<lparr>lt_state := LsStopping\<rparr>"
  | (stopped) w where "e = Stopped w" "lt_state t = LsListening \<or> lt_state t = LsStopping"
      "lt_runtime_pid t = Some (sd_pid w)" "t1 = t\<lparr>lt_state := LsStopped\<rparr>"
  | (error) x where "e = ErrorEvent x" "\<not> is_terminal (lt_state t)"
      "lt_runtime_pid t = None \<or> er_pid x = None \<or> er_pid x = lt_runtime_pid t"
      "t1 = t\<lparr>lt_state := LsFailed\<rparr>"
  using assms
  by (cases e) (auto simp: observe_def observe_active_def split: if_splits option.splits)

lemma observe_accepts:
  "lt_state t = LsAwaitingStart \<Longrightarrow> st_port x = lt_expected_port t \<Longrightarrow>
     st_graceful_stop x = lt_expected_graceful_stop t \<Longrightarrow>
     observe t (Starting x) =
       (t\<lparr>lt_runtime_pid := Some (st_pid x), lt_state := LsStarting\<rparr>, Inr LsStarting)"
  "lt_state t = LsStarting \<Longrightarrow> li_port y = lt_expected_port t \<Longrightarrow>
     lt_runtime_pid t = Some (li_pid y) \<Longrightarrow>
     observe t (Listening y) = (t\<lparr>lt_state := LsListening\<rparr>, Inr LsListening)"
  "lt_state t = LsListening \<Longrightarrow> lt_expected_graceful_stop t \<Longrightarrow>
     observe t (Stopping z) = (t\<lparr>lt_state := LsStopping\<rparr>, Inr LsStopping)"
  "lt_state t = LsListening \<or> lt_state t = LsStopping \<Longrightarrow> lt_runtime_pid t = Some (sd_pid w) \<Longrightarrow>
     observe t (Stopped w) = (t\<lparr>lt_state := LsStopped\<rparr>, Inr LsStopped)"
  "\<not> is_terminal (lt_state t) \<Longrightarrow>
     lt_runtime_pid t = None \<or> er_pid e = None \<or> er_pid e = lt_runtime_pid t \<Longrightarrow>
     observe t (ErrorEvent e) = (t\<lparr>lt_state := LsFailed\<rparr>, Inr LsFailed)"
  by (auto simp: observe_def observe_active_def is_terminal_def split: option.splits)

lemma tracker_update_order:
  "(t::lifecycle_tracker)\<lparr>lt_runtime_pid := pid, lt_state := s\<rparr> = t\<lparr>lt_state := s, lt_runtime_pid := pid\<rparr>"
  by (cases t) simp

lemma observe_shape:
  assumes "observe t e = (t1, Inr s)"
  shows "t1 = t\<lparr>lt_state := lt_state t1, lt_runtime_pid := lt_runtime_pid t1\<rparr>"
  using assms by (cases rule: observe_cases) simp_all

lemma accepted_run_shape:
  assumes "accepted_run t es t1"
  shows "t1 = t\<lparr>lt_state := lt_state t1, lt_runtime_pid := lt_runtime_pid t1\<rparr>"
  using assms
proof induction
  case (snoc t es t1 e t2 s)
  have "t2 = t1\<lparr>lt_state := lt_state t2, lt_runtime_pid := lt_runtime_pid t2\<rparr>"
    by (rule observe_shape [OF snoc.hyps(2)])
  then show ?case by (subst (asm) snoc.IH) simp
qed simp

lemma accepted_run_pol:
  assumes "accepted_run t es t1"
  shows "lt_expected_port t1 = lt_expected_port t"
    and "lt_expected_graceful_stop t1 = lt_expected_graceful_stop t"
  by (subst accepted_run_shape [OF assms], simp)+

lemma sequence_for_active: "\<not> is_terminal s \<Longrightarrow> sequence_for p g s pid es = active_sequence p g s pid es"
  by (cases s) (simp_all add: is_terminal_def)

lemma active_sequence_not_terminal: "active_sequence p g s pid es \<Longrightarrow> \<not> is_terminal s"
  by (cases s) (simp_all add: is_terminal_def)

lemma accepted_run_sequence:
  assumes "accepted_run t0 es t" and "tracker_new p g = Inr t0"
  shows "sequence_for p g (lt_state t) (lt_runtime_pid t) es"
  using assms
proof induction
  case (empty t)
  then show ?case by (auto simp: tracker_new_def split: if_splits)
next
  case (snoc t es t1 e t2 s)
  have pol: "lt_expected_port t1 = p" "lt_expected_graceful_stop t1 = g"
    using accepted_run_pol [OF snoc.hyps(1)] snoc.prems by (auto simp: tracker_new_def split: if_splits)
  note IH = snoc.IH [OF snoc.prems]
  from snoc.hyps(2) show ?case
  proof (cases rule: observe_cases)
    case (error x)
    then show ?thesis using IH by (auto simp: sequence_for_active)
  qed (use IH pol in \<open>auto simp: started_def bound_def\<close>)
qed

lemma active_sequence_run:
  assumes "tracker_new p g = Inr t0" and "active_sequence p g s pid es"
  shows "accepted_run t0 es (t0\<lparr>lt_state := s, lt_runtime_pid := pid\<rparr>)"
proof -
  have t0: "lt_expected_port t0 = p" "lt_expected_graceful_stop t0 = g" "lt_state t0 = LsAwaitingStart"
      "lt_runtime_pid t0 = None"
    using assms(1) by (auto simp: tracker_new_def split: if_splits)
  have fresh: "accepted_run t0 [] (t0\<lparr>lt_state := LsAwaitingStart, lt_runtime_pid := None\<rparr>)"
  proof -
    have "t0\<lparr>lt_state := LsAwaitingStart, lt_runtime_pid := None\<rparr> = t0"
      using t0 by simp
    then show ?thesis by (simp add: accepted_run.empty)
  qed
  have start: "accepted_run t0 [Starting x] (t0\<lparr>lt_state := LsStarting, lt_runtime_pid := pid\<rparr>)"
    if "started p g pid x" for x
    using accepted_run.snoc [OF accepted_run.empty observe_accepts(1), of t0 x] that t0
    by (simp add: started_def tracker_update_order)
  have listen: "accepted_run t0 [Starting x, Listening y] (t0\<lparr>lt_state := LsListening, lt_runtime_pid := pid\<rparr>)"
    if "started p g pid x" "bound p pid y" for x y
    using accepted_run.snoc [OF start [OF that(1)] observe_accepts(2), of y] that t0
    by (simp add: bound_def tracker_update_order)
  have stopping: "accepted_run t0 [Starting x, Listening y, Stopping z]
      (t0\<lparr>lt_state := LsStopping, lt_runtime_pid := pid\<rparr>)"
    if "started p g pid x" "bound p pid y" g for x y z
    using accepted_run.snoc [OF listen [OF that(1,2)] observe_accepts(3), of z] that t0
    by (simp add: tracker_update_order)
  from assms(2) show ?thesis
    by (cases s) (auto intro: fresh start listen stopping)
qed

lemma sequence_run:
  assumes "tracker_new p g = Inr t0" and "sequence_for p g s pid es"
  shows "accepted_run t0 es (t0\<lparr>lt_state := s, lt_runtime_pid := pid\<rparr>)"
proof (cases s)
  case LsStopped
  then obtain fs w s1 where "es = fs @ [Stopped w]" "pid = Some (sd_pid w)"
      "active_sequence p g s1 pid fs" "s1 = LsListening \<or> s1 = LsStopping"
    using assms(2) by (simp del: active_sequence.simps) blast
  with LsStopped show ?thesis
    using accepted_run.snoc [OF active_sequence_run [OF assms(1), of s1 pid fs] observe_accepts(4), of w]
    by (auto simp: tracker_update_order)
next
  case LsFailed
  then obtain fs e s1 where "es = fs @ [ErrorEvent e]" "active_sequence p g s1 pid fs"
      "pid = None \<or> er_pid e = None \<or> er_pid e = pid"
    using assms(2) by auto
  with LsFailed show ?thesis
    using accepted_run.snoc [OF active_sequence_run [OF assms(1), of s1 pid fs] observe_accepts(5), of e]
    by (auto simp: tracker_update_order dest: active_sequence_not_terminal)
qed (use assms active_sequence_run in auto)

subsection \<open>Validated events\<close>

lemma length_utf8_encode_char:
  "n < 128 \<Longrightarrow> length (utf8_encode_char n) = 1"
  "n < 2048 \<Longrightarrow> length (utf8_encode_char n) \<le> 2"
  "n < 65536 \<Longrightarrow> length (utf8_encode_char n) \<le> 3"
  "length (utf8_encode_char n) \<le> 4" "1 \<le> length (utf8_encode_char n)"
  by (simp_all add: utf8_encode_char_def)

lemma length_utf8_encode_Cons:
  assumes "length (utf8_encode_char c) \<le> k" and "1 \<le> k"
    and "length (utf8_encode (map (\<lambda>c. if P c then 32 else c) cs)) \<le> n"
  shows "length (utf8_encode (map (\<lambda>c. if P c then 32 else c) (c # cs))) \<le> k + n"
  using assms by (simp add: utf8_encode_def length_utf8_encode_char(1))

lemma length_utf8_encode_map:
  assumes "utf8_decode m = Some cs"
  shows "length (utf8_encode (map (\<lambda>c. if P c then 32 else c) cs)) \<le> length m"
  using assms
proof (induction m arbitrary: cs rule: utf8_decode.induct)
  case (2 a xs)
  consider (one) "byte a < 128" | (two) "194 \<le> byte a" "byte a \<le> 223"
    | (three) "224 \<le> byte a" "byte a \<le> 239" | (four) "240 \<le> byte a" "byte a \<le> 244"
    using "2.prems" by (auto split: if_splits)
  then show ?case
  proof cases
    case one
    then obtain ds where "cs = byte a # ds" "utf8_decode xs = Some ds"
      using "2.prems" by auto
    then show ?thesis
      using length_utf8_encode_Cons [of "byte a" 1 P ds "length xs"] "2.IH"(1) one
      by (simp add: length_utf8_encode_char)
  next
    case two
    then obtain b ys ds where xs: "xs = b # ys" "is_cont b"
      and ds: "cs = ((byte a - 192) * 64 + (byte b - 128)) # ds" "utf8_decode ys = Some ds"
      using "2.prems" by (auto split: list.splits if_splits)
    have "(byte a - 192) * 64 + (byte b - 128) < 2048"
      using two xs(2) unfolding is_cont_def by linarith
    then show ?thesis
      using length_utf8_encode_Cons [of "(byte a - 192) * 64 + (byte b - 128)" 2 P ds "length ys"]
        "2.IH"(2) [of b ys ds] two xs ds
      by (simp add: length_utf8_encode_char)
  next
    case three
    then obtain b c ys ds where xs: "xs = b # c # ys" "is_cont b" "is_cont c"
        "byte a = 224 \<longrightarrow> 160 \<le> byte b" "byte a = 237 \<longrightarrow> byte b \<le> 159"
      and ds: "cs = ((byte a - 224) * 4096 + (byte b - 128) * 64 + (byte c - 128)) # ds"
        "utf8_decode ys = Some ds"
      using "2.prems" by (auto split: list.splits if_splits)
    have "(byte a - 224) * 4096 + (byte b - 128) * 64 + (byte c - 128) < 65536"
      using three xs(2,3) unfolding is_cont_def by linarith
    then show ?thesis
      using length_utf8_encode_Cons
          [of "(byte a - 224) * 4096 + (byte b - 128) * 64 + (byte c - 128)" 3 P ds "length ys"]
        "2.IH"(3) [of b "c # ys" c ys ds] three xs ds
      by (simp add: length_utf8_encode_char)
  next
    case four
    then obtain b c d ys ds where xs: "xs = b # c # d # ys" "is_cont b \<and> is_cont c \<and> is_cont d
        \<and> (byte a = 240 \<longrightarrow> 144 \<le> byte b) \<and> (byte a = 244 \<longrightarrow> byte b \<le> 143)"
      and ds: "utf8_decode ys = Some ds" "cs = ((byte a - 240) * 262144 + (byte b - 128) * 4096
                          + (byte c - 128) * 64 + (byte d - 128)) # ds"
      using "2.prems" by (auto split: list.splits if_splits)
    then show ?thesis
      using length_utf8_encode_Cons
          [of "(byte a - 240) * 262144 + (byte b - 128) * 4096 + (byte c - 128) * 64 + (byte d - 128)"
            4 P ds "length ys"]
        "2.IH"(4) [of b "c # d # ys" c "d # ys" d ys ds] four
      by (simp add: length_utf8_encode_char)
  qed
qed (simp add: utf8_encode_def)

lemma utf8_decode_less: "utf8_decode m = Some cs \<Longrightarrow> list_all (\<lambda>c. c < 2097152) cs"
proof (induction m arbitrary: cs rule: utf8_decode.induct)
  case (2 a xs)
  then show ?case
    by (auto simp: is_cont_def split: if_splits list.splits)
qed simp

lemma utf8_encode_no_control:
  assumes "list_all (\<lambda>c. \<not> is_control c \<and> c < 2097152) cs"
  shows "list_all (\<lambda>b. \<not> is_ascii_control b) (utf8_encode cs)"
proof -
  have high: "\<not> is_ascii_control (char_of k)" if "128 \<le> k" "k < 256" for k :: nat
    using that by (simp add: is_ascii_control_def)
  have "list_all (\<lambda>b. \<not> is_ascii_control b) (utf8_encode_char n)"
    if "\<not> is_control n" "n < 2097152" for n
  proof -
    have "n < 2048 \<Longrightarrow> n div 64 < 32" "n < 65536 \<Longrightarrow> n div 4096 < 16" "n div 262144 < 16"
      using that(2) by auto
    with that(1) show ?thesis
      by (auto simp: utf8_encode_char_def high) (auto simp: is_control_def is_ascii_control_def)
  qed
  with assms show ?thesis by (induction cs) (auto simp: utf8_encode_def)
qed

lemma sanitize_message_ok:
  assumes "sanitize_message m = Inr r"
  shows "message_ok r"
proof -
  obtain cs where cs: "utf8_decode m = Some cs" "length m \<le> MAX_MESSAGE_BYTES" "r \<noteq> []"
      and r: "r = str_trim (utf8_encode (map (\<lambda>c. if is_control c then 32 else c) cs))"
    using assms by (auto simp: sanitize_message_def Let_def split: if_splits option.splits)
  have "list_all (\<lambda>b. \<not> is_ascii_control b) (utf8_encode (map (\<lambda>c. if is_control c then 32 else c) cs))"
    using utf8_decode_less [OF cs(1)]
    by (intro utf8_encode_no_control) (auto simp: list_all_iff is_control_def)
  then have "list_all (\<lambda>b. \<not> is_ascii_control b) r"
    unfolding r list_all_iff using set_str_trim by blast
  moreover have "length r \<le> MAX_MESSAGE_BYTES"
    unfolding r using length_str_trim length_utf8_encode_map [OF cs(1)] cs(2) order_trans by metis
  ultimately show ?thesis
    using cs(3) r by (simp add: message_ok_def)
qed

lemmas event_checks =
  require_no_fields_def require_loopback_authentication_def require_timestamp_def
  validate_timestamp_def require_pid_def validate_pid_def require_port_def timestamp_ok_def

lemma parse_error_event_valid:
  assumes "parse_error_event raw = Inr ev"
  shows "event_valid ev \<and> (re_event raw = ''error'' \<longrightarrow> event_source raw ev)"
  using assms
  by (auto simp: parse_error_event_def event_checks sanitize_message_ok
      split: if_splits option.splits)

lemma parse_event_valid:
  assumes "parse_event raw = Inr ev"
  shows "event_valid ev \<and> event_source raw ev \<and> re_protocol_version raw = ''2''"
  using assms parse_error_event_valid [of raw ev]
  by (auto simp: parse_event_def parse_starting_def parse_listening_def parse_stopping_def
      parse_stopped_def event_checks split: if_splits)

lemma decode_line_event:
  assumes "decode_line f l = Inr (Some ev)"
  shows "\<exists>json raw. (l = EVENT_PREFIX @ json \<or> l = EVENT_PREFIX @ json @ [CHR 0x0D])
    \<and> f json = Some raw \<and> parse_event raw = Inr ev"
proof -
  obtain l1 json raw where l1: "l = l1 \<or> l = l1 @ [CHR 0x0D]" and json: "strip_prefix EVENT_PREFIX l1 = Some json"
      "f json = Some raw" "parse_event raw = Inr ev"
    using assms
    by (auto simp: decode_line_def Let_def strip_suffix_def suffix_def split: option.splits if_splits)
  have "l1 = EVENT_PREFIX @ json"
    using json(1) by (auto simp: strip_prefix_def prefix_def split: if_splits)
  with l1 json show ?thesis by auto
qed

lemma decoder_failure_facts:
  assumes "decoder_inv d"
  shows "decoder_inv (fst (decoder_push f d s))" "decoder_inv (fst (decoder_finish d))"
    "snd (decoder_push f d s) = Inl e \<longrightarrow> ed_poisoned (fst (decoder_push f d s))
       \<and> ed_buffer (fst (decoder_push f d s)) = []"
    "snd (decoder_finish d) = Inl e \<longleftrightarrow>
       (if ed_poisoned d then e = DecoderPoisoned else ed_buffer d \<noteq> [] \<and> e = TruncatedLine)"
    "snd (decoder_finish d) = Inl e \<longrightarrow> ed_poisoned (fst (decoder_finish d))"
    "ed_poisoned d \<longrightarrow> decoder_push f d s = (d, Inl DecoderPoisoned)
       \<and> decoder_finish d = (d, Inl DecoderPoisoned)"
proof -
  obtain d1 r where p: "push_bytes f d s [] = (d1, r)" by (cases "push_bytes f d s []")
  show "decoder_inv (fst (decoder_push f d s))"
    using assms push_bytes_inv [OF p] p by (simp add: decoder_push_def)
  show "snd (decoder_push f d s) = Inl e \<longrightarrow> ed_poisoned (fst (decoder_push f d s))
       \<and> ed_buffer (fst (decoder_push f d s)) = []"
    using assms push_bytes_state(2) [OF p, of e] p by (simp add: decoder_push_def decoder_inv_def)
qed (use assms in \<open>auto simp: decoder_finish_def decoder_push_def decoder_inv_def split: if_splits\<close>)

section \<open>Properties\<close>

text \<open>How the launcher's output is split into reads does not matter: pushing two chunks one
  after the other leaves the decoder in the same state and yields the same events, in the same
  order, as pushing their concatenation, and the first error ends both in the same way.\<close>

lemma decoder_chunking:
  "decoder_push f d (a @ b) =
     (case decoder_push f d a of
        (d1, Inl e) \<Rightarrow> (d1, Inl e)
      | (d1, Inr es) \<Rightarrow>
          (case decoder_push f d1 b of
             (d2, Inl e) \<Rightarrow> (d2, Inl e)
           | (d2, Inr es2) \<Rightarrow> (d2, Inr (es @ es2))))"
proof (cases "ed_poisoned d")
  case False
  obtain d1 r where p: "push_bytes f d a [] = (d1, r)" by (cases "push_bytes f d a []")
  show ?thesis
  proof (cases r)
    case (Inr es)
    have "\<not> ed_poisoned d1" using push_bytes_state(3) [OF p] Inr False by simp
    then show ?thesis
      using False p Inr push_bytes_acc [of f d1 b es]
      by (simp add: decoder_push_def push_bytes_append split: prod.splits sum.splits)
  qed (use False p in \<open>simp add: decoder_push_def push_bytes_append\<close>)
qed (simp add: decoder_push_def)

text \<open>What a successful push returns: exactly when every line completed by the new bytes is
  within the line bound and is noise or a valid event, and the unfinished rest is within the bound,
  the decoder returns the events of those lines in order, keeps the rest, and counts the noise
  lines.\<close>

lemma decoder_push_lines:
  assumes "decoder_inv d" and "\<not> ed_poisoned d"
  shows "decoder_push f d s = (d1, Inr es) \<longleftrightarrow>
    acceptable_lines f (ed_maximum_line_bytes d) (ed_buffer d @ s)
    \<and> es = decoded_events f (ed_buffer d @ s)
    \<and> d1 = d\<lparr>ed_buffer := open_line (ed_buffer d @ s),
             ed_ignored_lines :=
               saturating_add u64_max (ed_ignored_lines d) (noise_lines f (ed_buffer d @ s))\<rparr>"
  using assms push_bytes_lines [of d f s "[]" d1 es]
  by (simp add: decoder_inv_def decoder_push_def)

text \<open>C16: The decoder fails closed.  Its buffer never exceeds the line bound; any error of a push or
  of the end of the stream drops the buffered bytes and poisons the decoder, and a poisoned decoder
  refuses every further push and finish without changing state.\<close>

theorem decoder_fails_closed:
  assumes "decoder_inv d"
  shows "decoder_inv (fst (decoder_push f d s)) \<and> decoder_inv (fst (decoder_finish d))
    \<and> (snd (decoder_push f d s) = Inl e \<longrightarrow> ed_poisoned (fst (decoder_push f d s))
         \<and> ed_buffer (fst (decoder_push f d s)) = [])
    \<and> (snd (decoder_finish d) = Inl e \<longleftrightarrow>
         (if ed_poisoned d then e = DecoderPoisoned else ed_buffer d \<noteq> [] \<and> e = TruncatedLine))
    \<and> (snd (decoder_finish d) = Inl e \<longrightarrow> ed_poisoned (fst (decoder_finish d)))
    \<and> (ed_poisoned d \<longrightarrow> decoder_push f d s = (d, Inl DecoderPoisoned)
         \<and> decoder_finish d = (d, Inl DecoderPoisoned))"
  by (intro conjI decoder_failure_facts [OF assms])

text \<open>C17: Every event the decoder hands out was read from a complete line that starts with the
  event prefix, declares protocol 2, and is well formed: process identifiers and ports are positive,
  timestamps and messages bounded and free of control characters, and a starting or listening event
  named the IPv4 loopback address with the token check enforced.\<close>

theorem decoder_events_valid:
  assumes "decoder_inv d" and "decoder_push f d s = (d1, Inr es)" and "ev \<in> set es"
  shows "event_valid ev
    \<and> (\<exists>l json raw. l \<in> set (complete_lines (ed_buffer d @ s))
       \<and> (l = EVENT_PREFIX @ json \<or> l = EVENT_PREFIX @ json @ [CHR 0x0D]) \<and> f json = Some raw
       \<and> re_protocol_version raw = ''2'' \<and> event_source raw ev)"
proof -
  have "es = decoded_events f (ed_buffer d @ s)"
    using assms(1,2) push_bytes_lines [of d f s "[]" d1 es]
    by (auto simp: decoder_inv_def decoder_push_def split: if_splits)
  then obtain l where l: "l \<in> set (complete_lines (ed_buffer d @ s))" "decode_line f l = Inr (Some ev)"
    using assms(3) by (auto simp: decoded_events_def split: sum.splits option.splits)
  from decode_line_event [OF l(2)] obtain json raw
    where "l = EVENT_PREFIX @ json \<or> l = EVENT_PREFIX @ json @ [CHR 0x0D]" "f json = Some raw"
      and raw: "parse_event raw = Inr ev" by blast
  with l(1) parse_event_valid [OF raw] show ?thesis by blast
qed

text \<open>C15: The language of the lifecycle tracker.  Starting from a fresh tracker for a port and a
  graceful-stop policy, the event sequences it accepts and the states they lead to are exactly:
  nothing; starting on the expected port with the expected policy; then listening on that port by
  the same process; then stopping, only when graceful stop is enabled; then stopped by the same
  process; and, from any unfinished state, one error that does not name another process.\<close>

theorem tracker_language:
  assumes "tracker_new port graceful = Inr t0"
  shows "accepted_run t0 es t \<longleftrightarrow>
    sequence_for port graceful (lt_state t) (lt_runtime_pid t) es
    \<and> t = t0\<lparr>lt_state := lt_state t, lt_runtime_pid := lt_runtime_pid t\<rparr>"
  using accepted_run_sequence [OF _ assms] accepted_run_shape sequence_run [OF assms]
  by metis



section \<open>Witnesses\<close>

definition example_raw_event :: raw_event where
  "example_raw_event =
     \<lparr>re_protocol_version = ''2'', re_event = ''listening'', re_timestamp = Some ''2026-07-26'',
      re_pid = Some 41, re_host = Some ''127.0.0.1'', re_port = Some 3838,
      re_token_enforced = Some True, re_graceful_stop = None, re_reason = None, re_phase = None,
      re_message = None\<rparr>"

definition example_json :: "bytes \<Rightarrow> raw_event option" where
  "example_json s = (if s = ''{}'' then Some example_raw_event else None)"

definition example_stream :: bytes where
  "example_stream = ''noise'' @ [CHR 0x0A] @ EVENT_PREFIX @ ''{}'' @ [CHR 0x0A] @ ''RPA''"

definition example_event :: launcher_event where
  "example_event = Listening \<lparr>li_timestamp = ''2026-07-26'', li_pid = 41, li_port = 3838\<rparr>"

definition example_decoder :: event_decoder where
  "example_decoder =
     \<lparr>ed_buffer = ''RPA'', ed_maximum_line_bytes = 16384, ed_poisoned = False, ed_ignored_lines = 1\<rparr>"

lemma example_push: "decoder_push example_json decoder_default example_stream = (example_decoder, Inr [example_event])"
  by code_simp

lemma example_decoder_inv: "decoder_inv decoder_default" "decoder_inv example_decoder"
  by code_simp+

lemma decoder_push_lines_witness:
  "acceptable_lines example_json 16384 example_stream
   \<and> decoded_events example_json example_stream = [example_event]"
proof -
  have "\<not> ed_poisoned decoder_default" by code_simp
  from decoder_push_lines [OF example_decoder_inv(1) this, of example_json example_stream example_decoder
      "[example_event]"] example_push
  show ?thesis by (simp add: decoder_default_def DEFAULT_MAX_LINE_BYTES_def)
qed

lemma decoder_fails_closed_witness:
  "ed_poisoned (fst (decoder_finish example_decoder))"
proof -
  have "snd (decoder_finish example_decoder) = Inl TruncatedLine" by code_simp
  with decoder_fails_closed [OF example_decoder_inv(2)] show ?thesis by blast
qed

lemma decoder_events_valid_witness: "event_valid example_event"
  using decoder_events_valid [OF example_decoder_inv(1) example_push, of example_event] by simp

lemma tracker_language_witness:
  "\<exists>t0 t. tracker_new 3838 True = Inr t0
     \<and> accepted_run t0
         [Starting \<lparr>st_timestamp = ''t'', st_pid = 41, st_port = 3838, st_graceful_stop = True\<rparr>,
          example_event, Stopping \<lparr>sg_timestamp = ''t''\<rparr>] t
     \<and> lt_state t = LsStopping"
proof -
  define t0 where "t0 = \<lparr>lt_expected_port = 3838, lt_expected_graceful_stop = True,
      lt_state = LsAwaitingStart, lt_runtime_pid = None\<rparr>"
  have "tracker_new 3838 True = Inr t0" by (simp add: tracker_new_def t0_def)
  from tracker_language [OF this, of _ "t0\<lparr>lt_state := LsStopping, lt_runtime_pid := Some 41\<rparr>"] this
  show ?thesis
    by (intro exI [of _ t0] exI [of _ "t0\<lparr>lt_state := LsStopping, lt_runtime_pid := Some 41\<rparr>"])
      (simp add: started_def bound_def example_event_def)
qed

end
