(* ===== verification/Transport_Limits.thy ===== *)
theory Transport_Limits
  imports Rust_Prelude
begin

text \<open>
  \<open>crates/transport/src/limits.rs\<close> and \<open>crates/transport/src/secret.rs\<close>: the resource limits of
  one proxy with their consistency check, and the native-only credentials.  A \<open>Duration\<close> is its
  number of nanoseconds.  The operating system's random source is the argument \<open>rnd\<close> of
  \<open>secret_generate\<close>, a stream of 32-byte draws that may fail.
\<close>

section \<open>Definitions\<close>

type_synonym duration = nat

definition from_secs :: "nat \<Rightarrow> duration" where
  "from_secs n = n * 1000000000"

record transport_limits =
  max_request_line_bytes :: nat
  max_header_bytes :: nat
  max_headers :: nat
  max_request_body_bytes :: nat
  request_body_idle_timeout :: duration
  request_body_total_timeout :: duration
  min_request_body_bytes_per_second :: nat
  request_body_rate_window :: duration
  max_response_body_bytes :: nat
  max_decoded_response_body_bytes :: nat
  max_response_content_encodings :: nat
  response_body_idle_timeout :: duration
  min_response_body_bytes_per_second :: nat
  response_body_rate_window :: duration
  max_connections :: nat
  header_timeout :: duration
  upstream_timeout :: duration
  websocket_idle_timeout :: duration
  max_websocket_bytes_per_second :: nat
  websocket_rate_burst_window :: duration

definition MAX_RESPONSE_CONTENT_ENCODING_LAYERS :: nat where
  "MAX_RESPONSE_CONTENT_ENCODING_LAYERS = 2"

definition default_limits :: transport_limits where
  "default_limits =
     \<lparr>max_request_line_bytes = 8 * 1024,
      max_header_bytes = 32 * 1024,
      max_headers = 96,
      max_request_body_bytes = 64 * 1024 * 1024,
      request_body_idle_timeout = from_secs 15,
      request_body_total_timeout = from_secs (5 * 60),
      min_request_body_bytes_per_second = 1024,
      request_body_rate_window = from_secs 5,
      max_response_body_bytes = 256 * 1024 * 1024,
      max_decoded_response_body_bytes = 256 * 1024 * 1024,
      max_response_content_encodings = 2,
      response_body_idle_timeout = from_secs 15,
      min_response_body_bytes_per_second = 1024,
      response_body_rate_window = from_secs 5,
      max_connections = 64,
      header_timeout = from_secs 5,
      upstream_timeout = from_secs 10,
      websocket_idle_timeout = from_secs (5 * 60),
      max_websocket_bytes_per_second = 8 * 1024 * 1024,
      websocket_rate_burst_window = from_secs 1\<rparr>"

definition limits_is_valid :: "transport_limits \<Rightarrow> bool" where
  "limits_is_valid l =
     (0 < max_request_line_bytes l
      \<and> max_request_line_bytes l \<le> max_header_bytes l
      \<and> 0 < max_headers l
      \<and> 0 < max_connections l
      \<and> header_timeout l \<noteq> 0
      \<and> upstream_timeout l \<noteq> 0
      \<and> request_body_idle_timeout l \<noteq> 0
      \<and> request_body_total_timeout l \<noteq> 0
      \<and> (min_request_body_bytes_per_second l = 0
         \<or> (request_body_rate_window l \<noteq> 0
            \<and> request_body_rate_window l \<le> request_body_total_timeout l))
      \<and> response_body_idle_timeout l \<noteq> 0
      \<and> (min_response_body_bytes_per_second l = 0 \<or> response_body_rate_window l \<noteq> 0)
      \<and> max_response_content_encodings l \<le> MAX_RESPONSE_CONTENT_ENCODING_LAYERS
      \<and> websocket_idle_timeout l \<noteq> 0
      \<and> (max_websocket_bytes_per_second l = 0
         \<or> (websocket_rate_burst_window l \<noteq> 0
            \<and> websocket_rate_burst_window l \<le> websocket_idle_timeout l)))"

record secret =
  secret_value :: string

definition secret_from_bytes :: "bytes \<Rightarrow> secret" where
  "secret_from_bytes bs = \<lparr>secret_value = ''rp-'' @ hex_encode bs\<rparr>"

fun secret_generate :: "bytes option list \<Rightarrow> secret option \<times> bytes option list" where
  "secret_generate [] = (None, [])"
| "secret_generate (None # rnd) = (None, rnd)"
| "secret_generate (Some bs # rnd) = (Some (secret_from_bytes bs), rnd)"

text \<open>
  \<open>ConstantTimeEq::ct_eq\<close> of the \<open>subtle\<close> crate decides equality of slices of equal length; that
  it does so without a data-dependent exit is a timing property outside this model.
\<close>

definition secret_matches :: "secret \<Rightarrow> bytes \<Rightarrow> bool" where
  "secret_matches s candidate =
     (if length (secret_value s) \<noteq> length candidate then False
      else secret_value s = candidate)"

record transport_secrets =
  ts_session :: secret
  ts_upstream :: secret
  ts_bootstrap :: secret

definition secrets_generate :: "bytes option list \<Rightarrow> transport_secrets option" where
  "secrets_generate rnd =
     (case secret_generate rnd of
        (None, _) \<Rightarrow> None
      | (Some s, rnd1) \<Rightarrow>
          (case secret_generate rnd1 of
             (None, _) \<Rightarrow> None
           | (Some u, rnd2) \<Rightarrow>
               (case secret_generate rnd2 of
                  (None, _) \<Rightarrow> None
                | (Some b, _) \<Rightarrow>
                    Some \<lparr>ts_session = s, ts_upstream = u, ts_bootstrap = b\<rparr>)))"

definition secret_debug :: "secret \<Rightarrow> string" where
  "secret_debug s = ''Secret([REDACTED])''"

section \<open>Lemmas\<close>

lemma default_limits_valid: "limits_is_valid default_limits"
  by (simp add: limits_is_valid_def default_limits_def from_secs_def
      MAX_RESPONSE_CONTENT_ENCODING_LAYERS_def)

lemma secret_matches_iff [simp]: "secret_matches s c \<longleftrightarrow> c = secret_value s"
  by (auto simp: secret_matches_def)

lemma hex_digit_is_hexdigit: "n < 16 \<Longrightarrow> is_ascii_hexdigit (hex_digit n) \<and> is_ascii_graphic (hex_digit n)"
  by (auto simp: hex_digit_def is_ascii_hexdigit_def is_ascii_digit_def is_ascii_graphic_def)

lemma length_hex_encode [simp]: "length (hex_encode bs) = 2 * length bs"
  by (induction bs) (auto simp: hex_encode_def)

lemma byte_div_16 [simp]: "byte c div 16 < 16"
  using byte_less_256 [of c] by linarith

lemma hex_encode_hexdigit: "list_all is_ascii_hexdigit (hex_encode bs)"
  by (induction bs) (auto simp: hex_encode_def hex_digit_is_hexdigit)

lemma hex_digit_inject: "m < 16 \<Longrightarrow> n < 16 \<Longrightarrow> hex_digit m = hex_digit n \<longleftrightarrow> m = n"
  by (auto simp: hex_digit_def simp flip: byte_inject)

lemma byte_nibbles: "byte a div 16 = byte b div 16 \<and> byte a mod 16 = byte b mod 16 \<longleftrightarrow> a = b"
  by (metis byte_inject div_mult_mod_eq)

lemma hex_encode_inject: "hex_encode a = hex_encode b \<longleftrightarrow> a = b"
proof (induction a arbitrary: b)
  case Nil
  then show ?case by (cases b) (auto simp: hex_encode_def)
next
  case (Cons x a)
  show ?case
    using Cons byte_nibbles [of x]
    by (cases b) (auto simp: hex_encode_def hex_digit_inject)
qed

end
