(* ===== verification/Runtime_Monitor.thy ===== *)
theory Runtime_Monitor
  imports Launcher_Protocol Transport_Limits
begin

text \<open>
  The parts of \<open>crates/windows-lifecycle/src/lib.rs\<close> that keep no owner state: the timing policy, the
  threads that read the launcher's standard output and error, and the authenticated readiness
  request.  A pipe is the list of its reads, \<open>None\<close> for a failed one, and ends where the list
  does; \<open>connected i\<close> says whether the receiver still exists at the \<open>i\<close>-th send.  A readiness
  attempt is the record of the socket's answers.
\<close>

section \<open>Definitions\<close>

subsection \<open>The timing policy\<close>

text \<open>Durations are nanoseconds.\<close>

definition MAX_LIFECYCLE_DURATION :: nat where
  "MAX_LIFECYCLE_DURATION = 10 * 60 * 1000000000"

definition MAX_POLL_INTERVAL :: nat where
  "MAX_POLL_INTERVAL = 1000000000"

record lifecycle_limits =
  ll_startup_timeout :: nat
  ll_listener_timeout :: nat
  ll_readiness_io_timeout :: nat
  ll_graceful_timeout :: nat
  ll_termination_timeout :: nat
  ll_poll_interval :: nat

definition default_lifecycle_limits :: lifecycle_limits where
  "default_lifecycle_limits =
     \<lparr>ll_startup_timeout = 30 * 1000000000, ll_listener_timeout = 3 * 1000000000,
      ll_readiness_io_timeout = 1000000000, ll_graceful_timeout = 5 * 1000000000,
      ll_termination_timeout = 5 * 1000000000, ll_poll_interval = 25 * 1000000\<rparr>"

definition limits_valid :: "lifecycle_limits \<Rightarrow> bool" where
  "limits_valid l =
     (let bounded = list_all (\<lambda>duration. duration \<noteq> 0 \<and> duration \<le> MAX_LIFECYCLE_DURATION)
            [ll_startup_timeout l, ll_listener_timeout l, ll_readiness_io_timeout l,
             ll_graceful_timeout l, ll_termination_timeout l] in
      \<not> (\<not> bounded \<or> ll_poll_interval l = 0 \<or> MAX_POLL_INTERVAL < ll_poll_interval l
         \<or> ll_startup_timeout l < ll_listener_timeout l))"

subsection \<open>Monitor messages\<close>

datatype monitor_event =
    MonitorStarting nat | MonitorListening nat | MonitorStopping | MonitorStopped nat
  | MonitorLauncherFailed error_phase

datatype monitor_message =
    Event lifecycle_state monitor_event
  | ProtocolFailure protocol_error
  | StdoutReadFailure
  | StdoutEnded lifecycle_state nat
  | StderrReadFailure

fun monitor_event_of :: "launcher_event \<Rightarrow> monitor_event" where
  "monitor_event_of (Starting e) = MonitorStarting (st_pid e)"
| "monitor_event_of (Listening e) = MonitorListening (li_pid e)"
| "monitor_event_of (Stopping e) = MonitorStopping"
| "monitor_event_of (Stopped e) = MonitorStopped (sd_pid e)"
| "monitor_event_of (ErrorEvent e) = MonitorLauncherFailed (er_phase e)"

definition send :: "(nat \<Rightarrow> bool) \<Rightarrow> monitor_message list \<Rightarrow> monitor_message \<Rightarrow> monitor_message list" where
  "send connected sent m = (if connected (length sent) then sent @ [m] else sent)"

subsection \<open>The standard output thread\<close>

text \<open>The loop over the events of one read; the flag says whether the thread goes on.\<close>

fun send_events ::
  "(nat \<Rightarrow> bool) \<Rightarrow> lifecycle_tracker \<Rightarrow> launcher_event list \<Rightarrow> monitor_message list \<Rightarrow>
     lifecycle_tracker \<times> monitor_message list \<times> bool" where
  "send_events connected tracker [] sent = (tracker, sent, True)"
| "send_events connected tracker (event # events) sent =
     (case observe tracker event of
        (tracker1, Inl e) \<Rightarrow> (tracker1, send connected sent (ProtocolFailure e), False)
      | (tracker1, Inr state) \<Rightarrow>
          if connected (length sent)
          then send_events connected tracker1 events (sent @ [Event state (monitor_event_of event)])
          else (tracker1, sent, False))"

definition monitor_finish ::
  "(nat \<Rightarrow> bool) \<Rightarrow> event_decoder \<Rightarrow> lifecycle_tracker \<Rightarrow> monitor_message list \<Rightarrow> monitor_message list" where
  "monitor_finish connected decoder tracker sent =
     (case decoder_finish decoder of
        (_, Inl e) \<Rightarrow> send connected sent (ProtocolFailure e)
      | (decoder1, Inr _) \<Rightarrow>
          send connected sent (StdoutEnded (lt_state tracker) (ed_ignored_lines decoder1)))"

fun monitor_loop ::
  "(bytes \<Rightarrow> raw_event option) \<Rightarrow> (nat \<Rightarrow> bool) \<Rightarrow> event_decoder \<Rightarrow> lifecycle_tracker \<Rightarrow>
     bytes option list \<Rightarrow> monitor_message list \<Rightarrow> monitor_message list" where
  "monitor_loop from_slice connected decoder tracker [] sent =
     monitor_finish connected decoder tracker sent"
| "monitor_loop from_slice connected decoder tracker (None # reads) sent =
     send connected sent StdoutReadFailure"
| "monitor_loop from_slice connected decoder tracker (Some chunk # reads) sent =
     (if chunk = [] then monitor_finish connected decoder tracker sent
      else
        case decoder_push from_slice decoder chunk of
          (_, Inl e) \<Rightarrow> send connected sent (ProtocolFailure e)
        | (decoder1, Inr events) \<Rightarrow>
            (case send_events connected tracker events sent of
               (tracker1, sent1, go_on) \<Rightarrow>
                 if go_on then monitor_loop from_slice connected decoder1 tracker1 reads sent1
                 else sent1))"

definition monitor_stdout ::
  "(bytes \<Rightarrow> raw_event option) \<Rightarrow> (nat \<Rightarrow> bool) \<Rightarrow> nat \<Rightarrow> bytes option list \<Rightarrow> monitor_message list" where
  "monitor_stdout from_slice connected expected_port reads =
     (case tracker_new expected_port True of
        Inl e \<Rightarrow> send connected [] (ProtocolFailure e)
      | Inr tracker \<Rightarrow> monitor_loop from_slice connected decoder_default tracker reads [])"

subsection \<open>The standard error thread\<close>

text \<open>Reads are their byte counts.  The result is the message sent, if any, and the total.\<close>

fun drain_loop :: "nat option list \<Rightarrow> nat \<Rightarrow> monitor_message list \<times> nat" where
  "drain_loop [] count_bytes = ([], count_bytes)"
| "drain_loop (None # reads) count_bytes = ([StderrReadFailure], count_bytes)"
| "drain_loop (Some n # reads) count_bytes =
     (if n = 0 then ([], count_bytes)
      else drain_loop reads (saturating_add u64_max count_bytes
             (case try_from u64_max n of None \<Rightarrow> u64_max | Some c \<Rightarrow> c)))"

definition drain_stderr :: "nat option list \<Rightarrow> monitor_message list \<times> nat" where
  "drain_stderr reads = drain_loop reads 0"

subsection \<open>Readiness\<close>

definition STATUS_LINE_MAX_BYTES :: nat where
  "STATUS_LINE_MAX_BYTES = 512"

definition or_else :: "'a option \<Rightarrow> 'a option \<Rightarrow> 'a option" where
  "or_else a b = (case a of None \<Rightarrow> b | Some x \<Rightarrow> Some x)"

definition success_status_line :: "bytes \<Rightarrow> bool" where
  "success_status_line line =
     (case or_else (strip_prefix ''HTTP/1.0 '' line) (strip_prefix ''HTTP/1.1 '' line) of
        None \<Rightarrow> False
      | Some rest \<Rightarrow>
          if length rest < 3 \<or> \<not> list_all is_ascii_digit (take 3 rest) then False
          else
            let status = (byte (rest ! 0) - 48) * 100 + (byte (rest ! 1) - 48) * 10 + (byte (rest ! 2) - 48)
            in 200 \<le> status \<and> status < 400
               \<and> (length rest \<le> 3 \<or> is_ascii_whitespace (rest ! 3)))"

text \<open>The answers of one connection: the response is read byte by byte.\<close>

record http_attempt =
  ha_connect :: bool
  ha_set_read_timeout :: bool
  ha_set_write_timeout :: bool
  ha_write_all :: "bytes \<Rightarrow> bool"
  ha_flush :: bool
  ha_reads :: "bytes \<Rightarrow> char option list"

definition readiness_request :: "16 word \<Rightarrow> secret \<Rightarrow> bytes" where
  "readiness_request port s =
     ''GET / HTTP/1.1'' @ crlf @ ''Host: 127.0.0.1:'' @ decimal (unat port)
     @ crlf @ ''Shiny-Shared-Secret: '' @ secret_value s
     @ crlf @ ''Connection: close'' @ crlf @ crlf"

fun read_status_line :: "char option list \<Rightarrow> bytes \<Rightarrow> bool" where
  "read_status_line [] status_line = False"
| "read_status_line (None # reads) status_line = False"
| "read_status_line (Some b # reads) status_line =
     (if length status_line < STATUS_LINE_MAX_BYTES then
        let line = status_line @ [b] in
        if suffix crlf line then success_status_line (take (length line - 2) line)
        else read_status_line reads line
      else False)"

text \<open>The error is the label of the failed socket operation.\<close>

definition authenticated_http_ready ::
  "http_attempt \<Rightarrow> 16 word \<Rightarrow> secret \<Rightarrow> string + bool" where
  "authenticated_http_ready a port s =
     (if \<not> ha_connect a then Inr False
      else if \<not> ha_set_read_timeout a then Inl ''set readiness read timeout''
      else if \<not> ha_set_write_timeout a then Inl ''set readiness write timeout''
      else
        let request = readiness_request port s in
        if \<not> ha_write_all a request \<or> \<not> ha_flush a then Inr False
        else Inr (read_status_line (ha_reads a request) []))"

subsection \<open>Specifications\<close>

text \<open>The tracker's answers to the longest accepted prefix of a list of events, and whether that is
  the whole list.\<close>

fun tracked :: "lifecycle_tracker \<Rightarrow> launcher_event list \<Rightarrow> monitor_message list" where
  "tracked t [] = []"
| "tracked t (e # es) =
     (case observe t e of
        (_, Inl _) \<Rightarrow> []
      | (t1, Inr state) \<Rightarrow> Event state (monitor_event_of e) # tracked t1 es)"

fun track_all :: "lifecycle_tracker \<Rightarrow> launcher_event list \<Rightarrow> lifecycle_tracker option" where
  "track_all t [] = Some t"
| "track_all t (e # es) =
     (case observe t e of (_, Inl _) \<Rightarrow> None | (t1, Inr _) \<Rightarrow> track_all t1 es)"

text \<open>A response whose status line promises readiness.\<close>

definition ready_line :: "bytes \<Rightarrow> bool" where
  "ready_line line \<longleftrightarrow>
     (\<exists>version code rest. line = version @ decimal code @ rest
        \<and> version \<in> {''HTTP/1.0 '', ''HTTP/1.1 ''} \<and> 200 \<le> code \<and> code < 400
        \<and> (rest = [] \<or> is_ascii_whitespace (hd rest)))"

section \<open>Lemmas\<close>

subsection \<open>Lines of a concatenation\<close>

lemma split_on_append:
  "split_on d (x @ y) = butlast (split_on d x) @ split_on d (last (split_on d x) @ y)"
proof (induction x)
  case (Cons a x)
  have "split_on d x \<noteq> []" by simp
  with Cons show ?case
    by (cases "split_on d x"; cases "split_on d (last (split_on d x) @ y)") (auto split: list.splits)
qed simp

lemma complete_lines_append:
  "complete_lines (x @ y) = complete_lines x @ complete_lines (open_line x @ y)"
  by (simp add: complete_lines_def open_line_def split_on_append [of _ x y] butlast_append)

lemma open_line_append: "open_line (x @ y) = open_line (open_line x @ y)"
  by (simp add: open_line_def split_on_append [of _ x y])

lemma decoded_events_append: "decoded_events f (x @ y) = decoded_events f x @ decoded_events f (open_line x @ y)"
  by (simp add: decoded_events_def complete_lines_append [of x y])

lemma noise_lines_append: "noise_lines f (x @ y) = noise_lines f x + noise_lines f (open_line x @ y)"
  by (simp add: noise_lines_def complete_lines_append [of x y])

lemma open_line_no_newline: "CHR 0x0A \<notin> set (open_line s)"
proof -
  have "last (split_on (CHR 0x0A) s) \<in> set (split_on (CHR 0x0A) s)" by (rule last_in_set) simp
  from split_on_pieces [OF this] show ?thesis by (simp add: open_line_def)
qed

lemma acceptable_lines_append:
  "acceptable_lines f m (x @ y) \<longleftrightarrow> acceptable_lines f m x \<and> acceptable_lines f m (open_line x @ y)"
proof -
  have "length (open_line x) \<le> m" if "acceptable_lines f m (open_line x @ y)"
    using first_line_length [OF open_line_no_newline, of x y] that
    by (auto simp: acceptable_lines_def list_all_iff)
  then show ?thesis
    by (auto simp: acceptable_lines_def complete_lines_append [of x y] open_line_append [of x y])
qed

subsection \<open>The standard output thread\<close>

lemma tracked_append:
  "tracked t (a @ b) = tracked t a @ (case track_all t a of None \<Rightarrow> [] | Some t1 \<Rightarrow> tracked t1 b)"
  by (induction a arbitrary: t) (auto split: prod.splits sum.splits)

lemma track_all_append: "track_all t (a @ b) = Option.bind (track_all t a) (\<lambda>t1. track_all t1 b)"
  by (induction a arbitrary: t) (auto split: prod.splits sum.splits)

inductive_cases accepted_run_snocE: "accepted_run t (es @ [e]) t1"

lemma track_all_run: "track_all t es = Some t1 \<longleftrightarrow> accepted_run t es t1"
proof (induction es arbitrary: t1 rule: rev_induct)
  case Nil
  then show ?case by (auto intro: accepted_run.empty elim: accepted_run.cases)
next
  case (snoc e es)
  have "accepted_run t (es @ [e]) t1 \<longleftrightarrow> (\<exists>t2 s. accepted_run t es t2 \<and> observe t2 e = (t1, Inr s))"
    by (auto intro: accepted_run.snoc elim!: accepted_run_snocE)
  moreover have "track_all t2 [e] = Some t1 \<longleftrightarrow> (\<exists>s. observe t2 e = (t1, Inr s))" for t2
    by (cases "observe t2 e"; cases "snd (observe t2 e)") auto
  ultimately show ?case
    using snoc by (simp add: track_all_append bind_eq_Some_conv del: track_all.simps)
qed

fun remaining_events :: "lifecycle_state \<Rightarrow> nat" where
  "remaining_events LsAwaitingStart = 4"
| "remaining_events LsStarting = 3"
| "remaining_events LsListening = 2"
| "remaining_events LsStopping = 1"
| "remaining_events s = 0"

lemma observe_remaining:
  assumes "observe t e = (t1, Inr s)"
  shows "remaining_events (lt_state t1) < remaining_events (lt_state t)"
  using assms
proof (cases rule: observe_cases)
  case (error x)
  then show ?thesis by (cases "lt_state t") (auto simp: is_terminal_def)
qed auto

lemma length_tracked: "length (tracked t es) \<le> remaining_events (lt_state t)"
proof (induction es arbitrary: t)
  case (Cons e es)
  show ?case
  proof (cases "observe t e")
    case (Pair t1 r)
    show ?thesis
    proof (cases r)
      case (Inr s)
      with Pair Cons [of t1] observe_remaining [of t e t1 s] show ?thesis by simp
    qed (simp add: Pair)
  qed
qed simp

lemma send_events_tracked:
  "case track_all t es of
     Some t1 \<Rightarrow> send_events (\<lambda>_. True) t es sent = (t1, sent @ tracked t es, True)
   | None \<Rightarrow> \<exists>t1 e. send_events (\<lambda>_. True) t es sent = (t1, sent @ tracked t es @ [ProtocolFailure e], False)"
proof (induction es arbitrary: t sent)
  case (Cons e es)
  show ?case
  proof (cases "observe t e")
    case (Pair t1 r)
    show ?thesis
    proof (cases r)
      case (Inr s)
      with Pair Cons [of t1 "sent @ [Event s (monitor_event_of e)]"] show ?thesis
        by (auto split: option.splits)
    qed (simp add: Pair send_def)
  qed
qed simp

text \<open>What the thread sends for a stream, however it is split into reads: a stream whose lines
  are acceptable and whose events the tracker accepts is sent event by event and ends with the
  final state; any other is cut off by a protocol failure.\<close>

definition clean_stream :: "(bytes \<Rightarrow> raw_event option) \<Rightarrow> nat \<Rightarrow> lifecycle_tracker \<Rightarrow> bytes \<Rightarrow> bool" where
  "clean_stream f m t s \<longleftrightarrow>
     acceptable_lines f m s \<and> open_line s = [] \<and> track_all t (decoded_events f s) \<noteq> None"

lemma monitor_loop_messages:
  assumes "decoder_inv d" and "\<not> ed_poisoned d" and "[] \<notin> set chunks"
  shows "if clean_stream f (ed_maximum_line_bytes d) t (ed_buffer d @ concat chunks)
    then monitor_loop f (\<lambda>_. True) d t (map Some chunks) sent =
      sent @ tracked t (decoded_events f (ed_buffer d @ concat chunks))
        @ [StdoutEnded (lt_state (the (track_all t (decoded_events f (ed_buffer d @ concat chunks)))))
             (saturating_add u64_max (ed_ignored_lines d) (noise_lines f (ed_buffer d @ concat chunks)))]
    else \<exists>es e. monitor_loop f (\<lambda>_. True) d t (map Some chunks) sent = sent @ es @ [ProtocolFailure e]
      \<and> prefix es (tracked t (decoded_events f (ed_buffer d @ concat chunks)))"
  using assms
proof (induction chunks arbitrary: d t sent)
  case Nil
  then have "CHR 0x0A \<notin> set (ed_buffer d)" "length (ed_buffer d) \<le> ed_maximum_line_bytes d"
      "ed_ignored_lines d \<le> u64_max"
    by (auto simp: decoder_inv_def)
  then show ?case
    using Nil.prems(2)
    by (simp add: clean_stream_def line_defs lines_no_newline monitor_finish_def decoder_finish_def send_def
        saturating_add_def)
next
  case (Cons c chunks)
  let ?x = "ed_buffer d @ c" and ?m = "ed_maximum_line_bytes d" and ?rest = "concat chunks"
  have inv: "CHR 0x0A \<notin> set (ed_buffer d)" "length (ed_buffer d) \<le> ?m" "ed_ignored_lines d \<le> u64_max"
    using Cons.prems(1) by (auto simp: decoder_inv_def)
  obtain d1 r where push: "push_bytes f d c [] = (d1, r)" by (cases "push_bytes f d c []")
  note lines = push_bytes_lines [OF inv, of f c "[]"]
  note app = decoded_events_append [of f ?x ?rest] noise_lines_append [of f ?x ?rest]
    acceptable_lines_append [of f ?m ?x ?rest] open_line_append [of ?x ?rest]
  show ?case
  proof (cases r)
    case (Inl e)
    then have "\<not> acceptable_lines f ?m ?x" using lines push by auto
    then have "\<not> clean_stream f ?m t (?x @ ?rest)" by (simp add: clean_stream_def app(3) del: append_assoc)
    moreover have "monitor_loop f (\<lambda>_. True) d t (map Some (c # chunks)) sent = sent @ [] @ [ProtocolFailure e]"
      using Inl push Cons.prems by (auto simp: decoder_push_def send_def)
    ultimately show ?thesis by (auto intro!: exI [of _ "[]"])
  next
    case (Inr es)
    then have ok: "acceptable_lines f ?m ?x" "es = decoded_events f ?x"
        "d1 = d\<lparr>ed_buffer := open_line ?x,
                ed_ignored_lines := saturating_add u64_max (ed_ignored_lines d) (noise_lines f ?x)\<rparr>"
      using lines [of d1 es] push by auto
    have inv1: "decoder_inv d1" "\<not> ed_poisoned d1" "[] \<notin> set chunks"
      using push_bytes_inv [OF push Cons.prems(1,2)] ok(3) Cons.prems(2,3) by auto
    have sat: "saturating_add u64_max (saturating_add u64_max a b) n = saturating_add u64_max a (b + n)" for a b n
      by (simp add: saturating_add_def)
    have step: "monitor_loop f (\<lambda>_. True) d t (map Some (c # chunks)) sent =
        (case send_events (\<lambda>_. True) t es sent of
           (t1, sent1, go_on) \<Rightarrow> if go_on then monitor_loop f (\<lambda>_. True) d1 t1 (map Some chunks) sent1 else sent1)"
      using Inr push Cons.prems by (auto simp: decoder_push_def)
    show ?thesis
    proof (cases "track_all t es")
      case None
      then have "\<not> clean_stream f ?m t (?x @ ?rest)"
        using ok(2) by (simp add: clean_stream_def app(1) track_all_append del: append_assoc)
      moreover obtain e where "monitor_loop f (\<lambda>_. True) d t (map Some (c # chunks)) sent
          = sent @ tracked t es @ [ProtocolFailure e]"
        using send_events_tracked [of t es sent] None step by auto
      moreover have "prefix (tracked t es) (tracked t (decoded_events f (?x @ ?rest)))"
        using ok(2) by (simp add: app(1) tracked_append del: append_assoc)
      ultimately show ?thesis by auto
    next
      case (Some t1)
      then have loop: "monitor_loop f (\<lambda>_. True) d t (map Some (c # chunks)) sent =
          monitor_loop f (\<lambda>_. True) d1 t1 (map Some chunks) (sent @ tracked t es)"
        using send_events_tracked [of t es sent] step by simp
      have events: "tracked t (decoded_events f (?x @ ?rest))
          = tracked t es @ tracked t1 (decoded_events f (ed_buffer d1 @ ?rest))"
        using Some ok by (simp add: app(1) tracked_append del: append_assoc)
      have all: "track_all t (decoded_events f (?x @ ?rest)) = track_all t1 (decoded_events f (ed_buffer d1 @ ?rest))"
        using Some ok by (simp add: app(1) track_all_append del: append_assoc)
      have clean: "clean_stream f ?m t (?x @ ?rest)
          \<longleftrightarrow> clean_stream f (ed_maximum_line_bytes d1) t1 (ed_buffer d1 @ ?rest)"
        using ok by (simp add: clean_stream_def all app(3,4) del: append_assoc)
      show ?thesis
        using Cons.IH [OF inv1, of t1 "sent @ tracked t es"] ok(3) clean loop events all app(2)
        by (auto simp: sat split: if_splits)
    qed
  qed
qed

subsection \<open>Readiness\<close>

lemma decimal_three:
  assumes "100 \<le> n" and "n < 1000"
  shows "decimal n = [char_of (48 + n div 100), char_of (48 + n div 10 mod 10), char_of (48 + n mod 10)]"
proof -
  have "10 \<le> n div 10" "n div 10 div 10 < 10" "n div 10 div 10 = n div 100"
    using assms by (simp_all add: div_mult2_eq [symmetric] div_le_mono [of 100 n 10, simplified] less_mult_imp_div_less)
  then show ?thesis
    using assms by (simp add: decimal.simps [of n] decimal.simps [of "n div 10"] decimal.simps [of "n div 100"])
qed

lemma digit_char: "is_ascii_digit c \<Longrightarrow> char_of (48 + (byte c - 48)) = c"
  by (simp add: is_ascii_digit_def byte_def)

lemma digit_byte: "n < 10 \<Longrightarrow> byte (char_of (48 + n)) = 48 + n"
  by (simp add: byte_def)

lemma three_digits:
  fixes a b c :: nat
  assumes "a < 10" "b < 10" "c < 10"
  shows "(a * 100 + b * 10 + c) div 100 = a" and "(a * 100 + b * 10 + c) div 10 = a * 10 + b"
    and "(a * 100 + b * 10 + c) mod 10 = c" and "a * 100 + b * 10 + c < 1000"
proof -
  show "(a * 100 + b * 10 + c) div 100 = a" "(a * 100 + b * 10 + c) div 10 = a * 10 + b"
    by (rule div_nat_eqI; use assms in simp)+
  have "a * 100 + b * 10 + c = c + (a * 10 + b) * 10" by simp
  then show "(a * 100 + b * 10 + c) mod 10 = c" using assms(3) by (metis mod_less mod_mult_self1)
qed (use assms in linarith)

lemma status_digits:
  assumes "is_ascii_digit a" "is_ascii_digit b" "is_ascii_digit c"
    and "n = (byte a - 48) * 100 + (byte b - 48) * 10 + (byte c - 48)" and "200 \<le> n"
  shows "decimal n = [a, b, c] \<and> n < 1000"
proof -
  let ?a = "byte a - 48" and ?b = "byte b - 48" and ?c = "byte c - 48"
  have small: "?a < 10" "?b < 10" "?c < 10"
    using assms(1-3) by (auto simp: is_ascii_digit_def)
  then have "n div 100 = ?a" "n div 10 = ?a * 10 + ?b" "n mod 10 = ?c" "n < 1000"
    unfolding assms(4) using three_digits by blast+
  then show ?thesis
    using decimal_three [of n] assms(1-3,5) small by (simp add: digit_char)
qed

lemma success_status_line_iff: "success_status_line line \<longleftrightarrow> ready_line line"
proof -
  define status :: "bytes \<Rightarrow> bool" where "status rest \<longleftrightarrow>
      (\<exists>code tl. rest = decimal code @ tl \<and> 200 \<le> code \<and> code < 400 \<and> (tl = [] \<or> is_ascii_whitespace (hd tl)))" for rest
  have accepts: "\<not> (length rest < 3 \<or> \<not> list_all is_ascii_digit (take 3 rest))
      \<and> (let n = (byte (rest ! 0) - 48) * 100 + (byte (rest ! 1) - 48) * 10 + (byte (rest ! 2) - 48)
         in 200 \<le> n \<and> n < 400 \<and> (length rest \<le> 3 \<or> is_ascii_whitespace (rest ! 3)))
      \<longleftrightarrow> status rest" (is "?code rest \<longleftrightarrow> _") for rest
  proof
    assume code: "?code rest"
    then obtain a b c tl where rest: "rest = a # b # c # tl"
      by (cases rest; cases "drop 1 rest"; cases "drop 2 rest") auto
    define n where "n = (byte a - 48) * 100 + (byte b - 48) * 10 + (byte c - 48)"
    have "is_ascii_digit a" "is_ascii_digit b" "is_ascii_digit c" "200 \<le> n" "n < 400"
        "tl = [] \<or> is_ascii_whitespace (hd tl)"
      using code by (cases tl; auto simp: rest n_def Let_def numeral_3_eq_3)+
    with status_digits [OF this(1-3) n_def this(4)] show "status rest"
      unfolding status_def rest by (intro exI [of _ n] exI [of _ tl]) simp
  next
    assume "status rest"
    then obtain n tl where n: "rest = decimal n @ tl" "200 \<le> n" "n < 400" "tl = [] \<or> is_ascii_whitespace (hd tl)"
      unfolding status_def by blast
    have digits: "n div 100 < 10" "n div 10 mod 10 < 10" "n mod 10 < 10" using n(3) by simp_all
    have "n div 100 = n div 10 div 10" by (simp add: div_mult2_eq [symmetric])
    then have value_n: "n div 100 * 100 + (n div 10 mod 10) * 10 + n mod 10 = n"
      using div_mult_mod_eq [of n 10] div_mult_mod_eq [of "n div 10" 10] by linarith
    have "rest = char_of (48 + n div 100) # char_of (48 + n div 10 mod 10) # char_of (48 + n mod 10) # tl"
      using n decimal_three [of n] by simp
    then show "?code rest"
      using n(2-4) value_n digit_byte [OF digits(1)] digit_byte [OF digits(2)] digit_byte [OF digits(3)] digits
      by (cases tl; auto simp: Let_def is_ascii_digit_def numeral_3_eq_3)
  qed
  have "success_status_line line \<longleftrightarrow>
      (\<exists>version rest. version \<in> {''HTTP/1.0 '', ''HTTP/1.1 ''} \<and> line = version @ rest \<and> status rest)"
    unfolding success_status_line_def accepts [symmetric]
    by (auto simp: or_else_def strip_prefix_def prefix_def split: option.splits)
  then show ?thesis unfolding ready_line_def status_def by auto
qed

lemma read_status_line_iff:
  "read_status_line reads acc \<longleftrightarrow>
     (\<exists>bs more. reads = map Some bs @ more \<and> bs \<noteq> [] \<and> suffix crlf (acc @ bs)
        \<and> (\<forall>i. 0 < i \<and> i < length bs \<longrightarrow> \<not> suffix crlf (acc @ take i bs))
        \<and> length (acc @ bs) \<le> STATUS_LINE_MAX_BYTES
        \<and> success_status_line (take (length (acc @ bs) - 2) (acc @ bs)))"
  (is "_ \<longleftrightarrow> (\<exists>bs more. ?ok reads acc bs more)")
proof (induction reads acc rule: read_status_line.induct)
  case (3 b reads acc)
  have first: "(\<exists>bs more. ?ok (Some b # reads) acc bs more) \<longleftrightarrow>
      (\<exists>bs more. ?ok (Some b # reads) acc (b # bs) more)"
  proof (intro iffI; elim exE)
    fix bs more assume ok: "?ok (Some b # reads) acc bs more"
    then obtain cs where "bs = b # cs" by (cases bs) auto
    with ok show "\<exists>bs more. ?ok (Some b # reads) acc (b # bs) more" by blast
  qed blast
  show ?case
  proof (cases "length acc < STATUS_LINE_MAX_BYTES \<and> \<not> suffix crlf (acc @ [b])")
    case True
    have later: "(\<forall>i. 0 < i \<and> i < length (b # bs) \<longrightarrow> \<not> suffix crlf (acc @ take i (b # bs))) \<longleftrightarrow>
        (\<forall>i. 0 < i \<and> i < length bs \<longrightarrow> \<not> suffix crlf ((acc @ [b]) @ take i bs))" (is "?l \<longleftrightarrow> ?r") for bs
    proof
      assume l: ?l
      show ?r
      proof (intro allI impI)
        fix i assume "0 < i \<and> i < length bs"
        with l [rule_format, of "Suc i"] show "\<not> suffix crlf ((acc @ [b]) @ take i bs)" by simp
      qed
    next
      assume r: ?r
      show ?l
      proof (intro allI impI)
        fix i assume i: "0 < i \<and> i < length (b # bs)"
        then obtain j where "i = Suc j" by (auto simp: gr0_conv_Suc)
        with i r [rule_format, of j] True show "\<not> suffix crlf (acc @ take i (b # bs))" by (cases j) simp_all
      qed
    qed
    have "?ok (Some b # reads) acc (b # bs) more \<longleftrightarrow> ?ok reads (acc @ [b]) bs more" for bs more
      unfolding later using True by (cases bs) auto
    then have same: "(\<exists>bs more. ?ok (Some b # reads) acc (b # bs) more) \<longleftrightarrow> (\<exists>bs more. ?ok reads (acc @ [b]) bs more)"
      by (simp only:)
    have "read_status_line (Some b # reads) acc \<longleftrightarrow> read_status_line reads (acc @ [b])"
      using True by (simp only: read_status_line.simps Let_def if_True if_False simp_thms)
    then show ?thesis unfolding first same using 3 True by blast
  next
    case False
    have "?ok (Some b # reads) acc (b # bs) more \<longleftrightarrow>
        length acc < STATUS_LINE_MAX_BYTES \<and> bs = [] \<and> more = reads
        \<and> success_status_line (take (length (acc @ [b]) - 2) (acc @ [b]))"
      if "length acc < STATUS_LINE_MAX_BYTES \<longrightarrow> suffix crlf (acc @ [b])" for bs more
      using that by (cases bs) (auto dest!: spec [of _ "Suc 0"])
    note only = this
    show ?thesis
    proof (cases "length acc < STATUS_LINE_MAX_BYTES")
      case True
      with only False show ?thesis unfolding first by simp
    next
      case long: False
      then have "\<not> ?ok (Some b # reads) acc (b # bs) more" for bs more by simp
      with long show ?thesis unfolding first by simp
    qed
  qed
qed (auto simp: Cons_eq_append_conv)

lemma first_crlf:
  "(\<forall>i. 0 < i \<and> i < length (line @ crlf) \<longrightarrow> \<not> suffix crlf (take i (line @ crlf)))
     \<longleftrightarrow> \<not> contains_sub crlf (line @ [CHR 0x0D])"
proof -
  let ?cr = "line @ [CHR 0x0D]"
  have cut: "take i (line @ crlf) = take i ?cr" if "i \<le> length ?cr" for i
  proof -
    have "line @ crlf = ?cr @ [CHR 0x0A]" by (simp add: crlf_def)
    then show ?thesis using that by (simp del: append_assoc)
  qed
  have short: "i < length (line @ crlf) \<longleftrightarrow> i \<le> length ?cr" for i by (auto simp: crlf_def)
  show ?thesis
  proof
    assume none: "\<forall>i. 0 < i \<and> i < length (line @ crlf) \<longrightarrow> \<not> suffix crlf (take i (line @ crlf))"
    show "\<not> contains_sub crlf ?cr"
    proof
      assume "contains_sub crlf ?cr"
      then obtain a b where ab: "?cr = (a @ crlf) @ b" by (auto simp: contains_sub_iff)
      then have len: "length (a @ crlf) \<le> length ?cr" "0 < length (a @ crlf)" by (simp_all add: crlf_def)
      have "take (length (a @ crlf)) ?cr = a @ crlf" unfolding ab by simp
      then have "suffix crlf (take (length (a @ crlf)) ?cr)" by (simp add: suffix_def)
      with none [rule_format, of "length (a @ crlf)"] len show False by (simp only: short cut simp_thms True_implies_equals)
    qed
  next
    assume none: "\<not> contains_sub crlf ?cr"
    show "\<forall>i. 0 < i \<and> i < length (line @ crlf) \<longrightarrow> \<not> suffix crlf (take i (line @ crlf))"
    proof (intro allI impI notI)
      fix i assume "0 < i \<and> i < length (line @ crlf)" and suf: "suffix crlf (take i (line @ crlf))"
      then have "take i (line @ crlf) = take i ?cr" by (simp only: short cut)
      with suf obtain a where "take i ?cr = a @ crlf" by (auto simp: suffix_def)
      then have "?cr = a @ crlf @ drop i ?cr" by (metis append.assoc append_take_drop_id)
      with none show False by (auto simp: contains_sub_iff)
    qed
  qed
qed

lemma read_response_line:
  "read_status_line reads [] \<longleftrightarrow>
     (\<exists>line more. reads = map Some (line @ crlf) @ more
        \<and> \<not> contains_sub crlf (line @ [CHR 0x0D]) \<and> length line + 2 \<le> STATUS_LINE_MAX_BYTES
        \<and> ready_line line)"
proof -
  let ?first = "\<lambda>bs. \<forall>i. 0 < i \<and> i < length bs \<longrightarrow> \<not> suffix crlf (take i bs)"
  have "read_status_line reads [] \<longleftrightarrow>
      (\<exists>line more. reads = map Some (line @ crlf) @ more \<and> ?first (line @ crlf)
         \<and> length (line @ crlf) \<le> STATUS_LINE_MAX_BYTES
         \<and> success_status_line (take (length (line @ crlf) - 2) (line @ crlf)))"
    unfolding read_status_line_iff append_Nil suffix_def [of crlf "_ :: bytes"]
    by (rule iffI; elim exE conjE; hypsubst?; intro exI conjI) (assumption | rule refl | simp add: crlf_def)+
  moreover have "take (length (line @ crlf) - 2) (line @ crlf) = line" for line
    by (simp add: crlf_def)
  moreover have "length (line @ crlf) \<le> STATUS_LINE_MAX_BYTES \<longleftrightarrow> length line + 2 \<le> STATUS_LINE_MAX_BYTES" for line
    by (simp add: crlf_def)
  ultimately show ?thesis by (simp only: first_crlf success_status_line_iff)
qed

section \<open>Properties\<close>

text \<open>C40: What the monitor thread reports about the launcher's output, however the output is split
  into reads.  Exactly when every line is within the bound and is noise or a valid event, no line is
  left unfinished, and the events form an accepted lifecycle, the messages are those events in
  order with the states they lead to, and then the final state with the number of noise lines.
  Any other output ends with a protocol failure, after nothing but accepted events in order.  At
  most four events are ever reported.\<close>

theorem monitor_stdout_messages:
  assumes "tracker_new port True = Inr t0" and "[] \<notin> set chunks" and "s = concat chunks"
    and "ms = monitor_stdout f (\<lambda>_. True) port (map Some chunks)"
  shows "(if acceptable_lines f DEFAULT_MAX_LINE_BYTES s \<and> open_line s = []
            \<and> (\<exists>t. accepted_run t0 (decoded_events f s) t)
          then \<exists>t. accepted_run t0 (decoded_events f s) t
            \<and> ms = tracked t0 (decoded_events f s)
                @ [StdoutEnded (lt_state t) (min u64_max (noise_lines f s))]
          else \<exists>es e. ms = es @ [ProtocolFailure e] \<and> prefix es (tracked t0 (decoded_events f s)))
    \<and> length ms \<le> 5"
proof -
  have d: "decoder_inv decoder_default" "\<not> ed_poisoned decoder_default" "ed_buffer decoder_default = []"
      "ed_maximum_line_bytes decoder_default = DEFAULT_MAX_LINE_BYTES" "ed_ignored_lines decoder_default = 0"
    by (simp_all add: decoder_inv_def decoder_default_def DEFAULT_MAX_LINE_BYTES_def)
  have clean: "clean_stream f DEFAULT_MAX_LINE_BYTES t0 s \<longleftrightarrow>
      acceptable_lines f DEFAULT_MAX_LINE_BYTES s \<and> open_line s = [] \<and> (\<exists>t. accepted_run t0 (decoded_events f s) t)"
    by (simp add: clean_stream_def track_all_run [symmetric])
  have "remaining_events (lt_state t0) = 4"
    using assms(1) by (auto simp: tracker_new_def split: if_splits)
  then have bound4: "length (tracked t0 (decoded_events f s)) \<le> 4"
    using length_tracked [of t0 "decoded_events f s"] by simp
  have ms: "ms = monitor_loop f (\<lambda>_. True) decoder_default t0 (map Some chunks) []"
    by (simp add: assms(1,4) monitor_stdout_def)
  note messages = monitor_loop_messages [OF d(1,2) assms(2), of f t0 "[]", folded ms,
      unfolded d(3-5) append_Nil assms(3) [symmetric] saturating_add_def add_0]
  show ?thesis
  proof (cases "clean_stream f DEFAULT_MAX_LINE_BYTES t0 s")
    case True
    then obtain t where t: "track_all t0 (decoded_events f s) = Some t"
      by (auto simp: clean_stream_def)
    then have "accepted_run t0 (decoded_events f s) t" by (simp add: track_all_run)
    with True t messages bound4 show ?thesis unfolding clean [symmetric] by auto
  next
    case False
    then obtain es e where es: "ms = es @ [ProtocolFailure e]" "prefix es (tracked t0 (decoded_events f s))"
      using messages by auto
    then have "length ms \<le> 5" using bound4 prefix_length_le [OF es(2)] by simp
    with False es show ?thesis unfolding clean [symmetric] by auto
  qed
qed

text \<open>The runtime counts as ready exactly when the connection and its timeouts succeed, the request
  carrying the upstream secret is written, and the response begins with a line of at most 510 bytes
  before its first line end that is an HTTP/1.0 or HTTP/1.1 status line with a status from 200
  to 399.\<close>

lemma authenticated_http_ready_iff:
  "authenticated_http_ready a port s = Inr True \<longleftrightarrow>
     ha_connect a \<and> ha_set_read_timeout a \<and> ha_set_write_timeout a
     \<and> ha_write_all a (readiness_request port s) \<and> ha_flush a
     \<and> (\<exists>line more. ha_reads a (readiness_request port s) = map Some (line @ crlf) @ more
          \<and> \<not> contains_sub crlf (line @ [CHR 0x0D]) \<and> length line + 2 \<le> STATUS_LINE_MAX_BYTES
          \<and> ready_line line)"
  unfolding read_response_line [symmetric] by (auto simp: authenticated_http_ready_def Let_def)

section \<open>Witnesses\<close>

definition example_start :: raw_event where
  "example_start = example_raw_event\<lparr>re_event := ''starting'', re_graceful_stop := Some True\<rparr>"

definition example_lines :: "bytes \<Rightarrow> raw_event option" where
  "example_lines s =
     (if s = ''{}'' then Some example_raw_event else if s = ''[]'' then Some example_start else None)"

definition example_chunks :: "bytes list" where
  "example_chunks =
     [''noise'' @ [CHR 0x0A] @ EVENT_PREFIX, ''[]'' @ [CHR 0x0D, CHR 0x0A, CHR ''R''],
      drop 1 EVENT_PREFIX @ ''{}'' @ [CHR 0x0A]]"

lemma example_messages:
  "monitor_stdout example_lines (\<lambda>_. True) 3838 (map Some example_chunks) =
     [Event LsStarting (MonitorStarting 41), Event LsListening (MonitorListening 41), StdoutEnded LsListening 1]"
  by code_simp

lemma monitor_stdout_messages_witness:
  "length [Event LsStarting (MonitorStarting 41), Event LsListening (MonitorListening 41),
      StdoutEnded LsListening 1] \<le> 5
   \<and> (\<exists>t0. tracker_new 3838 True = Inr t0
       \<and> prefix [Event LsStarting (MonitorStarting 41)] (tracked t0 (decoded_events example_lines (concat example_chunks))))"
proof -
  obtain t0 where t0: "tracker_new 3838 True = Inr t0" by (simp add: tracker_new_def)
  have "[] \<notin> set example_chunks" by (simp add: example_chunks_def EVENT_PREFIX_def)
  from monitor_stdout_messages [OF t0 this refl example_messages [symmetric]] t0 show ?thesis
    by (auto simp: append_eq_Cons_conv split: if_splits) (metis Cons_prefix_Cons Nil_prefix)
qed

end
