(* ===== verification/Resource_Bundle.thy ===== *)
theory Resource_Bundle
  imports Rust_Prelude
begin

text \<open>
  \<open>crates/resource-bundle/src/lib.rs\<close>: fail-closed validation of a prepared resource bundle.  A
  \<open>PathBuf\<close> is the list of its components, the root with its prefix first; the code only ever
  appends components that hold no separator and no drive colon, for which \<open>Path::join\<close> and
  \<open>push\<close> append one component.  The file system, \<open>serde_json\<close> for the strict manifest
  and \<open>Url::parse\<close> are the fields of \<open>bundle_env\<close>; what a file holds when it is read is independent
  of the length its metadata reported.
\<close>

section \<open>Definitions\<close>

subsection \<open>The manifest\<close>

record app_manifest =
  am_name :: string
  am_app_type :: string
  am_path :: string

record runtime_provenance =
  rp_registry :: string
  rp_metadata_source :: string
  rp_artifact_url :: string
  rp_sha256 :: string
  rp_archive_format :: string
  rp_cache_hit :: bool

record runtime_manifest =
  rm_path :: string
  rm_rscript :: string
  rm_library :: string
  rm_platform :: string
  rm_r_version :: "string option"
  rm_source :: string
  rm_provenance :: "runtime_provenance option"

record event_stream_manifest =
  es_format :: string
  es_destination :: string
  es_prefix :: string

record authentication_manifest =
  au_scheme :: string
  au_header :: string
  au_scope :: "string list"
  au_token_transport :: string
  au_token_in_url :: bool
  au_minimum_shiny_version :: string

record readiness_manifest =
  rd_strategy :: string
  rd_starting_event :: string

record launcher_manifest =
  lm_script :: string
  lm_host :: string
  lm_port :: string
  lm_token :: string
  lm_control :: string
  lm_protocol_version :: string
  lm_event_stream :: event_stream_manifest
  lm_network_token_enforced :: bool
  lm_authentication :: authentication_manifest
  lm_readiness :: readiness_manifest

record dependency_constraint =
  dc_package :: string
  dc_requirement :: string

record dependency_manifest =
  dm_installed :: bool
  dm_strategy :: string
  dm_packages :: "string list"
  dm_locked_r_version :: "string option"
  dm_r_constraint :: "string option"
  dm_constraints :: "dependency_constraint list"
  dm_constraints_verified :: bool

record created_by_manifest =
  cb_package :: string
  cb_version :: string

record manifest =
  mf_schema_version :: string
  mf_bundle_type :: string
  mf_app :: app_manifest
  mf_runtime :: runtime_manifest
  mf_launcher :: launcher_manifest
  mf_dependencies :: dependency_manifest
  mf_created_by :: created_by_manifest

subsection \<open>Errors and the file system\<close>

datatype fs_error = FsNotFound | FsOther

datatype bundle_error =
    InvalidBundleRoot | InvalidManifestJson | UnsupportedResourceContract
  | UnsupportedLauncherContract | UnsupportedRuntimeContract | InvalidRuntimeProvenance
  | UnsupportedApplicationLayout | ApplicationLayoutMismatch | IncompleteDependencies
  | InvalidDependencies | InvalidCreator | InvalidManifestText | UnsafeManifestPath string
  | ReparsePoint string | WrongResourceType string | ResourceTooLarge string
  | InvalidLauncherText | LauncherContractMismatch | FileSystem string fs_error

datatype app_type = SingleFile | Split

datatype runtime_source = Explicit | Registry

datatype required_kind = KindFile | KindDirectory

type_synonym path = "string list"

record metadata =
  md_is_symlink :: bool
  md_is_file :: bool
  md_is_dir :: bool
  md_file_attributes :: "32 word"
  md_len :: nat

record parsed_url =
  pu_scheme :: string
  pu_has_host :: bool
  pu_username :: string
  pu_password :: "string option"
  pu_query :: "string option"
  pu_fragment :: "string option"

record bundle_env =
  be_is_absolute :: "path \<Rightarrow> bool"
  be_symlink_metadata :: "path \<Rightarrow> fs_error + metadata"
  be_canonicalize :: "path \<Rightarrow> fs_error + path"
  be_read :: "path \<Rightarrow> fs_error + bytes"
  be_from_slice :: "bytes \<Rightarrow> manifest option"
  be_url_parse :: "string \<Rightarrow> parsed_url option"

definition path_join :: "path \<Rightarrow> string \<Rightarrow> path" where
  "path_join p leaf = p @ [leaf]"

definition path_parent :: "path \<Rightarrow> path option" where
  "path_parent p = (if length p \<le> 1 then None else Some (butlast p))"

definition path_starts_with :: "path \<Rightarrow> path \<Rightarrow> bool" where
  "path_starts_with p base = prefix base p"

subsection \<open>Text checks\<close>

definition MANIFEST_FILE :: string where "MANIFEST_FILE = ''rpackit.json''"
definition RESOURCES_DIRECTORY :: string where "RESOURCES_DIRECTORY = ''resources''"
definition MANIFEST_MAX_BYTES :: nat where "MANIFEST_MAX_BYTES = 256 * 1024"
definition LAUNCHER_MAX_BYTES :: nat where "LAUNCHER_MAX_BYTES = 256 * 1024"
definition MAX_PACKAGES :: nat where "MAX_PACKAGES = 4096"
definition MAX_CONSTRAINTS :: nat where "MAX_CONSTRAINTS = 4096"
definition MAX_SHORT_TEXT_BYTES :: nat where "MAX_SHORT_TEXT_BYTES = 256"
definition MAX_REQUIREMENT_BYTES :: nat where "MAX_REQUIREMENT_BYTES = 512"
definition MAX_URL_BYTES :: nat where "MAX_URL_BYTES = 4096"

definition safe_posix_components :: "string \<Rightarrow> string list option" where
  "safe_posix_components value =
     (if value = [] \<or> 1024 < length value \<or> prefix ''/'' value \<or> suffix ''/'' value
         \<or> CHR 0x5C \<in> set value \<or> CHR '':'' \<in> set value \<or> has_control value
      then None
      else
        let components = split_on (CHR ''/'') value in
        if list_ex (\<lambda>c. c = [] \<or> c = ''.'' \<or> c = ''..'') components then None
        else Some components)"

definition valid_leaf :: "string \<Rightarrow> bool" where
  "valid_leaf value =
     (value \<noteq> [] \<and> length value \<le> MAX_SHORT_TEXT_BYTES
      \<and> \<not> list_ex (\<lambda>c. c = CHR ''/'' \<or> c = CHR 0x5C \<or> c = CHR '':'') value
      \<and> value \<noteq> ''.'' \<and> value \<noteq> ''..'' \<and> \<not> has_control value)"

definition valid_package_name :: "string \<Rightarrow> bool" where
  "valid_package_name value =
     ((case value of [] \<Rightarrow> False
       | first # rest \<Rightarrow> is_ascii_alphabetic first
           \<and> list_all (\<lambda>b. is_ascii_alphanumeric b \<or> b = CHR ''.'') rest)
      \<and> length value \<le> MAX_SHORT_TEXT_BYTES)"

definition validate_short_text :: "string \<Rightarrow> bundle_error + unit" where
  "validate_short_text value =
     (if value = [] \<or> MAX_SHORT_TEXT_BYTES < length value \<or> has_control value
      then Inl InvalidManifestText else Inr ())"

definition valid_version_text :: "string \<Rightarrow> bool" where
  "valid_version_text value =
     (value \<noteq> [] \<and> length value \<le> MAX_SHORT_TEXT_BYTES
      \<and> list_all (\<lambda>b. is_ascii_alphanumeric b
                     \<or> b \<in> {CHR ''.'', CHR ''-'', CHR ''+'', CHR ''_''}) value)"

definition valid_requirement :: "string \<Rightarrow> bool" where
  "valid_requirement value =
     (value \<noteq> [] \<and> length value \<le> MAX_REQUIREMENT_BYTES
      \<and> list_all (\<lambda>b. b = CHR '' '' \<or> is_ascii_graphic b) value)"

definition validate_optional_requirement :: "string option \<Rightarrow> bundle_error + unit" where
  "validate_optional_requirement value =
     (case value of
        None \<Rightarrow> Inr ()
      | Some r \<Rightarrow> if \<not> valid_requirement r then Inl InvalidDependencies else Inr ())"

definition valid_https_url :: "(string \<Rightarrow> parsed_url option) \<Rightarrow> string \<Rightarrow> bool" where
  "valid_https_url url_parse value =
     (if value = [] \<or> MAX_URL_BYTES < length value \<or> has_control value then False
      else
        case url_parse value of
          None \<Rightarrow> False
        | Some url \<Rightarrow>
            pu_scheme url = ''https'' \<and> pu_has_host url \<and> pu_username url = []
            \<and> pu_password url = None \<and> pu_query url = None \<and> pu_fragment url = None)"

text \<open>\<open>str::get(..n)\<close>: a prefix that ends on a character boundary.\<close>

definition str_get_prefix :: "nat \<Rightarrow> string \<Rightarrow> string option" where
  "str_get_prefix n s =
     (if n \<le> length s \<and> (n < length s \<longrightarrow> \<not> is_cont (s ! n)) then Some (take n s) else None)"

definition is_https_reference :: "string \<Rightarrow> bool" where
  "is_https_reference value =
     (case str_get_prefix 8 value of
        None \<Rightarrow> False
      | Some p \<Rightarrow> eq_ignore_ascii_case p ''https://'')"

definition has_non_file_url_scheme :: "string \<Rightarrow> bool" where
  "has_non_file_url_scheme value =
     (case split_once (CHR '':'') value of
        None \<Rightarrow> False
      | Some (scheme, rest) \<Rightarrow>
          let windows_drive =
                length scheme = 1 \<and> list_all is_ascii_alphabetic scheme
                \<and> (case rest of [] \<Rightarrow> False | b # _ \<Rightarrow> b = CHR ''/'' \<or> b = CHR 0x5C)
          in \<not> windows_drive \<and> scheme \<noteq> []
             \<and> (case scheme of [] \<Rightarrow> False | b # _ \<Rightarrow> is_ascii_alphabetic b)
             \<and> list_all (\<lambda>b. is_ascii_alphanumeric b \<or> b \<in> {CHR ''+'', CHR ''.'', CHR ''-''}) scheme)"

definition valid_source_reference :: "(string \<Rightarrow> parsed_url option) \<Rightarrow> string \<Rightarrow> bool" where
  "valid_source_reference url_parse value =
     (if value = [] \<or> MAX_URL_BYTES < length value \<or> has_control value then False
      else if is_https_reference value then valid_https_url url_parse value
      else if prefix [CHR 0x5C, CHR 0x5C] value \<or> prefix ''//'' value
           \<or> list_ex (\<lambda>c. c = CHR ''?'' \<or> c = CHR ''#'') value \<or> has_non_file_url_scheme value
      then False
      else True)"

subsection \<open>Manifest semantics\<close>

record manifest_semantics =
  ms_app_type :: app_type
  ms_runtime_source :: runtime_source

definition validate_provenance ::
  "(string \<Rightarrow> parsed_url option) \<Rightarrow> runtime_provenance \<Rightarrow> bundle_error + unit" where
  "validate_provenance url_parse p =
     (if rp_archive_format p \<noteq> ''zip'' \<or> length (rp_sha256 p) \<noteq> 64
         \<or> \<not> list_all (\<lambda>b. is_ascii_hexdigit b \<and> \<not> is_ascii_uppercase b) (rp_sha256 p)
         \<or> \<not> valid_source_reference url_parse (rp_registry p)
         \<or> \<not> valid_source_reference url_parse (rp_metadata_source p)
         \<or> \<not> valid_source_reference url_parse (rp_artifact_url p)
         \<or> (is_https_reference (rp_registry p)
            \<and> (\<not> is_https_reference (rp_metadata_source p) \<or> \<not> is_https_reference (rp_artifact_url p)))
      then Inl InvalidRuntimeProvenance else Inr ())"

definition validate_runtime_manifest ::
  "(string \<Rightarrow> parsed_url option) \<Rightarrow> runtime_manifest \<Rightarrow> bundle_error + runtime_source" where
  "validate_runtime_manifest url_parse runtime =
     (if rm_path runtime \<noteq> ''R'' \<or> rm_rscript runtime \<noteq> ''R/bin/Rscript.exe''
         \<or> rm_library runtime \<noteq> ''R/library'' \<or> rm_platform runtime \<noteq> ''windows''
      then Inl UnsupportedRuntimeContract
      else if (case rm_r_version runtime of None \<Rightarrow> False | Some v \<Rightarrow> \<not> valid_version_text v)
      then Inl UnsupportedRuntimeContract
      else if rm_source runtime = ''explicit'' \<and> rm_provenance runtime = None then Inr Explicit
      else if rm_source runtime = ''registry'' then
        case rm_provenance runtime of
          None \<Rightarrow> Inl InvalidRuntimeProvenance
        | Some provenance \<Rightarrow>
            if rm_r_version runtime = None then Inl InvalidRuntimeProvenance
            else rbind (validate_provenance url_parse provenance) (\<lambda>_. Inr Registry)
      else Inl InvalidRuntimeProvenance)"

definition validate_launcher_manifest :: "launcher_manifest \<Rightarrow> bundle_error + unit" where
  "validate_launcher_manifest l =
     (if lm_script l \<noteq> ''launcher.R'' \<or> lm_host l \<noteq> ''127.0.0.1''
         \<or> lm_port l \<noteq> ''required-argument'' \<or> lm_token l \<noteq> ''private-file''
         \<or> lm_control l \<noteq> ''optional-argument'' \<or> lm_protocol_version l \<noteq> ''2''
         \<or> es_format (lm_event_stream l) \<noteq> ''ndjson''
         \<or> es_destination (lm_event_stream l) \<noteq> ''stdout''
         \<or> es_prefix (lm_event_stream l) \<noteq> ''RPACKIT_EVENT ''
         \<or> \<not> lm_network_token_enforced l
         \<or> au_scheme (lm_authentication l) \<noteq> ''shiny-shared-secret''
         \<or> au_header (lm_authentication l) \<noteq> ''Shiny-Shared-Secret''
         \<or> au_scope (lm_authentication l) \<noteq> [''http'', ''websocket'']
         \<or> au_token_transport (lm_authentication l) \<noteq> ''private-file''
         \<or> au_token_in_url (lm_authentication l)
         \<or> au_minimum_shiny_version (lm_authentication l) \<noteq> ''1.3.0''
         \<or> rd_strategy (lm_readiness l) \<noteq> ''authenticated-http-poll''
         \<or> rd_starting_event (lm_readiness l) \<noteq> ''listening''
      then Inl UnsupportedLauncherContract else Inr ())"

definition REQUIRED_PACKAGES :: "string list" where
  "REQUIRED_PACKAGES = [''jsonlite'', ''later'', ''shiny'']"

text \<open>The loop over the constraints, with the set of the pairs inserted so far.\<close>

fun validate_constraints ::
  "string set \<Rightarrow> (string \<times> string) set \<Rightarrow> dependency_constraint list \<Rightarrow> bundle_error + unit" where
  "validate_constraints packages seen [] = Inr ()"
| "validate_constraints packages seen (c # cs) =
     (if \<not> valid_package_name (dc_package c) \<or> dc_package c \<notin> packages
         \<or> \<not> valid_requirement (dc_requirement c) \<or> (dc_package c, dc_requirement c) \<in> seen
      then Inl InvalidDependencies
      else validate_constraints packages (insert (dc_package c, dc_requirement c) seen) cs)"

definition validate_dependency_manifest :: "dependency_manifest \<Rightarrow> bundle_error + unit" where
  "validate_dependency_manifest d =
     (if \<not> dm_installed d \<or> \<not> dm_constraints_verified d
         \<or> \<not> (dm_strategy d = ''install-packages'' \<or> dm_strategy d = ''renv-restore'')
         \<or> dm_packages d = [] \<or> MAX_PACKAGES < length (dm_packages d)
         \<or> MAX_CONSTRAINTS < length (dm_constraints d)
      then Inl IncompleteDependencies
      else if list_ex (\<lambda>p. \<not> valid_package_name p) (dm_packages d) then Inl InvalidDependencies
      else
        let packages = set (dm_packages d) in
        if card packages \<noteq> length (dm_packages d) then Inl InvalidDependencies
        else if list_ex (\<lambda>required. required \<notin> packages) REQUIRED_PACKAGES
        then Inl IncompleteDependencies
        else
          rbind (validate_optional_requirement (dm_locked_r_version d)) (\<lambda>_.
          rbind (validate_optional_requirement (dm_r_constraint d)) (\<lambda>_.
            validate_constraints packages {} (dm_constraints d))))"

definition parse_app_type :: "string \<Rightarrow> bundle_error + app_type" where
  "parse_app_type s =
     (if s = ''shiny-single-file'' then Inr SingleFile
      else if s = ''shiny-split'' then Inr Split
      else Inl UnsupportedApplicationLayout)"

definition validate_manifest ::
  "(string \<Rightarrow> parsed_url option) \<Rightarrow> manifest \<Rightarrow> bundle_error + manifest_semantics" where
  "validate_manifest url_parse m =
     (if mf_schema_version m \<noteq> ''1'' \<or> mf_bundle_type m \<noteq> ''rpackit-desktop-resources''
      then Inl UnsupportedResourceContract
      else
        rbind (validate_short_text (am_name (mf_app m))) (\<lambda>_.
        rbind (parse_app_type (am_app_type (mf_app m))) (\<lambda>app_type.
        if am_path (mf_app m) \<noteq> ''app'' then Inl (UnsafeManifestPath ''app.path'')
        else
          rbind (validate_runtime_manifest url_parse (mf_runtime m)) (\<lambda>runtime_source.
          rbind (validate_launcher_manifest (mf_launcher m)) (\<lambda>_.
          rbind (validate_dependency_manifest (mf_dependencies m)) (\<lambda>_.
            if cb_package (mf_created_by m) \<noteq> ''rpackit''
               \<or> \<not> valid_version_text (cb_version (mf_created_by m))
            then Inl InvalidCreator
            else Inr \<lparr>ms_app_type = app_type, ms_runtime_source = runtime_source\<rparr>))))))"

subsection \<open>Paths\<close>

definition FILE_ATTRIBUTE_REPARSE_POINT :: "32 word" where
  "FILE_ATTRIBUTE_REPARSE_POINT = 0x400"

definition windows_reparse_point :: "metadata \<Rightarrow> bool" where
  "windows_reparse_point md =
     (and (md_file_attributes md) FILE_ATTRIBUTE_REPARSE_POINT \<noteq> 0)"

definition metadata_without_link :: "bundle_env \<Rightarrow> path \<Rightarrow> string \<Rightarrow> bundle_error + metadata" where
  "metadata_without_link env p field =
     (case be_symlink_metadata env p of
        Inl e \<Rightarrow> Inl (FileSystem ''inspect critical resource'' e)
      | Inr md \<Rightarrow>
          if md_is_symlink md \<or> windows_reparse_point md then Inl (ReparsePoint field) else Inr md)"

definition require_kind :: "metadata \<Rightarrow> required_kind \<Rightarrow> string \<Rightarrow> bundle_error + unit" where
  "require_kind md kind field =
     (let matches = (case kind of KindFile \<Rightarrow> md_is_file md | KindDirectory \<Rightarrow> md_is_dir md) in
      if \<not> matches then Inl (WrongResourceType field) else Inr ())"

definition canonicalize_for :: "bundle_env \<Rightarrow> path \<Rightarrow> string \<Rightarrow> bundle_error + path" where
  "canonicalize_for env p operation = map_err (FileSystem operation) (be_canonicalize env p)"

definition canonical_bundle_root :: "bundle_env \<Rightarrow> path \<Rightarrow> bundle_error + path" where
  "canonical_bundle_root env p =
     (if \<not> be_is_absolute env p then Inl InvalidBundleRoot
      else
        rbind (metadata_without_link env p ''bundle'') (\<lambda>md.
        rbind (require_kind md KindDirectory ''bundle'') (\<lambda>_.
          canonicalize_for env p ''canonicalize bundle'')))"

definition direct_resources_directory :: "bundle_env \<Rightarrow> path \<Rightarrow> bundle_error + path" where
  "direct_resources_directory env bundle =
     (let resources = path_join bundle RESOURCES_DIRECTORY in
      rbind (metadata_without_link env resources ''resources'') (\<lambda>md.
      rbind (require_kind md KindDirectory ''resources'') (\<lambda>_.
      rbind (canonicalize_for env resources ''canonicalize resources'') (\<lambda>canonical.
        if path_parent canonical \<noteq> Some bundle then Inl (UnsafeManifestPath ''resources'')
        else Inr canonical))))"

text \<open>The component loop of \<open>resolve_manifest_path\<close>: every prefix of the path is inspected.\<close>

fun push_components ::
  "bundle_env \<Rightarrow> string \<Rightarrow> path \<Rightarrow> string list \<Rightarrow> bundle_error + path" where
  "push_components env field p [] = Inr p"
| "push_components env field p (c # cs) =
     (let q = path_join p c in
      rbind (metadata_without_link env q field) (\<lambda>_. push_components env field q cs))"

definition resolve_manifest_path ::
  "bundle_env \<Rightarrow> path \<Rightarrow> string \<Rightarrow> string \<Rightarrow> required_kind \<Rightarrow> bundle_error + path" where
  "resolve_manifest_path env resources value field kind =
     rbind (ok_or (safe_posix_components value) (UnsafeManifestPath field)) (\<lambda>components.
     rbind (push_components env field resources components) (\<lambda>p.
     rbind (metadata_without_link env p field) (\<lambda>md.
     rbind (require_kind md kind field) (\<lambda>_.
     rbind (canonicalize_for env p ''canonicalize manifest path'') (\<lambda>canonical.
       if canonical = resources \<or> \<not> path_starts_with canonical resources
       then Inl (UnsafeManifestPath field)
       else Inr canonical)))))"

definition critical_child ::
  "bundle_env \<Rightarrow> path \<Rightarrow> string \<Rightarrow> string \<Rightarrow> required_kind \<Rightarrow> bundle_error + path" where
  "critical_child env directory leaf field kind =
     (if \<not> valid_leaf leaf then Inl (UnsafeManifestPath field)
      else
        let p = path_join directory leaf in
        rbind (metadata_without_link env p field) (\<lambda>md.
        rbind (require_kind md kind field) (\<lambda>_. Inr p)))"

definition critical_child_exists ::
  "bundle_env \<Rightarrow> path \<Rightarrow> string \<Rightarrow> string \<Rightarrow> required_kind \<Rightarrow> bundle_error + bool" where
  "critical_child_exists env directory leaf field kind =
     (if \<not> valid_leaf leaf then Inl (UnsafeManifestPath field)
      else
        case be_symlink_metadata env (path_join directory leaf) of
          Inl FsNotFound \<Rightarrow> Inr False
        | Inl e \<Rightarrow> Inl (FileSystem ''inspect optional critical resource'' e)
        | Inr md \<Rightarrow>
            if md_is_symlink md \<or> windows_reparse_point md then Inl (ReparsePoint field)
            else rbind (require_kind md kind field) (\<lambda>_. Inr True))"

definition read_bounded_regular_file ::
  "bundle_env \<Rightarrow> path \<Rightarrow> nat \<Rightarrow> string \<Rightarrow> bundle_error + bytes" where
  "read_bounded_regular_file env p maximum operation =
     rbind (metadata_without_link env p operation) (\<lambda>md.
     rbind (require_kind md KindFile operation) (\<lambda>_.
       if maximum < md_len md then Inl (ResourceTooLarge operation)
       else
         rbind (map_err (FileSystem operation) (be_read env p)) (\<lambda>content.
           let bs = take (maximum + 1) content in
           if maximum < length bs then Inl (ResourceTooLarge operation) else Inr bs)))"

subsection \<open>Loading a bundle\<close>

definition validate_app_layout :: "bundle_env \<Rightarrow> path \<Rightarrow> app_type \<Rightarrow> bundle_error + unit" where
  "validate_app_layout env app layout =
     (case layout of
        SingleFile \<Rightarrow> rbind (critical_child env app ''app.R'' ''app.app.R'' KindFile) (\<lambda>_. Inr ())
      | Split \<Rightarrow>
          rbind (critical_child_exists env app ''app.R'' ''app.app.R'' KindFile) (\<lambda>present.
          if present then Inl ApplicationLayoutMismatch
          else
            rbind (critical_child env app ''ui.R'' ''app.ui.R'' KindFile) (\<lambda>_.
            rbind (critical_child env app ''server.R'' ''app.server.R'' KindFile) (\<lambda>_. Inr ()))))"

fun validate_installed_packages ::
  "bundle_env \<Rightarrow> path \<Rightarrow> string list \<Rightarrow> bundle_error + unit" where
  "validate_installed_packages env library [] = Inr ()"
| "validate_installed_packages env library (package # packages) =
     rbind (critical_child env library package ''runtime.package'' KindDirectory) (\<lambda>package_directory.
     rbind (critical_child env package_directory ''DESCRIPTION'' ''runtime.package.DESCRIPTION'' KindFile) (\<lambda>_.
       validate_installed_packages env library packages))"

definition LAUNCHER_REQUIRED :: "string list" where
  "LAUNCHER_REQUIRED =
     [''event_prefix <- '' @ [CHR 0x27] @ ''RPACKIT_EVENT '' @ [CHR 0x27],
      ''protocol_version = '' @ [CHR 0x27] @ ''2'' @ [CHR 0x27],
      ''--token-file <path>'',
      ''readLines(token_file, n = 2L'',
      ''unlink(token_file, force = TRUE)'',
      ''options(shiny.sharedSecret = token)'',
      ''rpackit_authenticated_app_path'',
      ''token_enforced = TRUE'',
      ''host = '' @ [CHR 0x27] @ ''127.0.0.1'' @ [CHR 0x27],
      ''launch.browser = announce_listening'']"

definition LAUNCHER_FORBIDDEN :: "string list" where
  "LAUNCHER_FORBIDDEN =
     [''0.0.0.0'', ''RPACKIT_SESSION_TOKEN'', ''?rpackit_token='', ''--token <token>'',
      ''token_enforced = FALSE'']"

definition validate_launcher_file :: "bundle_env \<Rightarrow> path \<Rightarrow> bundle_error + unit" where
  "validate_launcher_file env p =
     rbind (read_bounded_regular_file env p LAUNCHER_MAX_BYTES ''read launcher'') (\<lambda>launcher.
       if \<not> utf8_valid launcher then Inl InvalidLauncherText
       else if CHR 0x00 \<in> set launcher then Inl InvalidLauncherText
       else if list_ex (\<lambda>marker. \<not> contains_sub marker launcher) LAUNCHER_REQUIRED
            \<or> list_ex (\<lambda>marker. contains_sub marker launcher) LAUNCHER_FORBIDDEN
       then Inl LauncherContractMismatch
       else Inr ())"

record validated_bundle =
  vb_bundle :: path
  vb_resources :: path
  vb_manifest :: path
  vb_rscript :: path
  vb_library :: path
  vb_app :: path
  vb_launcher :: path
  vb_app_type :: app_type
  vb_runtime_source :: runtime_source
  vb_runtime_version :: "string option"
  vb_packages :: "string list"
  vb_created_by_version :: string

definition bundle_load :: "bundle_env \<Rightarrow> path \<Rightarrow> bundle_error + validated_bundle" where
  "bundle_load env root =
     rbind (canonical_bundle_root env root) (\<lambda>bundle.
     rbind (direct_resources_directory env bundle) (\<lambda>resources.
     let manifest_path = path_join resources MANIFEST_FILE in
     rbind (read_bounded_regular_file env manifest_path MANIFEST_MAX_BYTES ''read resource manifest'') (\<lambda>manifest_bytes.
     rbind (ok_or (be_from_slice env manifest_bytes) InvalidManifestJson) (\<lambda>m.
     rbind (validate_manifest (be_url_parse env) m) (\<lambda>semantics.
     rbind (resolve_manifest_path env resources (rm_rscript (mf_runtime m)) ''runtime.rscript'' KindFile) (\<lambda>rscript.
     rbind (resolve_manifest_path env resources (rm_library (mf_runtime m)) ''runtime.library'' KindDirectory) (\<lambda>library.
     rbind (resolve_manifest_path env resources (am_path (mf_app m)) ''app.path'' KindDirectory) (\<lambda>app.
     rbind (resolve_manifest_path env resources (lm_script (mf_launcher m)) ''launcher.script'' KindFile) (\<lambda>launcher.
     rbind (resolve_manifest_path env resources (rm_path (mf_runtime m)) ''runtime.path'' KindDirectory) (\<lambda>runtime_root.
     if \<not> path_starts_with rscript runtime_root \<or> \<not> path_starts_with library runtime_root
     then Inl (UnsafeManifestPath ''runtime'')
     else
       rbind (validate_app_layout env app (ms_app_type semantics)) (\<lambda>_.
       rbind (validate_installed_packages env library (dm_packages (mf_dependencies m))) (\<lambda>_.
       rbind (validate_launcher_file env launcher) (\<lambda>_.
         Inr \<lparr>vb_bundle = bundle, vb_resources = resources, vb_manifest = manifest_path,
              vb_rscript = rscript, vb_library = library, vb_app = app, vb_launcher = launcher,
              vb_app_type = ms_app_type semantics, vb_runtime_source = ms_runtime_source semantics,
              vb_runtime_version = rm_r_version (mf_runtime m),
              vb_packages = dm_packages (mf_dependencies m),
              vb_created_by_version = cb_version (mf_created_by m)\<rparr>)))))))))))))"

subsection \<open>Specifications\<close>

text \<open>A resource the file system reports as neither a link nor a reparse point, and one of a
  required kind.\<close>

definition unlinked :: "bundle_env \<Rightarrow> path \<Rightarrow> bool" where
  "unlinked env p =
     (case be_symlink_metadata env p of
        Inl _ \<Rightarrow> False
      | Inr md \<Rightarrow> \<not> md_is_symlink md \<and> \<not> windows_reparse_point md)"

definition plain_resource :: "bundle_env \<Rightarrow> required_kind \<Rightarrow> path \<Rightarrow> bool" where
  "plain_resource env kind p =
     (unlinked env p
      \<and> (case be_symlink_metadata env p of
           Inl _ \<Rightarrow> False
         | Inr md \<Rightarrow> (case kind of KindFile \<Rightarrow> md_is_file md | KindDirectory \<Rightarrow> md_is_dir md)))"

definition bounded_file :: "bundle_env \<Rightarrow> nat \<Rightarrow> path \<Rightarrow> bytes \<Rightarrow> bool" where
  "bounded_file env maximum p content =
     (plain_resource env KindFile p \<and> be_read env p = Inr content \<and> length content \<le> maximum
      \<and> (case be_symlink_metadata env p of Inl _ \<Rightarrow> False | Inr md \<Rightarrow> md_len md \<le> maximum))"

text \<open>A path below \<open>resources\<close> with every step inspected, and the canonical place it names.\<close>

definition resolves :: "bundle_env \<Rightarrow> path \<Rightarrow> string list \<Rightarrow> required_kind \<Rightarrow> path \<Rightarrow> bool" where
  "resolves env resources components kind target =
     (list_all (\<lambda>q. q = [] \<or> unlinked env (resources @ q)) (prefixes components)
      \<and> plain_resource env kind (resources @ components)
      \<and> be_canonicalize env (resources @ components) = Inr target
      \<and> strict_prefix resources target)"

definition dependencies_ok :: "dependency_manifest \<Rightarrow> bool" where
  "dependencies_ok d =
     (dm_installed d \<and> dm_constraints_verified d
      \<and> dm_strategy d \<in> {''install-packages'', ''renv-restore''}
      \<and> length (dm_packages d) \<le> MAX_PACKAGES \<and> length (dm_constraints d) \<le> MAX_CONSTRAINTS
      \<and> distinct (dm_packages d) \<and> list_all valid_package_name (dm_packages d)
      \<and> set REQUIRED_PACKAGES \<subseteq> set (dm_packages d)
      \<and> (\<forall>r. dm_locked_r_version d = Some r \<longrightarrow> valid_requirement r)
      \<and> (\<forall>r. dm_r_constraint d = Some r \<longrightarrow> valid_requirement r)
      \<and> distinct (map (\<lambda>c. (dc_package c, dc_requirement c)) (dm_constraints d))
      \<and> list_all (\<lambda>c. dc_package c \<in> set (dm_packages d) \<and> valid_requirement (dc_requirement c))
          (dm_constraints d))"

definition layout_ok :: "bundle_env \<Rightarrow> path \<Rightarrow> app_type \<Rightarrow> bool" where
  "layout_ok env app layout =
     (case layout of
        SingleFile \<Rightarrow> plain_resource env KindFile (app @ [''app.R''])
      | Split \<Rightarrow>
          be_symlink_metadata env (app @ [''app.R'']) = Inl FsNotFound
          \<and> plain_resource env KindFile (app @ [''ui.R''])
          \<and> plain_resource env KindFile (app @ [''server.R'']))"

definition package_installed :: "bundle_env \<Rightarrow> path \<Rightarrow> string \<Rightarrow> bool" where
  "package_installed env library package =
     (plain_resource env KindDirectory (library @ [package])
      \<and> plain_resource env KindFile (library @ [package, ''DESCRIPTION'']))"

definition launcher_ok :: "bundle_env \<Rightarrow> path \<Rightarrow> bool" where
  "launcher_ok env p =
     (\<exists>launcher. bounded_file env LAUNCHER_MAX_BYTES p launcher
        \<and> utf8_valid launcher \<and> CHR 0x00 \<notin> set launcher
        \<and> list_all (\<lambda>marker. contains_sub marker launcher) LAUNCHER_REQUIRED
        \<and> list_all (\<lambda>marker. \<not> contains_sub marker launcher) LAUNCHER_FORBIDDEN)"

text \<open>The fixed values of the Windows contract, and the declarative reading of a whole bundle.\<close>

definition provenance_ok :: "(string \<Rightarrow> parsed_url option) \<Rightarrow> runtime_provenance \<Rightarrow> bool" where
  "provenance_ok url_parse p =
     (length (rp_sha256 p) = 64 \<and> list_all (\<lambda>b. is_ascii_digit b \<or> b \<in> set ''abcdef'') (rp_sha256 p)
      \<and> (is_https_reference (rp_registry p) \<longrightarrow>
           list_all (valid_https_url url_parse) [rp_registry p, rp_metadata_source p, rp_artifact_url p]))"

definition contract_ok :: "(string \<Rightarrow> parsed_url option) \<Rightarrow> manifest \<Rightarrow> bool" where
  "contract_ok url_parse m =
     (mf_schema_version m = ''1'' \<and> am_path (mf_app m) = ''app''
      \<and> rm_path (mf_runtime m) = ''R'' \<and> rm_rscript (mf_runtime m) = ''R/bin/Rscript.exe''
      \<and> rm_library (mf_runtime m) = ''R/library''
      \<and> lm_script (mf_launcher m) = ''launcher.R'' \<and> lm_host (mf_launcher m) = ''127.0.0.1''
      \<and> lm_protocol_version (mf_launcher m) = ''2'' \<and> lm_network_token_enforced (mf_launcher m)
      \<and> lm_token (mf_launcher m) = ''private-file'' \<and> \<not> au_token_in_url (lm_authentication (mf_launcher m))
      \<and> dependencies_ok (mf_dependencies m)
      \<and> (rm_source (mf_runtime m) = ''explicit'' \<and> rm_provenance (mf_runtime m) = None
         \<or> rm_source (mf_runtime m) = ''registry'' \<and> rm_r_version (mf_runtime m) \<noteq> None
           \<and> (\<exists>p. rm_provenance (mf_runtime m) = Some p \<and> provenance_ok url_parse p)))"

definition bundle_conforms :: "bundle_env \<Rightarrow> path \<Rightarrow> validated_bundle \<Rightarrow> bool" where
  "bundle_conforms env root vb \<longleftrightarrow>
     (\<exists>content m semantics runtime_root.
        be_is_absolute env root \<and> plain_resource env KindDirectory root
        \<and> be_canonicalize env root = Inr (vb_bundle vb)
        \<and> plain_resource env KindDirectory (vb_bundle vb @ [RESOURCES_DIRECTORY])
        \<and> be_canonicalize env (vb_bundle vb @ [RESOURCES_DIRECTORY]) = Inr (vb_resources vb)
        \<and> path_parent (vb_resources vb) = Some (vb_bundle vb)
        \<and> vb_manifest vb = vb_resources vb @ [MANIFEST_FILE]
        \<and> bounded_file env MANIFEST_MAX_BYTES (vb_manifest vb) content
        \<and> be_from_slice env content = Some m
        \<and> validate_manifest (be_url_parse env) m = Inr semantics
        \<and> resolves env (vb_resources vb) [''R'', ''bin'', ''Rscript.exe''] KindFile (vb_rscript vb)
        \<and> resolves env (vb_resources vb) [''R'', ''library''] KindDirectory (vb_library vb)
        \<and> resolves env (vb_resources vb) [''app''] KindDirectory (vb_app vb)
        \<and> resolves env (vb_resources vb) [''launcher.R''] KindFile (vb_launcher vb)
        \<and> resolves env (vb_resources vb) [''R''] KindDirectory runtime_root
        \<and> prefix runtime_root (vb_rscript vb) \<and> prefix runtime_root (vb_library vb)
        \<and> layout_ok env (vb_app vb) (vb_app_type vb)
        \<and> list_all (package_installed env (vb_library vb)) (vb_packages vb)
        \<and> launcher_ok env (vb_launcher vb)
        \<and> vb_app_type vb = ms_app_type semantics \<and> vb_runtime_source vb = ms_runtime_source semantics
        \<and> vb_runtime_version vb = rm_r_version (mf_runtime m)
        \<and> vb_packages vb = dm_packages (mf_dependencies m)
        \<and> vb_created_by_version vb = cb_version (mf_created_by m))"

section \<open>Lemmas\<close>

lemma metadata_without_link_Inr:
  "metadata_without_link env p field = Inr md \<longleftrightarrow>
     unlinked env p \<and> be_symlink_metadata env p = Inr md"
  by (auto simp: metadata_without_link_def unlinked_def split: sum.splits)

lemma unlinked_md: "unlinked env p \<longleftrightarrow> (\<exists>md. metadata_without_link env p field = Inr md)"
  by (auto simp: metadata_without_link_Inr unlinked_def split: sum.splits)

lemma inspect_kind:
  "rbind (metadata_without_link env p field) (\<lambda>md. rbind (require_kind md kind f2) (\<lambda>_. k)) = Inr y
     \<longleftrightarrow> plain_resource env kind p \<and> k = Inr y"
  by (auto simp: metadata_without_link_Inr require_kind_def plain_resource_def Let_def unlinked_def
      split: sum.splits if_splits)

lemma critical_child_Inr:
  "critical_child env d leaf field kind = Inr q \<longleftrightarrow>
     valid_leaf leaf \<and> q = d @ [leaf] \<and> plain_resource env kind (d @ [leaf])"
  by (auto simp: critical_child_def path_join_def Let_def inspect_kind simp del: rbind_Inr_iff)

lemma push_components_Inr:
  "push_components env field p cs = Inr q \<longleftrightarrow>
     q = p @ cs \<and> list_all (\<lambda>q. q = [] \<or> unlinked env (p @ q)) (prefixes cs)"
proof (induction cs arbitrary: p)
  case (Cons c cs)
  have "rbind (metadata_without_link env (p @ [c]) field) (\<lambda>_. k) = Inr q
      \<longleftrightarrow> unlinked env (p @ [c]) \<and> k = Inr q" for k :: "bundle_error + path"
    using unlinked_md [of env "p @ [c]" field] by auto
  moreover have "[] \<in> set (prefixes cs)" by simp
  ultimately show ?case
    by (auto simp: path_join_def Let_def Cons.IH list_all_iff simp del: rbind_Inr_iff)
qed auto

lemma resolve_manifest_path_Inr:
  "resolve_manifest_path env r value field kind = Inr q \<longleftrightarrow>
     (\<exists>cs. safe_posix_components value = Some cs \<and> resolves env r cs kind q)"
proof -
  have canonical: "rbind (canonicalize_for env p op) (\<lambda>c. if c = r \<or> \<not> path_starts_with c r then Inl e else Inr c)
      = Inr q \<longleftrightarrow> be_canonicalize env p = Inr q \<and> strict_prefix r q" for p op and e :: bundle_error
    by (auto simp: canonicalize_for_def path_starts_with_def strict_prefix_def split: if_splits)
  have "rbind (push_components env field r cs) k = Inr q \<longleftrightarrow>
      list_all (\<lambda>q. q = [] \<or> unlinked env (r @ q)) (prefixes cs) \<and> k (r @ cs) = Inr q"
    for cs and k :: "path \<Rightarrow> bundle_error + path"
    by (auto simp: push_components_Inr)
  then show ?thesis
    by (cases "safe_posix_components value")
      (simp_all add: resolve_manifest_path_def inspect_kind canonical resolves_def del: rbind_Inr_iff)
qed

lemma read_bounded_regular_file_Inr:
  "read_bounded_regular_file env p maximum operation = Inr bs \<longleftrightarrow> bounded_file env maximum p bs"
proof (cases "be_symlink_metadata env p")
  case (Inr md)
  have "rbind (map_err e (be_read env p))
      (\<lambda>c. let bs = take (maximum + 1) c in if maximum < length bs then Inl f else Inr bs) = Inr bs
      \<longleftrightarrow> be_read env p = Inr bs \<and> length bs \<le> maximum" for e and f :: bundle_error
    by (cases "be_read env p") (auto simp: Let_def map_err_def)
  with Inr show ?thesis
    by (auto simp: read_bounded_regular_file_def bounded_file_def plain_resource_def unlinked_def
        metadata_without_link_def require_kind_def simp del: rbind_Inr_iff)
qed (simp add: read_bounded_regular_file_def bounded_file_def plain_resource_def metadata_without_link_def)

lemma validate_installed_packages_Inr:
  assumes "list_all valid_leaf packages"
  shows "validate_installed_packages env library packages = Inr u \<longleftrightarrow>
    list_all (package_installed env library) packages"
proof -
  have "valid_leaf ''DESCRIPTION''" by code_simp
  with assms show ?thesis
    by (induction packages) (auto simp: critical_child_Inr package_installed_def)
qed

lemma critical_child_exists_False:
  "critical_child_exists env d leaf field kind = Inr False \<longleftrightarrow>
     valid_leaf leaf \<and> be_symlink_metadata env (d @ [leaf]) = Inl FsNotFound"
  by (auto simp: critical_child_exists_def path_join_def split: sum.splits fs_error.splits if_splits)

lemma validate_app_layout_Inr:
  "validate_app_layout env app layout = Inr u \<longleftrightarrow> layout_ok env app layout"
proof -
  have "valid_leaf ''app.R''" "valid_leaf ''ui.R''" "valid_leaf ''server.R''" by code_simp+
  then show ?thesis
    by (cases layout)
      (auto simp: validate_app_layout_def layout_ok_def critical_child_Inr critical_child_exists_False
        split: if_splits)
qed

lemma validate_launcher_file_Inr:
  "validate_launcher_file env p = Inr u \<longleftrightarrow> launcher_ok env p"
  by (auto simp: validate_launcher_file_def launcher_ok_def read_bounded_regular_file_Inr
      list_all_iff list_ex_iff split: if_splits)

lemma validate_constraints_Inr:
  "validate_constraints packages seen cs = Inr () \<longleftrightarrow>
     list_all (\<lambda>c. valid_package_name (dc_package c) \<and> dc_package c \<in> packages
                  \<and> valid_requirement (dc_requirement c)) cs
     \<and> set (map (\<lambda>c. (dc_package c, dc_requirement c)) cs) \<inter> seen = {}
     \<and> distinct (map (\<lambda>c. (dc_package c, dc_requirement c)) cs)"
proof (induction cs arbitrary: seen)
  case (Cons c cs)
  show ?case
    by (auto simp: Cons.IH)
qed simp

lemma utf8_decode_ascii: "list_all (\<lambda>b. byte b < 128) s \<Longrightarrow> utf8_decode s = Some (map byte s)"
  by (induction s) auto

lemma package_name_leaf: "valid_package_name p \<Longrightarrow> valid_leaf p"
proof -
  assume p: "valid_package_name p"
  have graphic: "is_ascii_alphanumeric b \<or> b = CHR ''.''" if "b \<in> set p" for b
    using p that by (auto simp: valid_package_name_def is_ascii_alphanumeric_def list_all_iff split: list.splits)
  have alpha: "\<exists>c r. p = c # r \<and> is_ascii_alphabetic c" "length p \<le> MAX_SHORT_TEXT_BYTES"
    using p by (auto simp: valid_package_name_def split: list.splits)
  have ascii: "list_all (\<lambda>b. byte b < 128 \<and> \<not> is_control (byte b) \<and> b \<noteq> CHR ''/'' \<and> b \<noteq> CHR 0x5C \<and> b \<noteq> CHR '':'') p"
    unfolding list_all_iff
  proof
    fix b assume "b \<in> set p"
    from graphic [OF this] show "byte b < 128 \<and> \<not> is_control (byte b) \<and> b \<noteq> CHR ''/'' \<and> b \<noteq> CHR 0x5C \<and> b \<noteq> CHR '':''"
      by (auto simp: ascii_defs is_control_def byte_def)
  qed
  then have "\<not> has_control p"
    using utf8_decode_ascii [of p] by (auto simp: has_control_def list_all_iff list_ex_iff)
  moreover have "p \<noteq> ''.''" "p \<noteq> ''..''"
    using alpha(1) by (auto simp: ascii_defs byte_def)
  ultimately show ?thesis
    using alpha ascii by (auto simp: valid_leaf_def list_all_iff list_ex_iff)
qed

lemma validate_optional_requirement_Inr:
  "validate_optional_requirement v = Inr u \<longleftrightarrow> (\<forall>r. v = Some r \<longrightarrow> valid_requirement r)"
  by (auto simp: validate_optional_requirement_def split: option.splits)

lemma card_set_eq_length: "card (set xs) = length xs \<longleftrightarrow> distinct xs"
  using card_distinct distinct_card by blast

lemma validate_dependency_manifest_Inr:
  "validate_dependency_manifest d = Inr u \<longleftrightarrow> dependencies_ok d"
proof -
  have req: "list_ex (\<lambda>r. r \<notin> set (dm_packages d)) REQUIRED_PACKAGES \<longleftrightarrow>
      \<not> set REQUIRED_PACKAGES \<subseteq> set (dm_packages d)"
    by (auto simp: list_ex_iff)
  have nonempty: "set REQUIRED_PACKAGES \<subseteq> set (dm_packages d) \<Longrightarrow> dm_packages d \<noteq> []"
    by (auto simp: REQUIRED_PACKAGES_def)
  have named: "list_all (\<lambda>c. valid_package_name (dc_package c) \<and> dc_package c \<in> set (dm_packages d)
        \<and> valid_requirement (dc_requirement c)) cs
      \<longleftrightarrow> list_all (\<lambda>c. dc_package c \<in> set (dm_packages d) \<and> valid_requirement (dc_requirement c)) cs"
    if "list_all valid_package_name (dm_packages d)" for cs
    using that by (auto simp: list_all_iff)
  have names: "list_ex (\<lambda>p. \<not> valid_package_name p) (dm_packages d) \<longleftrightarrow>
      \<not> list_all valid_package_name (dm_packages d)"
    by (auto simp: list_all_iff list_ex_iff)
  show ?thesis
  proof (cases "list_all valid_package_name (dm_packages d) \<and> set REQUIRED_PACKAGES \<subseteq> set (dm_packages d)")
    case True
    then show ?thesis
      unfolding validate_dependency_manifest_def dependencies_ok_def req names Let_def
      using nonempty
      by (auto simp: validate_optional_requirement_Inr validate_constraints_Inr card_set_eq_length not_less
          named [OF conjunct1 [OF True]] split: if_splits)
  next
    case False
    then show ?thesis
      unfolding validate_dependency_manifest_def dependencies_ok_def req names Let_def by auto
  qed
qed

lemma safe_components:
  "safe_posix_components ''R'' = Some [''R'']"
  "safe_posix_components ''R/bin/Rscript.exe'' = Some [''R'', ''bin'', ''Rscript.exe'']"
  "safe_posix_components ''R/library'' = Some [''R'', ''library'']"
  "safe_posix_components ''app'' = Some [''app'']"
  "safe_posix_components ''launcher.R'' = Some [''launcher.R'']"
  by code_simp+

lemma validate_provenance_ok:
  assumes "validate_provenance url_parse p = Inr ()"
  shows "provenance_ok url_parse p"
proof -
  have "is_ascii_digit b \<or> b \<in> set ''abcdef''" if "is_ascii_hexdigit b" "\<not> is_ascii_uppercase b" for b
  proof (cases "is_ascii_digit b")
    case False
    then have "byte b \<in> {97, 98, 99, 100, 101, 102}"
      using that by (auto simp: ascii_defs)
    moreover have "map byte ''abcdef'' = [97, 98, 99, 100, 101, 102]" by code_simp
    ultimately have "byte b \<in> byte ` set ''abcdef''"
      by (metis list.set(1,2) list.set_map)
    then show ?thesis by auto
  qed simp
  with assms show ?thesis
    by (auto simp: validate_provenance_def provenance_ok_def valid_source_reference_def list_all_iff
        split: if_splits)
qed

lemma validate_manifest_contract:
  assumes "validate_manifest url_parse m = Inr semantics"
  shows "contract_ok url_parse m"
proof -
  obtain source where "validate_runtime_manifest url_parse (mf_runtime m) = Inr source"
      "validate_launcher_manifest (mf_launcher m) = Inr ()" "dependencies_ok (mf_dependencies m)"
      "mf_schema_version m = ''1''" "am_path (mf_app m) = ''app''"
    using assms by (auto simp: validate_manifest_def validate_dependency_manifest_Inr split: if_splits)
  then show ?thesis
    by (auto simp: contract_ok_def validate_runtime_manifest_def validate_launcher_manifest_def
        validate_provenance_ok split: if_splits option.splits)
qed

lemma canonical_bundle_root_Inr:
  "canonical_bundle_root env p = Inr bundle \<longleftrightarrow>
     be_is_absolute env p \<and> plain_resource env KindDirectory p \<and> be_canonicalize env p = Inr bundle"
  by (simp add: canonical_bundle_root_def inspect_kind canonicalize_for_def del: rbind_Inr_iff)

lemma direct_resources_directory_Inr:
  "direct_resources_directory env bundle = Inr resources \<longleftrightarrow>
     plain_resource env KindDirectory (bundle @ [RESOURCES_DIRECTORY])
     \<and> be_canonicalize env (bundle @ [RESOURCES_DIRECTORY]) = Inr resources
     \<and> path_parent resources = Some bundle"
proof -
  have "rbind (canonicalize_for env p op) (\<lambda>c. if path_parent c \<noteq> Some bundle then Inl e else Inr c)
      = Inr resources \<longleftrightarrow> be_canonicalize env p = Inr resources \<and> path_parent resources = Some bundle"
    for p op and e :: bundle_error
    by (cases "be_canonicalize env p") (auto simp: canonicalize_for_def map_err_def)
  then show ?thesis
    by (simp add: direct_resources_directory_def path_join_def Let_def inspect_kind del: rbind_Inr_iff)
qed

lemmas load_steps =
  canonical_bundle_root_Inr direct_resources_directory_Inr read_bounded_regular_file_Inr
  resolve_manifest_path_Inr safe_components validate_app_layout_Inr validate_launcher_file_Inr
  path_starts_with_def path_join_def

lemma bundle_load_packages:
  assumes "validate_manifest url_parse m = Inr semantics"
  shows "validate_installed_packages env library (dm_packages (mf_dependencies m)) = Inr u \<longleftrightarrow>
    list_all (package_installed env library) (dm_packages (mf_dependencies m))"
  using validate_manifest_contract [OF assms] package_name_leaf
  by (intro validate_installed_packages_Inr)
    (auto simp: contract_ok_def dependencies_ok_def list_all_iff)

lemma bundle_load_conforms:
  assumes "bundle_load env root = Inr vb"
  shows "bundle_conforms env root vb"
proof -
  from assms obtain content m semantics rr where
    root: "canonical_bundle_root env root = Inr (vb_bundle vb)"
      "direct_resources_directory env (vb_bundle vb) = Inr (vb_resources vb)"
      "vb_manifest vb = path_join (vb_resources vb) MANIFEST_FILE"
      "read_bounded_regular_file env (vb_manifest vb) MANIFEST_MAX_BYTES ''read resource manifest'' = Inr content"
      "be_from_slice env content = Some m"
    and v: "validate_manifest (be_url_parse env) m = Inr semantics"
    and paths: "resolve_manifest_path env (vb_resources vb) (rm_rscript (mf_runtime m)) ''runtime.rscript'' KindFile = Inr (vb_rscript vb)"
      "resolve_manifest_path env (vb_resources vb) (rm_library (mf_runtime m)) ''runtime.library'' KindDirectory = Inr (vb_library vb)"
      "resolve_manifest_path env (vb_resources vb) (am_path (mf_app m)) ''app.path'' KindDirectory = Inr (vb_app vb)"
      "resolve_manifest_path env (vb_resources vb) (lm_script (mf_launcher m)) ''launcher.script'' KindFile = Inr (vb_launcher vb)"
      "resolve_manifest_path env (vb_resources vb) (rm_path (mf_runtime m)) ''runtime.path'' KindDirectory = Inr rr"
      "path_starts_with (vb_rscript vb) rr" "path_starts_with (vb_library vb) rr"
    and rest: "validate_app_layout env (vb_app vb) (vb_app_type vb) = Inr ()"
      "validate_installed_packages env (vb_library vb) (vb_packages vb) = Inr ()"
      "validate_launcher_file env (vb_launcher vb) = Inr ()"
      "vb_app_type vb = ms_app_type semantics" "vb_runtime_source vb = ms_runtime_source semantics"
      "vb_runtime_version vb = rm_r_version (mf_runtime m)"
      "vb_packages vb = dm_packages (mf_dependencies m)"
      "vb_created_by_version vb = cb_version (mf_created_by m)"
    unfolding bundle_load_def Let_def rbind_Inr_iff ok_or_Inr_iff by (auto split: if_splits)
  show ?thesis
    unfolding bundle_conforms_def
    using root paths rest v validate_manifest_contract [OF v] bundle_load_packages [OF v]
    by (intro exI [of _ content] exI [of _ m] exI [of _ semantics] exI [of _ rr])
      (simp add: load_steps contract_ok_def)
qed

lemma conforming_bundle_loads:
  assumes "bundle_conforms env root vb"
  shows "bundle_load env root = Inr vb"
proof -
  from assms obtain content m semantics rr where
    v: "validate_manifest (be_url_parse env) m = Inr semantics"
    and read: "vb_manifest vb = vb_resources vb @ [MANIFEST_FILE]"
      "bounded_file env MANIFEST_MAX_BYTES (vb_resources vb @ [MANIFEST_FILE]) content"
      "be_from_slice env content = Some m"
    and root: "canonical_bundle_root env root = Inr (vb_bundle vb)"
      "direct_resources_directory env (vb_bundle vb) = Inr (vb_resources vb)"
    and paths: "resolves env (vb_resources vb) [''R'', ''bin'', ''Rscript.exe''] KindFile (vb_rscript vb)"
      "resolves env (vb_resources vb) [''R'', ''library''] KindDirectory (vb_library vb)"
      "resolves env (vb_resources vb) [''app''] KindDirectory (vb_app vb)"
      "resolves env (vb_resources vb) [''launcher.R''] KindFile (vb_launcher vb)"
      "resolves env (vb_resources vb) [''R''] KindDirectory rr"
      "prefix rr (vb_rscript vb)" "prefix rr (vb_library vb)"
    and rest: "layout_ok env (vb_app vb) (ms_app_type semantics)"
      "list_all (package_installed env (vb_library vb)) (dm_packages (mf_dependencies m))"
      "launcher_ok env (vb_launcher vb)"
      "vb_app_type vb = ms_app_type semantics" "vb_runtime_source vb = ms_runtime_source semantics"
      "vb_runtime_version vb = rm_r_version (mf_runtime m)"
      "vb_packages vb = dm_packages (mf_dependencies m)"
      "vb_created_by_version vb = cb_version (mf_created_by m)"
    unfolding bundle_conforms_def canonical_bundle_root_Inr direct_resources_directory_Inr by auto
  have resolve: "resolve_manifest_path env (vb_resources vb) v1 field kind = Inr q"
    if "safe_posix_components v1 = Some cs" "resolves env (vb_resources vb) cs kind q" for v1 field kind q cs
    using that by (auto simp: resolve_manifest_path_Inr)
  have manifest_read: "read_bounded_regular_file env (vb_resources vb @ [MANIFEST_FILE]) MANIFEST_MAX_BYTES op = Inr content" for op
    using read(2) by (simp add: read_bounded_regular_file_Inr)
  have checks: "validate_app_layout env (vb_app vb) (ms_app_type semantics) = Inr ()"
      "validate_launcher_file env (vb_launcher vb) = Inr ()"
      "validate_installed_packages env (vb_library vb) (dm_packages (mf_dependencies m)) = Inr ()"
    using rest bundle_load_packages [OF v] by (simp_all add: load_steps)
  show ?thesis
    using validate_manifest_contract [OF v] root manifest_read read(3) v rest(4,5,6,7,8) paths(6,7) read(1)
    by (simp add: bundle_load_def Let_def path_join_def path_starts_with_def contract_ok_def checks
        resolve [OF safe_components(1) paths(5)] resolve [OF safe_components(2) paths(1)]
        resolve [OF safe_components(3) paths(2)] resolve [OF safe_components(4) paths(3)]
        resolve [OF safe_components(5) paths(4)] del: rbind_Inr_iff)
qed

lemma set_join_with_sep: "set (join_with sep ps) \<subseteq> \<Union> (set ` set ps) \<union> set sep"
  by (induction sep ps rule: join_with.induct) auto

lemma join_first_last:
  assumes "cs \<noteq> []" and "list_all (\<lambda>c. c \<noteq> [] \<and> d \<notin> set c) cs"
  shows "join_with [d] cs \<noteq> []" "hd (join_with [d] cs) \<noteq> d" "last (join_with [d] cs) \<noteq> d"
proof -
  have "join_with [d] cs \<noteq> [] \<and> hd (join_with [d] cs) = hd (hd cs) \<and> last (join_with [d] cs) = last (last cs)"
    using assms by (induction cs rule: induct_list012) auto
  moreover have "hd cs \<in> set cs" "last cs \<in> set cs"
    using assms(1) by simp_all
  then have "hd (hd cs) \<noteq> d" "last (last cs) \<noteq> d"
    using assms(2) by (fastforce simp: list_all_iff)+
  ultimately show "join_with [d] cs \<noteq> []" "hd (join_with [d] cs) \<noteq> d" "last (join_with [d] cs) \<noteq> d"
    by simp_all
qed

lemma safe_posix_components_join:
  assumes "cs \<noteq> []" "length (join_with ''/'' cs) \<le> 1024" "\<not> has_control (join_with ''/'' cs)"
    and cs: "list_all (\<lambda>c. c \<noteq> [] \<and> c \<noteq> ''.'' \<and> c \<noteq> ''..''
        \<and> set c \<inter> {CHR ''/'', CHR 0x5C, CHR '':''} = {}) cs"
  shows "safe_posix_components (join_with ''/'' cs) = Some cs"
proof -
  have clean: "list_all (\<lambda>c. c \<noteq> [] \<and> CHR ''/'' \<notin> set c) cs"
    using cs by (auto simp: list_all_iff)
  note ends = join_first_last [OF assms(1) clean]
  have split: "split_on (CHR ''/'') (join_with ''/'' cs) = cs"
    using clean assms(1) by (intro split_on_join) (auto simp: list_all_iff)
  have "CHR 0x5C \<notin> set (join_with ''/'' cs)" "CHR '':'' \<notin> set (join_with ''/'' cs)"
    using set_join_with_sep [of "''/''" cs] cs by (auto simp: list_all_iff)
  moreover have "\<not> prefix ''/'' (join_with ''/'' cs)" "\<not> suffix ''/'' (join_with ''/'' cs)"
    using ends by (auto simp: prefix_def suffix_def)
  ultimately show ?thesis
    using assms(2,3) ends(1) cs
    by (auto simp: safe_posix_components_def Let_def split list_all_iff list_ex_iff)
qed

section \<open>Properties\<close>

text \<open>C18: Loading accepts exactly the bundles that conform: the root is an absolute plain directory,
  \<open>resources\<close> is its direct canonical child, the manifest is a bounded plain file that parses and
  validates, the runtime, library, application and launcher are plain resources reached through
  plain steps and canonically below \<open>resources\<close>, the application has the declared layout, every
  package is installed and the launcher carries the contract's markers.\<close>

theorem bundle_load_iff:
  "bundle_load env root = Inr vb \<longleftrightarrow> bundle_conforms env root vb"
  using bundle_load_conforms conforming_bundle_loads by blast

text \<open>Splitting a manifest path and joining its components are inverse, and the accepted paths are
  exactly the relative ones of at most 1024 bytes without control characters whose components are
  non-empty, not a dot entry, and free of separators and drive colons: no accepted path climbs out
  of, or replaces, the directory it is appended to.\<close>

lemma safe_posix_components_roundtrip:
  "safe_posix_components v = Some cs \<longleftrightarrow>
     v = join_with ''/'' cs \<and> cs \<noteq> [] \<and> length v \<le> 1024 \<and> \<not> has_control v
     \<and> list_all (\<lambda>c. c \<noteq> [] \<and> c \<noteq> ''.'' \<and> c \<noteq> ''..''
                   \<and> set c \<inter> {CHR ''/'', CHR 0x5C, CHR '':''} = {}) cs"
proof
  assume "safe_posix_components v = Some cs"
  then have v: "split_on (CHR ''/'') v = cs" "length v \<le> 1024" "CHR 0x5C \<notin> set v" "CHR '':'' \<notin> set v"
      "\<not> has_control v" "\<not> list_ex (\<lambda>c. c = [] \<or> c = ''.'' \<or> c = ''..'') cs"
    by (auto simp: safe_posix_components_def Let_def split: if_splits)
  have "set c \<inter> {CHR ''/'', CHR 0x5C, CHR '':''} = {}" if "c \<in> set cs" for c
    using split_on_pieces [of c "CHR ''/''" v] split_on_subset [of c "CHR ''/''" v] that v by auto
  with v show "v = join_with ''/'' cs \<and> cs \<noteq> [] \<and> length v \<le> 1024 \<and> \<not> has_control v
     \<and> list_all (\<lambda>c. c \<noteq> [] \<and> c \<noteq> ''.'' \<and> c \<noteq> ''..''
                   \<and> set c \<inter> {CHR ''/'', CHR 0x5C, CHR '':''} = {}) cs"
    by (auto simp: list_all_iff list_ex_iff)
qed (use safe_posix_components_join in blast)

text \<open>Everything a loaded bundle points at is inside it: \<open>resources\<close> is a direct child of the
  bundle, the interpreter, its library, the application and the launcher lie strictly below
  \<open>resources\<close>, and the interpreter and the library share one runtime directory there.\<close>

lemma bundle_load_contained:
  assumes "bundle_load env root = Inr vb"
  shows "path_parent (vb_resources vb) = Some (vb_bundle vb)
    \<and> list_all (strict_prefix (vb_resources vb))
         [vb_manifest vb, vb_rscript vb, vb_library vb, vb_app vb, vb_launcher vb]
    \<and> (\<exists>runtime. strict_prefix (vb_resources vb) runtime \<and> prefix runtime (vb_rscript vb)
         \<and> prefix runtime (vb_library vb))"
proof -
  have "bundle_conforms env root vb" using bundle_load_conforms [OF assms] .
  then show ?thesis
    by (auto simp: bundle_conforms_def resolves_def intro: strict_prefixI')
qed

text \<open>C19: What a loaded bundle guarantees about its content: the manifest obeys the fixed
  loopback, token and protocol-2 contract, packages are named once, include the ones the launcher
  needs, and each has an installed directory with a description; a registry runtime has a 64-digit
  lower-case hash and, from an HTTPS registry, only valid HTTPS sources.\<close>

theorem bundle_load_contract:
  assumes "bundle_load env root = Inr vb"
  shows "\<exists>content m. bounded_file env MANIFEST_MAX_BYTES (vb_manifest vb) content
    \<and> be_from_slice env content = Some m \<and> contract_ok (be_url_parse env) m
    \<and> vb_packages vb = dm_packages (mf_dependencies m)
    \<and> list_all (package_installed env (vb_library vb)) (vb_packages vb)
    \<and> layout_ok env (vb_app vb) (vb_app_type vb) \<and> launcher_ok env (vb_launcher vb)"
proof -
  have "bundle_conforms env root vb" using bundle_load_conforms [OF assms] .
  then show ?thesis
    unfolding bundle_conforms_def using validate_manifest_contract by blast
qed

section \<open>Witnesses\<close>

definition example_manifest :: manifest where
  "example_manifest =
     \<lparr>mf_schema_version = ''1'', mf_bundle_type = ''rpackit-desktop-resources'',
      mf_app = \<lparr>am_name = ''demo'', am_app_type = ''shiny-single-file'', am_path = ''app''\<rparr>,
      mf_runtime =
        \<lparr>rm_path = ''R'', rm_rscript = ''R/bin/Rscript.exe'', rm_library = ''R/library'',
         rm_platform = ''windows'', rm_r_version = Some ''4.4.1'', rm_source = ''explicit'',
         rm_provenance = None\<rparr>,
      mf_launcher =
        \<lparr>lm_script = ''launcher.R'', lm_host = ''127.0.0.1'', lm_port = ''required-argument'',
         lm_token = ''private-file'', lm_control = ''optional-argument'', lm_protocol_version = ''2'',
         lm_event_stream =
           \<lparr>es_format = ''ndjson'', es_destination = ''stdout'', es_prefix = ''RPACKIT_EVENT ''\<rparr>,
         lm_network_token_enforced = True,
         lm_authentication =
           \<lparr>au_scheme = ''shiny-shared-secret'', au_header = ''Shiny-Shared-Secret'',
            au_scope = [''http'', ''websocket''], au_token_transport = ''private-file'',
            au_token_in_url = False, au_minimum_shiny_version = ''1.3.0''\<rparr>,
         lm_readiness =
           \<lparr>rd_strategy = ''authenticated-http-poll'', rd_starting_event = ''listening''\<rparr>\<rparr>,
      mf_dependencies =
        \<lparr>dm_installed = True, dm_strategy = ''renv-restore'',
         dm_packages = [''jsonlite'', ''later'', ''shiny''], dm_locked_r_version = Some ''4.4.1'',
         dm_r_constraint = None,
         dm_constraints = [\<lparr>dc_package = ''shiny'', dc_requirement = ''>= 1.3.0''\<rparr>],
         dm_constraints_verified = True\<rparr>,
      mf_created_by = \<lparr>cb_package = ''rpackit'', cb_version = ''0.1.0''\<rparr>\<rparr>"

definition example_directories :: "path list" where
  "example_directories =
     (let r = [''C:'', ''bundle'', ''resources'']; l = r @ [''R'', ''library''] in
      [[''C:'', ''bundle''], r, r @ [''R''], r @ [''R'', ''bin''], l, r @ [''app''],
       l @ [''jsonlite''], l @ [''later''], l @ [''shiny'']])"

definition example_files :: "path list" where
  "example_files =
     (let r = [''C:'', ''bundle'', ''resources'']; l = r @ [''R'', ''library''] in
      [r @ [''rpackit.json''], r @ [''launcher.R''], r @ [''R'', ''bin'', ''Rscript.exe''],
       r @ [''app'', ''app.R''], l @ [''jsonlite'', ''DESCRIPTION''], l @ [''later'', ''DESCRIPTION''],
       l @ [''shiny'', ''DESCRIPTION'']])"

definition example_bundle_env :: bundle_env where
  "example_bundle_env =
     \<lparr>be_is_absolute = (\<lambda>p. True),
      be_symlink_metadata = (\<lambda>p.
        if p \<in> set example_directories
        then Inr \<lparr>md_is_symlink = False, md_is_file = False, md_is_dir = True, md_file_attributes = 0x10, md_len = 0\<rparr>
        else if p \<in> set example_files
        then Inr \<lparr>md_is_symlink = False, md_is_file = True, md_is_dir = False, md_file_attributes = 0x20, md_len = 400\<rparr>
        else Inl FsNotFound),
      be_canonicalize = Inr,
      be_read = (\<lambda>p. if last p = ''launcher.R'' then Inr (concat LAUNCHER_REQUIRED) else Inr ''{}''),
      be_from_slice = (\<lambda>s. if s = ''{}'' then Some example_manifest else None),
      be_url_parse = (\<lambda>_. None)\<rparr>"

definition example_bundle :: validated_bundle where
  "example_bundle =
     (let r = [''C:'', ''bundle'', ''resources''] in
      \<lparr>vb_bundle = [''C:'', ''bundle''], vb_resources = r, vb_manifest = r @ [''rpackit.json''],
       vb_rscript = r @ [''R'', ''bin'', ''Rscript.exe''], vb_library = r @ [''R'', ''library''],
       vb_app = r @ [''app''], vb_launcher = r @ [''launcher.R''], vb_app_type = SingleFile,
       vb_runtime_source = Explicit, vb_runtime_version = Some ''4.4.1'',
       vb_packages = [''jsonlite'', ''later'', ''shiny''], vb_created_by_version = ''0.1.0''\<rparr>)"

lemma example_bundle_loads: "bundle_load example_bundle_env [''C:'', ''bundle''] = Inr example_bundle"
  by code_simp

lemma bundle_load_contained_witness:
  "strict_prefix (vb_resources example_bundle) (vb_rscript example_bundle)"
  using bundle_load_contained [OF example_bundle_loads] by simp

lemma bundle_load_contract_witness:
  "\<exists>m. contract_ok (be_url_parse example_bundle_env) m \<and> launcher_ok example_bundle_env (vb_launcher example_bundle)"
  using bundle_load_contract [OF example_bundle_loads] by blast

end
