(* ===== verification/Launch_Environment.thy ===== *)
theory Launch_Environment
  imports Rust_Prelude "HOL-Library.List_Lexorder" "HOL-Library.Multiset"
begin

text \<open>
  The parts of \<open>crates/windows-launcher/src/lib.rs\<close> that build what \<open>CreateProcessW\<close> receives: the
  environment block and the command line.  An \<open>OsStr\<close> is the list of its UTF-16 code units, as
  \<open>encode_wide\<close> yields them.  \<open>CompareStringOrdinal\<close> is the argument \<open>compare_ordinal\<close>; the locale
  \<open>ordinal_names\<close> states its documented behaviour.  The block and argument readers
  \<open>block_entries\<close> and \<open>argv\<close> are the specification: what the started process reads back.
\<close>

section \<open>Definitions\<close>

type_synonym wide = "16 word list"

definition BACKSLASH :: "16 word" where "BACKSLASH = 0x5C"
definition QUOTE :: "16 word" where "QUOTE = 0x22"
definition SPACE :: "16 word" where "SPACE = 0x20"
definition TAB :: "16 word" where "TAB = 0x09"
definition EQUALS :: "16 word" where "EQUALS = 0x3D"

datatype launch_error =
    InvalidProgramPath | InvalidCurrentDirectory | InvalidSessionParent | InvalidPrivateLeaf
  | InvalidToken | RandomGenerationFailed | SessionNameCollisions | PrivateFileAlreadyExists string
  | PrivateDaclMismatch | MalformedTokenInformation | MalformedSecurityString
  | LaunchFileSystem string | InteriorNul string | CommandLineTooLong | InvalidEnvironmentName
  | InvalidEnvironmentValue | EnvironmentBlockTooLarge | EnvironmentComparisonFailed
  | InvalidProcessId | ProcessAlreadyExited | ProcessOutsideJob | InvalidListenerPort
  | ExpectedListenerNotFound | ConflictingListener | TcpTableQueryFailed nat
  | TcpTableChangedRepeatedly | MalformedTcpTable | InheritableJobHandle | UnexpectedJobPolicy
  | JobMembershipNotEstablished | UnexpectedSuspendCount nat | UnexpectedWaitResult nat
  | NativeStructureTooLarge | WindowsApi string nat

subsection \<open>Environment entries\<close>

record environment_entry =
  en_name :: wide
  en_value :: wide

datatype ordering = Less | Equal | Greater

definition i32_max :: nat where "i32_max = 2 ^ 31 - 1"

definition environment_name :: "wide \<Rightarrow> launch_error + wide" where
  "environment_name w =
     (if w = [] \<or> 0 \<in> set w \<or> EQUALS \<in> set w \<or> i32_max < length w
      then Inl InvalidEnvironmentName else Inr w)"

definition environment_value :: "wide \<Rightarrow> launch_error + wide" where
  "environment_value w = (if 0 \<in> set w then Inl InvalidEnvironmentValue else Inr w)"

definition CSTR_LESS_THAN :: int where "CSTR_LESS_THAN = 1"
definition CSTR_EQUAL :: int where "CSTR_EQUAL = 2"
definition CSTR_GREATER_THAN :: int where "CSTR_GREATER_THAN = 3"

definition compare_environment_names ::
  "(wide \<Rightarrow> wide \<Rightarrow> int) \<Rightarrow> wide \<Rightarrow> wide \<Rightarrow> launch_error + ordering" where
  "compare_environment_names compare_ordinal left right =
     (let result = compare_ordinal left right in
      if result = CSTR_LESS_THAN then Inr Less
      else if result = CSTR_EQUAL then Inr Equal
      else if result = CSTR_GREATER_THAN then Inr Greater
      else Inl EnvironmentComparisonFailed)"

fun find_name_from ::
  "(wide \<Rightarrow> wide \<Rightarrow> int) \<Rightarrow> nat \<Rightarrow> environment_entry list \<Rightarrow> wide \<Rightarrow> launch_error + nat option" where
  "find_name_from cmp index [] name = Inr None"
| "find_name_from cmp index (entry # entries) name =
     rbind (compare_environment_names cmp (en_name entry) name) (\<lambda>ord.
       if ord = Equal then Inr (Some index) else find_name_from cmp (Suc index) entries name)"

definition find_name ::
  "(wide \<Rightarrow> wide \<Rightarrow> int) \<Rightarrow> environment_entry list \<Rightarrow> wide \<Rightarrow> launch_error + nat option" where
  "find_name cmp entries name = find_name_from cmp 0 entries name"

definition swap_entries :: "'a list \<Rightarrow> nat \<Rightarrow> nat \<Rightarrow> 'a list" where
  "swap_entries xs i j = xs[i := xs ! j, j := xs ! i]"

text \<open>The inner loop of \<open>sort_entries\<close>: the entry at the cursor moves down while its left neighbour
  is greater.  A failed comparison leaves the entries as they are at that moment.\<close>

fun sift_down ::
  "(wide \<Rightarrow> wide \<Rightarrow> int) \<Rightarrow> environment_entry list \<Rightarrow> nat \<Rightarrow>
     environment_entry list \<times> (launch_error + unit)" where
  "sift_down cmp entries 0 = (entries, Inr ())"
| "sift_down cmp entries (Suc cursor) =
     (case compare_environment_names cmp (en_name (entries ! cursor)) (en_name (entries ! Suc cursor)) of
        Inl e \<Rightarrow> (entries, Inl e)
      | Inr ord \<Rightarrow>
          if ord = Greater then sift_down cmp (swap_entries entries cursor (Suc cursor)) cursor
          else (entries, Inr ()))"

fun sort_from ::
  "(wide \<Rightarrow> wide \<Rightarrow> int) \<Rightarrow> environment_entry list \<Rightarrow> nat list \<Rightarrow>
     environment_entry list \<times> (launch_error + unit)" where
  "sort_from cmp entries [] = (entries, Inr ())"
| "sort_from cmp entries (index # indices) =
     (case sift_down cmp entries index of
        (entries1, Inl e) \<Rightarrow> (entries1, Inl e)
      | (entries1, Inr _) \<Rightarrow> sort_from cmp entries1 indices)"

definition sort_entries ::
  "(wide \<Rightarrow> wide \<Rightarrow> int) \<Rightarrow> environment_entry list \<Rightarrow>
     environment_entry list \<times> (launch_error + unit)" where
  "sort_entries cmp entries = sort_from cmp entries [1..<length entries]"

subsection \<open>The launch environment\<close>

record launch_environment =
  le_entries :: "environment_entry list"

definition env_empty :: launch_environment where
  "env_empty = \<lparr>le_entries = []\<rparr>"

definition env_set ::
  "(wide \<Rightarrow> wide \<Rightarrow> int) \<Rightarrow> launch_environment \<Rightarrow> wide \<Rightarrow> wide \<Rightarrow>
     launch_environment \<times> (launch_error + unit)" where
  "env_set cmp env name0 value0 =
     (case environment_name name0 of
        Inl e \<Rightarrow> (env, Inl e)
      | Inr name \<Rightarrow>
          case environment_value value0 of
            Inl e \<Rightarrow> (env, Inl e)
          | Inr val \<Rightarrow>
              case find_name cmp (le_entries env) name of
                Inl e \<Rightarrow> (env, Inl e)
              | Inr found \<Rightarrow>
                  let entry = \<lparr>en_name = name, en_value = val\<rparr>;
                      entries = (case found of
                                   Some index \<Rightarrow> (le_entries env)[index := entry]
                                 | None \<Rightarrow> le_entries env @ [entry]);
                      sorted = sort_entries cmp entries
                  in (\<lparr>le_entries = fst sorted\<rparr>, snd sorted))"

definition env_remove ::
  "(wide \<Rightarrow> wide \<Rightarrow> int) \<Rightarrow> launch_environment \<Rightarrow> wide \<Rightarrow>
     launch_environment \<times> (launch_error + bool)" where
  "env_remove cmp env name0 =
     (case environment_name name0 of
        Inl e \<Rightarrow> (env, Inl e)
      | Inr name \<Rightarrow>
          case find_name cmp (le_entries env) name of
            Inl e \<Rightarrow> (env, Inl e)
          | Inr None \<Rightarrow> (env, Inr False)
          | Inr (Some index) \<Rightarrow>
              (\<lparr>le_entries = take index (le_entries env) @ drop (Suc index) (le_entries env)\<rparr>,
               Inr True))"

fun env_set_all ::
  "(wide \<Rightarrow> wide \<Rightarrow> int) \<Rightarrow> launch_environment \<Rightarrow> (wide \<times> wide) list \<Rightarrow>
     launch_error + launch_environment" where
  "env_set_all cmp env [] = Inr env"
| "env_set_all cmp env ((name, val) # vars) =
     (case env_set cmp env name val of
        (_, Inl e) \<Rightarrow> Inl e
      | (env1, Inr _) \<Rightarrow> env_set_all cmp env1 vars)"

text \<open>\<open>std::env::vars_os\<close> is the argument \<open>vars\<close>.\<close>

definition env_from_current ::
  "(wide \<Rightarrow> wide \<Rightarrow> int) \<Rightarrow> (wide \<times> wide) list \<Rightarrow> launch_error + launch_environment" where
  "env_from_current cmp vars = env_set_all cmp env_empty vars"

fun block_capacity :: "nat \<Rightarrow> environment_entry list \<Rightarrow> launch_error + nat" where
  "block_capacity acc [] = Inr acc"
| "block_capacity acc (entry # entries) =
     rbind (ok_or
       (Option.bind (checked_add usize_max acc (length (en_name entry))) (\<lambda>a.
        Option.bind (checked_add usize_max a 1) (\<lambda>b.
        Option.bind (checked_add usize_max b (length (en_value entry))) (\<lambda>c.
          checked_add usize_max c 1)))) EnvironmentBlockTooLarge) (\<lambda>next_total.
       block_capacity next_total entries)"

definition encode_entry :: "environment_entry \<Rightarrow> wide" where
  "encode_entry entry = en_name entry @ [EQUALS] @ en_value entry @ [0]"

definition encoded_block :: "launch_environment \<Rightarrow> launch_error + wide" where
  "encoded_block env =
     rbind (block_capacity 1 (le_entries env)) (\<lambda>_.
       let block = concat (map encode_entry (le_entries env)) @ [0] in
       Inr (if le_entries env = [] then block @ [0] else block))"

subsection \<open>The command line\<close>

definition WINDOWS_COMMAND_LINE_LIMIT :: nat where
  "WINDOWS_COMMAND_LINE_LIMIT = 32767"

fun quote_loop :: "nat \<Rightarrow> wide \<Rightarrow> wide \<Rightarrow> wide" where
  "quote_loop backslashes quoted [] = quoted @ replicate (backslashes * 2) BACKSLASH"
| "quote_loop backslashes quoted (character # cs) =
     (if character = BACKSLASH then quote_loop (backslashes + 1) quoted cs
      else if character = QUOTE
      then quote_loop 0 (quoted @ replicate (backslashes * 2 + 1) BACKSLASH @ [character]) cs
      else quote_loop 0 (quoted @ replicate backslashes BACKSLASH @ [character]) cs)"

definition quote_windows_argument :: "wide \<Rightarrow> string \<Rightarrow> launch_error + wide" where
  "quote_windows_argument input field =
     (if 0 \<in> set input then Inl (InteriorNul field)
      else
        let requires_quotes =
              input = [] \<or> list_ex (\<lambda>c. c = TAB \<or> c = SPACE \<or> c = QUOTE) input
        in if \<not> requires_quotes then Inr input
           else Inr (quote_loop 0 [QUOTE] input @ [QUOTE]))"

fun append_arguments :: "wide \<Rightarrow> nat \<Rightarrow> wide list \<Rightarrow> launch_error + wide" where
  "append_arguments command_line index [] = Inr command_line"
| "append_arguments command_line index (argument # arguments) =
     rbind (quote_windows_argument argument (if index = 0 then ''argument'' else ''arguments'')) (\<lambda>quoted.
       append_arguments (command_line @ [SPACE] @ quoted) (Suc index) arguments)"

definition build_command_line :: "wide \<Rightarrow> wide list \<Rightarrow> launch_error + wide" where
  "build_command_line program arguments =
     rbind (quote_windows_argument program ''program path'') (\<lambda>start.
     rbind (append_arguments start 0 arguments) (\<lambda>command_line0.
       let command_line = command_line0 @ [0] in
       if WINDOWS_COMMAND_LINE_LIMIT < length command_line then Inl CommandLineTooLong
       else Inr command_line))"

definition nul_terminated_wide :: "wide \<Rightarrow> string \<Rightarrow> launch_error + wide" where
  "nul_terminated_wide w field =
     (if 0 \<in> set w then Inl (InteriorNul field) else Inr (w @ [0]))"

subsection \<open>Specifications\<close>

text \<open>
  The documented argument rules of the C runtime, for the arguments after the program name: an argument ends at a space or tab outside quotes;
  \<open>2n\<close> backslashes before a quote are \<open>n\<close> backslashes and a quote that toggles quoting, or a literal
  quote when it is the first of two inside quotes; \<open>2n+1\<close> backslashes before a quote are \<open>n\<close>
  backslashes and a literal quote; other backslashes are literal.
\<close>

function scan_argument :: "bool \<Rightarrow> nat \<Rightarrow> wide \<Rightarrow> wide \<Rightarrow> wide \<times> wide" where
  "scan_argument q n acc [] = (acc @ replicate n BACKSLASH, [])"
| "scan_argument q n acc (c # s) =
     (if c = BACKSLASH then scan_argument q (Suc n) acc s
      else if c = QUOTE then
        if odd n then scan_argument q 0 (acc @ replicate (n div 2) BACKSLASH @ [QUOTE]) s
        else if q \<and> s \<noteq> [] \<and> hd s = QUOTE
        then scan_argument q 0 (acc @ replicate (n div 2) BACKSLASH @ [QUOTE]) (tl s)
        else scan_argument (\<not> q) 0 (acc @ replicate (n div 2) BACKSLASH) s
      else if \<not> q \<and> (c = SPACE \<or> c = TAB) then (acc @ replicate n BACKSLASH, c # s)
      else scan_argument q 0 (acc @ replicate n BACKSLASH @ [c]) s)"
  by pat_completeness auto
termination
  by (relation "measure (\<lambda>(q, n, acc, s). length s)") auto

definition is_blank :: "16 word \<Rightarrow> bool" where
  "is_blank c = (c = SPACE \<or> c = TAB)"

fun argv_fuel :: "nat \<Rightarrow> wide \<Rightarrow> wide list" where
  "argv_fuel 0 s = []"
| "argv_fuel (Suc k) s =
     (case dropWhile is_blank s of
        [] \<Rightarrow> []
      | c # r \<Rightarrow> (case scan_argument False 0 [] (c # r) of (a, s1) \<Rightarrow> a # argv_fuel k s1))"

text \<open>The program name is read by rules of its own: a quote switches quoting and is not part of the
  name, a space or tab outside quotes ends it, and a backslash is never an escape.\<close>

fun scan_program :: "bool \<Rightarrow> wide \<Rightarrow> wide \<Rightarrow> wide \<times> wide" where
  "scan_program q acc [] = (acc, [])"
| "scan_program q acc (c # s) =
     (if c = QUOTE then scan_program (\<not> q) acc s
      else if \<not> q \<and> is_blank c then (acc, c # s)
      else scan_program q (acc @ [c]) s)"

text \<open>Every argument takes at least one code unit, so the length of the rest is enough fuel.\<close>

definition argv :: "wide \<Rightarrow> wide list" where
  "argv s = (case scan_program False [] s of (p, rest) \<Rightarrow> p # argv_fuel (length rest) rest)"

text \<open>The program names that survive those rules: without a quote, and without a trailing backslash
  when a space or tab makes the name quoted.\<close>

definition program_readable :: "wide \<Rightarrow> bool" where
  "program_readable p = (QUOTE \<notin> set p \<and> \<not> (list_ex is_blank p \<and> last p = BACKSLASH))"

text \<open>The reader of an environment block: strings up to the first empty one, each cut at its first
  equals sign.\<close>

function block_strings :: "wide \<Rightarrow> wide list" where
  "block_strings s =
     (case split_once 0 s of
        None \<Rightarrow> []
      | Some (a, r) \<Rightarrow> if a = [] then [] else a # block_strings r)"
  by pat_completeness auto
termination
  by (relation "measure length") auto

declare block_strings.simps [simp del]

definition block_entries :: "wide \<Rightarrow> (wide \<times> wide) option list" where
  "block_entries s = map (split_once EQUALS) (block_strings s)"

text \<open>Names are identified after mapping every code unit to upper case.  An environment is the
  partial map from such keys to values.\<close>

definition name_key :: "(16 word \<Rightarrow> 16 word) \<Rightarrow> wide \<Rightarrow> wide" where
  "name_key upcase w = map upcase w"

definition entry_key :: "(16 word \<Rightarrow> 16 word) \<Rightarrow> environment_entry \<Rightarrow> wide" where
  "entry_key upcase e = name_key upcase (en_name e)"

definition entry_ok :: "environment_entry \<Rightarrow> bool" where
  "entry_ok e =
     (environment_name (en_name e) = Inr (en_name e) \<and> environment_value (en_value e) = Inr (en_value e))"

definition env_inv :: "(16 word \<Rightarrow> 16 word) \<Rightarrow> launch_environment \<Rightarrow> bool" where
  "env_inv upcase env =
     (sorted_wrt (\<lambda>a b. entry_key upcase a < entry_key upcase b) (le_entries env)
      \<and> list_all entry_ok (le_entries env))"

definition env_map :: "(16 word \<Rightarrow> 16 word) \<Rightarrow> launch_environment \<Rightarrow> wide \<rightharpoonup> wide" where
  "env_map upcase env = map_of (map (\<lambda>e. (entry_key upcase e, en_value e)) (le_entries env))"

section \<open>Lemmas\<close>

subsection \<open>The comparison contract\<close>

locale ordinal_names =
  fixes compare_ordinal :: "wide \<Rightarrow> wide \<Rightarrow> int"
    and upcase :: "16 word \<Rightarrow> 16 word"
  assumes less: "map upcase a < map upcase b \<Longrightarrow> compare_ordinal a b = CSTR_LESS_THAN"
    and equal: "map upcase a = map upcase b \<Longrightarrow> compare_ordinal a b = CSTR_EQUAL"
    and greater: "map upcase b < map upcase a \<Longrightarrow> compare_ordinal a b = CSTR_GREATER_THAN"
begin

abbreviation key :: "environment_entry \<Rightarrow> wide" where
  "key \<equiv> entry_key upcase"

lemma compare_names:
  "compare_environment_names compare_ordinal a b =
     Inr (if name_key upcase a < name_key upcase b then Less
          else if name_key upcase a = name_key upcase b then Equal else Greater)"
  using less [of a b] equal [of a b] greater [of b a]
  by (auto simp: compare_environment_names_def name_key_def Let_def CSTR_LESS_THAN_def CSTR_EQUAL_def
      CSTR_GREATER_THAN_def not_less_iff_gr_or_eq)

lemma find_name_from_cases:
  obtains (absent) "\<forall>e \<in> set es. key e \<noteq> name_key upcase n" "find_name_from compare_ordinal i es n = Inr None"
  | (found) us e vs where "es = us @ e # vs" "key e = name_key upcase n"
      "find_name_from compare_ordinal i es n = Inr (Some (i + length us))"
proof (induction es arbitrary: i thesis)
  case (Cons e es)
  show ?case
  proof (cases "key e = name_key upcase n")
    case True
    then show ?thesis
      using Cons.prems(2) [of "[]" e es] by (simp add: compare_names entry_key_def)
  next
    case False
    then have step: "find_name_from compare_ordinal i (e # es) n = find_name_from compare_ordinal (Suc i) es n"
      by (simp add: compare_names entry_key_def)
    show ?thesis
    proof (rule Cons.IH [of "Suc i"])
      assume "\<forall>e \<in> set es. key e \<noteq> name_key upcase n" "find_name_from compare_ordinal (Suc i) es n = Inr None"
      with False step show ?thesis by (intro Cons.prems(1)) auto
    next
      fix us f vs
      assume "es = us @ f # vs" "key f = name_key upcase n"
        "find_name_from compare_ordinal (Suc i) es n = Inr (Some (Suc i + length us))"
      with step show ?thesis by (intro Cons.prems(2) [of "e # us" f vs]) auto
    qed
  qed
qed simp

lemmas find_name_cases = find_name_from_cases [where i = 0, folded find_name_def, simplified]

lemma sift_down_spec:
  "\<exists>us vs. xs = us @ vs \<and> sift_down compare_ordinal (xs @ x # ys) (length xs) = (us @ x # vs @ ys, Inr ())
     \<and> (\<forall>v \<in> set vs. key x < key v) \<and> (us \<noteq> [] \<longrightarrow> \<not> key x < key (last us))"
proof (induction xs arbitrary: ys rule: rev_induct)
  case (snoc z zs)
  show ?case
  proof (cases "key x < key z")
    case True
    obtain us vs where IH: "zs = us @ vs"
      "sift_down compare_ordinal (zs @ x # z # ys) (length zs) = (us @ x # vs @ z # ys, Inr ())"
      "\<forall>v \<in> set vs. key x < key v" "us \<noteq> [] \<longrightarrow> \<not> key x < key (last us)"
      using snoc.IH [of "z # ys"] by blast
    have "swap_entries (zs @ z # x # ys) (length zs) (Suc (length zs)) = zs @ x # z # ys"
      by (simp add: swap_entries_def nth_append list_update_append)
    with True IH show ?thesis
      by (intro exI [of _ us] exI [of _ "vs @ [z]"])
        (auto simp: compare_names nth_append entry_key_def not_less_iff_gr_or_eq)
  next
    case False
    then show ?thesis
      by (intro exI [of _ "zs @ [z]"] exI [of _ "[]"])
        (auto simp: compare_names nth_append entry_key_def)
  qed
qed simp

lemma sort_from_spec:
  assumes "i \<le> length es" and "sorted_wrt (\<lambda>a b. key a \<le> key b) (take i es)"
  shows "\<exists>es1. sort_from compare_ordinal es [i..<length es] = (es1, Inr ())
    \<and> sorted_wrt (\<lambda>a b. key a \<le> key b) es1 \<and> mset es1 = mset es"
  using assms
proof (induction "length es - i" arbitrary: i es)
  case 0
  then show ?case by simp
next
  case (Suc d)
  then have i: "i < length es" by simp
  let ?xs = "take i es" and ?x = "es ! i" and ?ys = "drop (Suc i) es"
  have es: "es = ?xs @ ?x # ?ys" using i by (simp add: id_take_nth_drop)
  obtain us vs where xs: "?xs = us @ vs" and
    sift: "sift_down compare_ordinal es i = (us @ ?x # vs @ ?ys, Inr ())"
      "\<forall>v \<in> set vs. key ?x < key v" "us \<noteq> [] \<longrightarrow> \<not> key ?x < key (last us)"
    using sift_down_spec [of ?xs ?x ?ys] i es by (metis length_take less_imp_le min.absorb2)
  let ?es = "us @ ?x # vs @ ?ys"
  have lx: "length us + length vs = i" using arg_cong [OF xs, of length] i by simp
  have len: "length ?es = length es" and take: "take (Suc i) ?es = us @ ?x # vs"
    using lx i by auto
  have "sorted_wrt (\<lambda>a b. key a \<le> key b) us"
    using Suc.prems(2) unfolding xs by (simp add: sorted_wrt_append)
  then have "key u \<le> key ?x" if "u \<in> set us" for u
    using that sift(3) by (cases us rule: rev_cases) (auto simp: sorted_wrt_append intro: order_trans)
  with sift(2) Suc.prems(2) have srt: "sorted_wrt (\<lambda>a b. key a \<le> key b) (take (Suc i) ?es)"
    unfolding take xs by (auto simp: sorted_wrt_append less_imp_le)
  have "d = length ?es - Suc i" "Suc i \<le> length ?es"
    unfolding len using Suc.hyps(2) i by simp_all
  from Suc.hyps(1) [OF this srt, unfolded len] obtain es1
    where "sort_from compare_ordinal ?es [Suc i..<length es] = (es1, Inr ())"
    "sorted_wrt (\<lambda>a b. key a \<le> key b) es1" "mset es1 = mset ?es"
    by blast
  moreover have "mset ?es = mset es" by (subst (2) es) (simp add: xs)
  moreover have "sort_from compare_ordinal es [i..<length es] = sort_from compare_ordinal ?es [Suc i..<length es]"
    using sift(1) i by (simp add: upt_conv_Cons)
  ultimately show ?case by metis
qed

lemma sort_entries_spec:
  obtains es1 where "sort_entries compare_ordinal es = (es1, Inr ())"
    "sorted_wrt (\<lambda>a b. key a \<le> key b) es1" "mset es1 = mset es"
proof (cases es)
  case (Cons e r)
  then have "sorted_wrt (\<lambda>a b. key a \<le> key b) (take 1 es)" "1 \<le> length es" by simp_all
  then show ?thesis
    using sort_from_spec [of 1 es] that unfolding sort_entries_def by blast
qed (use that in \<open>simp add: sort_entries_def\<close>)

lemma inv_keys:
  "env_inv upcase env \<longleftrightarrow>
     sorted (map key (le_entries env)) \<and> distinct (map key (le_entries env)) \<and> list_all entry_ok (le_entries env)"
  using strict_sorted_iff [of "map key (le_entries env)"] by (auto simp: env_inv_def sorted_wrt_map)

lemma sorted_environment:
  assumes "distinct (map key es)" and "list_all entry_ok es"
  obtains es1 where "sort_entries compare_ordinal es = (es1, Inr ())" "env_inv upcase \<lparr>le_entries = es1\<rparr>"
    "env_map upcase \<lparr>le_entries = es1\<rparr> = env_map upcase \<lparr>le_entries = es\<rparr>"
proof -
  obtain es1 where es1: "sort_entries compare_ordinal es = (es1, Inr ())"
    "sorted_wrt (\<lambda>a b. key a \<le> key b) es1" "mset es1 = mset es"
    by (rule sort_entries_spec)
  have same: "set es1 = set es" using es1(3) by (metis set_mset_mset)
  have "mset (map key es1) = mset (map key es)" using es1(3) by simp
  then have d1: "distinct (map key es1)" using assms(1) mset_eq_imp_distinct_iff by metis
  have "env_inv upcase \<lparr>le_entries = es1\<rparr>"
    using es1(2) d1 assms(2) same by (simp add: inv_keys sorted_wrt_map list_all_iff)
  moreover have "env_map upcase \<lparr>le_entries = es1\<rparr> = env_map upcase \<lparr>le_entries = es\<rparr>"
    unfolding env_map_def using d1 assms(1) same
    by (subst map_of_inject_set) (simp_all add: comp_def)
  ultimately show ?thesis using that es1(1) by blast
qed

lemma set_refines:
  assumes inv: "env_inv upcase env" and n: "environment_name n = Inr n" and v: "environment_value v = Inr v"
  shows "\<exists>env1. env_set compare_ordinal env n v = (env1, Inr ()) \<and> env_inv upcase env1
    \<and> env_map upcase env1 = (env_map upcase env)(name_key upcase n \<mapsto> v)"
proof -
  let ?es = "le_entries env" and ?e = "\<lparr>en_name = n, en_value = v\<rparr>"
  have k: "key ?e = name_key upcase n" "entry_ok ?e" using n v by (simp_all add: entry_key_def entry_ok_def)
  have step: ?thesis
    if found: "find_name compare_ordinal ?es n = Inr i"
      and es: "es = (case i of Some j \<Rightarrow> ?es[j := ?e] | None \<Rightarrow> ?es @ [?e])"
      and d: "distinct (map key es)" and ok: "list_all entry_ok es"
      and upd: "env_map upcase \<lparr>le_entries = es\<rparr> = (env_map upcase env)(name_key upcase n \<mapsto> v)" for es i
    by (rule sorted_environment [OF d ok]) (use found n v es upd in \<open>auto simp: env_set_def Let_def\<close>)
  show ?thesis
  proof (cases rule: find_name_cases [of ?es n])
    case 1
    then have "map_of (map (\<lambda>e. (key e, en_value e)) ?es) (name_key upcase n) = None"
      by (auto simp: map_of_eq_None_iff)
    with 1 show ?thesis
      using inv k
      by (intro step [of None "?es @ [?e]"])
        (auto simp: inv_keys env_map_def map_add_def fun_eq_iff split: option.splits)
  next
    case (2 us e vs)
    have "map_of (map (\<lambda>e. (key e, en_value e)) us) (name_key upcase n) = None"
      using inv 2 by (auto simp: inv_keys map_of_eq_None_iff image_iff)
    with 2 show ?thesis
      using inv k
      by (intro step [of "Some (length us)" "us @ ?e # vs"])
        (auto simp: inv_keys env_map_def map_add_def fun_eq_iff split: option.splits)
  qed
qed

lemma remove_refines:
  assumes inv: "env_inv upcase env" and n: "environment_name n = Inr n"
  shows "\<exists>env1. env_remove compare_ordinal env n = (env1, Inr (env_map upcase env (name_key upcase n) \<noteq> None))
    \<and> env_inv upcase env1 \<and> env_map upcase env1 = (env_map upcase env)(name_key upcase n := None)"
proof (cases rule: find_name_cases [of "le_entries env" n])
  case 1
  then have "env_map upcase env (name_key upcase n) = None"
    by (auto simp: env_map_def map_of_eq_None_iff)
  then show ?thesis using 1 inv n by (auto simp: env_remove_def)
next
  case (2 us e vs)
  have "map_of (map (\<lambda>e. (key e, en_value e)) us) (name_key upcase n) = None"
      "map_of (map (\<lambda>e. (key e, en_value e)) vs) (name_key upcase n) = None"
    using inv 2 by (auto simp: inv_keys map_of_eq_None_iff image_iff)
  then show ?thesis using 2 inv n
    by (auto simp: env_remove_def inv_keys env_map_def map_add_def fun_eq_iff sorted_append
        split: option.splits)
qed

end

subsection \<open>A comparison that satisfies the contract\<close>

definition ascii_upcase :: "16 word \<Rightarrow> 16 word" where
  "ascii_upcase c = (if 0x61 \<le> c \<and> c \<le> 0x7A then c - 0x20 else c)"

definition ordinal_compare :: "wide \<Rightarrow> wide \<Rightarrow> int" where
  "ordinal_compare a b =
     (let x = map ascii_upcase a; y = map ascii_upcase b in
      if x < y then CSTR_LESS_THAN else if x = y then CSTR_EQUAL else CSTR_GREATER_THAN)"

interpretation ascii: ordinal_names ordinal_compare ascii_upcase
  by unfold_locales (auto simp: ordinal_compare_def Let_def)

subsection \<open>The environment block\<close>

lemma block_strings_Cons:
  "0 \<notin> set a \<Longrightarrow> a \<noteq> [] \<Longrightarrow> block_strings (a @ 0 # s) = a # block_strings s"
proof -
  assume a: "0 \<notin> set a" "a \<noteq> []"
  then have "split_once 0 (a @ 0 # s) = Some (a, s)" by simp
  with a show ?thesis by (subst block_strings.simps) (simp del: split_once_Some_iff)
qed

lemma block_strings_end: "block_strings (0 # s) = []"
proof -
  have "split_once 0 (0 # s) = Some ([], s)" by simp
  then show ?thesis by (subst block_strings.simps) (simp del: split_once_Some_iff)
qed

lemma block_strings_encode:
  assumes "list_all entry_ok es"
  shows "block_strings (concat (map encode_entry es) @ 0 # s) =
    map (\<lambda>e. en_name e @ EQUALS # en_value e) es"
  using assms
proof (induction es)
  case (Cons e es)
  have "0 \<notin> set (en_name e @ EQUALS # en_value e)"
    using Cons.prems by (auto simp: entry_ok_def environment_name_def environment_value_def EQUALS_def split: if_splits)
  from block_strings_Cons [OF this] Cons show ?case
    by (simp add: encode_entry_def)
qed (simp add: block_strings_end)

subsection \<open>Arguments\<close>

lemma scan_backslashes:
  "scan_argument q n acc (replicate k BACKSLASH @ s) = scan_argument q (n + k) acc s"
  by (induction k arbitrary: n) simp_all

definition ends_argument :: "wide \<Rightarrow> bool" where
  "ends_argument s = (s = [] \<or> is_blank (hd s))"

lemma quote_loop_append: "quote_loop b (p @ q) cs = p @ quote_loop b q cs"
  by (induction cs arbitrary: b q) simp_all

lemmas quote_loop_acc = quote_loop_append [of _ _ "[]", simplified]

lemma units_distinct [simp]:
  "QUOTE \<noteq> BACKSLASH" "SPACE \<noteq> BACKSLASH" "TAB \<noteq> BACKSLASH" "SPACE \<noteq> QUOTE" "TAB \<noteq> QUOTE"
  "BACKSLASH \<noteq> QUOTE" "BACKSLASH \<noteq> SPACE" "BACKSLASH \<noteq> TAB" "QUOTE \<noteq> SPACE" "QUOTE \<noteq> TAB"
  by (simp_all add: QUOTE_def BACKSLASH_def SPACE_def TAB_def)

lemma scan_end: "ends_argument rest \<Longrightarrow> scan_argument False n acc rest = (acc @ replicate n BACKSLASH, rest)"
  by (cases rest) (auto simp: ends_argument_def is_blank_def)

lemma scan_quoted:
  assumes "ends_argument rest"
  shows "scan_argument True 0 acc (quote_loop b [] cs @ QUOTE # rest) = (acc @ replicate b BACKSLASH @ cs, rest)"
proof (induction cs arbitrary: b acc)
  case Nil
  have "rest = [] \<or> hd rest \<noteq> QUOTE"
    using assms by (auto simp: ends_argument_def is_blank_def)
  with assms show ?case by (auto simp: scan_backslashes scan_end)
next
  case (Cons c cs)
  consider (slash) "c = BACKSLASH" | (quote) "c = QUOTE" | (other) "c \<noteq> BACKSLASH" "c \<noteq> QUOTE" by blast
  then show ?case
  proof cases
    case slash
    then show ?thesis
      using Cons.IH [of acc "Suc b"] by (simp add: replicate_append_same [symmetric])
  next
    case quote
    show ?thesis
      unfolding quote quote_loop.simps
      apply (simp add: scan_backslashes)
      apply (subst quote_loop_acc)
      apply (simp add: scan_backslashes Cons.IH)
      done
  next
    case other
    then show ?thesis
      apply simp
      apply (subst quote_loop_acc)
      apply (simp add: scan_backslashes Cons.IH)
      done
  qed
qed

lemma scan_plain:
  assumes "ends_argument rest" and "\<not> list_ex (\<lambda>c. c = TAB \<or> c = SPACE \<or> c = QUOTE) cs"
  shows "scan_argument False n acc (cs @ rest) = (acc @ replicate n BACKSLASH @ cs, rest)"
  using assms(2)
proof (induction cs arbitrary: n acc)
  case (Cons c cs)
  then show ?case
    by (auto simp: replicate_append_same [symmetric])
qed (simp add: scan_end assms(1))

lemma scan_quote_windows_argument:
  assumes "quote_windows_argument a field = Inr q" and "ends_argument rest"
  shows "scan_argument False 0 [] (q @ rest) = (a, rest)"
proof (cases "a = [] \<or> list_ex (\<lambda>c. c = TAB \<or> c = SPACE \<or> c = QUOTE) a")
  case True
  then have "q = QUOTE # quote_loop 0 [] a @ [QUOTE]"
    using assms(1) quote_loop_acc [of 0 "[QUOTE]" a]
    by (auto simp: quote_windows_argument_def Let_def split: if_splits)
  then show ?thesis using scan_quoted [OF assms(2), of "[]" 0 a] by simp
next
  case False
  then have "q = a" using assms(1) by (auto simp: quote_windows_argument_def Let_def split: if_splits)
  with False scan_plain [OF assms(2), of a 0 "[]"] show ?thesis by simp
qed

lemma quote_windows_argument_start:
  assumes "quote_windows_argument a field = Inr q"
  shows "q \<noteq> [] \<and> \<not> is_blank (hd q)"
proof (cases "a = [] \<or> list_ex (\<lambda>c. c = TAB \<or> c = SPACE \<or> c = QUOTE) a")
  case True
  then have "q = QUOTE # quote_loop 0 [] a @ [QUOTE]"
    using assms(1) quote_loop_acc [of 0 "[QUOTE]" a]
    by (auto simp: quote_windows_argument_def Let_def split: if_splits)
  then show ?thesis by (simp add: is_blank_def)
next
  case False
  then have "q = a" using assms(1) by (auto simp: quote_windows_argument_def Let_def split: if_splits)
  with False show ?thesis by (cases a) (auto simp: is_blank_def)
qed

text \<open>The tail of the command line: every quoted argument after a space.\<close>

definition spaced :: "wide list \<Rightarrow> wide" where
  "spaced qs = concat (map ((#) SPACE) qs)"

lemma ends_spaced [simp]: "ends_argument (spaced qs)"
  by (cases qs) (simp_all add: spaced_def ends_argument_def is_blank_def)

lemma append_arguments_spaced:
  assumes "append_arguments line i args = Inr result"
  shows "\<exists>qs. list_all2 (\<lambda>a q. \<exists>field. quote_windows_argument a field = Inr q) args qs \<and> result = line @ spaced qs"
  using assms
proof (induction args arbitrary: line i)
  case (Cons a args)
  then obtain q where q: "quote_windows_argument a (if i = 0 then ''argument'' else ''arguments'') = Inr q"
    "append_arguments (line @ [SPACE] @ q) (Suc i) args = Inr result" by auto
  from Cons.IH [OF q(2)] obtain qs where
    "list_all2 (\<lambda>a q. \<exists>field. quote_windows_argument a field = Inr q) args qs"
    "result = (line @ [SPACE] @ q) @ spaced qs" by blast
  with q(1) show ?case by (intro exI [of _ "q # qs"]) (auto simp: spaced_def)
qed (simp add: spaced_def)

lemma argv_fuel_argument:
  assumes "quote_windows_argument a field = Inr q"
  shows "argv_fuel (Suc k) (SPACE # q @ spaced qs) = a # argv_fuel k (spaced qs)"
proof -
  obtain c r where q: "q = c # r" "\<not> is_blank c"
    using quote_windows_argument_start [OF assms] by (cases q) auto
  then have skip: "dropWhile is_blank (q @ spaced qs) = c # (r @ spaced qs)" by simp
  have scan: "scan_argument False 0 [] (c # (r @ spaced qs)) = (a, spaced qs)"
    using scan_quote_windows_argument [OF assms, of "spaced qs"] q by simp
  from skip scan show ?thesis
    by (simp add: is_blank_def del: scan_argument.simps)
qed

lemma argv_fuel_spaced:
  assumes "list_all2 (\<lambda>a q. \<exists>field. quote_windows_argument a field = Inr q) args qs" and "length args \<le> k"
  shows "argv_fuel k (spaced qs) = args"
  using assms
proof (induction arbitrary: k rule: list_all2_induct)
  case (Cons a args q qs)
  then obtain j field where "k = Suc j" "quote_windows_argument a field = Inr q" by (cases k) auto
  with Cons argv_fuel_argument [of a field q j qs] show ?case by (simp add: spaced_def)
next
  case Nil
  then show ?case by (cases k) (simp_all add: spaced_def)
qed

text \<open>The program name.\<close>

lemma scan_program_no_quote: "QUOTE \<notin> set acc \<Longrightarrow> QUOTE \<notin> set (fst (scan_program q acc s))"
  by (induction q acc s rule: scan_program.induct) simp_all

lemma scan_program_plain:
  "ends_argument rest \<Longrightarrow> QUOTE \<notin> set cs \<Longrightarrow> \<not> list_ex is_blank cs \<Longrightarrow>
     scan_program False acc (cs @ rest) = (acc @ cs, rest)"
proof (induction cs arbitrary: acc)
  case Nil
  then show ?case by (cases rest) (auto simp: ends_argument_def is_blank_def)
qed auto

lemma scan_program_quoted:
  "ends_argument rest \<Longrightarrow> QUOTE \<notin> set cs \<Longrightarrow>
     scan_program True acc (cs @ QUOTE # rest) = (acc @ cs, rest)"
proof (induction cs arbitrary: acc)
  case Nil
  then show ?case by (cases rest) (auto simp: ends_argument_def is_blank_def)
qed auto

text \<open>Without a quote the quoting only adds backslashes, and only after a trailing one.\<close>

lemma quote_loop_no_quote:
  assumes "QUOTE \<notin> set cs"
  shows "\<exists>m. quote_loop b [] cs = replicate b BACKSLASH @ cs @ replicate m BACKSLASH
    \<and> (m = 0 \<longleftrightarrow> (if cs = [] then b = 0 else last cs \<noteq> BACKSLASH))"
  using assms
proof (induction cs arbitrary: b)
  case Nil
  show ?case by (intro exI [of _ b]) (simp add: replicate_add [symmetric] mult_2_right)
next
  case (Cons c cs)
  show ?case
  proof (cases "c = BACKSLASH")
    case True
    with Cons.IH [of "Suc b"] Cons.prems show ?thesis
      by (auto simp: replicate_append_same [symmetric] split: if_splits)
  next
    case False
    then have "quote_loop b [] (c # cs) = replicate b BACKSLASH @ [c] @ quote_loop 0 [] cs"
      using Cons.prems quote_loop_acc [of 0 "replicate b BACKSLASH @ [c]" cs] by auto
    with Cons.IH [of 0] Cons.prems False show ?thesis by (auto split: if_splits)
  qed
qed

lemma scan_program_quote_windows_argument:
  assumes "quote_windows_argument p field = Inr q" and "ends_argument rest"
  shows "if program_readable p then scan_program False [] (q @ rest) = (p, rest)
    else fst (scan_program False [] (q @ rest)) \<noteq> p"
proof (cases "QUOTE \<in> set p")
  case True
  then have "fst (scan_program False [] (q @ rest)) \<noteq> p"
    using scan_program_no_quote [of "[]" False "q @ rest"] by auto
  with True show ?thesis by (simp add: program_readable_def)
next
  case no_quote: False
  show ?thesis
  proof (cases "p = [] \<or> list_ex is_blank p")
    case True
    then have "q = QUOTE # quote_loop 0 [] p @ [QUOTE]"
      using assms(1) quote_loop_acc [of 0 "[QUOTE]" p]
      by (auto simp: quote_windows_argument_def Let_def is_blank_def list_ex_iff split: if_splits)
    moreover obtain m where m: "quote_loop 0 [] p = p @ replicate m BACKSLASH"
        "m = 0 \<longleftrightarrow> p = [] \<or> last p \<noteq> BACKSLASH"
      using quote_loop_no_quote [OF no_quote, of 0] by (auto split: if_splits)
    moreover have "QUOTE \<notin> set (p @ replicate m BACKSLASH)" using no_quote by auto
    ultimately have "scan_program False [] (q @ rest) = (p @ replicate m BACKSLASH, rest)"
      using scan_program_quoted [OF assms(2), of "p @ replicate m BACKSLASH" "[]"] by simp
    with m(2) True no_quote show ?thesis by (auto simp: program_readable_def)
  next
    case False
    then have "q = p"
      using assms(1) no_quote
      by (auto simp: quote_windows_argument_def Let_def is_blank_def list_ex_iff split: if_splits)
    with False no_quote scan_program_plain [OF assms(2) no_quote, of "[]"] show ?thesis
      by (simp add: program_readable_def)
  qed
qed

lemma length_spaced: "length qs \<le> length (spaced qs)"
  by (induction qs) (auto simp: spaced_def)

lemma set_quote_loop: "set (quote_loop b q cs) \<subseteq> insert BACKSLASH (set q \<union> set cs)"
proof (induction cs arbitrary: b q)
  case (Cons c cs)
  show ?case
    using Cons.IH [of "b + 1" q] Cons.IH [of 0 "q @ replicate (b * 2 + 1) BACKSLASH @ [c]"]
      Cons.IH [of 0 "q @ replicate b BACKSLASH @ [c]"]
    by (auto split: if_splits)
qed auto

lemma quote_windows_argument_no_nul: "quote_windows_argument a field = Inr q \<Longrightarrow> 0 \<notin> set q"
  using set_quote_loop [of 0 "[QUOTE]" a]
  by (auto simp: quote_windows_argument_def Let_def QUOTE_def BACKSLASH_def split: if_splits)

lemma spaced_no_nul:
  assumes "list_all2 (\<lambda>a q. \<exists>field. quote_windows_argument a field = Inr q) args qs"
  shows "0 \<notin> set (spaced qs)"
  using assms
  by (induction rule: list_all2_induct) (auto simp: spaced_def SPACE_def dest: quote_windows_argument_no_nul)

section \<open>Properties\<close>

text \<open>C38: The started process reads back exactly the arguments it was given.  Under the C runtime's
  rules for the program name and for the arguments, the built command line is the program followed by
  the given arguments, whatever spaces, tabs, quotes and backslashes the arguments contain, exactly
  when the program name has no quote and, where it must be quoted, no trailing backslash; a program
  that breaks this rule, which no path of an existing file does, is never read back.  The line is
  NUL-terminated, has no other NUL and is within the limit of \<open>CreateProcessW\<close>.\<close>

theorem command_line_roundtrip:
  assumes "build_command_line program arguments = Inr line"
  shows "(argv (butlast line) = program # arguments
      \<longleftrightarrow> QUOTE \<notin> set program \<and> \<not> (list_ex is_blank program \<and> last program = BACKSLASH))
    \<and> last line = 0 \<and> 0 \<notin> set (butlast line) \<and> length line \<le> 32767"
proof -
  obtain start line0 where start: "quote_windows_argument program ''program path'' = Inr start"
    and line0: "append_arguments start 0 arguments = Inr line0"
    and line: "line = line0 @ [0]" "length line \<le> 32767"
    using assms by (auto simp: build_command_line_def Let_def WINDOWS_COMMAND_LINE_LIMIT_def split: if_splits)
  obtain qs where qs: "list_all2 (\<lambda>a q. \<exists>field. quote_windows_argument a field = Inr q) arguments qs"
      "line0 = start @ spaced qs"
    using append_arguments_spaced [OF line0] by blast
  have "length arguments \<le> length (spaced qs)"
    using list_all2_lengthD [OF qs(1)] length_spaced [of qs] by simp
  then have "argv_fuel (length (spaced qs)) (spaced qs) = arguments"
    by (rule argv_fuel_spaced [OF qs(1)])
  then have "argv line0 = program # arguments \<longleftrightarrow> program_readable program"
    using scan_program_quote_windows_argument [OF start ends_spaced [of qs]]
    by (auto simp: argv_def qs(2) split: prod.splits if_splits)
  moreover have "0 \<notin> set line0"
    using quote_windows_argument_no_nul [OF start] spaced_no_nul [OF qs(1)] qs(2) by simp
  ultimately show ?thesis using line by (simp add: program_readable_def)
qed

text \<open>C39: The launch environment is a map from case-insensitive names to values.  Under the documented
  comparison, setting a well-formed variable succeeds, keeps the entries sorted and unique, and
  updates exactly that name; removing one reports whether it was there and deletes exactly it; a
  malformed name or value is refused and changes nothing.\<close>

theorem environment_refines_map:
  assumes "ordinal_names cmp upcase" and "env_inv upcase env"
  shows "(if environment_name n = Inr n \<and> environment_value v = Inr v
      then \<exists>env1. env_set cmp env n v = (env1, Inr ()) \<and> env_inv upcase env1
             \<and> env_map upcase env1 = (env_map upcase env)(name_key upcase n \<mapsto> v)
      else \<exists>e. env_set cmp env n v = (env, Inl e))
    \<and> (if environment_name n = Inr n
       then \<exists>env1. env_remove cmp env n = (env1, Inr (env_map upcase env (name_key upcase n) \<noteq> None))
              \<and> env_inv upcase env1 \<and> env_map upcase env1 = (env_map upcase env)(name_key upcase n := None)
       else env_remove cmp env n = (env, Inl InvalidEnvironmentName))"
proof -
  have bad: "\<exists>e. env_set cmp env n v = (env, Inl e)"
    if "\<not> (environment_name n = Inr n \<and> environment_value v = Inr v)"
    using that by (auto simp: env_set_def environment_name_def environment_value_def split: if_splits)
  have "env_remove cmp env n = (env, Inl InvalidEnvironmentName)" if "environment_name n \<noteq> Inr n"
    using that by (auto simp: env_remove_def environment_name_def split: if_splits)
  with bad ordinal_names.set_refines [OF assms] ordinal_names.remove_refines [OF assms]
  show ?thesis by simp
qed

text \<open>The started process reads back exactly the environment: cutting the encoded block at its
  NULs and first equals signs yields the entries in their sorted order, and the block ends with the
  two NULs Windows requires, also when it is empty.\<close>

lemma environment_block_roundtrip:
  assumes "env_inv upcase env" and "encoded_block env = Inr block"
  shows "block_entries block = map (\<lambda>e. Some (en_name e, en_value e)) (le_entries env)
    \<and> suffix [0, 0] block"
proof -
  let ?es = "le_entries env"
  define z where "z = (if ?es = [] then [0 :: 16 word] else [])"
  have block: "block = concat (map encode_entry ?es) @ 0 # z"
    using assms(2) by (cases "?es = []") (auto simp: encoded_block_def Let_def z_def)
  have ok: "list_all entry_ok ?es" using assms(1) by (simp add: env_inv_def)
  have "split_once EQUALS (en_name e @ EQUALS # en_value e) = Some (en_name e, en_value e)"
    if "entry_ok e" for e
    using that by (auto simp: entry_ok_def environment_name_def split: if_splits)
  then have "block_entries block = map (\<lambda>e. Some (en_name e, en_value e)) ?es"
    using block_strings_encode [OF ok] ok by (simp add: block_entries_def block list_all_iff)
  moreover have "suffix [0, 0] block"
  proof (cases ?es rule: rev_cases)
    case (snoc es e)
    then show ?thesis using block by (simp add: encode_entry_def suffix_def z_def)
  qed (use block in \<open>simp add: z_def\<close>)
  ultimately show ?thesis by blast
qed

section \<open>Witnesses\<close>

definition wide_of :: "string \<Rightarrow> wide" where
  "wide_of s = map (\<lambda>c. word_of_nat (byte c)) s"

definition example_environment :: launch_environment where
  "example_environment = \<lparr>le_entries = [\<lparr>en_name = wide_of ''Path'', en_value = wide_of ''C:''\<rparr>,
     \<lparr>en_name = wide_of ''TEMP'', en_value = []\<rparr>]\<rparr>"

lemma example_environment_inv: "env_inv ascii_upcase example_environment"
  by code_simp

lemma environment_refines_map_witness:
  "\<exists>env1. env_set ordinal_compare example_environment (wide_of ''PATH'') [] = (env1, Inr ())
     \<and> env_map ascii_upcase env1 (wide_of ''PATH'') = Some []"
proof -
  have "environment_name (wide_of ''PATH'') = Inr (wide_of ''PATH'')" "environment_value [] = Inr []"
    "name_key ascii_upcase (wide_of ''PATH'') = wide_of ''PATH''"
    by code_simp+
  with environment_refines_map [OF ascii.ordinal_names_axioms example_environment_inv, of "wide_of ''PATH''" "[]"]
  show ?thesis by auto
qed

lemma environment_block_roundtrip_witness:
  "\<exists>block. encoded_block example_environment = Inr block
     \<and> block_entries block = [Some (wide_of ''Path'', wide_of ''C:''), Some (wide_of ''TEMP'', [])]"
proof -
  obtain block where "encoded_block example_environment = Inr block"
    by (auto simp: encoded_block_def example_environment_def wide_of_def checked_add_def usize_max_def
        u64_max_def ok_or_def)
  from this environment_block_roundtrip [OF example_environment_inv this] show ?thesis
    by (simp add: example_environment_def)
qed

lemma command_line_roundtrip_witness:
  "\<exists>line. build_command_line (wide_of ''C:/r x.exe'') [wide_of ''a b'', [], [BACKSLASH, QUOTE, BACKSLASH]] = Inr line
     \<and> argv (butlast line) = [wide_of ''C:/r x.exe'', wide_of ''a b'', [], [BACKSLASH, QUOTE, BACKSLASH]]"
proof -
  have "is_ok (build_command_line (wide_of ''C:/r x.exe'') [wide_of ''a b'', [], [BACKSLASH, QUOTE, BACKSLASH]])"
    by code_simp
  then obtain line where line:
    "build_command_line (wide_of ''C:/r x.exe'') [wide_of ''a b'', [], [BACKSLASH, QUOTE, BACKSLASH]] = Inr line"
    by auto
  have "QUOTE \<notin> set (wide_of ''C:/r x.exe'')" "last (wide_of ''C:/r x.exe'') \<noteq> BACKSLASH"
    by code_simp+
  with command_line_roundtrip [OF line] line show ?thesis by blast
qed

end
