(* ===== verification/Call_History.thy ===== *)
theory Call_History
  imports Rust_Prelude
begin

text \<open>
  Code that calls the operating system.  A computation is a function from the history of the calls made
  so far to the longer history and a result; what the system answers is a function of the history, so
  that it may depend on every earlier call and change between two equal ones.  \<open>nbind\<close> is the
  question-mark operator.
\<close>

type_synonym ('op, 'e, 'a) run = "'op list \<Rightarrow> 'op list \<times> ('e + 'a)"

definition nret :: "'a \<Rightarrow> ('op, 'e, 'a) run" where
  "nret x h = (h, Inr x)"

definition nfail :: "'e \<Rightarrow> ('op, 'e, 'a) run" where
  "nfail e h = (h, Inl e)"

definition nbind :: "('op, 'e, 'a) run \<Rightarrow> ('a \<Rightarrow> ('op, 'e, 'b) run) \<Rightarrow> ('op, 'e, 'b) run" where
  "nbind m f h = (case m h of (h1, Inl e) \<Rightarrow> (h1, Inl e) | (h1, Inr x) \<Rightarrow> f x h1)"

definition nlift :: "'e + 'a \<Rightarrow> ('op, 'e, 'a) run" where
  "nlift r h = (h, r)"

text \<open>A call whose result is ignored, an answer to the last call, and a computation whose
  error is looked at instead of returned.\<close>

definition nrun :: "'op \<Rightarrow> ('op, 'e, unit) run" where
  "nrun op h = (h @ [op], Inr ())"

definition nread :: "('op list \<Rightarrow> 'a) \<Rightarrow> ('op, 'e, 'a) run" where
  "nread f h = (h, Inr (f h))"

definition nattempt :: "('op, 'e, 'a) run \<Rightarrow> ('op, 'e, 'e + 'a) run" where
  "nattempt m h = (case m h of (h1, r) \<Rightarrow> (h1, Inr r))"

lemmas run_defs = nret_def nfail_def nbind_def nlift_def nrun_def nread_def nattempt_def

lemma nbind_nlift_Inr [simp]: "nbind (nlift (Inr x)) f = f x"
  by (rule ext) (simp add: nbind_def nlift_def)

text \<open>Calls are only ever appended.\<close>

definition extends :: "('op, 'e, 'a) run \<Rightarrow> bool" where
  "extends m \<longleftrightarrow> (\<forall>h. \<exists>k. fst (m h) = h @ k)"

lemma extends_simple [simp, intro]:
  "extends (nret x)" "extends (nfail e)" "extends (nlift r)" "extends (nrun op)" "extends (nread f)"
  by (simp_all add: extends_def run_defs)

lemma extends_nbind [intro]:
  assumes "extends m" and "\<And>x. extends (f x)"
  shows "extends (nbind m f)"
  unfolding extends_def
proof
  fix h
  obtain k r where m: "m h = (h @ k, r)"
    using assms(1) by (metis extends_def prod.collapse)
  show "\<exists>k. fst (nbind m f h) = h @ k"
  proof (cases r)
    case (Inr x)
    obtain k1 where "fst (f x (h @ k)) = (h @ k) @ k1" using assms(2) by (metis extends_def)
    with m Inr show ?thesis by (simp add: nbind_def)
  qed (simp add: nbind_def m)
qed

end
