(* ===== verification/Windows_Launcher.thy ===== *)
theory Windows_Launcher
  imports Launch_Environment Call_History
begin

text \<open>
  \<open>crates/windows-launcher/src/lib.rs\<close>: the native launch sequence, the Job policy, the capture of a
  Job member and the verification of its listener.  A native call is an element of
  \<open>native_op\<close>; Windows is an oracle whose answers may depend on every call made so far, so that a
  launch is a function to the history of its calls and its result.  Owned handles close when they go
  out of scope: \<open>scope\<close> closes the ones that were not closed or moved before.
\<close>

section \<open>Definitions\<close>

subsection \<open>Native calls\<close>

datatype handle =
    HJob | HStdoutRead | HStdoutWrite | HStderrRead | HStderrWrite | HStdinRead | HStdinWrite
  | HAttributes | HProcess | HThread

datatype native_op =
    OpCreateJob
  | OpSetJobLimits "32 word"
  | OpGetHandleInformation handle
  | OpQueryJobLimits
  | OpCreatePipe handle handle
  | OpClearInherit handle
  | OpSizeAttributeList
  | OpInitializeAttributeList
  | OpUpdateHandleList "handle list"
  | OpCreateProcess wide wide "wide option" wide "32 word"
  | OpAssignProcessToJob
  | OpGetProcessTimes handle
  | OpIsProcessInJob handle
  | OpResumeThread
  | OpTerminateProcess nat
  | OpWaitForProcess nat
  | OpTerminateJob nat
  | OpClose handle

text \<open>The answers of Windows to the last call of a history.\<close>

record launch_oracle =
  lo_status :: "native_op list \<Rightarrow> nat option"
  lo_handle_flags :: "native_op list \<Rightarrow> 32 word"
  lo_limit_flags :: "native_op list \<Rightarrow> 32 word"
  lo_required_bytes :: "native_op list \<Rightarrow> nat"
  lo_process_id :: "native_op list \<Rightarrow> nat"
  lo_creation_time :: "native_op list \<Rightarrow> 32 word \<times> 32 word"
  lo_in_job :: "native_op list \<Rightarrow> bool"
  lo_suspend_count :: "native_op list \<Rightarrow> nat"
  lo_last_error :: "native_op list \<Rightarrow> nat"
  lo_is_absolute :: "wide \<Rightarrow> bool"
  lo_is_file :: "wide \<Rightarrow> bool"
  lo_is_dir :: "wide \<Rightarrow> bool"

type_synonym 'a native = "(native_op, launch_error, 'a) run"

text \<open>A call whose failure is turned into \<open>api_error\<close>.\<close>

definition ncall :: "launch_oracle \<Rightarrow> native_op \<Rightarrow> string \<Rightarrow> unit native" where
  "ncall os op operation h =
     (case lo_status os (h @ [op]) of
        None \<Rightarrow> (h @ [op], Inr ())
      | Some code \<Rightarrow> (h @ [op], Inl (WindowsApi operation code)))"

definition scope :: "handle list \<Rightarrow> 'a native \<Rightarrow> 'a native" where
  "scope hs m h =
     (case m h of
        (h1, Inl e) \<Rightarrow> (h1 @ map OpClose (filter (\<lambda>x. OpClose x \<notin> set h1) hs), Inl e)
      | (h1, Inr x) \<Rightarrow> (h1, Inr x))"

subsection \<open>The Job object\<close>

record job_policy =
  jo_kill_on_close :: bool
  jo_breakaway_allowed :: bool
  jo_silent_breakaway_allowed :: bool

definition JOB_OBJECT_LIMIT_BREAKAWAY_OK :: "32 word" where
  "JOB_OBJECT_LIMIT_BREAKAWAY_OK = 0x800"
definition JOB_OBJECT_LIMIT_SILENT_BREAKAWAY_OK :: "32 word" where
  "JOB_OBJECT_LIMIT_SILENT_BREAKAWAY_OK = 0x1000"
definition JOB_OBJECT_LIMIT_KILL_ON_JOB_CLOSE :: "32 word" where
  "JOB_OBJECT_LIMIT_KILL_ON_JOB_CLOSE = 0x2000"
definition HANDLE_FLAG_INHERIT :: "32 word" where
  "HANDLE_FLAG_INHERIT = 1"

definition flags_contain :: "32 word \<Rightarrow> 32 word \<Rightarrow> bool" where
  "flags_contain flags f = (and flags f = f)"

definition policy_of :: "32 word \<Rightarrow> job_policy" where
  "policy_of flags =
     \<lparr>jo_kill_on_close = flags_contain flags JOB_OBJECT_LIMIT_KILL_ON_JOB_CLOSE,
      jo_breakaway_allowed = flags_contain flags JOB_OBJECT_LIMIT_BREAKAWAY_OK,
      jo_silent_breakaway_allowed = flags_contain flags JOB_OBJECT_LIMIT_SILENT_BREAKAWAY_OK\<rparr>"

definition query_job_policy :: "launch_oracle \<Rightarrow> job_policy native" where
  "query_job_policy os =
     nbind (ncall os OpQueryJobLimits ''QueryInformationJobObject'') (\<lambda>_.
     nbind (nread (lo_limit_flags os)) (\<lambda>flags. nret (policy_of flags)))"

definition create_kill_on_close_job :: "launch_oracle \<Rightarrow> unit native" where
  "create_kill_on_close_job os =
     nbind (ncall os OpCreateJob ''CreateJobObjectW'') (\<lambda>_.
     scope [HJob] (
     nbind (ncall os (OpSetJobLimits JOB_OBJECT_LIMIT_KILL_ON_JOB_CLOSE) ''SetInformationJobObject'') (\<lambda>_.
     nbind (ncall os (OpGetHandleInformation HJob) ''GetHandleInformation'') (\<lambda>_.
     nbind (nread (lo_handle_flags os)) (\<lambda>flags.
     if and flags HANDLE_FLAG_INHERIT \<noteq> 0 then nfail InheritableJobHandle
     else
       nbind (query_job_policy os) (\<lambda>policy.
       if policy \<noteq> \<lparr>jo_kill_on_close = True, jo_breakaway_allowed = False,
                      jo_silent_breakaway_allowed = False\<rparr>
       then nfail UnexpectedJobPolicy
       else nret ()))))))"

subsection \<open>Pipes and the attribute list\<close>

definition inheritable_pipe :: "launch_oracle \<Rightarrow> handle \<Rightarrow> handle \<Rightarrow> unit native" where
  "inheritable_pipe os r w = ncall os (OpCreatePipe r w) ''CreatePipe''"

definition clear_inherit_flag :: "launch_oracle \<Rightarrow> handle \<Rightarrow> unit native" where
  "clear_inherit_flag os x = ncall os (OpClearInherit x) ''SetHandleInformation''"

definition output_pipe :: "launch_oracle \<Rightarrow> handle \<Rightarrow> handle \<Rightarrow> unit native" where
  "output_pipe os r w =
     nbind (inheritable_pipe os r w) (\<lambda>_. scope [w, r] (clear_inherit_flag os r))"

definition closed_stdin_pipe :: "launch_oracle \<Rightarrow> unit native" where
  "closed_stdin_pipe os =
     nbind (inheritable_pipe os HStdinRead HStdinWrite) (\<lambda>_.
     scope [HStdinWrite, HStdinRead] (
     nbind (clear_inherit_flag os HStdinWrite) (\<lambda>_. nrun (OpClose HStdinWrite))))"

definition with_handle_list :: "launch_oracle \<Rightarrow> handle list \<Rightarrow> unit native" where
  "with_handle_list os handles =
     nbind (nrun OpSizeAttributeList) (\<lambda>_.
     nbind (nread (lo_required_bytes os)) (\<lambda>required_bytes.
     if required_bytes = 0 then
       nbind (nread (lo_last_error os)) (\<lambda>code.
         nfail (WindowsApi ''InitializeProcThreadAttributeList(size)'' code))
     else
       nbind (ncall os OpInitializeAttributeList ''InitializeProcThreadAttributeList'') (\<lambda>_.
       scope [HAttributes] (ncall os (OpUpdateHandleList handles) ''UpdateProcThreadAttribute''))))"

subsection \<open>Launching\<close>

definition INTERNAL_FAILURE_EXIT_CODE :: nat where
  "INTERNAL_FAILURE_EXIT_CODE = 0x52504B49"

record process_identity =
  pi_pid :: nat
  pi_creation_time_100ns :: "64 word"

record launch_command =
  lc_program :: wide
  lc_arguments :: "wide list"
  lc_current_directory :: wide
  lc_environment :: "launch_environment option"

definition command_new :: "wide \<Rightarrow> wide \<Rightarrow> launch_command" where
  "command_new program current_directory =
     \<lparr>lc_program = program, lc_arguments = [], lc_current_directory = current_directory,
      lc_environment = None\<rparr>"

definition command_arg :: "launch_command \<Rightarrow> wide \<Rightarrow> launch_command" where
  "command_arg c argument = c\<lparr>lc_arguments := lc_arguments c @ [argument]\<rparr>"

definition command_args :: "launch_command \<Rightarrow> wide list \<Rightarrow> launch_command" where
  "command_args c arguments = c\<lparr>lc_arguments := lc_arguments c @ arguments\<rparr>"

definition command_environment :: "launch_command \<Rightarrow> launch_environment \<Rightarrow> launch_command" where
  "command_environment c env = c\<lparr>lc_environment := Some env\<rparr>"

definition validate_command :: "launch_oracle \<Rightarrow> launch_command \<Rightarrow> launch_error + unit" where
  "validate_command os c =
     (if \<not> lo_is_absolute os (lc_program c) \<or> \<not> lo_is_file os (lc_program c)
      then Inl InvalidProgramPath
      else if \<not> lo_is_absolute os (lc_current_directory c) \<or> \<not> lo_is_dir os (lc_current_directory c)
      then Inl InvalidCurrentDirectory
      else Inr ())"

definition process_identity_of :: "launch_oracle \<Rightarrow> handle \<Rightarrow> nat \<Rightarrow> process_identity native" where
  "process_identity_of os p pid =
     nbind (ncall os (OpGetProcessTimes p) ''GetProcessTimes'') (\<lambda>_.
     nbind (nread (lo_creation_time os)) (\<lambda>(high, low).
       nret \<lparr>pi_pid = pid,
             pi_creation_time_100ns = or (push_bit 32 (ucast high)) (ucast low)\<rparr>))"

definition process_is_in_job :: "launch_oracle \<Rightarrow> handle \<Rightarrow> bool native" where
  "process_is_in_job os p =
     nbind (ncall os (OpIsProcessInJob p) ''IsProcessInJob'') (\<lambda>_. nread (lo_in_job os))"

definition terminate_suspended_process :: "unit native" where
  "terminate_suspended_process =
     nbind (nrun (OpTerminateProcess INTERNAL_FAILURE_EXIT_CODE)) (\<lambda>_. nrun (OpWaitForProcess 5000))"

definition terminate_assigned_job :: "unit native" where
  "terminate_assigned_job = nrun (OpTerminateJob INTERNAL_FAILURE_EXIT_CODE)"

definition CREATION_FLAGS :: "32 word" where
  "CREATION_FLAGS = or (or (or 0x4 0x08000000) 0x400) 0x80000"

definition CREATE_SUSPENDED :: "32 word" where
  "CREATE_SUSPENDED = 0x4"

definition encode_optional_block :: "launch_environment option \<Rightarrow> launch_error + wide option" where
  "encode_optional_block env =
     (case env of None \<Rightarrow> Inr None | Some e \<Rightarrow> rbind (encoded_block e) (\<lambda>b. Inr (Some b)))"

text \<open>Everything up to the suspended process, and everything after it.\<close>

definition create_suspended :: "launch_oracle \<Rightarrow> launch_command \<Rightarrow> unit native" where
  "create_suspended os c =
     nbind (nlift (nul_terminated_wide (lc_program c) ''program path'')) (\<lambda>program.
     nbind (nlift (nul_terminated_wide (lc_current_directory c) ''current directory'')) (\<lambda>current_directory.
     nbind (nlift (build_command_line (lc_program c) (lc_arguments c))) (\<lambda>command_line.
     nbind (nlift (encode_optional_block (lc_environment c))) (\<lambda>environment_block.
       ncall os (OpCreateProcess program command_line environment_block current_directory CREATION_FLAGS)
         ''CreateProcessW''))))"

definition assign_and_resume :: "launch_oracle \<Rightarrow> process_identity native" where
  "assign_and_resume os =
     nbind (nread (lo_process_id os)) (\<lambda>pid.
     nbind (nrun (OpClose HStdinRead)) (\<lambda>_.
     nbind (nrun (OpClose HStdoutWrite)) (\<lambda>_.
     nbind (nrun (OpClose HStderrWrite)) (\<lambda>_.
     nbind (nrun (OpClose HAttributes)) (\<lambda>_.
     \<lambda>h. case ncall os OpAssignProcessToJob ''AssignProcessToJobObject'' h of
           (h1, Inl e) \<Rightarrow> nbind terminate_suspended_process (\<lambda>_. nfail e) h1
         | (h1, Inr _) \<Rightarrow>
             (case process_identity_of os HProcess pid h1 of
                (h2, Inl e) \<Rightarrow> nbind terminate_assigned_job (\<lambda>_. nfail e) h2
              | (h2, Inr identity) \<Rightarrow>
                  nbind (process_is_in_job os HProcess) (\<lambda>member.
                  if \<not> member then
                    nbind terminate_assigned_job (\<lambda>_. nfail JobMembershipNotEstablished)
                  else
                    nbind (nrun OpResumeThread) (\<lambda>_.
                    nbind (nread (lo_suspend_count os)) (\<lambda>previous_suspend_count.
                    if previous_suspend_count \<noteq> 1 then
                      nbind terminate_assigned_job (\<lambda>_.
                      nbind (nread (lo_last_error os)) (\<lambda>last_error.
                        if previous_suspend_count = u32_max
                        then nfail (WindowsApi ''ResumeThread'' last_error)
                        else nfail (UnexpectedSuspendCount previous_suspend_count)))
                    else
                      nbind (nrun (OpClose HThread)) (\<lambda>_. nret identity))))
                  h2))))))"

definition launch_in_job :: "launch_oracle \<Rightarrow> launch_command \<Rightarrow> process_identity native" where
  "launch_in_job os c =
     nbind (output_pipe os HStdoutRead HStdoutWrite) (\<lambda>_.
     scope [HStdoutWrite, HStdoutRead] (
     nbind (output_pipe os HStderrRead HStderrWrite) (\<lambda>_.
     scope [HStderrWrite, HStderrRead] (
     nbind (closed_stdin_pipe os) (\<lambda>_.
     scope [HStdinRead] (
     nbind (with_handle_list os [HStdinRead, HStdoutWrite, HStderrWrite]) (\<lambda>_.
     scope [HAttributes] (
     nbind (create_suspended os c) (\<lambda>_.
     scope [HThread, HProcess] (assign_and_resume os))))))))))"

definition launch_process :: "launch_oracle \<Rightarrow> launch_command \<Rightarrow> process_identity native" where
  "launch_process os c =
     nbind (nlift (validate_command os c)) (\<lambda>_.
     nbind (create_kill_on_close_job os) (\<lambda>_.
     scope [HJob] (launch_in_job os c)))"

subsection \<open>Specifications\<close>

text \<open>A call of the history that Windows answered with success and an accepted answer.\<close>

definition answered :: "launch_oracle \<Rightarrow> native_op list \<Rightarrow> native_op \<Rightarrow> (native_op list \<Rightarrow> bool) \<Rightarrow> bool" where
  "answered os h op P \<longleftrightarrow> (\<exists>a b. h = a @ op # b \<and> lo_status os (a @ [op]) = None \<and> P (a @ [op]))"

definition kill_only :: job_policy where
  "kill_only = \<lparr>jo_kill_on_close = True, jo_breakaway_allowed = False, jo_silent_breakaway_allowed = False\<rparr>"

text \<open>A Job that was created with the kill-on-close limit, read back as such and not inheritable.\<close>

definition job_ready :: "launch_oracle \<Rightarrow> native_op list \<Rightarrow> bool" where
  "job_ready os h \<longleftrightarrow>
     answered os h OpCreateJob (\<lambda>_. True)
     \<and> answered os h (OpSetJobLimits JOB_OBJECT_LIMIT_KILL_ON_JOB_CLOSE) (\<lambda>_. True)
     \<and> answered os h (OpGetHandleInformation HJob) (\<lambda>k. and (lo_handle_flags os k) HANDLE_FLAG_INHERIT = 0)
     \<and> answered os h OpQueryJobLimits (\<lambda>k. policy_of (lo_limit_flags os k) = kill_only)"

text \<open>Calls that start, end or release a process or the Job.\<close>

definition decisive :: "native_op \<Rightarrow> bool" where
  "decisive op =
     (case op of
        OpResumeThread \<Rightarrow> True | OpAssignProcessToJob \<Rightarrow> True | OpTerminateProcess _ \<Rightarrow> True
      | OpTerminateJob _ \<Rightarrow> True | OpClose x \<Rightarrow> x = HJob | OpCreateProcess _ _ _ _ _ \<Rightarrow> True
      | OpIsProcessInJob _ \<Rightarrow> True | _ \<Rightarrow> False)"

section \<open>Lemmas\<close>

lemmas native_defs = run_defs ncall_def

lemma answeredI: "lo_status os (a @ [op]) = None \<Longrightarrow> P (a @ [op]) \<Longrightarrow> answered os (a @ op # b) op P"
  by (auto simp: answered_def)

lemma answered_append: "answered os h op P \<Longrightarrow> answered os (h @ k) op P"
  unfolding answered_def by (metis append.assoc append_Cons)

lemma job_ready_append: "job_ready os h \<Longrightarrow> job_ready os (h @ k)"
  by (simp add: job_ready_def answered_append)

lemma create_kill_on_close_job_Inl:
  assumes "create_kill_on_close_job os h = (h1, Inl e)"
  shows "\<exists>k. h1 = h @ k \<and> (\<forall>op \<in> set k. \<not> decisive op \<or> op = OpClose HJob)
    \<and> (lo_status os (h @ [OpCreateJob]) = None \<longrightarrow> OpClose HJob \<in> set h1)"
  using assms
  by (auto simp: create_kill_on_close_job_def query_job_policy_def native_defs scope_def decisive_def
      split: option.splits if_splits)

lemma create_kill_on_close_job_Inr:
  assumes "create_kill_on_close_job os h = (h1, Inr u)"
  shows "job_ready os h1 \<and> (\<exists>k. h1 = h @ k \<and> (\<forall>op \<in> set k. \<not> decisive op))"
proof -
  let ?a = "h @ [OpCreateJob]"
  let ?b = "?a @ [OpSetJobLimits JOB_OBJECT_LIMIT_KILL_ON_JOB_CLOSE]"
  let ?c = "?b @ [OpGetHandleInformation HJob]"
  let ?d = "?c @ [OpQueryJobLimits]"
  have "h1 = ?d" "lo_status os ?a = None" "lo_status os ?b = None" "lo_status os ?c = None"
      "lo_status os ?d = None" "and (lo_handle_flags os ?c) HANDLE_FLAG_INHERIT = 0"
      "policy_of (lo_limit_flags os ?d) = kill_only"
    using assms
    by (auto simp: create_kill_on_close_job_def query_job_policy_def native_defs scope_def kill_only_def
        split: option.splits if_splits)
  then show ?thesis
    using answeredI [of os h OpCreateJob "\<lambda>_. True"]
      answeredI [of os ?a "OpSetJobLimits JOB_OBJECT_LIMIT_KILL_ON_JOB_CLOSE" "\<lambda>_. True"]
      answeredI [of os ?b "OpGetHandleInformation HJob"
        "\<lambda>k. and (lo_handle_flags os k) HANDLE_FLAG_INHERIT = 0"]
      answeredI [of os ?c OpQueryJobLimits "\<lambda>k. policy_of (lo_limit_flags os k) = kill_only"]
    by (simp add: job_ready_def decisive_def)
qed

definition resume_base :: "native_op list \<Rightarrow> native_op list" where
  "resume_base h = h @ [OpClose HStdinRead, OpClose HStdoutWrite, OpClose HStderrWrite, OpClose HAttributes]"

definition verified_member :: "launch_oracle \<Rightarrow> native_op list \<Rightarrow> bool" where
  "verified_member os base \<longleftrightarrow>
     lo_status os (base @ [OpAssignProcessToJob]) = None
     \<and> lo_status os (base @ [OpAssignProcessToJob, OpGetProcessTimes HProcess, OpIsProcessInJob HProcess]) = None
     \<and> lo_in_job os (base @ [OpAssignProcessToJob, OpGetProcessTimes HProcess, OpIsProcessInJob HProcess])"

lemma assign_and_resume_cases:
  assumes "assign_and_resume os h = (h1, r)"
  obtains
    (unassigned) "isl r" "lo_status os (resume_base h @ [OpAssignProcessToJob]) \<noteq> None"
      "h1 = resume_base h @ [OpAssignProcessToJob, OpTerminateProcess INTERNAL_FAILURE_EXIT_CODE, OpWaitForProcess 5000]"
  | (unverified) k where "isl r" "lo_status os (resume_base h @ [OpAssignProcessToJob]) = None"
      "h1 = resume_base h @ OpAssignProcessToJob # k" "OpResumeThread \<notin> set k" "OpClose HJob \<notin> set k"
  | (stopped) "isl r" "verified_member os (resume_base h)"
      "h1 = resume_base h @ [OpAssignProcessToJob, OpGetProcessTimes HProcess, OpIsProcessInJob HProcess,
        OpResumeThread, OpTerminateJob INTERNAL_FAILURE_EXIT_CODE]"
  | (running) "\<not> isl r" "verified_member os (resume_base h)"
      "h1 = resume_base h @ [OpAssignProcessToJob, OpGetProcessTimes HProcess, OpIsProcessInJob HProcess,
        OpResumeThread, OpClose HThread]"
proof -
  let ?member = "resume_base h @ [OpAssignProcessToJob, OpGetProcessTimes HProcess, OpIsProcessInJob HProcess]"
  note defs = assign_and_resume_def process_identity_of_def process_is_in_job_def resume_base_def
    terminate_suspended_process_def terminate_assigned_job_def native_defs verified_member_def
  show ?thesis
  proof (cases "lo_status os (resume_base h @ [OpAssignProcessToJob])")
    case (Some code)
    then show ?thesis
      using assms by (intro unassigned) (auto simp: defs)
  next
    case assigned: None
    show ?thesis
    proof (cases "lo_status os (resume_base h @ [OpAssignProcessToJob, OpGetProcessTimes HProcess]) = None
        \<and> lo_status os ?member = None \<and> lo_in_job os ?member")
      case False
      with assigned assms show ?thesis
        by (auto simp: defs intro: unverified split: option.splits prod.splits if_splits)
    next
      case True
      show ?thesis
      proof (cases "lo_suspend_count os (?member @ [OpResumeThread]) = 1")
        case False
        with True assigned assms show ?thesis
          by (intro stopped) (auto simp: defs split: prod.splits if_splits)
      next
        case one: True
        with True assigned assms show ?thesis
          by (intro running) (auto simp: defs split: prod.splits if_splits)
      qed
    qed
  qed
qed

text \<open>The steps between the Job and the process: they start nothing and release only what they own.\<close>

definition preparing :: "'a native \<Rightarrow> bool" where
  "preparing m \<longleftrightarrow> (\<forall>h. \<exists>k. fst (m h) = h @ k \<and> list_all (\<lambda>op. \<not> decisive op) k)"

lemma preparing_ncall [simp]: "\<not> decisive op \<Longrightarrow> preparing (ncall os op n)"
  by (auto simp: preparing_def ncall_def split: option.splits)

lemma preparing_basic [simp]:
  "preparing (nret x)" "preparing (nfail e)" "preparing (nlift r)" "preparing (nread f)"
  "\<not> decisive op \<Longrightarrow> preparing (nrun op)"
  by (auto simp: preparing_def native_defs)

lemma preparing_nbind:
  assumes "preparing m" and "\<And>x. preparing (f x)"
  shows "preparing (nbind m f)"
  unfolding preparing_def
proof
  fix h
  obtain k where k: "fst (m h) = h @ k" "list_all (\<lambda>op. \<not> decisive op) k"
    using assms(1) unfolding preparing_def by blast
  show "\<exists>k. fst (nbind m f h) = h @ k \<and> list_all (\<lambda>op. \<not> decisive op) k"
  proof (cases "snd (m h)")
    case (Inl e)
    then show ?thesis using k by (auto simp: nbind_def split: prod.splits)
  next
    case (Inr x)
    obtain l where "fst (f x (h @ k)) = (h @ k) @ l" "list_all (\<lambda>op. \<not> decisive op) l"
      using assms(2) [of x] unfolding preparing_def by blast
    then show ?thesis using k Inr by (intro exI [of _ "k @ l"]) (auto simp: nbind_def split: prod.splits)
  qed
qed

lemma preparing_scope:
  assumes "preparing m" and "HJob \<notin> set hs"
  shows "preparing (scope hs m)"
  unfolding preparing_def
proof
  fix h
  obtain k where k: "fst (m h) = h @ k" "list_all (\<lambda>op. \<not> decisive op) k"
    using assms(1) unfolding preparing_def by blast
  have "list_all (\<lambda>op. \<not> decisive op) (map OpClose (filter P hs))" for P
    using assms(2) by (auto simp: list_all_iff decisive_def)
  with k show "\<exists>k. fst (scope hs m h) = h @ k \<and> list_all (\<lambda>op. \<not> decisive op) k"
    by (auto simp: scope_def split: prod.splits sum.splits)
qed

lemma preparing_output_pipe: "r \<noteq> HJob \<Longrightarrow> w \<noteq> HJob \<Longrightarrow> preparing (output_pipe os r w)"
  by (auto simp: output_pipe_def inheritable_pipe_def clear_inherit_flag_def decisive_def
      intro!: preparing_nbind preparing_scope)

lemma preparing_closed_stdin_pipe: "preparing (closed_stdin_pipe os)"
  by (auto simp: closed_stdin_pipe_def inheritable_pipe_def clear_inherit_flag_def decisive_def
      intro!: preparing_nbind preparing_scope)

lemma preparing_with_handle_list: "preparing (with_handle_list os hs)"
  by (auto simp: with_handle_list_def decisive_def intro!: preparing_nbind preparing_scope)

text \<open>The process creation the command asks for, and the three ways a launch can go.\<close>

definition is_create :: "launch_command \<Rightarrow> native_op \<Rightarrow> bool" where
  "is_create c op \<longleftrightarrow>
     (\<exists>line block. op = OpCreateProcess (lc_program c @ [0]) line block (lc_current_directory c @ [0]) CREATION_FLAGS
        \<and> build_command_line (lc_program c) (lc_arguments c) = Inr line
        \<and> encode_optional_block (lc_environment c) = Inr block)"

definition quiet :: "native_op list \<Rightarrow> bool" where
  "quiet k = list_all (\<lambda>op. \<not> decisive op) k"

inductive launch_outcome ::
  "launch_oracle \<Rightarrow> launch_command \<Rightarrow> native_op list \<Rightarrow> native_op list \<Rightarrow> (launch_error + process_identity) \<Rightarrow> bool"
  for os c h where
  early: "quiet k \<Longrightarrow> launch_outcome os c h (h @ k) (Inl e)"
| refused: "quiet k \<Longrightarrow> quiet k2 \<Longrightarrow> is_create c op \<Longrightarrow> lo_status os ((h @ k) @ [op]) \<noteq> None \<Longrightarrow>
    launch_outcome os c h ((h @ k) @ op # k2) (Inl e)"
| tried: "quiet k \<Longrightarrow> quiet k2 \<Longrightarrow> is_create c op \<Longrightarrow> lo_status os ((h @ k) @ [op]) = None \<Longrightarrow>
    assign_and_resume os ((h @ k) @ [op]) = (h2, r) \<Longrightarrow> (\<not> isl r \<longrightarrow> k2 = []) \<Longrightarrow>
    launch_outcome os c h (h2 @ k2) r"

definition launches :: "launch_oracle \<Rightarrow> launch_command \<Rightarrow> process_identity native \<Rightarrow> bool" where
  "launches os c m \<longleftrightarrow> (\<forall>h. launch_outcome os c h (fst (m h)) (snd (m h)))"

lemma quiet_append [simp]: "quiet (a @ b) \<longleftrightarrow> quiet a \<and> quiet b"
  by (simp add: quiet_def)

lemma launch_outcome_prefix:
  assumes "quiet k" and "launch_outcome os c (h @ k) h1 r"
  shows "launch_outcome os c h h1 r"
  using assms(2)
proof cases
  case (early j e)
  then show ?thesis using launch_outcome.early [of "k @ j" os c h e] assms(1) by simp
next
  case (refused j k2 op e)
  then show ?thesis using launch_outcome.refused [of "k @ j" k2 c op os h e] assms(1) by simp
next
  case (tried j k2 op h2)
  then show ?thesis using launch_outcome.tried [of "k @ j" k2 c op os h h2 r] assms(1) by simp
qed

lemma launch_outcome_cleanup:
  assumes "quiet cl" and "launch_outcome os c h h1 r" and "isl r"
  shows "launch_outcome os c h (h1 @ cl) r"
  using assms(2)
proof cases
  case (early j e)
  then show ?thesis using launch_outcome.early [of "j @ cl" os c h e] assms(1) by simp
next
  case (refused j k2 op e)
  then show ?thesis using launch_outcome.refused [of j "k2 @ cl" c op os h e] assms(1) by simp
next
  case (tried j k2 op h2)
  then show ?thesis using launch_outcome.tried [of j "k2 @ cl" c op os h h2 r] assms(1,3) by simp
qed

lemma launches_nbind:
  assumes "preparing m" and "\<And>x. launches os c (f x)"
  shows "launches os c (nbind m f)"
  unfolding launches_def
proof
  fix h
  obtain k where k: "fst (m h) = h @ k" "quiet k"
    using assms(1) unfolding preparing_def quiet_def by blast
  show "launch_outcome os c h (fst (nbind m f h)) (snd (nbind m f h))"
  proof (cases "snd (m h)")
    case (Inl e)
    then have "nbind m f h = (h @ k, Inl e)" using k(1) by (simp add: nbind_def split_beta)
    then show ?thesis using k(2) launch_outcome.early [of k os c h e] by simp
  next
    case (Inr x)
    then have run: "nbind m f h = f x (h @ k)" using k(1) by (simp add: nbind_def split_beta)
    have "launch_outcome os c (h @ k) (fst (f x (h @ k))) (snd (f x (h @ k)))"
      using assms(2) [of x] by (simp add: launches_def)
    then show ?thesis unfolding run by (rule launch_outcome_prefix [OF k(2)])
  qed
qed

lemma scope_run:
  "scope hs m h =
     (fst (m h) @ (if isl (snd (m h)) then map OpClose (filter (\<lambda>x. OpClose x \<notin> set (fst (m h))) hs) else []),
      snd (m h))"
  by (cases "m h"; cases "snd (m h)") (simp_all add: scope_def)

lemma launches_scope:
  assumes "launches os c m" and "HJob \<notin> set hs"
  shows "launches os c (scope hs m)"
  unfolding launches_def
proof
  fix h
  have closes: "quiet (map OpClose (filter P hs))" for P
    using assms(2) by (auto simp: quiet_def list_all_iff decisive_def)
  have m: "launch_outcome os c h (fst (m h)) (snd (m h))" using assms(1) by (simp add: launches_def)
  show "launch_outcome os c h (fst (scope hs m h)) (snd (scope hs m h))"
    using m launch_outcome_cleanup [OF closes m] by (cases "isl (snd (m h))") (simp_all add: scope_run)
qed

lemma create_suspended_outcome:
  "(\<exists>e. create_suspended os c h = (h, Inl e))
   \<or> (\<exists>op. is_create c op \<and> create_suspended os c h = ncall os op ''CreateProcessW'' h)"
proof (cases "0 \<in> set (lc_program c) \<or> 0 \<in> set (lc_current_directory c)")
  case True
  then show ?thesis
    by (auto simp: create_suspended_def nbind_def nlift_def nul_terminated_wide_def)
next
  case False
  then have start: "create_suspended os c h =
      (case build_command_line (lc_program c) (lc_arguments c) of Inl e \<Rightarrow> (h, Inl e)
       | Inr line \<Rightarrow>
           (case encode_optional_block (lc_environment c) of Inl e \<Rightarrow> (h, Inl e)
            | Inr block \<Rightarrow>
                ncall os (OpCreateProcess (lc_program c @ [0]) line block (lc_current_directory c @ [0]) CREATION_FLAGS)
                  ''CreateProcessW'' h))"
    by (simp add: create_suspended_def nbind_def nlift_def nul_terminated_wide_def split: sum.split)
  show ?thesis
    unfolding start is_create_def
    by (cases "build_command_line (lc_program c) (lc_arguments c)";
        cases "encode_optional_block (lc_environment c)") auto
qed

lemma launches_create:
  "launches os c (nbind (create_suspended os c) (\<lambda>_. scope [HThread, HProcess] (assign_and_resume os)))"
  unfolding launches_def
proof
  fix h
  let ?m = "nbind (create_suspended os c) (\<lambda>_. scope [HThread, HProcess] (assign_and_resume os))"
  have q: "quiet (map OpClose (filter P [HThread, HProcess]))" for P
    by (auto simp: quiet_def list_all_iff decisive_def)
  consider (none) e where "create_suspended os c h = (h, Inl e)"
    | (call) op where "is_create c op" "create_suspended os c h = ncall os op ''CreateProcessW'' h"
    using create_suspended_outcome [of os c h] by blast
  then show "launch_outcome os c h (fst (?m h)) (snd (?m h))"
  proof cases
    case none
    then show ?thesis using launch_outcome.early [of "[]" os c h e] by (simp add: nbind_def quiet_def)
  next
    case call
    show ?thesis
    proof (cases "lo_status os (h @ [op])")
      case (Some code)
      with call show ?thesis
        using launch_outcome.refused [of "[]" "[]" c op os h] by (simp add: nbind_def ncall_def quiet_def)
    next
      case None
      obtain h2 r where ar: "assign_and_resume os (h @ [op]) = (h2, r)" by fastforce
      have t: "launch_outcome os c h h2 r"
        using launch_outcome.tried [of "[]" "[]" c op os h h2 r] call None ar by (simp add: quiet_def)
      have "?m h = scope [HThread, HProcess] (assign_and_resume os) (h @ [op])"
        using call None by (simp add: nbind_def ncall_def)
      then show ?thesis
        using t launch_outcome_cleanup [OF q t]
        by (cases "isl r") (simp_all add: scope_run ar del: filter.simps)
    qed
  qed
qed

lemma launches_in_job: "launches os c (launch_in_job os c)"
  unfolding launch_in_job_def
  by (intro launches_nbind launches_scope preparing_output_pipe preparing_closed_stdin_pipe
      preparing_with_handle_list launches_create) simp_all

lemma launch_process_cases:
  assumes "launch_process os c [] = (h, r)"
  obtains (job) "isl r" "quiet (filter (\<lambda>op. op \<noteq> OpClose HJob) h)"
      "lo_status os [OpCreateJob] = None \<longrightarrow> OpCreateJob \<in> set h \<longrightarrow> OpClose HJob \<in> set h"
  | (started) h0 h1 where "quiet h0" "job_ready os h0" "launch_outcome os c h0 h1 r"
      "h = h1 @ (if isl r \<and> OpClose HJob \<notin> set h1 then [OpClose HJob] else [])"
proof (cases "validate_command os c")
  case (Inl e)
  then show ?thesis using assms job by (auto simp: launch_process_def native_defs quiet_def)
next
  case (Inr u)
  obtain h0 r0 where cj: "create_kill_on_close_job os [] = (h0, r0)" by fastforce
  show ?thesis
  proof (cases r0)
    case (Inl e)
    then have "h = h0" "isl r" using assms cj Inr by (auto simp: launch_process_def native_defs)
    with create_kill_on_close_job_Inl [of os "[]" h0 e] cj Inl show ?thesis
      by (intro job) (auto simp: quiet_def list_all_iff)
  next
    case ready: (Inr v)
    have h0: "job_ready os h0" "quiet h0"
      using create_kill_on_close_job_Inr [of os "[]" h0 v] cj ready by (auto simp: quiet_def list_all_iff)
    obtain h1 r1 where run: "launch_in_job os c h0 = (h1, r1)" by fastforce
    have out: "launch_outcome os c h0 h1 r1"
      using launches_in_job [of os c] run unfolding launches_def by (metis fst_conv snd_conv)
    have "r = r1" "h = h1 @ (if isl r \<and> OpClose HJob \<notin> set h1 then [OpClose HJob] else [])"
      using assms cj ready Inr run
      by (auto simp: launch_process_def nbind_def nlift_def scope_def split: sum.splits)
    with h0 out show ?thesis by (intro started) auto
  qed
qed

text \<open>What the history of one started launch shows, before and after the Job handle is released.\<close>

definition resume_guarded :: "launch_oracle \<Rightarrow> launch_command \<Rightarrow> native_op list \<Rightarrow> bool" where
  "resume_guarded os c a \<longleftrightarrow>
     job_ready os a \<and> (\<exists>op. is_create c op \<and> answered os a op (\<lambda>_. True))
     \<and> answered os a OpAssignProcessToJob (\<lambda>_. True)
     \<and> answered os a (OpIsProcessInJob HProcess) (lo_in_job os)"

lemma verified_resume_guarded:
  assumes "job_ready os h0" and "is_create c op" and "lo_status os ((h0 @ k) @ [op]) = None"
    and v: "verified_member os (resume_base ((h0 @ k) @ [op]))"
  shows "resume_guarded os c (resume_base ((h0 @ k) @ [op]) @
    [OpAssignProcessToJob, OpGetProcessTimes HProcess, OpIsProcessInJob HProcess])"
proof -
  let ?b = "resume_base ((h0 @ k) @ [op])"
  let ?a = "?b @ [OpAssignProcessToJob, OpGetProcessTimes HProcess, OpIsProcessInJob HProcess]"
  have "job_ready os ?a"
    using job_ready_append [OF assms(1)] by (simp add: resume_base_def)
  moreover have "answered os ?a op (\<lambda>_. True)"
    using answeredI [of os "h0 @ k" op "\<lambda>_. True"] assms(3) by (simp add: resume_base_def)
  moreover have "answered os ?a OpAssignProcessToJob (\<lambda>_. True)"
    using answeredI [of os ?b OpAssignProcessToJob "\<lambda>_. True"] v by (simp add: verified_member_def)
  moreover have "answered os ?a (OpIsProcessInJob HProcess) (lo_in_job os)"
    using answeredI [of os "?b @ [OpAssignProcessToJob, OpGetProcessTimes HProcess]"
        "OpIsProcessInJob HProcess" "lo_in_job os" "[]"] v
    by (simp add: verified_member_def)
  ultimately show ?thesis using assms(2) unfolding resume_guarded_def by blast
qed

lemma quiet_no_decisive: "quiet k \<Longrightarrow> decisive op \<Longrightarrow> op \<notin> set k"
  by (auto simp: quiet_def list_all_iff)

lemma is_create_facts:
  assumes "is_create c op"
  shows "decisive op" "is_create c op2 \<Longrightarrow> op2 = op" "op \<noteq> OpResumeThread" "op \<noteq> OpClose x"
    "op \<noteq> OpTerminateJob n" "op \<noteq> OpTerminateProcess n" "op \<noteq> OpAssignProcessToJob"
  using assms by (auto simp: is_create_def decisive_def)

lemma answered_absent: "op \<notin> set h \<Longrightarrow> \<not> answered os h op P"
  by (auto simp: answered_def)

lemma decisive_simps [simp]:
  "decisive OpResumeThread" "decisive OpAssignProcessToJob" "decisive (OpTerminateJob n)"
  "decisive (OpTerminateProcess n)" "decisive (OpClose HJob)"
  by (simp_all add: decisive_def)

text \<open>The clauses of the launch contract, on a history and a result.\<close>

definition launch_contract ::
  "launch_oracle \<Rightarrow> launch_command \<Rightarrow> native_op list \<Rightarrow> (launch_error + process_identity) \<Rightarrow> bool" where
  "launch_contract os c h r \<longleftrightarrow>
     (\<forall>a b. h = a @ OpResumeThread # b \<longrightarrow> resume_guarded os c a)
     \<and> (isl r \<longrightarrow>
          (lo_status os [OpCreateJob] = None \<and> OpCreateJob \<in> set h \<longrightarrow> OpClose HJob \<in> set h)
          \<and> (OpResumeThread \<in> set h \<longrightarrow> OpTerminateJob INTERNAL_FAILURE_EXIT_CODE \<in> set h)
          \<and> (\<forall>op. is_create c op \<and> answered os h op (\<lambda>_. True) \<longrightarrow>
               answered os h OpAssignProcessToJob (\<lambda>_. True)
               \<or> OpTerminateProcess INTERNAL_FAILURE_EXIT_CODE \<in> set h))
     \<and> (\<not> isl r \<longrightarrow>
          OpResumeThread \<in> set h \<and> OpClose HJob \<notin> set h \<and> (\<forall>n. OpTerminateJob n \<notin> set h)
          \<and> (\<forall>n. OpTerminateProcess n \<notin> set h))"

lemma launch_contract_quiet:
  assumes "quiet (filter (\<lambda>op. op \<noteq> OpClose HJob) h)" and "isl r"
    and "lo_status os [OpCreateJob] = None \<longrightarrow> OpCreateJob \<in> set h \<longrightarrow> OpClose HJob \<in> set h"
  shows "launch_contract os c h r"
proof -
  have absent: "op \<notin> set h" if "decisive op" "op \<noteq> OpClose HJob" for op
    using quiet_no_decisive [OF assms(1) that(1)] that(2) by simp
  have "\<not> answered os h op (\<lambda>_. True)" if "is_create c op" for op
    using absent is_create_facts [OF that] by (intro answered_absent) blast
  with absent [of OpResumeThread] assms(2,3) show ?thesis
    unfolding launch_contract_def by (simp add: in_set_conv_decomp) blast
qed

lemma launch_contract_started:
  assumes h0: "quiet h0" "job_ready os h0" and out: "launch_outcome os c h0 h1 r"
    and h: "h = h1 @ cl" "cl = (if isl r \<and> OpClose HJob \<notin> set h1 then [OpClose HJob] else [])"
  shows "launch_contract os c h r"
  using out
proof cases
  case (early k e)
  show ?thesis
    by (rule launch_contract_quiet) (use early h0 h in \<open>auto simp: quiet_def list_all_iff\<close>)
next
  case (refused k k2 op e)
  note op = is_create_facts [OF refused(5)]
  have hh: "h = (h0 @ k) @ op # (k2 @ cl)" using refused h by simp
  have cl: "set cl \<subseteq> {OpClose HJob}" using h(2) by auto
  have absent: "x \<notin> set (h0 @ k)" "x \<noteq> OpClose HJob \<Longrightarrow> x \<notin> set (k2 @ cl)" if "decisive x" for x
    using quiet_no_decisive [OF _ that] h0(1) refused(3,4) cl by auto
  have "\<not> answered os h op2 (\<lambda>_. True)" if same: "is_create c op2" for op2
  proof
    assume "answered os h op2 (\<lambda>_. True)"
    then obtain a b where ab: "h = a @ op # b" "lo_status os (a @ [op]) = None"
      using op(2) [OF same] by (auto simp: answered_def)
    have "a = h0 @ k"
      using ab(1) hh append_Cons_eq_iff [of op "h0 @ k" "k2 @ cl" a b] absent [OF op(1)] op(4) by simp
    with ab(2) refused(6) show False by simp
  qed
  moreover have "OpResumeThread \<notin> set h"
    unfolding hh using absent [of OpResumeThread] op(3) by simp
  moreover have "isl r" "OpClose HJob \<in> set h"
    using refused h by auto
  ultimately show ?thesis
    unfolding launch_contract_def by (simp add: in_set_conv_decomp) blast
next
  case (tried k k2 op h2)
  note op = is_create_facts [OF tried(4)]
  let ?b = "resume_base ((h0 @ k) @ [op])"
  have hh: "h = h2 @ k2 @ cl" using tried h by simp
  have cl: "set cl \<subseteq> {OpClose HJob}" "isl r \<Longrightarrow> OpClose HJob \<in> set h" "\<not> isl r \<Longrightarrow> cl = []"
    using h by auto
  have base: "OpResumeThread \<notin> set ?b" "OpClose HJob \<notin> set ?b" "OpTerminateJob n \<notin> set ?b"
      "OpTerminateProcess n \<notin> set ?b" for n
    using quiet_no_decisive [OF h0(1)] quiet_no_decisive [OF tried(2)] op(3) op(4) [of HJob] op(5) [of n]
      op(6) [of n]
    by (auto simp: resume_base_def)
  have late: "OpResumeThread \<notin> set (k2 @ cl)"
    using quiet_no_decisive [OF tried(3)] cl(1) by auto
  have guard: "resume_guarded os c a"
    if "verified_member os ?b" "h = (?b @ [OpAssignProcessToJob, OpGetProcessTimes HProcess, OpIsProcessInJob HProcess])
      @ OpResumeThread # t" "OpResumeThread \<notin> set t" "h = a @ OpResumeThread # b" for a b t
  proof -
    have "a = ?b @ [OpAssignProcessToJob, OpGetProcessTimes HProcess, OpIsProcessInJob HProcess]"
      using that(2,3,4) base(1) append_Cons_eq_iff
        [of OpResumeThread "?b @ [OpAssignProcessToJob, OpGetProcessTimes HProcess, OpIsProcessInJob HProcess]" t a b]
      by simp
    with verified_resume_guarded [OF h0(2) tried(4,5) that(1)] show ?thesis by simp
  qed
  have assigned: "answered os h OpAssignProcessToJob (\<lambda>_. True)"
    if "lo_status os (?b @ [OpAssignProcessToJob]) = None" "h = ?b @ OpAssignProcessToJob # t" for t
    using answeredI [of os ?b OpAssignProcessToJob "\<lambda>_. True" t] that by simp
  from tried(6) show ?thesis
  proof (cases rule: assign_and_resume_cases)
    case unassigned
    then have "OpResumeThread \<notin> set h" "OpTerminateProcess INTERNAL_FAILURE_EXIT_CODE \<in> set h"
      using hh base(1) late by auto
    with unassigned(1) cl(2) show ?thesis
      unfolding launch_contract_def by (simp add: in_set_conv_decomp)
  next
    case (unverified j)
    then have "OpResumeThread \<notin> set h" "answered os h OpAssignProcessToJob (\<lambda>_. True)"
      using hh base(1) late assigned [of "j @ k2 @ cl"] by auto
    with unverified(1) cl(2) show ?thesis
      unfolding launch_contract_def by (simp add: in_set_conv_decomp)
  next
    case stopped
    have "answered os h OpAssignProcessToJob (\<lambda>_. True)"
      using stopped hh assigned by (auto simp: verified_member_def)
    moreover have "resume_guarded os c a" if "h = a @ OpResumeThread # b" for a b
      using stopped hh late that
      by (intro guard [of "OpTerminateJob INTERNAL_FAILURE_EXIT_CODE # k2 @ cl" a b]) auto
    moreover have "OpTerminateJob INTERNAL_FAILURE_EXIT_CODE \<in> set h" using stopped hh by simp
    ultimately show ?thesis
      using stopped(1) cl(2) unfolding launch_contract_def by blast
  next
    case running
    then have k2: "k2 = []" "cl = []" using tried(7) cl(3) by auto
    have "resume_guarded os c a" if "h = a @ OpResumeThread # b" for a b
      using running hh k2 that by (intro guard [of "[OpClose HThread]" a b]) auto
    moreover have "OpResumeThread \<in> set h" "OpClose HJob \<notin> set h" "OpTerminateJob n \<notin> set h"
        "OpTerminateProcess n \<notin> set h" for n
      using running hh k2 base by auto
    ultimately show ?thesis
      using running(1) unfolding launch_contract_def by blast
  qed
qed

text \<open>C37: A launch fails closed, whatever Windows answers.  The primary thread is resumed only after
  the Job was created, read back as kill-on-close without breakaway and found not inheritable, the
  requested process was created suspended, assigned to the Job and confirmed as a member.  When the
  launch fails, the Job handle is closed, which kills every member; a process that was created but
  not assigned is terminated; and after a resume that is not the expected one the Job is terminated.
  When it succeeds, the thread was resumed and nothing was terminated or released.\<close>

theorem launch_fails_closed:
  assumes "launch_process os c [] = (h, r)"
  shows "launch_contract os c h r"
  using assms
proof (cases rule: launch_process_cases)
  case job
  then show ?thesis by (intro launch_contract_quiet)
next
  case (started h0 h1)
  then show ?thesis by (intro launch_contract_started [of h0 os c h1 r h]) simp_all
qed

section \<open>Witnesses\<close>

text \<open>A Windows that answers every call, with a member process resumed once.\<close>

definition example_oracle :: launch_oracle where
  "example_oracle =
     \<lparr>lo_status = (\<lambda>_. None), lo_handle_flags = (\<lambda>_. 0),
      lo_limit_flags = (\<lambda>_. JOB_OBJECT_LIMIT_KILL_ON_JOB_CLOSE), lo_required_bytes = (\<lambda>_. 48),
      lo_process_id = (\<lambda>_. 41), lo_creation_time = (\<lambda>_. (1, 2)), lo_in_job = (\<lambda>_. True),
      lo_suspend_count = (\<lambda>_. 1), lo_last_error = (\<lambda>_. 0), lo_is_absolute = (\<lambda>_. True),
      lo_is_file = (\<lambda>_. True), lo_is_dir = (\<lambda>_. True)\<rparr>"

definition example_command :: launch_command where
  "example_command = command_arg (command_new (wide_of ''C:/R.exe'') (wide_of ''C:/'')) (wide_of ''a b'')"

lemma launch_fails_closed_witness:
  "\<exists>h i. launch_process example_oracle example_command [] = (h, Inr i) \<and> pi_pid i = 41
     \<and> OpResumeThread \<in> set h \<and> OpClose HJob \<notin> set h"
proof -
  obtain h r where run: "launch_process example_oracle example_command [] = (h, r)" by fastforce
  have "case snd (launch_process example_oracle example_command []) of Inl _ \<Rightarrow> False | Inr i \<Rightarrow> pi_pid i = 41"
    by code_simp
  then obtain i where "r = Inr i" "pi_pid i = 41" using run by (auto split: sum.splits)
  with run launch_fails_closed [OF run] show ?thesis
    unfolding launch_contract_def by auto
qed

end
