(* ===== verification/Runtime_Command.thy ===== *)
theory Runtime_Command
  imports Runtime_Monitor Resource_Bundle Windows_Launcher
begin

text \<open>
  What \<open>crates/windows-lifecycle/src/lib.rs\<close> starts: the interpreter, the environment and the command
  of the bundled runtime, and the paths R can read.  A Windows \<open>Path\<close> is the list of its
  components; a file name of Windows holds neither a separator nor a colon, so \<open>push\<close> and \<open>join\<close>
  of one append a component.  The process environment, the file system and the native
  form of a validated bundle path are the fields of \<open>runtime_env\<close>.
\<close>

section \<open>Definitions\<close>

datatype lifecycle_error =
    InvalidLimits | InvalidUpstreamPort | InvalidRuntimeTopology | UnsupportedRPath
  | RPathAliasMismatch | UnsupportedWindowsArchitecture | ArchitectureRscriptUnavailable
  | Bundle bundle_error | Launch launch_error | Protocol protocol_error | Io string
  | ThreadSpawn string | MissingLifecyclePipe string | TokenNotConsumed
  | LauncherReportedFailure error_phase | InterpreterExitedBeforeReadiness nat nat
  | RuntimeExitedBeforeReadiness | StoppedBeforeReadiness | ReadinessTimeout | MonitorDisconnected
  | ProtocolStreamReadFailed | ProtocolStreamEnded | StderrStreamReadFailed
  | WrapperExitedUnexpectedly | RuntimeExitedUnexpectedly | StoppedUnexpectedly
  | UnexpectedLifecycleState lifecycle_state | OwnerNotRunning | OwnerStillHasLiveResources
  | RuntimeIdentityUnavailable | PrivateSessionUnavailable | OwnerAlreadyCleaned
  | JobDidNotBecomeEmpty | ProcessDidNotExit | MonitorThreadPanicked string
  | CleanupAfterFailure lifecycle_error lifecycle_error

subsection \<open>Windows paths\<close>

datatype path_prefix =
    Verbatim wide | VerbatimUNC wide wide | VerbatimDisk "16 word" | DeviceNS wide
  | UNC wide wide | Disk "16 word"

datatype path_component = Prefix path_prefix | RootDir | CurDir | ParentDir | Normal wide

type_synonym win_path = "path_component list"

text \<open>A prefix other than a plain drive is rooted by itself.\<close>

fun has_implicit_root :: "path_prefix \<Rightarrow> bool" where
  "has_implicit_root (Disk d) = False"
| "has_implicit_root p = True"

fun win_is_absolute :: "win_path \<Rightarrow> bool" where
  "win_is_absolute (Prefix p # components) =
     (has_implicit_root p \<or> (case components of RootDir # _ \<Rightarrow> True | _ \<Rightarrow> False))"
| "win_is_absolute components = False"

definition win_parent :: "win_path \<Rightarrow> win_path option" where
  "win_parent p =
     (if p = [] then None
      else case last p of
        Normal _ \<Rightarrow> Some (butlast p) | CurDir \<Rightarrow> Some (butlast p) | ParentDir \<Rightarrow> Some (butlast p)
      | _ \<Rightarrow> None)"

definition win_file_name :: "win_path \<Rightarrow> wide option" where
  "win_file_name p = (if p = [] then None else case last p of Normal name \<Rightarrow> Some name | _ \<Rightarrow> None)"

definition win_join :: "win_path \<Rightarrow> wide \<Rightarrow> win_path" where
  "win_join p name = p @ [Normal name]"

text \<open>The text of a path: backslashes between the components, and after a drive or before a
  component where the prefix has no separator of its own.\<close>

definition COLON :: "16 word" where "COLON = 0x3A"

fun prefix_text :: "path_prefix \<Rightarrow> wide" where
  "prefix_text (Verbatim name) = [BACKSLASH, BACKSLASH] @ wide_of ''?'' @ [BACKSLASH] @ name"
| "prefix_text (VerbatimUNC server share) =
     [BACKSLASH, BACKSLASH] @ wide_of ''?'' @ [BACKSLASH] @ wide_of ''UNC'' @ [BACKSLASH] @ server @ [BACKSLASH] @ share"
| "prefix_text (VerbatimDisk d) = [BACKSLASH, BACKSLASH] @ wide_of ''?'' @ [BACKSLASH, d, COLON]"
| "prefix_text (DeviceNS name) = [BACKSLASH, BACKSLASH] @ wide_of ''.'' @ [BACKSLASH] @ name"
| "prefix_text (UNC server share) = [BACKSLASH, BACKSLASH] @ server @ [BACKSLASH] @ share"
| "prefix_text (Disk d) = [d, COLON]"

fun component_text :: "path_component \<Rightarrow> wide" where
  "component_text (Prefix p) = prefix_text p"
| "component_text RootDir = []"
| "component_text CurDir = wide_of ''.''"
| "component_text ParentDir = wide_of ''..''"
| "component_text (Normal name) = name"

definition path_text :: "win_path \<Rightarrow> wide" where
  "path_text p =
     (case p of
        Prefix (Disk d) # RootDir # rest \<Rightarrow>
          [d, COLON, BACKSLASH] @ join_with [BACKSLASH] (map component_text rest)
      | Prefix x # RootDir # rest \<Rightarrow> join_with [BACKSLASH] (prefix_text x # map component_text rest)
      | _ \<Rightarrow> join_with [BACKSLASH] (map component_text p))"

subsection \<open>Paths R can read\<close>

record runtime_env =
  rv_arch :: string
  rv_vars :: "(wide \<times> wide) list"
  rv_path_var :: "wide option"
  rv_compare_ordinal :: "wide \<Rightarrow> wide \<Rightarrow> int"
  rv_is_file :: "win_path \<Rightarrow> bool"
  rv_canonicalize :: "win_path \<Rightarrow> win_path option"
  rv_native :: "path \<Rightarrow> win_path"

fun append_normal_components :: "win_path \<Rightarrow> win_path \<Rightarrow> lifecycle_error + win_path" where
  "append_normal_components p [] = Inr p"
| "append_normal_components p (component # components) =
     (case component of
        RootDir \<Rightarrow> append_normal_components p components
      | Normal name \<Rightarrow> append_normal_components (win_join p name) components
      | _ \<Rightarrow> Inl UnsupportedRPath)"

definition ordinary_windows_path :: "win_path \<Rightarrow> lifecycle_error + win_path" where
  "ordinary_windows_path p =
     (case p of
        Prefix x # components \<Rightarrow>
          (case x of
             Disk _ \<Rightarrow> Inr p
           | UNC _ _ \<Rightarrow> Inr p
           | VerbatimDisk drive \<Rightarrow> append_normal_components [Prefix (Disk drive), RootDir] components
           | VerbatimUNC server share \<Rightarrow>
               append_normal_components [Prefix (UNC server share), RootDir] components
           | Verbatim _ \<Rightarrow> Inl UnsupportedRPath
           | DeviceNS _ \<Rightarrow> Inl UnsupportedRPath)
      | _ \<Rightarrow> Inl UnsupportedRPath)"

definition r_compatible_existing_path :: "runtime_env \<Rightarrow> win_path \<Rightarrow> lifecycle_error + win_path" where
  "r_compatible_existing_path env p =
     (if \<not> win_is_absolute p then Inl UnsupportedRPath
      else
        rbind (ordinary_windows_path p) (\<lambda>compatible.
        rbind (ok_or (rv_canonicalize env p) (Io ''canonicalize validated R path'')) (\<lambda>canonical_original.
        rbind (ok_or (rv_canonicalize env compatible) (Io ''canonicalize R-compatible path alias'')) (\<lambda>canonical_compatible.
        if canonical_original \<noteq> canonical_compatible then Inl RPathAliasMismatch
        else Inr compatible))))"

subsection \<open>The interpreter, its environment and its command\<close>

definition AMBIENT_R_VARIABLES :: "string list" where
  "AMBIENT_R_VARIABLES =
     [''R_ARCH'', ''R_DOC_DIR'', ''R_ENVIRON'', ''R_ENVIRON_USER'', ''R_HOME'', ''R_INCLUDE_DIR'', ''R_LIBS'',
      ''R_LIBS_SITE'', ''R_LIBS_USER'', ''R_PROFILE'', ''R_PROFILE_USER'', ''R_SHARE_DIR'',
      ''RPACKIT_LAUNCH_PROTOCOL'', ''RPACKIT_SESSION_TOKEN'']"

definition bundled_r_interpreter :: "runtime_env \<Rightarrow> validated_bundle \<Rightarrow> lifecycle_error + win_path" where
  "bundled_r_interpreter env bundle =
     (if rv_arch env \<noteq> ''x86_64'' then Inl UnsupportedWindowsArchitecture
      else
        rbind (ok_or (win_parent (rv_native env (vb_rscript bundle))) InvalidRuntimeTopology) (\<lambda>rscript_directory.
        let interpreter = win_join (win_join rscript_directory (wide_of ''x64'')) (wide_of ''Rscript.exe'') in
        if \<not> rv_is_file env interpreter then Inl ArchitectureRscriptUnavailable
        else Inr interpreter))"

fun remove_variables ::
  "(wide \<Rightarrow> wide \<Rightarrow> int) \<Rightarrow> launch_environment \<Rightarrow> string list \<Rightarrow> lifecycle_error + launch_environment" where
  "remove_variables cmp environment [] = Inr environment"
| "remove_variables cmp environment (name # names) =
     (case env_remove cmp environment (wide_of name) of
        (_, Inl e) \<Rightarrow> Inl (Launch e)
      | (environment1, Inr _) \<Rightarrow> remove_variables cmp environment1 names)"

definition set_variable ::
  "(wide \<Rightarrow> wide \<Rightarrow> int) \<Rightarrow> launch_environment \<Rightarrow> string \<Rightarrow> wide \<Rightarrow> lifecycle_error + launch_environment" where
  "set_variable cmp environment name val =
     (case env_set cmp environment (wide_of name) val of
        (_, Inl e) \<Rightarrow> Inl (Launch e)
      | (environment1, Inr _) \<Rightarrow> Inr environment1)"

definition search_path :: "runtime_env \<Rightarrow> win_path \<Rightarrow> win_path \<Rightarrow> wide" where
  "search_path env interpreter_directory rscript_directory =
     path_text interpreter_directory @ wide_of '';'' @ path_text rscript_directory
     @ (case rv_path_var env of
          Some ambient_path \<Rightarrow> if ambient_path = [] then [] else wide_of '';'' @ ambient_path
        | None \<Rightarrow> [])"

definition bundled_r_environment ::
  "runtime_env \<Rightarrow> validated_bundle \<Rightarrow> win_path \<Rightarrow> lifecycle_error + launch_environment" where
  "bundled_r_environment env bundle interpreter =
     (let cmp = rv_compare_ordinal env in
      rbind (map_err Launch (env_from_current cmp (rv_vars env))) (\<lambda>environment0.
      rbind (remove_variables cmp environment0 AMBIENT_R_VARIABLES) (\<lambda>environment1.
      rbind (ok_or (win_parent (rv_native env (vb_rscript bundle))) InvalidRuntimeTopology) (\<lambda>rscript_directory0.
      rbind (ok_or (win_parent rscript_directory0) InvalidRuntimeTopology) (\<lambda>runtime_home0.
      rbind (r_compatible_existing_path env runtime_home0) (\<lambda>runtime_home.
      rbind (r_compatible_existing_path env (rv_native env (vb_library bundle))) (\<lambda>library.
      rbind (set_variable cmp environment1 ''R_HOME'' (path_text runtime_home)) (\<lambda>environment2.
      rbind (set_variable cmp environment2 ''R_LIBS'' (path_text library)) (\<lambda>environment3.
      rbind (set_variable cmp environment3 ''R_LIBS_SITE'' (path_text library)) (\<lambda>environment4.
      rbind (set_variable cmp environment4 ''R_LIBS_USER'' (path_text library)) (\<lambda>environment5.
      rbind (set_variable cmp environment5 ''RPACKIT_LAUNCH_PROTOCOL'' (wide_of ''2'')) (\<lambda>environment6.
      rbind (ok_or (win_parent interpreter) InvalidRuntimeTopology) (\<lambda>interpreter_directory.
      rbind (r_compatible_existing_path env rscript_directory0) (\<lambda>rscript_directory.
        set_variable cmp environment6 ''PATH'' (search_path env interpreter_directory rscript_directory)))))))))))))))"

definition bundled_r_command ::
  "runtime_env \<Rightarrow> validated_bundle \<Rightarrow> win_path \<Rightarrow> 16 word \<Rightarrow> win_path \<Rightarrow> win_path \<Rightarrow> launch_environment \<Rightarrow>
     lifecycle_error + launch_command" where
  "bundled_r_command env bundle interpreter port token_path control_path environment =
     rbind (r_compatible_existing_path env (rv_native env (vb_resources bundle))) (\<lambda>resources.
     rbind (r_compatible_existing_path env (rv_native env (vb_launcher bundle))) (\<lambda>launcher.
     rbind (r_compatible_existing_path env (rv_native env (vb_app bundle))) (\<lambda>app.
     rbind (ok_or (win_parent token_path) InvalidRuntimeTopology) (\<lambda>token_parent.
     if win_parent control_path \<noteq> Some token_parent then Inl InvalidRuntimeTopology
     else
       rbind (r_compatible_existing_path env token_parent) (\<lambda>session_directory.
       rbind (ok_or (win_file_name token_path) InvalidRuntimeTopology) (\<lambda>token_name.
       rbind (ok_or (win_file_name control_path) InvalidRuntimeTopology) (\<lambda>control_name.
       Inr (command_environment
              (command_args (command_new (path_text interpreter) (path_text resources))
                [wide_of ''--vanilla'', path_text launcher,
                 wide_of ''--app'', path_text app,
                 wide_of ''--port'', wide_of (decimal (unat port)),
                 wide_of ''--token-file'', path_text (win_join session_directory token_name),
                 wide_of ''--control'', path_text (win_join session_directory control_name)])
              environment))))))))"

subsection \<open>Specifications\<close>

text \<open>An ordinary path: a drive or share root followed by plain names.\<close>

definition names_of :: "win_path \<Rightarrow> wide list" where
  "names_of p = concat (map (\<lambda>c. case c of Normal name \<Rightarrow> [name] | _ \<Rightarrow> []) p)"

fun plain_component :: "path_component \<Rightarrow> bool" where
  "plain_component (Normal name) = True"
| "plain_component RootDir = True"
| "plain_component c = False"

text \<open>The variables the runtime is started with on top of what it inherits.\<close>

definition runtime_variables :: "wide \<Rightarrow> wide \<Rightarrow> wide \<Rightarrow> (wide \<times> wide) list" where
  "runtime_variables runtime_home library search =
     [(wide_of ''R_HOME'', runtime_home), (wide_of ''R_LIBS'', library), (wide_of ''R_LIBS_SITE'', library),
      (wide_of ''R_LIBS_USER'', library), (wide_of ''RPACKIT_LAUNCH_PROTOCOL'', wide_of ''2''),
      (wide_of ''PATH'', search)]"

section \<open>Lemmas\<close>

subsection \<open>Paths\<close>

lemma append_normal_components_iff:
  "append_normal_components p cs = Inr q \<longleftrightarrow>
     list_all plain_component cs \<and> q = p @ map Normal (names_of cs)"
  by (induction cs arbitrary: p)
    (auto simp: names_of_def win_join_def split: path_component.splits)

lemma ordinary_windows_path_cases:
  assumes "ordinary_windows_path p = Inr q"
  obtains
    (unchanged) x cs where "p = Prefix x # cs" "q = p" "(\<exists>d. x = Disk d) \<or> (\<exists>a b. x = UNC a b)"
  | (drive) d cs where "p = Prefix (VerbatimDisk d) # cs" "list_all plain_component cs"
      "q = Prefix (Disk d) # RootDir # map Normal (names_of cs)"
  | (share) a b cs where "p = Prefix (VerbatimUNC a b) # cs" "list_all plain_component cs"
      "q = Prefix (UNC a b) # RootDir # map Normal (names_of cs)"
  using assms
  by (auto simp: ordinary_windows_path_def append_normal_components_iff
      split: list.splits path_component.splits path_prefix.splits)

lemma r_compatible_path_alias:
  assumes "r_compatible_existing_path env p = Inr q"
  shows "win_is_absolute p \<and> win_is_absolute q \<and> names_of q = names_of p
    \<and> ((\<exists>d cs. q = Prefix (Disk d) # cs) \<or> (\<exists>a b cs. q = Prefix (UNC a b) # cs))
    \<and> (\<exists>c. rv_canonicalize env p = Some c \<and> rv_canonicalize env q = Some c)"
proof -
  have q: "ordinary_windows_path p = Inr q" and abs: "win_is_absolute p"
    and canon: "\<exists>c. rv_canonicalize env p = Some c \<and> rv_canonicalize env q = Some c"
    using assms by (auto simp: r_compatible_existing_path_def split: if_splits)
  have names: "concat (map (\<lambda>c. case c of Normal n \<Rightarrow> [n] | _ \<Rightarrow> []) (map Normal ns)) = ns" for ns
    by (induction ns) simp_all
  from q have "win_is_absolute q \<and> names_of q = names_of p
      \<and> ((\<exists>d cs. q = Prefix (Disk d) # cs) \<or> (\<exists>a b cs. q = Prefix (UNC a b) # cs))"
    by (cases rule: ordinary_windows_path_cases) (use abs names in \<open>auto simp: names_of_def\<close>)
  with abs canon show ?thesis by blast
qed

subsection \<open>The environment\<close>

lemma environment_name_same: "environment_name w = Inr n \<Longrightarrow> n = w"
  by (simp add: environment_name_def split: if_splits)

lemma environment_value_same: "environment_value w = Inr n \<Longrightarrow> n = w"
  by (simp add: environment_value_def split: if_splits)

context ordinal_names
begin

lemma env_set_ok:
  assumes "env_inv upcase env" and "env_set compare_ordinal env n v = (env1, Inr u)"
  shows "env_inv upcase env1 \<and> env_map upcase env1 = (env_map upcase env)(name_key upcase n \<mapsto> v)"
proof -
  have "environment_name n = Inr n" "environment_value v = Inr v"
    using assms(2)
    by (auto simp: env_set_def dest: environment_name_same environment_value_same split: sum.splits)
  from set_refines [OF assms(1) this] assms(2) show ?thesis by auto
qed

lemma env_remove_ok:
  assumes "env_inv upcase env" and "env_remove compare_ordinal env n = (env1, Inr u)"
  shows "env_inv upcase env1 \<and> env_map upcase env1 = (env_map upcase env)(name_key upcase n := None)"
proof -
  have "environment_name n = Inr n"
    using assms(2) by (auto simp: env_remove_def dest: environment_name_same split: sum.splits)
  from remove_refines [OF assms(1) this] assms(2) show ?thesis by auto
qed

lemma set_all_inv:
  assumes "env_inv upcase env" and "env_set_all compare_ordinal env vars = Inr env1"
  shows "env_inv upcase env1"
  using assms
proof (induction vars arbitrary: env)
  case (Cons var vars)
  then show ?case by (cases var) (auto dest: env_set_ok split: prod.splits sum.splits)
qed simp

lemma from_current_inv: "env_from_current compare_ordinal vars = Inr env \<Longrightarrow> env_inv upcase env"
  by (rule set_all_inv [of env_empty]) (simp_all add: env_from_current_def env_inv_def env_empty_def)

lemma remove_variables_ok:
  assumes "env_inv upcase env" and "remove_variables compare_ordinal env names = Inr env1"
  shows "env_inv upcase env1
    \<and> env_map upcase env1 = env_map upcase env |` (- (\<lambda>n. name_key upcase (wide_of n)) ` set names)"
  using assms
proof (induction names arbitrary: env)
  case (Cons name names)
  obtain env2 r where r: "env_remove compare_ordinal env (wide_of name) = (env2, Inr r)"
      "remove_variables compare_ordinal env2 names = Inr env1"
    using Cons.prems(2) by (auto split: prod.splits sum.splits)
  from env_remove_ok [OF Cons.prems(1) r(1)] Cons.IH [OF _ r(2)] show ?case
    by (auto simp: restrict_map_def fun_eq_iff)
qed (simp add: restrict_map_def)

lemma set_variable_ok:
  assumes "env_inv upcase env" and "set_variable compare_ordinal env n v = Inr env1"
  shows "env_inv upcase env1 \<and> env_map upcase env1 = (env_map upcase env)(name_key upcase (wide_of n) \<mapsto> v)"
  using assms env_set_ok [OF assms(1), of "wide_of n" v]
  by (auto simp: set_variable_def split: prod.splits sum.splits)

lemma remove_variables_succeeds:
  assumes "env_inv upcase env" and "\<forall>n \<in> set names. environment_name (wide_of n) = Inr (wide_of n)"
  shows "\<exists>env1. remove_variables compare_ordinal env names = Inr env1 \<and> env_inv upcase env1"
  using assms
proof (induction names arbitrary: env)
  case (Cons name names)
  from remove_refines [OF Cons.prems(1), of "wide_of name"] Cons.prems(2)
  obtain env1 r where "env_remove compare_ordinal env (wide_of name) = (env1, Inr r)" "env_inv upcase env1"
    by auto
  with Cons show ?case by simp
qed simp

lemma set_variable_succeeds:
  assumes "env_inv upcase env" and "environment_name (wide_of n) = Inr (wide_of n)" and "environment_value v = Inr v"
  shows "\<exists>env1. set_variable compare_ordinal env n v = Inr env1 \<and> env_inv upcase env1"
  using set_refines [OF assms] by (auto simp: set_variable_def)

end

text \<open>The names the code sets or removes are written in capital letters and underscores.\<close>

definition CAPITALS :: string where
  "CAPITALS = ''ABCDEFGHIJKLMNOPQRSTUVWXYZ_''"

lemma name_key_capitals:
  assumes "\<forall>c \<in> set (wide_of CAPITALS). upcase c = c" and "set n \<subseteq> set CAPITALS"
  shows "name_key upcase (wide_of n) = wide_of n"
  using assms by (auto simp: name_key_def wide_of_def intro!: map_idI)

lemma ambient_capitals: "\<forall>n \<in> set AMBIENT_R_VARIABLES. set n \<subseteq> set CAPITALS"
  by code_simp

lemma set_names_capitals:
  "\<forall>n \<in> set [''R_HOME'', ''R_LIBS'', ''R_LIBS_SITE'', ''R_LIBS_USER'', ''RPACKIT_LAUNCH_PROTOCOL'', ''PATH''].
     set n \<subseteq> set CAPITALS"
  by code_simp

section \<open>Properties\<close>

text \<open>The runtime is started in a sanitized environment.  Whenever the environment is built, it is
  the inherited one without any of the ambient R and rpackit variables, a session token among
  them, extended by exactly six: the home and the library of the bundled runtime (the latter for all
  three library variables), the launch protocol, and a search path that begins with the
  directory of the interpreter and that of the bundled Rscript.  Both directories are ordinary
  Windows paths that denote the validated ones.\<close>

lemma runtime_environment_sanitized:
  assumes "ordinal_names (rv_compare_ordinal env) upcase"
    and "\<forall>c \<in> set (wide_of CAPITALS). upcase c = c"
    and "bundled_r_environment env bundle interpreter = Inr environment"
  shows "\<exists>inherited bin home library directory bin1.
    env_from_current (rv_compare_ordinal env) (rv_vars env) = Inr inherited
    \<and> win_parent (rv_native env (vb_rscript bundle)) = Some bin \<and> win_parent interpreter = Some directory
    \<and> rv_canonicalize env home = rv_canonicalize env (butlast bin)
    \<and> rv_canonicalize env library = rv_canonicalize env (rv_native env (vb_library bundle))
    \<and> rv_canonicalize env bin1 = rv_canonicalize env bin
    \<and> env_inv upcase environment
    \<and> env_map upcase environment =
        env_map upcase inherited |` (- wide_of ` set AMBIENT_R_VARIABLES)
        ++ map_of (rev (runtime_variables (path_text home) (path_text library) (search_path env directory bin1)))"
proof -
  let ?cmp = "rv_compare_ordinal env" and ?m = "env_map upcase"
  note removed = ordinal_names.remove_variables_ok [OF assms(1)]
    and added = ordinal_names.set_variable_ok [OF assms(1)]
  obtain e0 e1 e2 e3 e4 e5 e6 bin home0 home library directory bin1 where
    e0: "env_from_current ?cmp (rv_vars env) = Inr e0" and
    e1: "remove_variables ?cmp e0 AMBIENT_R_VARIABLES = Inr e1" and
    bin: "win_parent (rv_native env (vb_rscript bundle)) = Some bin" and
    home0: "win_parent bin = Some home0" and
    home: "r_compatible_existing_path env home0 = Inr home" and
    library: "r_compatible_existing_path env (rv_native env (vb_library bundle)) = Inr library" and
    e2: "set_variable ?cmp e1 ''R_HOME'' (path_text home) = Inr e2" and
    e3: "set_variable ?cmp e2 ''R_LIBS'' (path_text library) = Inr e3" and
    e4: "set_variable ?cmp e3 ''R_LIBS_SITE'' (path_text library) = Inr e4" and
    e5: "set_variable ?cmp e4 ''R_LIBS_USER'' (path_text library) = Inr e5" and
    e6: "set_variable ?cmp e5 ''RPACKIT_LAUNCH_PROTOCOL'' (wide_of ''2'') = Inr e6" and
    directory: "win_parent interpreter = Some directory" and
    bin1: "r_compatible_existing_path env bin = Inr bin1" and
    e7: "set_variable ?cmp e6 ''PATH'' (search_path env directory bin1) = Inr environment"
    using assms(3) unfolding bundled_r_environment_def Let_def by (auto simp: map_err_def split: sum.splits)
  have ambient: "(\<lambda>n. name_key upcase (wide_of n)) ` set AMBIENT_R_VARIABLES = wide_of ` set AMBIENT_R_VARIABLES"
    using name_key_capitals [OF assms(2)] ambient_capitals by (intro image_cong) auto
  have key: "name_key upcase (wide_of n) = wide_of n"
    if "n \<in> set [''R_HOME'', ''R_LIBS'', ''R_LIBS_SITE'', ''R_LIBS_USER'', ''RPACKIT_LAUNCH_PROTOCOL'', ''PATH'']" for n
    using name_key_capitals [OF assms(2)] set_names_capitals that by blast
  note m1 = removed [OF ordinal_names.from_current_inv [OF assms(1) e0] e1, unfolded ambient]
  note m2 = added [OF conjunct1 [OF m1] e2] note m3 = added [OF conjunct1 [OF m2] e3]
  note m4 = added [OF conjunct1 [OF m3] e4] note m5 = added [OF conjunct1 [OF m4] e5]
  note m6 = added [OF conjunct1 [OF m5] e6] note m7 = added [OF conjunct1 [OF m6] e7]
  have "?m environment = ?m e0 |` (- wide_of ` set AMBIENT_R_VARIABLES)
      ++ map_of (rev (runtime_variables (path_text home) (path_text library) (search_path env directory bin1)))"
    using m1 m2 m3 m4 m5 m6 m7 by (simp add: key runtime_variables_def)
  moreover have "home0 = butlast bin"
    using home0 by (auto simp: win_parent_def split: if_splits path_component.splits)
  moreover note r_compatible_path_alias [OF home] r_compatible_path_alias [OF library] r_compatible_path_alias [OF bin1]
  ultimately show ?thesis
    using e0 bin directory m7 by metis
qed

section \<open>Witnesses\<close>

definition example_native :: "path \<Rightarrow> win_path" where
  "example_native p = [Prefix (VerbatimDisk 0x43), RootDir] @ map (Normal \<circ> wide_of) (tl p)"

definition example_runtime_env :: runtime_env where
  "example_runtime_env =
     \<lparr>rv_arch = ''x86_64'',
      rv_vars = [(wide_of ''RPACKIT_SESSION_TOKEN'', wide_of ''t'')],
      rv_path_var = Some (wide_of ''C:''), rv_compare_ordinal = ordinal_compare,
      rv_is_file = (\<lambda>p. True), rv_canonicalize = (\<lambda>p. Some (map Normal (names_of p))),
      rv_native = example_native\<rparr>"

definition example_interpreter :: win_path where
  "example_interpreter = [Prefix (Disk 0x43), RootDir, Normal (wide_of ''bin''), Normal (wide_of ''x64''),
     Normal (wide_of ''Rscript.exe'')]"

lemma example_environment_built:
  "\<exists>environment. bundled_r_environment example_runtime_env example_bundle example_interpreter = Inr environment"
proof -
  let ?env = example_runtime_env and ?native = "rv_native example_runtime_env"
  obtain e0 where e0: "env_from_current ordinal_compare (rv_vars ?env) = Inr e0"
    using ascii.set_refines [of env_empty "wide_of ''RPACKIT_SESSION_TOKEN''" "wide_of ''t''"]
    by (auto simp: env_from_current_def example_runtime_env_def env_inv_def env_empty_def environment_name_def
        environment_value_def wide_of_def EQUALS_def i32_max_def byte_def)
  have names: "\<forall>n \<in> set (''PATH'' # AMBIENT_R_VARIABLES). environment_name (wide_of n) = Inr (wide_of n)"
    by code_simp
  obtain e1 where e1: "remove_variables ordinal_compare e0 AMBIENT_R_VARIABLES = Inr e1" "env_inv ascii_upcase e1"
    using ascii.remove_variables_succeeds [OF ascii.from_current_inv [OF e0]] names by auto
  let ?names = "map (Normal \<circ> wide_of)" and ?drive = "\<lambda>x. [Prefix x, RootDir]"
  define home0 bin directory where
    "home0 = ?drive (VerbatimDisk 0x43) @ ?names [''bundle'', ''resources'', ''R'']" and
    "bin = home0 @ ?names [''bin'']" and "directory = butlast example_interpreter"
  define home library bin1 where
    "home = ?drive (Disk 0x43) @ ?names [''bundle'', ''resources'', ''R'']" and
    "library = home @ ?names [''library'']" and "bin1 = home @ ?names [''bin'']"
  note parts = home0_def bin_def directory_def home_def library_def bin1_def
  have paths: "win_parent (?native (vb_rscript example_bundle)) = Some bin" "win_parent bin = Some home0"
      "r_compatible_existing_path ?env home0 = Inr home"
      "r_compatible_existing_path ?env (?native (vb_library example_bundle)) = Inr library"
      "win_parent example_interpreter = Some directory" "r_compatible_existing_path ?env bin = Inr bin1"
    unfolding parts by code_simp+
  have vals: "environment_value (path_text home) = Inr (path_text home)"
      "environment_value (path_text library) = Inr (path_text library)"
      "environment_value (search_path ?env directory bin1) = Inr (search_path ?env directory bin1)"
      "environment_value (wide_of ''2'') = Inr (wide_of ''2'')"
    unfolding parts by code_simp+
  have step: "\<exists>env1. set_variable ordinal_compare env n v = Inr env1 \<and> env_inv ascii_upcase env1"
    if "env_inv ascii_upcase env" "n \<in> set (''PATH'' # AMBIENT_R_VARIABLES)" "environment_value v = Inr v" for env n v
    using ascii.set_variable_succeeds that names by blast
  have mem: "''R_HOME'' \<in> set AMBIENT_R_VARIABLES" "''R_LIBS'' \<in> set AMBIENT_R_VARIABLES"
      "''R_LIBS_SITE'' \<in> set AMBIENT_R_VARIABLES" "''R_LIBS_USER'' \<in> set AMBIENT_R_VARIABLES"
      "''RPACKIT_LAUNCH_PROTOCOL'' \<in> set AMBIENT_R_VARIABLES"
    by (simp_all add: AMBIENT_R_VARIABLES_def)
  obtain e2 where e2: "set_variable ordinal_compare e1 ''R_HOME'' (path_text home) = Inr e2" "env_inv ascii_upcase e2"
    using step [OF e1(2) _ vals(1)] mem by (meson list.set_intros(2))
  obtain e3 where e3: "set_variable ordinal_compare e2 ''R_LIBS'' (path_text library) = Inr e3" "env_inv ascii_upcase e3"
    using step [OF e2(2) _ vals(2)] mem by (meson list.set_intros(2))
  obtain e4 where e4: "set_variable ordinal_compare e3 ''R_LIBS_SITE'' (path_text library) = Inr e4" "env_inv ascii_upcase e4"
    using step [OF e3(2) _ vals(2)] mem by (meson list.set_intros(2))
  obtain e5 where e5: "set_variable ordinal_compare e4 ''R_LIBS_USER'' (path_text library) = Inr e5" "env_inv ascii_upcase e5"
    using step [OF e4(2) _ vals(2)] mem by (meson list.set_intros(2))
  obtain e6 where e6: "set_variable ordinal_compare e5 ''RPACKIT_LAUNCH_PROTOCOL'' (wide_of ''2'') = Inr e6"
      "env_inv ascii_upcase e6"
    using step [OF e5(2) _ vals(4)] mem by (meson list.set_intros(2))
  obtain e7 where e7: "set_variable ordinal_compare e6 ''PATH'' (search_path ?env directory bin1) = Inr e7"
    using step [OF e6(2) _ vals(3)] by (meson list.set_intros(1))
  have cmp: "rv_compare_ordinal ?env = ordinal_compare" by (simp add: example_runtime_env_def)
  show ?thesis
    unfolding bundled_r_environment_def Let_def cmp
    by (intro exI [of _ e7]) (simp add: e0 e1 e2 e3 e4 e5 e6 e7 paths map_err_def ok_or_def rbind_def)
qed

lemma runtime_environment_sanitized_witness:
  "\<exists>environment. bundled_r_environment example_runtime_env example_bundle example_interpreter = Inr environment
     \<and> env_map ascii_upcase environment (wide_of ''RPACKIT_SESSION_TOKEN'') = None"
proof -
  obtain environment where e: "bundled_r_environment example_runtime_env example_bundle example_interpreter = Inr environment"
    using example_environment_built by blast
  have cmp: "rv_compare_ordinal example_runtime_env = ordinal_compare" by (simp add: example_runtime_env_def)
  have "\<forall>c \<in> set (wide_of CAPITALS). ascii_upcase c = c" by code_simp
  from runtime_environment_sanitized [OF ascii.ordinal_names_axioms [folded cmp] this e]
  obtain inherited home library search where m: "env_map ascii_upcase environment =
      env_map ascii_upcase inherited |` (- wide_of ` set AMBIENT_R_VARIABLES)
        ++ map_of (rev (runtime_variables home library search))"
    by blast
  have token: "wide_of ''RPACKIT_SESSION_TOKEN'' \<in> wide_of ` set AMBIENT_R_VARIABLES"
    by (simp add: AMBIENT_R_VARIABLES_def)
  have "wide_of ''RPACKIT_SESSION_TOKEN'' \<notin> fst ` set (runtime_variables home library search)"
    by (simp add: runtime_variables_def wide_of_def)
  then have "map_of (rev (runtime_variables home library search)) (wide_of ''RPACKIT_SESSION_TOKEN'') = None"
    by (simp add: map_of_eq_None_iff)
  with m token e show ?thesis by (auto simp: map_add_def restrict_map_def)
qed

end
