(* ===== verification/Private_Session.thy ===== *)
theory Private_Session
  imports Runtime_Command
begin

text \<open>
  \<open>crates/windows-launcher/src/private_fs.rs\<close>: the protected directory of one launch with its one-time
  token file and its control file.  Every call to Windows and to the file system is an element of
  \<open>session_op\<close> and is answered by an oracle over the history of calls, so other processes may change
  the files between any two calls.  The text form of a security descriptor is what the
  conversions of Windows return for it.  \<open>so_user_sid\<close> is the SID that the token-user structure written
  by a call points to (none for a null pointer), \<open>so_sid_string\<close> the text a conversion of a SID
  answered, and \<open>so_random\<close> the bytes the random generator wrote by their index in the buffer.
\<close>

section \<open>Definitions\<close>

subsection \<open>Calls and their answers\<close>

datatype session_op =
    OpOpenProcessToken | OpTokenSize | OpTokenUser nat | OpSidString bytes
  | OpFillRandom | OpCreateDirectory win_path string | OpCreateFile win_path string
  | OpWriteFile win_path bytes | OpReadDacl win_path | OpTryExists win_path
  | OpRemoveFile win_path | OpRemoveDir win_path

record session_oracle =
  so_status :: "session_op list \<Rightarrow> nat option"
  so_io :: "session_op list \<Rightarrow> fs_error option"
  so_exists :: "session_op list \<Rightarrow> fs_error + bool"
  so_required_bytes :: "session_op list \<Rightarrow> nat"
  so_returned_bytes :: "session_op list \<Rightarrow> nat"
  so_user_sid :: "session_op list \<Rightarrow> bytes option"
  so_sid_string :: "session_op list \<Rightarrow> launch_error + string"
  so_random :: "session_op list \<Rightarrow> (nat \<Rightarrow> char) option"
  so_dacl_text :: "session_op list \<Rightarrow> launch_error + string"
  so_from_sddl :: "string \<Rightarrow> nat option"
  so_descriptor_invalid :: "string \<Rightarrow> bool"
  so_descriptor_text :: "string \<Rightarrow> launch_error + string"
  so_is_dir :: "win_path \<Rightarrow> bool"

type_synonym 'a session_run = "(session_op, launch_error, 'a) run"

definition scall :: "session_oracle \<Rightarrow> session_op \<Rightarrow> string \<Rightarrow> unit session_run" where
  "scall os op operation h =
     (case so_status os (h @ [op]) of
        None \<Rightarrow> (h @ [op], Inr ())
      | Some code \<Rightarrow> (h @ [op], Inl (WindowsApi operation code)))"

subsection \<open>The session\<close>

definition SESSION_PREFIX :: string where "SESSION_PREFIX = ''rpackit-session-''"
definition SESSION_RANDOM_BYTES :: nat where "SESSION_RANDOM_BYTES = 16"
definition SESSION_CREATE_ATTEMPTS :: nat where "SESSION_CREATE_ATTEMPTS = 8"
definition TOKEN_MIN_BYTES :: nat where "TOKEN_MIN_BYTES = 16"
definition TOKEN_MAX_BYTES :: nat where "TOKEN_MAX_BYTES = 256"
definition TOKEN_LEAF :: string where "TOKEN_LEAF = ''token''"
definition CONTROL_LEAF :: string where "CONTROL_LEAF = ''control''"

record private_session =
  px_directory :: win_path
  px_token_path :: win_path
  px_control_path :: win_path
  px_directory_sddl :: string
  px_file_sddl :: string

definition ERROR_ALREADY_EXISTS :: nat where "ERROR_ALREADY_EXISTS = 0x800700B7"
definition ERROR_FILE_EXISTS :: nat where "ERROR_FILE_EXISTS = 0x80070050"
definition HRESULT_INSUFFICIENT_BUFFER :: nat where "HRESULT_INSUFFICIENT_BUFFER = 0x8007007A"

definition is_exists_error :: "nat \<Rightarrow> bool" where
  "is_exists_error code = (code = ERROR_ALREADY_EXISTS \<or> code = ERROR_FILE_EXISTS)"

definition validate_parent :: "session_oracle \<Rightarrow> win_path \<Rightarrow> launch_error + unit" where
  "validate_parent os parent =
     (let normalized = list_all (\<lambda>c. c \<noteq> CurDir \<and> c \<noteq> ParentDir) parent in
      if \<not> win_is_absolute parent \<or> \<not> so_is_dir os parent \<or> \<not> normalized
      then Inl InvalidSessionParent else Inr ())"

definition validate_token :: "string \<Rightarrow> launch_error + unit" where
  "validate_token token =
     (let valid_length = TOKEN_MIN_BYTES \<le> length token \<and> length token \<le> TOKEN_MAX_BYTES;
          valid_alphabet = list_all (\<lambda>b. is_ascii_alphanumeric b \<or> b \<in> set ''._~-'') token in
      if \<not> valid_length \<or> \<not> valid_alphabet then Inl InvalidToken else Inr ())"

text \<open>The components of a leaf given as text: the leaf is one plain name exactly when it is not
  empty, not a dot or two dots, and holds no separator or colon.\<close>

definition private_child_path :: "win_path \<Rightarrow> string \<Rightarrow> launch_error + win_path" where
  "private_child_path directory leaf =
     (let valid = leaf \<noteq> [] \<and> leaf \<noteq> ''.'' \<and> leaf \<noteq> ''..''
            \<and> list_all (\<lambda>c. c \<noteq> CHR 0x5C \<and> c \<noteq> CHR ''/'' \<and> c \<noteq> CHR '':'') leaf in
      if \<not> valid then Inl InvalidPrivateLeaf else Inr (win_join directory (wide_of leaf)))"

definition nul_terminated_path :: "win_path \<Rightarrow> launch_error + wide" where
  "nul_terminated_path p =
     (if 0 \<in> set (path_text p) then Inl (InteriorNul ''private-session path'') else Inr (path_text p @ [0]))"

text \<open>\<open>LocalSecurityDescriptor::from_sddl\<close>, and the text the descriptor is converted back to.\<close>

definition descriptor_from_sddl :: "session_oracle \<Rightarrow> string \<Rightarrow> launch_error + unit" where
  "descriptor_from_sddl os sddl =
     (if CHR 0x00 \<in> set sddl then Inl (InteriorNul ''security descriptor'')
      else case so_from_sddl os sddl of
        Some code \<Rightarrow> Inl (WindowsApi ''ConvertStringSecurityDescriptorToSecurityDescriptorW'' code)
      | None \<Rightarrow> if so_descriptor_invalid os sddl then Inl PrivateDaclMismatch else Inr ())"

subsection \<open>The account\<close>

definition TOKEN_USER_SIZE :: nat where "TOKEN_USER_SIZE = 16"

definition current_account_sid :: "session_oracle \<Rightarrow> string session_run" where
  "current_account_sid os =
     nbind (scall os OpOpenProcessToken ''OpenProcessToken'') (\<lambda>_.
     nbind (nrun OpTokenSize) (\<lambda>_.
     nbind (nread (so_status os)) (\<lambda>sizing.
     if sizing \<noteq> None \<and> sizing \<noteq> Some HRESULT_INSUFFICIENT_BUFFER
     then nfail (WindowsApi ''GetTokenInformation(size)'' (the sizing))
     else
       nbind (nread (so_required_bytes os)) (\<lambda>required_bytes.
       if required_bytes < TOKEN_USER_SIZE then nfail MalformedTokenInformation
       else
         nbind (scall os (OpTokenUser required_bytes) ''GetTokenInformation'') (\<lambda>_.
         nbind (nread (so_returned_bytes os)) (\<lambda>returned_bytes.
         if returned_bytes < TOKEN_USER_SIZE \<or> required_bytes < returned_bytes
         then nfail MalformedTokenInformation
         else
           nbind (nread (so_user_sid os)) (\<lambda>user_sid.
           case user_sid of
             None \<Rightarrow> nfail MalformedTokenInformation
           | Some sid \<Rightarrow>
             nbind (scall os (OpSidString sid) ''ConvertSidToStringSidW'') (\<lambda>_.
             nbind (nread (so_sid_string os)) nlift))))))))"

subsection \<open>Protected creation\<close>

definition verify_exact_dacl :: "session_oracle \<Rightarrow> win_path \<Rightarrow> string \<Rightarrow> unit session_run" where
  "verify_exact_dacl os p expected_sddl =
     nbind (nlift (descriptor_from_sddl os expected_sddl)) (\<lambda>_.
     nbind (nlift (so_descriptor_text os expected_sddl)) (\<lambda>expected.
     nbind (nlift (nul_terminated_path p)) (\<lambda>_.
     nbind (scall os (OpReadDacl p) ''GetNamedSecurityInfoW'') (\<lambda>_.
     nbind (nread (so_dacl_text os)) (\<lambda>text0.
     nbind (nlift text0) (\<lambda>actual.
       if actual \<noteq> expected then nfail PrivateDaclMismatch else nret ()))))))"

text \<open>The buffer after the generator wrote \<open>f\<close> into it.\<close>

definition random_buffer :: "(nat \<Rightarrow> char) \<Rightarrow> bytes" where
  "random_buffer f = map f [0..<SESSION_RANDOM_BYTES]"

text \<open>The attempts of \<open>create_random_directory\<close>: a name that exists is tried again with fresh randomness.\<close>

fun directory_attempts :: "session_oracle \<Rightarrow> win_path \<Rightarrow> string \<Rightarrow> nat \<Rightarrow> win_path session_run" where
  "directory_attempts os parent sddl 0 = nfail SessionNameCollisions"
| "directory_attempts os parent sddl (Suc attempts) =
     nbind (nrun OpFillRandom) (\<lambda>_.
     nbind (nread (so_random os)) (\<lambda>random0.
     nbind (nlift (ok_or random0 RandomGenerationFailed)) (\<lambda>written.
     let random = random_buffer written;
         directory = win_join parent (wide_of (SESSION_PREFIX @ hex_encode random)) in
     nbind (nlift (nul_terminated_path directory)) (\<lambda>_.
     nbind (nrun (OpCreateDirectory directory sddl)) (\<lambda>_.
     nbind (nread (so_status os)) (\<lambda>status.
     case status of
       None \<Rightarrow>
         nbind (nattempt (verify_exact_dacl os directory sddl)) (\<lambda>verified.
         case verified of
           Inl e \<Rightarrow> nbind (nrun (OpRemoveDir directory)) (\<lambda>_. nfail e)
         | Inr _ \<Rightarrow> nret directory)
     | Some code \<Rightarrow>
         if is_exists_error code then directory_attempts os parent sddl attempts
         else nfail (WindowsApi ''CreateDirectoryW'' code)))))))"

definition create_random_directory :: "session_oracle \<Rightarrow> win_path \<Rightarrow> string \<Rightarrow> win_path session_run" where
  "create_random_directory os parent sddl =
     nbind (nlift (descriptor_from_sddl os sddl)) (\<lambda>_.
       directory_attempts os parent sddl SESSION_CREATE_ATTEMPTS)"

definition create_private_file ::
  "session_oracle \<Rightarrow> win_path \<Rightarrow> string \<Rightarrow> bytes \<Rightarrow> string \<Rightarrow> unit session_run" where
  "create_private_file os p label contents sddl =
     nbind (nlift (descriptor_from_sddl os sddl)) (\<lambda>_.
     nbind (nlift (nul_terminated_path p)) (\<lambda>_.
     nbind (nrun (OpCreateFile p sddl)) (\<lambda>_.
     nbind (nread (so_status os)) (\<lambda>status.
     case status of
       Some code \<Rightarrow>
         if is_exists_error code then nfail (PrivateFileAlreadyExists label)
         else nfail (WindowsApi ''CreateFileW'' code)
     | None \<Rightarrow>
         nbind (nrun (OpWriteFile p contents)) (\<lambda>_.
         nbind (nread (so_io os)) (\<lambda>written.
         if written \<noteq> None then
           nbind (nrun (OpRemoveFile p)) (\<lambda>_. nfail (LaunchFileSystem ''write private-session file''))
         else
           nbind (nattempt (verify_exact_dacl os p sddl)) (\<lambda>verified.
           case verified of
             Inl e \<Rightarrow> nbind (nrun (OpRemoveFile p)) (\<lambda>_. nfail e)
           | Inr _ \<Rightarrow> nret ())))))))"

definition path_exists :: "session_oracle \<Rightarrow> win_path \<Rightarrow> bool session_run" where
  "path_exists os p =
     nbind (nrun (OpTryExists p)) (\<lambda>_.
     nbind (nread (so_exists os)) (\<lambda>r.
       nlift (map_err (\<lambda>_. LaunchFileSystem ''inspect private-session path'') r)))"

definition verify_security :: "session_oracle \<Rightarrow> private_session \<Rightarrow> unit session_run" where
  "verify_security os s =
     nbind (verify_exact_dacl os (px_directory s) (px_directory_sddl s)) (\<lambda>_.
     nbind (path_exists os (px_token_path s)) (\<lambda>token_exists.
     nbind (if token_exists then verify_exact_dacl os (px_token_path s) (px_file_sddl s) else nret ()) (\<lambda>_.
     nbind (path_exists os (px_control_path s)) (\<lambda>control_exists.
       if control_exists then verify_exact_dacl os (px_control_path s) (px_file_sddl s) else nret ()))))"

definition rollback_known_paths :: "private_session \<Rightarrow> unit session_run" where
  "rollback_known_paths s =
     nbind (nrun (OpRemoveFile (px_token_path s))) (\<lambda>_.
     nbind (nrun (OpRemoveFile (px_control_path s))) (\<lambda>_.
       nrun (OpRemoveDir (px_directory s))))"

definition session_create :: "session_oracle \<Rightarrow> win_path \<Rightarrow> private_session session_run" where
  "session_create os parent =
     nbind (nlift (validate_parent os parent)) (\<lambda>_.
     nbind (current_account_sid os) (\<lambda>account_sid.
     let directory_sddl = ''D:P(A;OICI;FA;;;SY)(A;OICI;FA;;;'' @ account_sid @ '')'';
         file_sddl = ''D:P(A;;FA;;;SY)(A;;FA;;;'' @ account_sid @ '')'' in
     nbind (create_random_directory os parent directory_sddl) (\<lambda>directory.
     nbind (nlift (private_child_path directory TOKEN_LEAF)) (\<lambda>token_path.
     nbind (nlift (private_child_path directory CONTROL_LEAF)) (\<lambda>control_path.
     let session = \<lparr>px_directory = directory, px_token_path = token_path, px_control_path = control_path,
                    px_directory_sddl = directory_sddl, px_file_sddl = file_sddl\<rparr> in
     nbind (nattempt (verify_security os session)) (\<lambda>verified.
     case verified of
       Inl e \<Rightarrow> nbind (rollback_known_paths session) (\<lambda>_. nfail e)
     | Inr _ \<Rightarrow> nret session))))))"

definition write_token_file :: "session_oracle \<Rightarrow> private_session \<Rightarrow> string \<Rightarrow> unit session_run" where
  "write_token_file os s token =
     nbind (nlift (validate_token token)) (\<lambda>_.
       create_private_file os (px_token_path s) TOKEN_LEAF (token @ [CHR 0x0A]) (px_file_sddl s))"

definition create_control_file :: "session_oracle \<Rightarrow> private_session \<Rightarrow> unit session_run" where
  "create_control_file os s =
     create_private_file os (px_control_path s) CONTROL_LEAF [] (px_file_sddl s)"

definition remove_file_if_present :: "session_oracle \<Rightarrow> win_path \<Rightarrow> unit session_run" where
  "remove_file_if_present os p =
     nbind (nrun (OpRemoveFile p)) (\<lambda>_.
     nbind (nread (so_io os)) (\<lambda>r.
     if r = None \<or> r = Some FsNotFound then nret ()
     else nfail (LaunchFileSystem ''remove private-session file'')))"

definition session_cleanup :: "session_oracle \<Rightarrow> private_session \<Rightarrow> unit session_run" where
  "session_cleanup os s =
     nbind (remove_file_if_present os (px_token_path s)) (\<lambda>_.
     nbind (remove_file_if_present os (px_control_path s)) (\<lambda>_.
     nbind (nrun (OpRemoveDir (px_directory s))) (\<lambda>_.
     nbind (nread (so_io os)) (\<lambda>r.
     if r = None \<or> r = Some FsNotFound then nret ()
     else nfail (LaunchFileSystem ''remove private-session directory'')))))"

subsection \<open>Specifications\<close>

text \<open>The last call read the DACL of a path, and its text is that of the expected descriptor.\<close>

definition dacl_matches :: "session_oracle \<Rightarrow> session_op list \<Rightarrow> win_path \<Rightarrow> string \<Rightarrow> bool" where
  "dacl_matches os h p sddl \<longleftrightarrow>
     h \<noteq> [] \<and> last h = OpReadDacl p \<and> so_status os h = None
     \<and> (\<exists>t. so_dacl_text os h = Inr t \<and> so_descriptor_text os sddl = Inr t)"

text \<open>Every directory that the calls \<open>k\<close> created after \<open>h\<close> was asked to be removed later.\<close>

definition abandoned :: "session_oracle \<Rightarrow> session_op list \<Rightarrow> session_op list \<Rightarrow> bool" where
  "abandoned os h k \<longleftrightarrow>
     (\<forall>a d sddl b. k = a @ OpCreateDirectory d sddl # b
        \<longrightarrow> so_status os (h @ a @ [OpCreateDirectory d sddl]) = None \<longrightarrow> OpRemoveDir d \<in> set b)"

definition creates :: "session_op \<Rightarrow> bool" where
  "creates op = (case op of OpCreateDirectory _ _ \<Rightarrow> True | _ \<Rightarrow> False)"

definition writes :: "session_op \<Rightarrow> bool" where
  "writes op = (case op of OpCreateFile _ _ \<Rightarrow> True | OpWriteFile _ _ \<Rightarrow> True | _ \<Rightarrow> False)"

definition removes :: "session_op \<Rightarrow> bool" where
  "removes op = (case op of OpRemoveFile _ \<Rightarrow> True | OpRemoveDir _ \<Rightarrow> True | _ \<Rightarrow> False)"

lemmas op_kinds = creates_def writes_def removes_def

text \<open>The calls \<open>k\<close> after \<open>h\<close> asked the system for the user of the process token, all succeeded, and \<open>sid\<close> is
  the text answered for exactly the SID the token's user structure pointed to.\<close>

definition account_sid_answered :: "session_oracle \<Rightarrow> session_op list \<Rightarrow> session_op list \<Rightarrow> string \<Rightarrow> bool" where
  "account_sid_answered os h k sid \<longleftrightarrow>
     (\<exists>required user_sid.
        k = [OpOpenProcessToken, OpTokenSize, OpTokenUser required, OpSidString user_sid]
        \<and> so_status os (h @ [OpOpenProcessToken]) = None
        \<and> so_status os (h @ [OpOpenProcessToken, OpTokenSize, OpTokenUser required]) = None
        \<and> so_user_sid os (h @ [OpOpenProcessToken, OpTokenSize, OpTokenUser required]) = Some user_sid
        \<and> so_status os (h @ k) = None \<and> so_sid_string os (h @ k) = Inr sid)"

text \<open>The last call of \<open>h\<close> filled the random buffer, and \<open>d\<close> is named by what it was filled with.\<close>

definition freshly_named :: "session_oracle \<Rightarrow> session_op list \<Rightarrow> win_path \<Rightarrow> win_path \<Rightarrow> bool" where
  "freshly_named os h parent d \<longleftrightarrow>
     (\<exists>f. so_random os h = Some f
        \<and> d = win_join parent (wide_of (''rpackit-session-'' @ hex_encode (map f [0..<16]))))"

text \<open>The calls of the attempts whose names already existed.\<close>

definition collisions :: "win_path list \<Rightarrow> string \<Rightarrow> session_op list" where
  "collisions ds sddl = concat (map (\<lambda>d. [OpFillRandom, OpCreateDirectory d sddl]) ds)"

definition protected_sddl :: "string \<Rightarrow> string \<Rightarrow> string" where
  "protected_sddl inheritance sid =
     ''D:P(A;'' @ inheritance @ '';FA;;;SY)(A;'' @ inheritance @ '';FA;;;'' @ sid @ '')''"

section \<open>Lemmas\<close>

lemmas session_defs = run_defs scall_def

lemma abandoned_Nil [simp]: "abandoned os h []"
  by (simp add: abandoned_def)

lemma abandoned_none: "list_all (\<lambda>op. \<not> creates op) k \<Longrightarrow> abandoned os h k"
  by (auto simp: abandoned_def creates_def)

lemma abandoned_append:
  assumes "abandoned os h j" and "abandoned os (h @ j) k"
  shows "abandoned os h (j @ k)"
  unfolding abandoned_def
proof (intro allI impI)
  fix a d sddl b
  assume split: "j @ k = a @ OpCreateDirectory d sddl # b"
    and ok: "so_status os (h @ a @ [OpCreateDirectory d sddl]) = None"
  from split consider
    (first) c where "j = a @ OpCreateDirectory d sddl # c" "b = c @ k"
  | (second) c where "a = j @ c" "k = c @ OpCreateDirectory d sddl # b"
    by (auto simp: append_eq_append_conv2 append_eq_Cons_conv)
  then show "OpRemoveDir d \<in> set b"
    using assms ok by cases (auto simp: abandoned_def)
qed

lemma abandoned_created:
  assumes "OpRemoveDir d \<in> set k" and "list_all (\<lambda>op. \<not> creates op) k"
  shows "abandoned os h (OpCreateDirectory d sddl # k)"
  using assms by (auto simp: abandoned_def creates_def list_all_iff Cons_eq_append_conv)

lemma verify_exact_dacl_cases:
  assumes "verify_exact_dacl os p sddl h = (h1, r)"
  obtains (unread) e where "h1 = h" "r = Inl e"
  | (refused) e where "h1 = h @ [OpReadDacl p]" "r = Inl e"
  | (matching) "h1 = h @ [OpReadDacl p]" "r = Inr ()" "dacl_matches os h1 p sddl"
  using assms
  by (cases "descriptor_from_sddl os sddl"; cases "so_descriptor_text os sddl"; cases "nul_terminated_path p")
    (auto simp: verify_exact_dacl_def session_defs dacl_matches_def split: sum.splits option.splits if_splits)

text \<open>What the attempts to create a directory leave behind.\<close>

lemma directory_attempts_cases:
  assumes "directory_attempts os parent sddl n h = (h1, r)"
  obtains (created) ds d where "r = Inr d" "length ds < n"
      "h1 = h @ collisions ds sddl @ [OpFillRandom, OpCreateDirectory d sddl, OpReadDacl d]"
      "so_status os (h @ collisions ds sddl @ [OpFillRandom, OpCreateDirectory d sddl]) = None"
      "dacl_matches os h1 d sddl" "freshly_named os (h @ collisions ds sddl @ [OpFillRandom]) parent d"
      "abandoned os h (collisions ds sddl)"
  | (failed) k e where "r = Inl e" "h1 = h @ k" "abandoned os h k" "list_all (\<lambda>op. \<not> writes op) k"
  using assms
proof (induction n arbitrary: h thesis)
  case 0
  then show ?case by (auto simp: session_defs)
next
  case (Suc n)
  let ?h1 = "h @ [OpFillRandom]"
  show ?case
  proof (cases "so_random os ?h1")
    case None
    then have "h1 = h @ [OpFillRandom]" "r = Inl RandomGenerationFailed"
      using Suc.prems(3) by (auto simp: session_defs ok_or_def)
    then show ?thesis
      by (intro Suc.prems(2)) (auto simp: op_kinds intro: abandoned_none)
  next
    case (Some f)
    define d where "d = win_join parent (wide_of (SESSION_PREFIX @ hex_encode (random_buffer f)))"
    have named: "freshly_named os ?h1 parent d"
      using Some by (simp add: freshly_named_def d_def SESSION_PREFIX_def random_buffer_def SESSION_RANDOM_BYTES_def)
    let ?h2 = "h @ [OpFillRandom, OpCreateDirectory d sddl]"
    show ?thesis
    proof (cases "nul_terminated_path d")
      case (Inl e)
      then have "h1 = h @ [OpFillRandom]" "r = Inl e"
        using Suc.prems(3) Some by (auto simp: session_defs ok_or_def d_def Let_def)
      then show ?thesis
        by (intro Suc.prems(2)) (auto simp: op_kinds intro: abandoned_none)
    next
      case (Inr w)
      show ?thesis
      proof (cases "so_status os ?h2")
        case made: None
        obtain h2 v where v: "verify_exact_dacl os d sddl ?h2 = (h2, v)"
          by (cases "verify_exact_dacl os d sddl ?h2")
        have run: "(h1, r) = (case v of Inl e \<Rightarrow> (h2 @ [OpRemoveDir d], Inl e) | Inr _ \<Rightarrow> (h2, Inr d))"
          using Suc.prems(3) Some Inr made v by (cases v) (simp_all add: session_defs ok_or_def d_def Let_def)
        from v show ?thesis
        proof (cases rule: verify_exact_dacl_cases)
          case (unread e)
          with run show ?thesis
            by (intro Suc.prems(2) [of e "[OpFillRandom, OpCreateDirectory d sddl, OpRemoveDir d]"])
              (auto simp: op_kinds abandoned_def Cons_eq_append_conv)
        next
          case (refused e)
          with run show ?thesis
            by (intro Suc.prems(2) [of e "[OpFillRandom, OpCreateDirectory d sddl, OpReadDacl d, OpRemoveDir d]"])
              (auto simp: op_kinds abandoned_def Cons_eq_append_conv)
        next
          case matching
          with run made show ?thesis
            by (intro Suc.prems(1) [of d "[]"]) (auto simp: collisions_def named)
        qed
      next
        case (Some code)
        show ?thesis
        proof (cases "is_exists_error code")
          case True
          have run: "directory_attempts os parent sddl n ?h2 = (h1, r)"
            using Suc.prems(3) \<open>so_random os ?h1 = Some f\<close> Inr Some True
            by (simp add: session_defs ok_or_def d_def Let_def)
          have pre: "abandoned os h [OpFillRandom, OpCreateDirectory d sddl]"
            using Some by (auto simp: abandoned_def Cons_eq_append_conv)
          show ?thesis
          proof (rule Suc.IH [OF _ _ run])
            fix k e
            assume "r = Inl e" "h1 = ?h2 @ k" "abandoned os ?h2 k" "list_all (\<lambda>op. \<not> writes op) k"
            then show thesis
              using abandoned_append [OF pre]
              by (intro Suc.prems(2) [of e "[OpFillRandom, OpCreateDirectory d sddl] @ k"]) (auto simp: op_kinds)
          next
            fix ds d1
            assume "r = Inr d1" "length ds < n"
              "h1 = ?h2 @ collisions ds sddl @ [OpFillRandom, OpCreateDirectory d1 sddl, OpReadDacl d1]"
              "so_status os (?h2 @ collisions ds sddl @ [OpFillRandom, OpCreateDirectory d1 sddl]) = None"
              "dacl_matches os h1 d1 sddl" "freshly_named os (?h2 @ collisions ds sddl @ [OpFillRandom]) parent d1"
              "abandoned os ?h2 (collisions ds sddl)"
            then show thesis
              using abandoned_append [OF pre]
              by (intro Suc.prems(1) [of d1 "d # ds"]) (auto simp: collisions_def)
          qed
        next
          case False
          then have "h1 = ?h2" "r = Inl (WindowsApi ''CreateDirectoryW'' code)"
            using Suc.prems(3) \<open>so_random os ?h1 = Some f\<close> Inr Some
            by (auto simp: session_defs ok_or_def d_def Let_def)
          then show ?thesis
            using Some
            by (intro Suc.prems(2) [of _ "[OpFillRandom, OpCreateDirectory d sddl]"])
              (auto simp: op_kinds abandoned_def Cons_eq_append_conv)
        qed
      qed
    qed
  qed
qed

definition quiet_op :: "session_op \<Rightarrow> bool" where
  "quiet_op op \<longleftrightarrow> \<not> creates op \<and> \<not> writes op \<and> \<not> removes op"

lemma quiet_parts:
  "list_all quiet_op k \<Longrightarrow> list_all (\<lambda>op. \<not> creates op) k"
  "list_all quiet_op k \<Longrightarrow> list_all (\<lambda>op. \<not> writes op) k"
  "list_all quiet_op k \<Longrightarrow> list_all (\<lambda>op. \<not> writes op \<and> \<not> removes op) k"
  by (auto simp: quiet_op_def list_all_iff)

lemma current_account_sid_cases:
  assumes "current_account_sid os h = (h1, r)"
  shows "\<exists>k. h1 = h @ k \<and> list_all quiet_op k \<and> (\<forall>sid. r = Inr sid \<longrightarrow> account_sid_answered os h k sid)"
  using assms
  by (auto simp: current_account_sid_def account_sid_answered_def session_defs quiet_op_def op_kinds
      split: option.splits if_splits)

lemma collisions_quiet [simp]: "list_all (\<lambda>op. \<not> writes op \<and> \<not> removes op) (collisions ds sddl)"
  "list_all (\<lambda>op. \<not> writes op) (collisions ds sddl)"
  by (induction ds) (simp_all add: collisions_def op_kinds)

lemma verify_exact_dacl_quiet:
  assumes "verify_exact_dacl os p sddl h = (h1, r)"
  shows "\<exists>k. h1 = h @ k \<and> list_all quiet_op k"
  using assms by (cases rule: verify_exact_dacl_cases) (auto simp: quiet_op_def op_kinds)

text \<open>Computations that only look.\<close>

definition looking :: "'a session_run \<Rightarrow> bool" where
  "looking m \<longleftrightarrow> (\<forall>h. \<exists>k. fst (m h) = h @ k \<and> list_all quiet_op k)"

lemma looking_nbind:
  assumes "looking m" and "\<And>x. looking (f x)"
  shows "looking (nbind m f)"
  unfolding looking_def
proof
  fix h
  obtain k r where m: "m h = (h @ k, r)" "list_all quiet_op k"
    using assms(1) by (metis looking_def prod.collapse)
  show "\<exists>k. fst (nbind m f h) = h @ k \<and> list_all quiet_op k"
  proof (cases r)
    case (Inr x)
    obtain k1 where "fst (f x (h @ k)) = (h @ k) @ k1" "list_all quiet_op k1"
      using assms(2) by (metis looking_def)
    with m Inr show ?thesis by (auto simp: nbind_def)
  qed (use m in \<open>auto simp: nbind_def\<close>)
qed

lemma looking_verify_exact_dacl: "looking (verify_exact_dacl os p sddl)"
  using verify_exact_dacl_quiet by (metis looking_def prod.collapse)

lemma looking_path_exists: "looking (path_exists os p)"
  by (simp add: looking_def path_exists_def session_defs quiet_op_def op_kinds)

lemma looking_nret: "looking (nret x)"
  by (simp add: looking_def nret_def)

lemmas looking_intros = looking_nbind looking_verify_exact_dacl looking_path_exists looking_nret

lemma verify_security_cases:
  assumes "verify_security os s h = (h1, r)"
  shows "\<exists>k. h1 = h @ k \<and> list_all quiet_op k
    \<and> (r = Inr () \<longrightarrow> (\<exists>b. k = OpReadDacl (px_directory s) # b)
         \<and> dacl_matches os (h @ [OpReadDacl (px_directory s)]) (px_directory s) (px_directory_sddl s))"
proof -
  define rest where "rest =
    nbind (path_exists os (px_token_path s)) (\<lambda>token_exists.
    nbind (if token_exists then verify_exact_dacl os (px_token_path s) (px_file_sddl s) else nret ()) (\<lambda>_.
    nbind (path_exists os (px_control_path s)) (\<lambda>control_exists.
      if control_exists then verify_exact_dacl os (px_control_path s) (px_file_sddl s) else nret ())))"
  have rest: "looking rest"
    unfolding rest_def by (auto intro!: looking_intros)
  obtain h2 v where v: "verify_exact_dacl os (px_directory s) (px_directory_sddl s) h = (h2, v)"
    by (cases "verify_exact_dacl os (px_directory s) (px_directory_sddl s) h")
  have run: "(h1, r) = (case v of Inl e \<Rightarrow> (h2, Inl e) | Inr x \<Rightarrow> rest h2)"
    using assms v by (simp add: verify_security_def rest_def [symmetric] nbind_def)
  from v show ?thesis
  proof (cases rule: verify_exact_dacl_cases)
    case matching
    obtain k where "fst (rest h2) = h2 @ k" "list_all quiet_op k" using rest by (metis looking_def)
    with matching run show ?thesis
      by (intro exI [of _ "OpReadDacl (px_directory s) # k"]; cases "rest h2") (auto simp: quiet_op_def op_kinds)
  qed (use run in \<open>auto simp: quiet_op_def op_kinds\<close>)
qed

lemma known_leaves:
  "private_child_path d TOKEN_LEAF = Inr (win_join d (wide_of TOKEN_LEAF))"
  "private_child_path d CONTROL_LEAF = Inr (win_join d (wide_of CONTROL_LEAF))"
  by (simp_all add: private_child_path_def TOKEN_LEAF_def CONTROL_LEAF_def)

lemma create_private_file_cases:
  assumes "create_private_file os p label contents sddl h = (h1, r)"
  obtains (refused) e where "h1 = h" "r = Inl e"
  | (exists) e code where "h1 = h @ [OpCreateFile p sddl]" "so_status os h1 = Some code" "r = Inl e"
  | (removed) e k where "h1 = h @ [OpCreateFile p sddl, OpWriteFile p contents] @ k @ [OpRemoveFile p]"
      "k = [] \<or> k = [OpReadDacl p]" "r = Inl e"
  | (created) "h1 = h @ [OpCreateFile p sddl, OpWriteFile p contents, OpReadDacl p]" "r = Inr ()"
      "so_status os (h @ [OpCreateFile p sddl]) = None"
      "so_io os (h @ [OpCreateFile p sddl, OpWriteFile p contents]) = None" "dacl_matches os h1 p sddl"
proof -
  let ?c = "h @ [OpCreateFile p sddl]" and ?w = "h @ [OpCreateFile p sddl, OpWriteFile p contents]"
  note defs = create_private_file_def session_defs
  show ?thesis
  proof (cases "descriptor_from_sddl os sddl"; cases "nul_terminated_path p")
    fix u w assume d: "descriptor_from_sddl os sddl = Inr u" "nul_terminated_path p = Inr w"
    show ?thesis
    proof (cases "so_status os ?c")
      case (Some code)
      with assms d show ?thesis by (auto simp: defs intro: exists split: if_splits)
    next
      case made: None
      show ?thesis
      proof (cases "so_io os ?w")
        case (Some e)
        with assms d made show ?thesis by (intro removed [of "[]"]) (auto simp: defs)
      next
        case None
        obtain h2 v where v: "verify_exact_dacl os p sddl ?w = (h2, v)" by (cases "verify_exact_dacl os p sddl ?w")
        have run: "(h1, r) = (case v of Inl e \<Rightarrow> (h2 @ [OpRemoveFile p], Inl e) | Inr _ \<Rightarrow> (h2, Inr ()))"
          unfolding assms [symmetric] by (cases v) (simp_all add: defs d made None v)
        from v show ?thesis
        proof (cases rule: verify_exact_dacl_cases)
          case (unread e)
          with run show ?thesis by (intro removed [of "[]"]) auto
        next
          case (refused e)
          with run show ?thesis by (intro removed [of "[OpReadDacl p]"]) auto
        next
          case matching
          with run made None show ?thesis by (intro created) auto
        qed
      qed
    qed
  qed (use assms [symmetric] in \<open>auto simp: defs intro: refused\<close>)
qed

text \<open>The session that belongs to a directory, and the end of \<open>create\<close>.\<close>

definition session_of :: "string \<Rightarrow> win_path \<Rightarrow> private_session" where
  "session_of sid d =
     \<lparr>px_directory = d, px_token_path = win_join d (wide_of TOKEN_LEAF),
      px_control_path = win_join d (wide_of CONTROL_LEAF),
      px_directory_sddl = protected_sddl ''OICI'' sid, px_file_sddl = protected_sddl [] sid\<rparr>"

definition verified_session :: "session_oracle \<Rightarrow> private_session \<Rightarrow> private_session session_run" where
  "verified_session os s =
     nbind (nattempt (verify_security os s)) (\<lambda>v.
       case v of Inl e \<Rightarrow> nbind (rollback_known_paths s) (\<lambda>_. nfail e) | Inr _ \<Rightarrow> nret s)"

lemma session_create_run:
  "session_create os parent =
     nbind (nlift (validate_parent os parent)) (\<lambda>_.
     nbind (current_account_sid os) (\<lambda>sid.
     nbind (create_random_directory os parent (protected_sddl ''OICI'' sid)) (\<lambda>d.
       verified_session os (session_of sid d))))"
  by (simp add: session_create_def known_leaves Let_def protected_sddl_def verified_session_def session_of_def)

lemma verified_session_cases:
  assumes "verified_session os (session_of sid d) h = (h1, r)"
  obtains (verified) k where "h1 = h @ OpReadDacl d # k" "list_all quiet_op k" "r = Inr (session_of sid d)"
  | (rolled_back) k e where "h1 = h @ k" "r = Inl e" "OpRemoveDir d \<in> set k"
      "list_all (\<lambda>op. \<not> creates op) k" "list_all (\<lambda>op. \<not> writes op) k"
proof -
  let ?s = "session_of sid d"
  let ?rb = "[OpRemoveFile (px_token_path ?s), OpRemoveFile (px_control_path ?s), OpRemoveDir d]"
  obtain h2 v where v: "verify_security os ?s h = (h2, v)" by (cases "verify_security os ?s h")
  then obtain k where k: "h2 = h @ k" "list_all quiet_op k" "v = Inr () \<longrightarrow> (\<exists>b. k = OpReadDacl d # b)"
    using verify_security_cases [OF v] by (auto simp: session_of_def)
  show ?thesis
  proof (cases v)
    case (Inr x)
    then obtain b where "k = OpReadDacl d # b" using k(3) by auto
    with Inr v k assms show ?thesis
      by (intro verified [of b]) (auto simp: session_defs verified_session_def)
  next
    case (Inl e)
    then have "h1 = h @ (k @ ?rb)" "r = Inl e"
      using assms v k(1) by (auto simp: session_defs rollback_known_paths_def session_of_def verified_session_def)
    then show ?thesis
      using quiet_parts [OF k(2)] by (intro rolled_back [of "k @ ?rb" e]) (auto simp: op_kinds)
  qed
qed

text \<open>The end of \<open>create\<close> for an account: a verified session in a new directory, or an error and no directory that
  is not asked to be removed.\<close>

lemma directory_session_cases:
  assumes "nbind (create_random_directory os parent (protected_sddl ''OICI'' sid))
      (\<lambda>d. verified_session os (session_of sid d)) h = (h1, r)"
  obtains (created) ds d k where "r = Inr (session_of sid d)" "length ds < 8"
      "h1 = h @ collisions ds (protected_sddl ''OICI'' sid)
         @ [OpFillRandom, OpCreateDirectory d (protected_sddl ''OICI'' sid), OpReadDacl d] @ k"
      "so_status os (h @ collisions ds (protected_sddl ''OICI'' sid)
         @ [OpFillRandom, OpCreateDirectory d (protected_sddl ''OICI'' sid)]) = None"
      "dacl_matches os (h @ collisions ds (protected_sddl ''OICI'' sid)
         @ [OpFillRandom, OpCreateDirectory d (protected_sddl ''OICI'' sid), OpReadDacl d]) d (protected_sddl ''OICI'' sid)"
      "freshly_named os (h @ collisions ds (protected_sddl ''OICI'' sid) @ [OpFillRandom]) parent d" "list_all quiet_op k"
  | (failed) k e where "r = Inl e" "h1 = h @ k" "abandoned os h k" "list_all (\<lambda>op. \<not> writes op) k"
proof -
  let ?sddl = "protected_sddl ''OICI'' sid"
  show thesis
  proof (cases "descriptor_from_sddl os ?sddl")
    case (Inl e)
    then have "h1 = h" "r = Inl e" using assms by (auto simp: create_random_directory_def session_defs)
    then show thesis by (intro failed [of e "[]"]) simp_all
  next
    case (Inr u)
    obtain h2 dr where attempts: "directory_attempts os parent ?sddl SESSION_CREATE_ATTEMPTS h = (h2, dr)"
      by (cases "directory_attempts os parent ?sddl SESSION_CREATE_ATTEMPTS h")
    then have dir: "create_random_directory os parent ?sddl h = (h2, dr)"
      using Inr by (simp add: create_random_directory_def nbind_def nlift_def)
    from attempts show thesis
    proof (cases rule: directory_attempts_cases)
      case (failed k e)
      then show thesis using assms dir by (intro that(2) [of e k]) (auto simp: nbind_def)
    next
      case (created ds d)
      have "verified_session os (session_of sid d) h2 = (h1, r)" using assms dir created(1) by (simp add: nbind_def)
      then show thesis
      proof (cases rule: verified_session_cases)
        case (verified k)
        then show thesis using created
          by (intro that(1) [of d ds "OpReadDacl d # k"]) (auto simp: SESSION_CREATE_ATTEMPTS_def quiet_op_def op_kinds)
      next
        case (rolled_back k e)
        let ?k = "(collisions ds ?sddl @ [OpFillRandom]) @ (OpCreateDirectory d ?sddl # OpReadDacl d # k)"
        have "abandoned os h (collisions ds ?sddl @ [OpFillRandom])"
          using created(7) by (rule abandoned_append) (auto intro: abandoned_none simp: op_kinds)
        then have "abandoned os h ?k"
          by (rule abandoned_append) (use rolled_back(3,4) in \<open>auto intro!: abandoned_created simp: op_kinds\<close>)
        moreover have "h1 = h @ ?k" "list_all (\<lambda>op. \<not> writes op) ?k"
          using created(3) rolled_back(1,5) collisions_quiet(2) by (auto simp: op_kinds)
        ultimately show thesis using rolled_back(2) by (intro that(2) [of e ?k]) simp_all
      qed
    qed
  qed
qed

section \<open>Properties\<close>

text \<open>C36: Creating a private session fails closed.  On success the account is the one the system
  answered: the text of exactly the SID that the process token's user structure pointed to.  The
  directory is a new one below the given absolute parent, named by the prefix and the hexadecimal
  form of the sixteen random bytes drawn just before it was created, after fewer than eight names that
  were taken; it was created by this call with a protected descriptor that grants full control to
  SYSTEM and that account and to nobody else, and its DACL was read back equal to it right afterwards.
  The token and control paths are its direct children and nothing was written or removed.  On any
  failure, every directory the call had created was asked to be removed, and no file was written.\<close>

theorem session_create_fails_closed:
  assumes "session_create os parent h0 = (h, r)"
  shows "case r of
    Inr s \<Rightarrow> (\<exists>sid account ds k.
      win_is_absolute parent \<and> so_is_dir os parent \<and> CurDir \<notin> set parent \<and> ParentDir \<notin> set parent
      \<and> account_sid_answered os h0 account sid
      \<and> px_directory_sddl s = ''D:P(A;OICI;FA;;;SY)(A;OICI;FA;;;'' @ sid @ '')''
      \<and> px_file_sddl s = ''D:P(A;;FA;;;SY)(A;;FA;;;'' @ sid @ '')''
      \<and> freshly_named os (h0 @ account @ collisions ds (px_directory_sddl s) @ [OpFillRandom]) parent (px_directory s)
      \<and> length ds < 8
      \<and> px_token_path s = win_join (px_directory s) (wide_of TOKEN_LEAF)
      \<and> px_control_path s = win_join (px_directory s) (wide_of CONTROL_LEAF)
      \<and> h = h0 @ account @ collisions ds (px_directory_sddl s)
           @ [OpFillRandom, OpCreateDirectory (px_directory s) (px_directory_sddl s), OpReadDacl (px_directory s)] @ k
      \<and> so_status os (h0 @ account @ collisions ds (px_directory_sddl s)
           @ [OpFillRandom, OpCreateDirectory (px_directory s) (px_directory_sddl s)]) = None
      \<and> dacl_matches os (h0 @ account @ collisions ds (px_directory_sddl s)
           @ [OpFillRandom, OpCreateDirectory (px_directory s) (px_directory_sddl s), OpReadDacl (px_directory s)])
           (px_directory s) (px_directory_sddl s)
      \<and> list_all (\<lambda>op. \<not> creates op \<and> \<not> writes op \<and> \<not> removes op) k)
  | Inl e \<Rightarrow> (\<exists>k. h = h0 @ k \<and> abandoned os h0 k \<and> list_all (\<lambda>op. \<not> writes op) k)"
proof (cases "validate_parent os parent")
  case (Inl e)
  then have "h = h0" "r = Inl e" using assms by (auto simp: session_create_run session_defs)
  then show ?thesis by simp
next
  case (Inr u)
  then have parent: "win_is_absolute parent" "so_is_dir os parent" "CurDir \<notin> set parent" "ParentDir \<notin> set parent"
    by (auto simp: validate_parent_def Let_def list_all_iff split: if_splits)
  obtain h1 q where sid: "current_account_sid os h0 = (h1, q)" by (cases "current_account_sid os h0")
  obtain k0 where k0: "h1 = h0 @ k0" "list_all quiet_op k0"
      "\<forall>sid. q = Inr sid \<longrightarrow> account_sid_answered os h0 k0 sid"
    using current_account_sid_cases [OF sid] by blast
  show ?thesis
  proof (cases q)
    case (Inl e)
    then have "h = h1" "r = Inl e" using assms Inr sid by (auto simp: session_create_run session_defs)
    then show ?thesis using k0 by (auto intro: abandoned_none quiet_parts)
  next
    case account: (Inr account_sid)
    have "nbind (create_random_directory os parent (protected_sddl ''OICI'' account_sid))
        (\<lambda>d. verified_session os (session_of account_sid d)) h1 = (h, r)"
      using assms sid account \<open>validate_parent os parent = Inr u\<close>
      by (simp add: session_create_run nbind_def [of "current_account_sid os"])
    then show ?thesis
    proof (cases rule: directory_session_cases)
      case (created ds d k)
      show ?thesis
        unfolding created(1) sum.case
        by (rule exI [of _ account_sid], rule exI [of _ k0], rule exI [of _ ds], rule exI [of _ k])
          (use created(2-7) k0 account parent in \<open>auto simp: session_of_def protected_sddl_def quiet_op_def list_all_iff\<close>)
    next
      case (failed k e)
      moreover have "abandoned os h0 (k0 @ k)"
        using failed k0 by (intro abandoned_append [OF abandoned_none [OF quiet_parts(1)]]) auto
      ultimately show ?thesis
        using k0 quiet_parts(2) by (auto intro!: exI [of _ "k0 @ k"])
    qed
  qed
qed

text \<open>The session's files are protected and its cleanup touches nothing else.  A token file is
  written only for a token of 16 to 256 URL-safe characters, into a file created by this call with
  the private descriptor, holds the token and one line feed, and had its DACL read back equal; when
  a file was created but not confirmed, it was asked to be removed.  Cleanup asks for the removal of
  the token, the control file and the directory, in this order and of nothing else, stops at the
  first failure, and succeeds exactly when each of the three was removed or was absent.\<close>

lemma session_files_protected:
  assumes "write_token_file os s token h0 = (h, r)" and "session_cleanup os s h0 = (h1, r1)"
    and "known = [OpRemoveFile (px_token_path s), OpRemoveFile (px_control_path s), OpRemoveDir (px_directory s)]"
  shows "(case r of
      Inr _ \<Rightarrow> 16 \<le> length token \<and> length token \<le> 256
        \<and> list_all (\<lambda>b. is_ascii_alphanumeric b \<or> b \<in> set ''._~-'') token
        \<and> h = h0 @ [OpCreateFile (px_token_path s) (px_file_sddl s),
                   OpWriteFile (px_token_path s) (token @ [CHR 0x0A]), OpReadDacl (px_token_path s)]
        \<and> so_status os (h0 @ [OpCreateFile (px_token_path s) (px_file_sddl s)]) = None
        \<and> dacl_matches os h (px_token_path s) (px_file_sddl s)
    | Inl _ \<Rightarrow> h = h0 \<or> h = h0 @ [OpCreateFile (px_token_path s) (px_file_sddl s)] \<and> so_status os h \<noteq> None
        \<or> last h = OpRemoveFile (px_token_path s))
    \<and> (\<exists>n \<le> 3. h1 = h0 @ take n known
        \<and> (\<forall>i. Suc i < n \<longrightarrow> so_io os (h0 @ take (Suc i) known) \<in> {None, Some FsNotFound})
        \<and> (r1 = Inr () \<longleftrightarrow> n = 3 \<and> so_io os h1 \<in> {None, Some FsNotFound}))"
proof (rule conjI)
  show "case r of
      Inr _ \<Rightarrow> 16 \<le> length token \<and> length token \<le> 256
        \<and> list_all (\<lambda>b. is_ascii_alphanumeric b \<or> b \<in> set ''._~-'') token
        \<and> h = h0 @ [OpCreateFile (px_token_path s) (px_file_sddl s),
                   OpWriteFile (px_token_path s) (token @ [CHR 0x0A]), OpReadDacl (px_token_path s)]
        \<and> so_status os (h0 @ [OpCreateFile (px_token_path s) (px_file_sddl s)]) = None
        \<and> dacl_matches os h (px_token_path s) (px_file_sddl s)
    | Inl _ \<Rightarrow> h = h0 \<or> h = h0 @ [OpCreateFile (px_token_path s) (px_file_sddl s)] \<and> so_status os h \<noteq> None
        \<or> last h = OpRemoveFile (px_token_path s)"
  proof (cases "validate_token token")
    case (Inl e)
    then have "h = h0" "r = Inl e" using assms(1) by (auto simp: write_token_file_def session_defs)
    then show ?thesis by simp
  next
    case (Inr u)
    then have "create_private_file os (px_token_path s) TOKEN_LEAF (token @ [CHR 0x0A]) (px_file_sddl s) h0 = (h, r)"
      using assms(1) by (simp add: write_token_file_def)
    then show ?thesis
    proof (cases rule: create_private_file_cases)
      case created
      with Inr show ?thesis
        by (auto simp: validate_token_def Let_def TOKEN_MIN_BYTES_def TOKEN_MAX_BYTES_def split: if_splits)
    qed auto
  qed
next
  let ?ok = "\<lambda>k. so_io os (h0 @ k) \<in> {None, Some FsNotFound}"
  have ok: "r = None \<or> r = Some FsNotFound \<longleftrightarrow> r \<in> {None, Some FsNotFound}" for r by auto
  show "\<exists>n \<le> 3. h1 = h0 @ take n known \<and> (\<forall>i. Suc i < n \<longrightarrow> ?ok (take (Suc i) known))
      \<and> (r1 = Inr () \<longleftrightarrow> n = 3 \<and> so_io os h1 \<in> {None, Some FsNotFound})"
  proof (cases "?ok (take 1 known)")
    case False
    then have "h1 = h0 @ take 1 known" "r1 \<noteq> Inr ()"
      using assms(2,3) by (auto simp: session_cleanup_def remove_file_if_present_def session_defs)
    then show ?thesis by (intro exI [of _ 1]) simp
  next
    case one: True
    show ?thesis
    proof (cases "?ok (take 2 known)")
      case False
      then have "h1 = h0 @ take 2 known" "r1 \<noteq> Inr ()"
        using one assms(2,3) by (auto simp: session_cleanup_def remove_file_if_present_def session_defs)
      then show ?thesis using one by (intro exI [of _ 2]) (auto simp: less_2_cases_iff)
    next
      case two: True
      then have "h1 = h0 @ take 3 known \<and> (r1 = Inr () \<longleftrightarrow> ?ok (take 3 known))"
        using one assms(2,3) by (auto simp: session_cleanup_def remove_file_if_present_def session_defs split: if_splits)
      moreover have "?ok (take (Suc i) known)" if "Suc i < 3" for i
      proof -
        from that have "Suc i = 1 \<or> Suc i = 2" by linarith
        then show ?thesis using one two by metis
      qed
      ultimately show ?thesis by (intro exI [of _ 3]) simp
    qed
  qed
qed

section \<open>Witnesses\<close>

text \<open>A file system on which every call succeeds and every descriptor reads back as it was given.\<close>

definition example_session_oracle :: session_oracle where
  "example_session_oracle =
     \<lparr>so_status = (\<lambda>h. None), so_io = (\<lambda>h. None), so_exists = (\<lambda>h. Inr False), so_required_bytes = (\<lambda>h. 44),
      so_returned_bytes = (\<lambda>h. 44), so_user_sid = (\<lambda>h. Some [CHR 0x01]), so_sid_string = (\<lambda>h. Inr ''S-1-5-21''),
      so_random = (\<lambda>h. Some (\<lambda>i. CHR 0x2A)), so_dacl_text = (\<lambda>h. Inr ''D:P''), so_from_sddl = (\<lambda>s. None),
      so_descriptor_invalid = (\<lambda>s. False), so_descriptor_text = (\<lambda>s. Inr ''D:P''), so_is_dir = (\<lambda>p. True)\<rparr>"

definition example_parent :: win_path where
  "example_parent = [Prefix (Disk 0x43), RootDir, Normal (wide_of ''Temp'')]"

definition example_session :: private_session where
  "example_session = session_of ''S-1-5-21''
     (win_join example_parent (wide_of (SESSION_PREFIX @ hex_encode (replicate 16 CHR 0x2A))))"

lemma example_session_created:
  "snd (session_create example_session_oracle example_parent []) = Inr example_session"
  by code_simp

lemma session_create_fails_closed_witness:
  "\<exists>k sid. account_sid_answered example_session_oracle [] k sid
     \<and> px_directory_sddl example_session = ''D:P(A;OICI;FA;;;SY)(A;OICI;FA;;;'' @ sid @ '')''"
proof -
  define h where "h = fst (session_create example_session_oracle example_parent [])"
  have "session_create example_session_oracle example_parent [] = (h, Inr example_session)"
    using example_session_created by (simp add: h_def prod_eq_iff)
  from session_create_fails_closed [OF this] show ?thesis unfolding sum.case by blast
qed

lemma session_files_protected_witness:
  "\<exists>h. write_token_file example_session_oracle example_session (replicate 20 CHR ''a'') [] = (h, Inr ())
     \<and> dacl_matches example_session_oracle h (px_token_path example_session) (px_file_sddl example_session)"
proof -
  have ok: "snd (write_token_file example_session_oracle example_session (replicate 20 CHR ''a'') []) = Inr ()"
    by code_simp
  define h where "h = fst (write_token_file example_session_oracle example_session (replicate 20 CHR ''a'') [])"
  have run: "write_token_file example_session_oracle example_session (replicate 20 CHR ''a'') [] = (h, Inr ())"
    using ok by (simp add: h_def prod_eq_iff)
  obtain h1 r1 where "session_cleanup example_session_oracle example_session [] = (h1, r1)"
    by (cases "session_cleanup example_session_oracle example_session []")
  from session_files_protected [OF run this refl, unfolded sum.case]
  have "dacl_matches example_session_oracle h (px_token_path example_session) (px_file_sddl example_session)"
    by blast
  with run show ?thesis by blast
qed

end
