(* ===== verification/Job_Listener.thy ===== *)
theory Job_Listener
  imports Windows_Launcher
begin

text \<open>
  \<open>crates/windows-launcher/src/lib.rs\<close> once the launcher runs: capturing a reported process as a Job
  member, reading Windows' owner-PID listener tables, verifying the one loopback listener of a
  member, and the bounded waits.  The answers of Windows are arguments, indexed by the observation
  when the code asks twice; \<open>MIB_TCPROW_OWNER_PID\<close> and \<open>MIB_TCP6ROW_OWNER_PID\<close> are laid out by
  the Windows headers, so the size, offset and field reader of a row are the argument
  \<open>row_layout\<close>.  Numbers of type \<open>u32\<close> are 32-bit words and native byte order is little-endian, as on
  every Windows target.
\<close>

section \<open>Definitions\<close>

subsection \<open>Processes\<close>

definition WAIT_TIMEOUT :: nat where "WAIT_TIMEOUT = 0x102"
definition WAIT_OBJECT_0 :: nat where "WAIT_OBJECT_0 = 0"

text \<open>The answers about one process handle: the result of the \<open>i\<close>-th zero-duration wait, the \<open>i\<close>-th
  Job membership query, the identity query, the exit code.\<close>

record process_oracle =
  po_wait :: "nat \<Rightarrow> nat"
  po_in_job :: "nat \<Rightarrow> launch_error + bool"
  po_creation_time :: "launch_error + 32 word \<times> 32 word"
  po_timed_wait :: "nat \<Rightarrow> nat"
  po_exit_code :: "launch_error + nat"

definition process_is_alive :: "process_oracle \<Rightarrow> nat \<Rightarrow> launch_error + bool" where
  "process_is_alive p i =
     (if po_wait p i = WAIT_TIMEOUT then Inr True
      else if po_wait p i = WAIT_OBJECT_0 then Inr False
      else Inl (UnexpectedWaitResult (po_wait p i)))"

definition identity_of :: "process_oracle \<Rightarrow> nat \<Rightarrow> launch_error + process_identity" where
  "identity_of p pid =
     rbind (po_creation_time p) (\<lambda>(high, low).
       Inr \<lparr>pi_pid = pid, pi_creation_time_100ns = or (push_bit 32 (ucast high)) (ucast low)\<rparr>)"

record job_member =
  jm_process :: process_oracle
  jm_identity :: process_identity

definition capture_job_member ::
  "(nat \<Rightarrow> launch_error + process_oracle) \<Rightarrow> nat \<Rightarrow> launch_error + job_member" where
  "capture_job_member open_process pid =
     (if pid = 0 then Inl InvalidProcessId
      else
        rbind (open_process pid) (\<lambda>p.
        rbind (process_is_alive p 0) (\<lambda>alive.
        if \<not> alive then Inl ProcessAlreadyExited
        else
          rbind (identity_of p pid) (\<lambda>identity.
          rbind (po_in_job p 0) (\<lambda>member.
          if \<not> member then Inl ProcessOutsideJob
          else
            rbind (process_is_alive p 1) (\<lambda>alive.
            if \<not> alive then Inl ProcessAlreadyExited
            else Inr \<lparr>jm_process = p, jm_identity = identity\<rparr>))))))"

text \<open>Durations are nanoseconds.\<close>

definition duration_milliseconds :: "nat \<Rightarrow> nat" where
  "duration_milliseconds d =
     (case try_from u32_max (d div 1000000) of None \<Rightarrow> u32_max - 1 | Some ms \<Rightarrow> ms)"

definition wait_for_process :: "process_oracle \<Rightarrow> nat \<Rightarrow> launch_error + nat option" where
  "wait_for_process p timeout =
     (let result = po_timed_wait p (duration_milliseconds timeout) in
      if result = WAIT_TIMEOUT then Inr None
      else if result \<noteq> WAIT_OBJECT_0 then Inl (UnexpectedWaitResult result)
      else rbind (po_exit_code p) (\<lambda>code. Inr (Some code)))"

text \<open>
  \<open>wait_for_empty\<close>: in the \<open>i\<close>-th turn \<open>accounting i\<close> is the accounting answer and \<open>now i\<close> the clock; the
  turn ends with a sleep of the remaining time, at most ten milliseconds.  Nothing bounds the turns
  if the clock stands still, so the loop is partial.
\<close>

definition sleep_nanos :: "nat \<Rightarrow> nat \<Rightarrow> nat" where
  "sleep_nanos deadline now = min (deadline - now) 10000000"

partial_function (option) empty_loop ::
  "(nat \<Rightarrow> launch_error + nat) \<Rightarrow> (nat \<Rightarrow> nat) \<Rightarrow> nat option \<Rightarrow> nat \<Rightarrow> (launch_error + bool) option" where
  "empty_loop accounting now deadline i =
     (case accounting i of
        Inl e \<Rightarrow> Some (Inl e)
      | Inr active \<Rightarrow>
          if active = 0 then Some (Inr True)
          else
            (case deadline of
               None \<Rightarrow> Some (Inr False)
             | Some d \<Rightarrow> if d \<le> now i then Some (Inr False) else empty_loop accounting now deadline (Suc i)))"

definition wait_for_empty ::
  "(nat \<Rightarrow> launch_error + nat) \<Rightarrow> (nat \<Rightarrow> nat) \<Rightarrow> nat \<Rightarrow> nat \<Rightarrow> nat \<Rightarrow> (launch_error + bool) option" where
  "wait_for_empty accounting now instant_max start timeout =
     empty_loop accounting now (checked_add instant_max start timeout) 0"

subsection \<open>Listener tables\<close>

type_synonym octets = "8 word list"

definition le_bytes32 :: "32 word \<Rightarrow> octets" where
  "le_bytes32 v = [ucast v, ucast (drop_bit 8 v), ucast (drop_bit 16 v), ucast (drop_bit 24 v)]"

definition network_port :: "32 word \<Rightarrow> 16 word" where
  "network_port v =
     (let bs = le_bytes32 v in or (push_bit 8 (ucast (bs ! 0))) (ucast (bs ! 1)))"

definition LOCALHOST_OCTETS :: octets where
  "LOCALHOST_OCTETS = [127, 0, 0, 1]"

definition MIB_TCP_STATE_LISTEN :: "32 word" where
  "MIB_TCP_STATE_LISTEN = 2"

record tcp_row =
  tr_local_addr :: "32 word"
  tr_local_port :: "32 word"
  tr_state :: "32 word"
  tr_owning_pid :: "32 word"

record tcp6_row =
  t6_local_port :: "32 word"

record 'r row_layout =
  rl_size :: nat
  rl_offset :: nat
  rl_read :: "octets \<Rightarrow> 'r"

definition le_nat :: "octets \<Rightarrow> nat" where
  "le_nat bs = foldr (\<lambda>b acc. unat b + 256 * acc) bs 0"

definition read_table_rows :: "'r row_layout \<Rightarrow> octets \<Rightarrow> launch_error + 'r list" where
  "read_table_rows layout storage =
     (let available = length storage in
      if available < 4 \<or> rl_size layout = 0 \<or> available < rl_offset layout then Inl MalformedTcpTable
      else
        let row_count = le_nat (take 4 storage) in
        rbind (ok_or (checked_mul usize_max row_count (rl_size layout)) MalformedTcpTable) (\<lambda>rows_bytes.
        rbind (ok_or (checked_add usize_max (rl_offset layout) rows_bytes) MalformedTcpTable) (\<lambda>end_offset.
        if available < end_offset then Inl MalformedTcpTable
        else
          Inr (map (\<lambda>index. rl_read layout
                 (take (rl_size layout) (drop (rl_offset layout + index * rl_size layout) storage)))
               [0..<row_count]))))"

definition ERROR_INSUFFICIENT_BUFFER :: nat where "ERROR_INSUFFICIENT_BUFFER = 122"
definition NO_ERROR :: nat where "NO_ERROR = 0"

text \<open>\<open>GetExtendedTcpTable\<close>: the size query and the \<open>i\<close>-th query with a buffer of the given size, which
  answer a status, a size and the buffer.\<close>

record table_oracle =
  to_size_query :: "nat \<times> nat"
  to_query :: "nat \<Rightarrow> nat \<Rightarrow> nat \<times> nat \<times> octets"

fun table_attempts :: "table_oracle \<Rightarrow> nat list \<Rightarrow> nat \<Rightarrow> launch_error + octets" where
  "table_attempts t [] required_bytes = Inl TcpTableChangedRepeatedly"
| "table_attempts t (attempt # attempts) required_bytes =
     (let requested = max required_bytes 4;
          size = div_ceil requested 8 * 8 in
      rbind (ok_or (try_from u32_max size) MalformedTcpTable) (\<lambda>supplied_bytes.
      case to_query t attempt supplied_bytes of
        (status, new_size, storage) \<Rightarrow>
          if status = NO_ERROR then Inr storage
          else if status \<noteq> ERROR_INSUFFICIENT_BUFFER then Inl (TcpTableQueryFailed status)
          else table_attempts t attempts new_size))"

definition tcp_listener_table :: "table_oracle \<Rightarrow> launch_error + octets" where
  "tcp_listener_table t =
     (case to_size_query t of
        (initial_status, required_bytes) \<Rightarrow>
          if initial_status \<noteq> ERROR_INSUFFICIENT_BUFFER \<and> initial_status \<noteq> NO_ERROR
          then Inl (TcpTableQueryFailed initial_status)
          else table_attempts t [0..<4] required_bytes)"

definition listener_rows :: "table_oracle \<Rightarrow> 'r row_layout \<Rightarrow> launch_error + 'r list" where
  "listener_rows t layout = rbind (tcp_listener_table t) (read_table_rows layout)"

subsection \<open>Listener verification\<close>

record listener_identity =
  ld_process :: process_identity
  ld_address :: octets
  ld_port :: "16 word"

fun count_ipv4 :: "16 word \<Rightarrow> nat \<Rightarrow> nat \<Rightarrow> nat \<Rightarrow> tcp_row list \<Rightarrow> nat \<times> nat" where
  "count_ipv4 port pid exact on_port [] = (exact, on_port)"
| "count_ipv4 port pid exact on_port (row # rows) =
     (if network_port (tr_local_port row) \<noteq> port then count_ipv4 port pid exact on_port rows
      else if le_bytes32 (tr_local_addr row) = LOCALHOST_OCTETS \<and> unat (tr_owning_pid row) = pid
              \<and> tr_state row = MIB_TCP_STATE_LISTEN
      then count_ipv4 port pid (exact + 1) (on_port + 1) rows
      else count_ipv4 port pid exact (on_port + 1) rows)"

definition verify_ipv4_listener ::
  "launch_error + tcp_row list \<Rightarrow> launch_error + tcp6_row list \<Rightarrow> job_member \<Rightarrow> 16 word \<Rightarrow>
     launch_error + listener_identity" where
  "verify_ipv4_listener ipv4_rows ipv6_rows member port =
     (let p = jm_process member; pid = pi_pid (jm_identity member) in
      if port = 0 then Inl InvalidListenerPort
      else
        rbind (process_is_alive p 0) (\<lambda>alive.
        if \<not> alive then Inl ProcessAlreadyExited
        else
          rbind (po_in_job p 0) (\<lambda>inside.
          if \<not> inside then Inl ProcessOutsideJob
          else
            rbind ipv4_rows (\<lambda>ipv4.
            rbind ipv6_rows (\<lambda>ipv6.
            case count_ipv4 port pid 0 0 ipv4 of
              (exact, ipv4_on_port) \<Rightarrow>
                let ipv6_on_port =
                      length (filter (\<lambda>row. network_port (t6_local_port row) = port) ipv6) in
                if ipv4_on_port \<noteq> exact \<or> 1 < exact \<or> ipv6_on_port \<noteq> 0 then Inl ConflictingListener
                else if exact = 0 then Inl ExpectedListenerNotFound
                else
                  rbind (po_in_job p 1) (\<lambda>inside.
                  if \<not> inside then Inl ProcessOutsideJob
                  else
                    rbind (process_is_alive p 1) (\<lambda>alive.
                    if \<not> alive then Inl ProcessAlreadyExited
                    else Inr \<lparr>ld_process = jm_identity member, ld_address = LOCALHOST_OCTETS,
                              ld_port = port\<rparr>)))))))"

section \<open>Lemmas\<close>

definition on_port4 :: "16 word \<Rightarrow> tcp_row \<Rightarrow> bool" where
  "on_port4 port row = (network_port (tr_local_port row) = port)"

definition exact_row :: "16 word \<Rightarrow> nat \<Rightarrow> tcp_row \<Rightarrow> bool" where
  "exact_row port pid row =
     (on_port4 port row \<and> le_bytes32 (tr_local_addr row) = LOCALHOST_OCTETS
      \<and> unat (tr_owning_pid row) = pid \<and> tr_state row = MIB_TCP_STATE_LISTEN)"

lemma count_ipv4_eq:
  "count_ipv4 port pid e n rows =
     (e + length (filter (exact_row port pid) rows), n + length (filter (on_port4 port) rows))"
  by (induction rows arbitrary: e n) (auto simp: exact_row_def on_port4_def)

lemma filter_same_length:
  assumes "length (filter P xs) = length (filter Q xs)" and "\<And>x. P x \<Longrightarrow> Q x"
  shows "filter P xs = filter Q xs"
  using assms(1)
proof (induction xs)
  case (Cons x xs)
  have "length (filter P xs) \<le> length (filter Q xs)"
    using assms(2) by (induction xs) auto
  with Cons assms(2) [of x] show ?case by (auto split: if_splits)
qed simp

lemma process_is_alive_True [simp]: "process_is_alive p i = Inr True \<longleftrightarrow> po_wait p i = WAIT_TIMEOUT"
  by (auto simp: process_is_alive_def WAIT_TIMEOUT_def WAIT_OBJECT_0_def)

lemma alive_step:
  "rbind (process_is_alive p i) (\<lambda>alive. if \<not> alive then Inl e else k) = Inr y \<longleftrightarrow>
     po_wait p i = WAIT_TIMEOUT \<and> k = Inr y"
  by (auto simp: process_is_alive_def WAIT_TIMEOUT_def WAIT_OBJECT_0_def)

lemma member_step:
  "rbind (po_in_job p i) (\<lambda>inside. if \<not> inside then Inl e else k) = Inr y \<longleftrightarrow>
     po_in_job p i = Inr True \<and> k = Inr y"
  by (cases "po_in_job p i") auto

lemma guard_step: "(if b then Inl e else k) = Inr y \<longleftrightarrow> \<not> b \<and> k = Inr y"
  by simp

text \<open>The turn in which the wait ends: the first one with a failed query, no active process, or the
  deadline reached.\<close>

definition decides :: "(nat \<Rightarrow> launch_error + nat) \<Rightarrow> (nat \<Rightarrow> bool) \<Rightarrow> nat \<Rightarrow> bool" where
  "decides accounting late j =
     (case accounting j of Inl e \<Rightarrow> True | Inr active \<Rightarrow> active = 0 \<or> late j)"

definition answer_at :: "(nat \<Rightarrow> launch_error + nat) \<Rightarrow> nat \<Rightarrow> launch_error + bool" where
  "answer_at accounting j = (case accounting j of Inl e \<Rightarrow> Inl e | Inr active \<Rightarrow> Inr (active = 0))"

lemma empty_loop_decided:
  assumes "decides accounting (\<lambda>j. \<forall>d. deadline = Some d \<longrightarrow> d \<le> now j) i"
  shows "empty_loop accounting now deadline i = Some (answer_at accounting i)"
  using assms
  by (subst empty_loop.simps) (auto simp: decides_def answer_at_def split: sum.splits option.splits)

lemma empty_loop_returns:
  assumes sleep: "\<And>i. now i + sleep_nanos d (now i) \<le> now (Suc i)"
  shows "\<exists>j \<ge> i. empty_loop accounting now (Some d) i = Some (answer_at accounting j)
    \<and> decides accounting (\<lambda>j. d \<le> now j) j \<and> (\<forall>k. i \<le> k \<and> k < j \<longrightarrow> \<not> decides accounting (\<lambda>j. d \<le> now j) k)"
proof (induction "d - now i" arbitrary: i rule: less_induct)
  case less
  show ?case
  proof (cases "decides accounting (\<lambda>j. d \<le> now j) i")
    case True
    then show ?thesis
      using empty_loop_decided [of accounting "Some d" now i] by (intro exI [of _ i]) auto
  next
    case False
    then obtain a where a: "accounting i = Inr a" "a \<noteq> 0" "now i < d"
      by (auto simp: decides_def split: sum.splits)
    then have step: "empty_loop accounting now (Some d) i = empty_loop accounting now (Some d) (Suc i)"
      by (subst empty_loop.simps) simp
    have "d - now (Suc i) < d - now i"
      using sleep [of i] a(3) by (simp add: sleep_nanos_def)
    from less [OF this] obtain j where j: "Suc i \<le> j"
      "empty_loop accounting now (Some d) (Suc i) = Some (answer_at accounting j)"
      "decides accounting (\<lambda>j. d \<le> now j) j"
      "\<forall>k. Suc i \<le> k \<and> k < j \<longrightarrow> \<not> decides accounting (\<lambda>j. d \<le> now j) k"
      by blast
    have "\<not> decides accounting (\<lambda>j. d \<le> now j) k" if "i \<le> k" "k < j" for k
      using j(4) False that by (cases "k = i") auto
    with j step show ?thesis by (intro exI [of _ j]) auto
  qed
qed

section \<open>Properties\<close>

text \<open>A listener is verified exactly when it is exclusive: the port is not zero, the owner tables
  could be read, exactly one IPv4 row uses the port, that row is the listening \<open>127.0.0.1\<close> socket of
  the captured process, no IPv6 row uses the port, and the process was alive and in the Job both
  before and after the tables were read.  The identity returned is the captured one.\<close>

lemma listener_verified_iff:
  "verify_ipv4_listener (Inr ipv4) (Inr ipv6) member port = Inr ident \<longleftrightarrow>
     port \<noteq> 0
     \<and> (\<exists>row. filter (\<lambda>r. network_port (tr_local_port r) = port) ipv4 = [row]
          \<and> exact_row port (pi_pid (jm_identity member)) row)
     \<and> (\<forall>row \<in> set ipv6. network_port (t6_local_port row) \<noteq> port)
     \<and> (\<forall>i \<in> {0, 1}. po_wait (jm_process member) i = WAIT_TIMEOUT \<and> po_in_job (jm_process member) i = Inr True)
     \<and> ident = \<lparr>ld_process = jm_identity member, ld_address = LOCALHOST_OCTETS, ld_port = port\<rparr>"
proof -
  let ?pid = "pi_pid (jm_identity member)" and ?p = "jm_process member"
  define exact where "exact = filter (exact_row port ?pid) ipv4"
  define on where "on = filter (\<lambda>r. network_port (tr_local_port r) = port) ipv4"
  have on4: "filter (on_port4 port) ipv4 = on"
    unfolding on_def by (rule filter_cong) (simp_all add: on_port4_def)
  have sub: "exact = filter (exact_row port ?pid) on"
    unfolding exact_def on4 [symmetric] filter_filter
    by (rule filter_cong) (auto simp: exact_row_def)
  have one: "length on = length exact \<and> length exact \<le> 1 \<and> exact \<noteq> []
      \<longleftrightarrow> (\<exists>row. on = [row] \<and> exact_row port ?pid row)"
    unfolding sub by (cases on; cases "tl on") (auto split: if_splits simp: le_Suc_eq)
  have ipv6: "length (filter (\<lambda>row. network_port (t6_local_port row) = port) ipv6) = 0
      \<longleftrightarrow> (\<forall>row \<in> set ipv6. network_port (t6_local_port row) \<noteq> port)"
    by (simp add: filter_empty_conv)
  have counts: "count_ipv4 port ?pid 0 0 ipv4 = (length exact, length on)"
    by (simp add: count_ipv4_eq exact_def on4)
  have "length on \<noteq> length exact \<or> 1 < length exact \<or> \<not> (\<forall>row \<in> set ipv6. network_port (t6_local_port row) \<noteq> port)
      \<or> length exact = 0 \<longleftrightarrow>
      \<not> ((\<exists>row. on = [row] \<and> exact_row port ?pid row) \<and> (\<forall>row \<in> set ipv6. network_port (t6_local_port row) \<noteq> port))"
    using one by (metis leD leI length_0_conv)
  note counted = this
  have "verify_ipv4_listener (Inr ipv4) (Inr ipv6) member port = Inr ident \<longleftrightarrow>
      port \<noteq> 0 \<and> po_wait ?p 0 = WAIT_TIMEOUT \<and> po_in_job ?p 0 = Inr True
      \<and> \<not> (length on \<noteq> length exact \<or> 1 < length exact
             \<or> \<not> (\<forall>row \<in> set ipv6. network_port (t6_local_port row) \<noteq> port) \<or> length exact = 0)
      \<and> po_in_job ?p 1 = Inr True \<and> po_wait ?p 1 = WAIT_TIMEOUT
      \<and> ident = \<lparr>ld_process = jm_identity member, ld_address = LOCALHOST_OCTETS, ld_port = port\<rparr>"
    unfolding ipv6 [symmetric]
    by (simp only: verify_ipv4_listener_def Let_def guard_step alive_step member_step rbind_simps
        counts prod.case sum.inject) blast
  then show ?thesis
    unfolding counted on_def [symmetric] by auto
qed

text \<open>Waiting for an empty Job returns.  When every sleep lasts at least as long as asked for, the
  wait ends after finitely many turns, in the first one whose query fails, finds no active process,
  or finds the deadline reached (at once when the deadline cannot be represented), and it answers
  what that query found: true exactly when the Job was empty.\<close>

lemma wait_for_empty_returns:
  assumes "\<And>i. now i + sleep_nanos (start + timeout) (now i) \<le> now (Suc i)"
  shows "\<exists>j. wait_for_empty accounting now instant_max start timeout = Some (answer_at accounting j)
    \<and> decides accounting (\<lambda>j. start + timeout \<le> instant_max \<longrightarrow> start + timeout \<le> now j) j
    \<and> (\<forall>k<j. \<not> decides accounting (\<lambda>j. start + timeout \<le> instant_max \<longrightarrow> start + timeout \<le> now j) k)"
proof (cases "start + timeout \<le> instant_max")
  case True
  then show ?thesis
    using empty_loop_returns [of now "start + timeout" 0 accounting] assms
    by (auto simp: wait_for_empty_def checked_add_def)
next
  case False
  then show ?thesis
    using empty_loop_decided [of accounting None now 0]
    by (intro exI [of _ 0]) (auto simp: wait_for_empty_def checked_add_def decides_def split: sum.splits)
qed

text \<open>Reading a listener table stays inside the buffer: when the rows are returned, their number
  is the count Windows wrote, all of them lie within the buffer, and each is read from its own
  bytes; a table whose rows would not fit is refused.\<close>

lemma read_table_rows_bounded:
  "read_table_rows layout storage = Inr rows \<longleftrightarrow>
     4 \<le> length storage \<and> 0 < rl_size layout
     \<and> rl_offset layout + le_nat (take 4 storage) * rl_size layout \<le> min usize_max (length storage)
     \<and> length rows = le_nat (take 4 storage)
     \<and> (\<forall>i < length rows. rows ! i = rl_read layout
          (take (rl_size layout) (drop (rl_offset layout + i * rl_size layout) storage)))"
proof -
  have "rows = map f [0..<n] \<longleftrightarrow> length rows = n \<and> (\<forall>i < length rows. rows ! i = f i)" for n and f :: "nat \<Rightarrow> 'a"
    by (auto intro: nth_equalityI)
  note rows = this
  have mul: "rbind (ok_or (checked_mul m a b) e) k = Inr y \<longleftrightarrow> a * b \<le> m \<and> k (a * b) = Inr y"
    for m a b and e :: launch_error and k :: "nat \<Rightarrow> launch_error + 'a list" and y
    by (auto simp: checked_mul_def)
  have add: "rbind (ok_or (checked_add m a b) e) k = Inr y \<longleftrightarrow> a + b \<le> m \<and> k (a + b) = Inr y"
    for m a b and e :: launch_error and k :: "nat \<Rightarrow> launch_error + 'a list" and y
    by (auto simp: checked_add_def)
  show ?thesis
    unfolding read_table_rows_def Let_def guard_step mul add sum.inject
    by (subst eq_commute, subst rows) (auto simp del: rbind_Inr_iff)
qed

section \<open>Witnesses\<close>

lemma wait_for_empty_returns_witness:
  "\<exists>j. wait_for_empty (\<lambda>i. Inr (5 - i)) (\<lambda>i. 20000000 * i) u64_max 0 60000000
         = Some (answer_at (\<lambda>i. Inr (5 - i)) j)"
proof -
  have "(20000000 * i :: nat) + sleep_nanos (0 + 60000000) (20000000 * i) \<le> 20000000 * Suc i" for i
    by (simp add: sleep_nanos_def)
  from wait_for_empty_returns [of "\<lambda>i. 20000000 * i" 0 60000000, OF this] show ?thesis by blast
qed

definition example_member :: job_member where
  "example_member =
     \<lparr>jm_process = \<lparr>po_wait = (\<lambda>_. WAIT_TIMEOUT), po_in_job = (\<lambda>_. Inr True), po_creation_time = Inr (1, 2),
        po_timed_wait = (\<lambda>_. WAIT_OBJECT_0), po_exit_code = Inr 0\<rparr>,
      jm_identity = \<lparr>pi_pid = 41, pi_creation_time_100ns = 7\<rparr>\<rparr>"

definition example_row :: tcp_row where
  "example_row = \<lparr>tr_local_addr = 0x0100007F, tr_local_port = 0xFE0E, tr_state = 2, tr_owning_pid = 41\<rparr>"

lemma listener_verified_iff_witness:
  "verify_ipv4_listener (Inr [example_row]) (Inr [\<lparr>t6_local_port = 0x5000\<rparr>]) example_member 3838 =
     Inr \<lparr>ld_process = jm_identity example_member, ld_address = LOCALHOST_OCTETS, ld_port = 3838\<rparr>"
proof -
  have "exact_row 3838 (pi_pid (jm_identity example_member)) example_row"
      "filter (\<lambda>r. network_port (tr_local_port r) = 3838) [example_row] = [example_row]"
      "network_port 0x5000 \<noteq> 3838"
    by code_simp+
  then show ?thesis
    by (subst listener_verified_iff) (simp add: example_member_def)
qed

end
