(* ===== verification/Runtime_Owner.thy ===== *)
theory Runtime_Owner
  imports Private_Session Job_Listener
begin

text \<open>
  \<open>RuntimeOwner\<close> of \<open>crates/windows-lifecycle/src/lib.rs\<close>: startup, health, shutdown and cleanup of one
  bundled runtime.  An action takes the owner and the history of its effects to the changed owner, the
  longer history and a result; \<open>None\<close> stands for an action that never returns.  Every effect (clock,
  sleep, channel, process, Job, session, socket, thread) is a \<open>life_op\<close>, and what it answers
  is a function of the history.  The operations of the lower layers are their own models, run on the
  answers the oracle gives for that moment.  \<open>loop_act\<close> is Rust's \<open>loop\<close>: the body returns \<open>None\<close> to go
  round and \<open>Some\<close> to return.
\<close>

section \<open>Definitions\<close>

subsection \<open>Effects\<close>

text \<open>The effects on the browser window and its profile share the history, so that their order with those on proxy
  and process can be stated.  A cookie is deleted by its name, value and path.\<close>

datatype view_op =
    VCreateProfile path | VDispatchWindow | VAwaitWindow | VInstallGuards nat | VNavigateBootstrap string string nat
  | VAwaitReady nat | VHide | VCookies | VDeleteCookie string string "string option" | VClearData | VDestroy | VRemoveProfile path | VDropProfile path

datatype life_op =
    LNow | LSleep nat | LRecv nat | LTryRecv
  | LProcessWait nat | LRuntimeWait nat | LTerminate nat | LWaitForEmpty nat | LActiveCount
  | LCapture nat | LVerifyListener "16 word" | LHttpReady "16 word" secret nat
  | LTokenExists | LCreateControl | LVerifySecurity | LSessionCleanup
  | LJoinStdout | LJoinStderr | LCloseJob
  | LCreateSession win_path | LWriteToken string | LLaunch launch_command
  | LTakeStdout | LTakeStderr | LSpawnStderr | LSpawnStdout
  | LReservePort | LBindProxy | LResolveHost | LStopProxy | LDropProxy
  | LView view_op | LSelect nat

datatype received = Received monitor_message | NoMessage | Disconnected

record life_oracle =
  wo_now :: "life_op list \<Rightarrow> nat"
  wo_instant_max :: nat
  wo_recv :: "life_op list \<Rightarrow> received"
  wo_process :: "life_op list \<Rightarrow> process_oracle"
  wo_runtime :: "life_op list \<Rightarrow> process_oracle"
  wo_open_process :: "life_op list \<Rightarrow> nat \<Rightarrow> launch_error + process_oracle"
  wo_terminate :: "life_op list \<Rightarrow> launch_error + unit"
  wo_accounting :: "life_op list \<Rightarrow> nat \<Rightarrow> launch_error + nat"
  wo_turn_clock :: "life_op list \<Rightarrow> nat \<Rightarrow> nat"
  wo_tcp_table :: "life_op list \<Rightarrow> table_oracle"
  wo_tcp6_table :: "life_op list \<Rightarrow> table_oracle"
  wo_tcp_layout :: "tcp_row row_layout"
  wo_tcp6_layout :: "tcp6_row row_layout"
  wo_http :: "life_op list \<Rightarrow> http_attempt"
  wo_token_exists :: "life_op list \<Rightarrow> fs_error + bool"
  wo_session :: "life_op list \<Rightarrow> session_oracle"
  wo_join_stdout :: "life_op list \<Rightarrow> bool"
  wo_join_stderr :: "life_op list \<Rightarrow> nat option"
  wo_launch :: "life_op list \<Rightarrow> launch_oracle"
  wo_taken :: "life_op list \<Rightarrow> bool"
  wo_spawned :: "life_op list \<Rightarrow> bool"

subsection \<open>Actions\<close>

type_synonym 'o world = "'o \<times> life_op list"
type_synonym ('o, 'a) act = "'o world \<Rightarrow> ('o world \<times> (lifecycle_error + 'a)) option"

definition aret :: "'a \<Rightarrow> ('o, 'a) act" where
  "aret x w = Some (w, Inr x)"

definition afail :: "lifecycle_error \<Rightarrow> ('o, 'a) act" where
  "afail e w = Some (w, Inl e)"

definition alift :: "lifecycle_error + 'a \<Rightarrow> ('o, 'a) act" where
  "alift r w = Some (w, r)"

definition abind :: "('o, 'a) act \<Rightarrow> ('a \<Rightarrow> ('o, 'b) act) \<Rightarrow> ('o, 'b) act" where
  "abind m f w =
     (case m w of
        None \<Rightarrow> None
      | Some (w1, r) \<Rightarrow> (case r of Inl e \<Rightarrow> Some (w1, Inl e) | Inr x \<Rightarrow> f x w1))"

definition attempt :: "('o, 'a) act \<Rightarrow> ('o, lifecycle_error + 'a) act" where
  "attempt m w = (case m w of None \<Rightarrow> None | Some (w1, r) \<Rightarrow> Some (w1, Inr r))"

definition ask :: "life_op \<Rightarrow> (life_op list \<Rightarrow> 'a) \<Rightarrow> ('o, 'a) act" where
  "ask op f w = (let h = snd w @ [op] in Some ((fst w, h), Inr (f h)))"

definition ask_partial :: "life_op \<Rightarrow> (life_op list \<Rightarrow> 'a option) \<Rightarrow> ('o, 'a) act" where
  "ask_partial op f w =
     (let h = snd w @ [op] in case f h of None \<Rightarrow> None | Some x \<Rightarrow> Some ((fst w, h), Inr x))"

definition owner :: "('o \<Rightarrow> 'a) \<Rightarrow> ('o, 'a) act" where
  "owner f w = Some (w, Inr (f (fst w)))"

definition update :: "('o \<Rightarrow> 'o) \<Rightarrow> ('o, unit) act" where
  "update g w = Some ((g (fst w), snd w), Inr ())"

partial_function (option) loop_act ::
  "('o world \<Rightarrow> ('o world \<times> (lifecycle_error + 'a option)) option) \<Rightarrow> 'o world \<Rightarrow>
     ('o world \<times> (lifecycle_error + 'a)) option" where
  "loop_act body w =
     (case body w of
        None \<Rightarrow> None
      | Some (w1, r) \<Rightarrow>
          (case r of
             Inl e \<Rightarrow> Some (w1, Inl e)
           | Inr None \<Rightarrow> loop_act body w1
           | Inr (Some x) \<Rightarrow> Some (w1, Inr x)))"

definition launched :: "launch_error + 'a \<Rightarrow> ('o, 'a) act" where
  "launched r = alift (map_err Launch r)"

subsection \<open>The owner\<close>

datatype owner_state = OwnerStarting | OwnerReady | OwnerStopping | OwnerCleaned

datatype shutdown_kind = Graceful | Forced

record shutdown_report =
  sr_kind :: shutdown_kind
  sr_wrapper_exit_code :: "nat option"
  sr_runtime_exit_code :: "nat option"
  sr_ignored_stdout_lines :: nat
  sr_discarded_stderr_bytes :: nat
  sr_job_empty :: bool
  sr_session_removed :: bool

record runtime_owner =
  ro_bundle :: validated_bundle
  ro_upstream_port :: "16 word"
  ro_upstream_secret :: "secret option"
  ro_limits :: lifecycle_limits
  ro_session :: "private_session option"
  ro_process :: "process_identity option"
  ro_runtime :: "process_identity option"
  ro_stdout_thread :: bool
  ro_stderr_thread :: bool
  ro_monitor_state :: lifecycle_state
  ro_ignored_stdout_lines :: nat
  ro_discarded_stderr_bytes :: nat
  ro_stdout_ended :: bool
  ro_owner_state :: owner_state

definition FORCED_EXIT_CODE :: nat where
  "FORCED_EXIT_CODE = 0x52504B46"

definition store_first_error :: "lifecycle_error option \<Rightarrow> lifecycle_error \<Rightarrow> lifecycle_error option" where
  "store_first_error slot e = (case slot of None \<Rightarrow> Some e | Some first \<Rightarrow> Some first)"

definition combine_cleanup_error :: "lifecycle_error \<Rightarrow> lifecycle_error option \<Rightarrow> lifecycle_error" where
  "combine_cleanup_error primary cleanup =
     (case cleanup of Some e \<Rightarrow> CleanupAfterFailure primary e | None \<Rightarrow> primary)"

definition result_or :: "lifecycle_error option \<Rightarrow> lifecycle_error + unit" where
  "result_or first_error = (case first_error of None \<Rightarrow> Inr () | Some e \<Rightarrow> Inl e)"

definition error_of :: "lifecycle_error + 'a \<Rightarrow> lifecycle_error option" where
  "error_of r = (case r of Inl e \<Rightarrow> Some e | Inr _ \<Rightarrow> None)"

definition now :: "life_oracle \<Rightarrow> ('o, nat) act" where
  "now os = ask LNow (wo_now os)"

definition checked_deadline :: "life_oracle \<Rightarrow> nat \<Rightarrow> ('o, nat) act" where
  "checked_deadline os duration =
     abind (now os) (\<lambda>t. alift (ok_or (checked_add (wo_instant_max os) t duration) InvalidLimits))"

definition process_ref :: "(runtime_owner, process_identity) act" where
  "process_ref = abind (owner ro_process) (\<lambda>p. alift (ok_or p OwnerNotRunning))"

definition runtime_ref :: "(runtime_owner, process_identity) act" where
  "runtime_ref = abind (owner ro_runtime) (\<lambda>p. alift (ok_or p RuntimeIdentityUnavailable))"

definition session_ref :: "(runtime_owner, private_session) act" where
  "session_ref = abind (owner ro_session) (\<lambda>s. alift (ok_or s PrivateSessionUnavailable))"

definition remaining_poll :: "life_oracle \<Rightarrow> nat \<Rightarrow> (runtime_owner, nat) act" where
  "remaining_poll os deadline =
     abind (now os) (\<lambda>t. abind (owner ro_limits) (\<lambda>l. aret (min (deadline - t) (ll_poll_interval l))))"

definition process_wait :: "life_oracle \<Rightarrow> nat \<Rightarrow> ('o, launch_error + nat option) act" where
  "process_wait os timeout = ask (LProcessWait timeout) (\<lambda>h. wait_for_process (wo_process os h) timeout)"

definition runtime_wait :: "life_oracle \<Rightarrow> nat \<Rightarrow> ('o, launch_error + nat option) act" where
  "runtime_wait os timeout = ask (LRuntimeWait timeout) (\<lambda>h. wait_for_process (wo_runtime os h) timeout)"

definition job_terminate :: "life_oracle \<Rightarrow> nat \<Rightarrow> ('o, launch_error + unit) act" where
  "job_terminate os exit_code = ask (LTerminate exit_code) (wo_terminate os)"

definition job_wait_for_empty :: "life_oracle \<Rightarrow> nat \<Rightarrow> ('o, launch_error + bool) act" where
  "job_wait_for_empty os timeout =
     ask_partial (LWaitForEmpty timeout) (\<lambda>h.
       wait_for_empty (wo_accounting os h) (wo_turn_clock os h) (wo_instant_max os) (wo_now os h) timeout)"

definition session_verify :: "life_oracle \<Rightarrow> private_session \<Rightarrow> ('o, launch_error + unit) act" where
  "session_verify os s = ask LVerifySecurity (\<lambda>h. snd (verify_security (wo_session os h) s []))"

definition session_clean :: "life_oracle \<Rightarrow> private_session \<Rightarrow> ('o, launch_error + unit) act" where
  "session_clean os s = ask LSessionCleanup (\<lambda>h. snd (session_cleanup (wo_session os h) s []))"

subsection \<open>Monitor messages\<close>

definition apply_monitor :: "monitor_message \<Rightarrow> bool \<Rightarrow> (runtime_owner, monitor_event option) act" where
  "apply_monitor message strict =
     (case message of
        Event state event \<Rightarrow>
          abind (update (\<lambda>ow. ow\<lparr>ro_monitor_state := state\<rparr>)) (\<lambda>_. aret (Some event))
      | ProtocolFailure e \<Rightarrow> if strict then afail (Protocol e) else aret None
      | StdoutReadFailure \<Rightarrow> if strict then afail ProtocolStreamReadFailed else aret None
      | StdoutEnded state ignored_lines \<Rightarrow>
          abind (update (\<lambda>ow. ow\<lparr>ro_monitor_state := state, ro_ignored_stdout_lines := ignored_lines,
                               ro_stdout_ended := True\<rparr>)) (\<lambda>_.
          abind (owner ro_owner_state) (\<lambda>st.
            if strict \<and> st \<noteq> OwnerStopping then afail ProtocolStreamEnded else aret None))
      | StderrReadFailure \<Rightarrow> if strict then afail StderrStreamReadFailed else aret None)"

definition drain_turn :: "life_oracle \<Rightarrow> bool \<Rightarrow> (runtime_owner, unit option) act" where
  "drain_turn os strict =
     abind (ask LTryRecv (wo_recv os)) (\<lambda>r.
     case r of
       Received message \<Rightarrow>
         abind (apply_monitor message strict) (\<lambda>event.
         abind (owner ro_owner_state) (\<lambda>st.
         if strict then
           (case event of
              Some (MonitorLauncherFailed phase) \<Rightarrow> afail (LauncherReportedFailure phase)
            | Some MonitorStopping \<Rightarrow> if st \<noteq> OwnerStopping then afail StoppedUnexpectedly else aret None
            | Some (MonitorStopped _) \<Rightarrow> if st \<noteq> OwnerStopping then afail StoppedUnexpectedly else aret None
            | _ \<Rightarrow> aret None)
         else aret None))
     | Disconnected \<Rightarrow>
         abind (owner ro_owner_state) (\<lambda>st.
           if strict \<and> st \<noteq> OwnerStopping then afail MonitorDisconnected else aret (Some ()))
     | NoMessage \<Rightarrow> aret (Some ()))"

definition drain_monitor :: "life_oracle \<Rightarrow> bool \<Rightarrow> (runtime_owner, unit) act" where
  "drain_monitor os strict = loop_act (drain_turn os strict)"

subsection \<open>Startup\<close>

definition verify_token_consumed :: "life_oracle \<Rightarrow> (runtime_owner, unit) act" where
  "verify_token_consumed os =
     abind session_ref (\<lambda>_.
     abind (ask LTokenExists (wo_token_exists os)) (\<lambda>r.
     case r of
       Inr False \<Rightarrow> aret ()
     | Inr True \<Rightarrow> afail TokenNotConsumed
     | Inl _ \<Rightarrow> afail (Io ''inspect one-time token path'')))"

definition ensure_wrapper_alive_before_ready :: "life_oracle \<Rightarrow> (runtime_owner, unit) act" where
  "ensure_wrapper_alive_before_ready os =
     abind process_ref (\<lambda>_.
     abind (abind (process_wait os 0) launched) (\<lambda>code.
     case code of Some exit_code \<Rightarrow> afail (InterpreterExitedBeforeReadiness exit_code 0) | None \<Rightarrow> aret ()))"

definition ensure_processes_alive_before_ready :: "life_oracle \<Rightarrow> (runtime_owner, unit) act" where
  "ensure_processes_alive_before_ready os =
     abind (ensure_wrapper_alive_before_ready os) (\<lambda>_.
     abind runtime_ref (\<lambda>_.
     abind (abind (runtime_wait os 0) launched) (\<lambda>code.
       if code \<noteq> None then afail RuntimeExitedBeforeReadiness else aret ())))"

text \<open>\<open>verify_ipv4_listener\<close> of the launcher on the tables and process answers of the moment.\<close>

definition listener_answer ::
  "life_oracle \<Rightarrow> life_op list \<Rightarrow> process_identity \<Rightarrow> 16 word \<Rightarrow> launch_error + listener_identity" where
  "listener_answer os h identity port =
     verify_ipv4_listener (listener_rows (wo_tcp_table os h) (wo_tcp_layout os))
       (listener_rows (wo_tcp6_table os h) (wo_tcp6_layout os))
       \<lparr>jm_process = wo_runtime os h, jm_identity = identity\<rparr> port"

definition listener_turn :: "life_oracle \<Rightarrow> nat \<Rightarrow> (runtime_owner, unit option) act" where
  "listener_turn os listener_deadline =
     abind (ensure_processes_alive_before_ready os) (\<lambda>_.
     abind (drain_monitor os True) (\<lambda>_.
     abind process_ref (\<lambda>_.
     abind runtime_ref (\<lambda>identity.
     abind (owner ro_upstream_port) (\<lambda>port.
     abind (ask (LVerifyListener port) (\<lambda>h. listener_answer os h identity port)) (\<lambda>r.
     case r of
       Inr _ \<Rightarrow> aret (Some ())
     | Inl e \<Rightarrow>
         if e = ExpectedListenerNotFound then
           abind (now os) (\<lambda>t.
           if t < listener_deadline then
             abind (remaining_poll os listener_deadline) (\<lambda>d.
             abind (ask (LSleep d) (\<lambda>_. ())) (\<lambda>_. aret None))
           else afail (Launch e))
         else afail (Launch e)))))))"

definition wait_for_listener :: "life_oracle \<Rightarrow> nat \<Rightarrow> (runtime_owner, unit) act" where
  "wait_for_listener os startup_deadline =
     abind (owner ro_limits) (\<lambda>l.
     abind (checked_deadline os (ll_listener_timeout l)) (\<lambda>d.
       loop_act (listener_turn os (min d startup_deadline))))"

definition readiness_turn :: "life_oracle \<Rightarrow> nat \<Rightarrow> (runtime_owner, unit option) act" where
  "readiness_turn os startup_deadline =
     abind (ensure_processes_alive_before_ready os) (\<lambda>_.
     abind (drain_monitor os True) (\<lambda>_.
     abind (now os) (\<lambda>t.
     let remaining = startup_deadline - t in
     if remaining = 0 then afail ReadinessTimeout
     else
       abind (owner ro_upstream_secret) (\<lambda>s0.
       abind (alift (ok_or s0 OwnerNotRunning)) (\<lambda>s.
       abind (owner ro_limits) (\<lambda>l.
       abind (owner ro_upstream_port) (\<lambda>port.
       abind (ask (LHttpReady port s (min (ll_readiness_io_timeout l) remaining))
                (\<lambda>h. authenticated_http_ready (wo_http os h) port s)) (\<lambda>r.
       abind (alift (map_err Io r)) (\<lambda>ready.
       if ready then aret (Some ())
       else
         abind (now os) (\<lambda>t1.
         if startup_deadline \<le> t1 then afail ReadinessTimeout
         else
           abind (remaining_poll os startup_deadline) (\<lambda>d.
           abind (ask (LSleep d) (\<lambda>_. ())) (\<lambda>_. aret None)))))))))))) "

definition wait_for_authenticated_readiness :: "life_oracle \<Rightarrow> nat \<Rightarrow> (runtime_owner, unit) act" where
  "wait_for_authenticated_readiness os startup_deadline = loop_act (readiness_turn os startup_deadline)"

definition capture_runtime :: "life_oracle \<Rightarrow> nat \<Rightarrow> (runtime_owner, process_identity) act" where
  "capture_runtime os pid =
     abind process_ref (\<lambda>_.
     abind (ask (LCapture pid) (\<lambda>h. capture_job_member (wo_open_process os h) pid)) (\<lambda>r.
     abind (launched r) (\<lambda>member. aret (jm_identity member))))"

text \<open>The reaction to an event, and to a message, during startup.\<close>

definition startup_event :: "life_oracle \<Rightarrow> nat \<Rightarrow> monitor_event option \<Rightarrow> (runtime_owner, unit option) act" where
  "startup_event os startup_deadline event =
     (case event of
        Some (MonitorStarting _) \<Rightarrow> abind (verify_token_consumed os) (\<lambda>_. aret None)
      | Some (MonitorListening pid) \<Rightarrow>
          abind (verify_token_consumed os) (\<lambda>_.
          abind (capture_runtime os pid) (\<lambda>runtime.
          abind (update (\<lambda>ow. ow\<lparr>ro_runtime := Some runtime\<rparr>)) (\<lambda>_.
          abind (wait_for_listener os startup_deadline) (\<lambda>_.
          abind (wait_for_authenticated_readiness os startup_deadline) (\<lambda>_.
          abind (update (\<lambda>ow. ow\<lparr>ro_owner_state := OwnerReady\<rparr>)) (\<lambda>_. aret (Some ())))))))
      | Some MonitorStopping \<Rightarrow> afail StoppedBeforeReadiness
      | Some (MonitorStopped _) \<Rightarrow> afail StoppedBeforeReadiness
      | Some (MonitorLauncherFailed phase) \<Rightarrow> afail (LauncherReportedFailure phase)
      | None \<Rightarrow> aret None)"

definition startup_message :: "life_oracle \<Rightarrow> nat \<Rightarrow> monitor_message \<Rightarrow> (runtime_owner, unit option) act" where
  "startup_message os startup_deadline message =
     (case message of
        StdoutEnded _ _ \<Rightarrow>
          abind (apply_monitor message False) (\<lambda>_.
          abind process_ref (\<lambda>_.
          abind (owner ro_limits) (\<lambda>l.
          abind (abind (process_wait os (ll_poll_interval l)) launched) (\<lambda>code.
          case code of
            Some exit_code \<Rightarrow> afail (InterpreterExitedBeforeReadiness exit_code 0)
          | None \<Rightarrow> afail ProtocolStreamEnded))))
      | _ \<Rightarrow> abind (apply_monitor message True) (startup_event os startup_deadline))"

definition ready_turn :: "life_oracle \<Rightarrow> nat \<Rightarrow> (runtime_owner, unit option) act" where
  "ready_turn os startup_deadline =
     abind (ensure_wrapper_alive_before_ready os) (\<lambda>_.
     abind (now os) (\<lambda>t.
     if startup_deadline \<le> t then afail ReadinessTimeout
     else
       abind (remaining_poll os startup_deadline) (\<lambda>timeout.
       abind (ask (LRecv timeout) (wo_recv os)) (\<lambda>r.
       case r of
         Received message \<Rightarrow> startup_message os startup_deadline message
       | NoMessage \<Rightarrow> aret None
       | Disconnected \<Rightarrow> afail MonitorDisconnected))))"

definition wait_until_ready :: "life_oracle \<Rightarrow> (runtime_owner, unit) act" where
  "wait_until_ready os =
     abind (owner ro_limits) (\<lambda>l.
     abind (checked_deadline os (ll_startup_timeout l)) (\<lambda>startup_deadline.
       loop_act (ready_turn os startup_deadline)))"

subsection \<open>Health\<close>

definition poll_health :: "life_oracle \<Rightarrow> (runtime_owner, unit) act" where
  "poll_health os =
     abind (owner ro_owner_state) (\<lambda>st.
     if st \<noteq> OwnerReady then afail OwnerNotRunning
     else
       abind (drain_monitor os True) (\<lambda>_.
       abind (owner ro_stdout_ended) (\<lambda>ended.
       if ended then afail ProtocolStreamEnded
       else
         abind process_ref (\<lambda>_.
         abind (abind (process_wait os 0) launched) (\<lambda>wrapper.
         if wrapper \<noteq> None then afail WrapperExitedUnexpectedly
         else
           abind runtime_ref (\<lambda>_.
           abind (abind (runtime_wait os 0) launched) (\<lambda>runtime.
           if runtime \<noteq> None then afail RuntimeExitedUnexpectedly
           else
             abind (owner ro_monitor_state) (\<lambda>state.
               if state \<noteq> LsListening then afail (UnexpectedLifecycleState state) else aret ()))))))))"

subsection \<open>Cleanup\<close>

definition join_monitors :: "life_oracle \<Rightarrow> bool \<Rightarrow> (runtime_owner, unit) act" where
  "join_monitors os strict_protocol =
     abind (owner ro_stdout_thread) (\<lambda>out.
     abind (update (\<lambda>ow. ow\<lparr>ro_stdout_thread := False\<rparr>)) (\<lambda>_.
     abind (if out then ask LJoinStdout (wo_join_stdout os) else aret True) (\<lambda>joined.
     let first_error = (if joined then None else Some (MonitorThreadPanicked ''stdout'')) in
     abind (owner ro_stderr_thread) (\<lambda>err.
     abind (update (\<lambda>ow. ow\<lparr>ro_stderr_thread := False\<rparr>)) (\<lambda>_.
     abind (if err then
              abind (ask LJoinStderr (wo_join_stderr os)) (\<lambda>r.
              case r of
                Some n \<Rightarrow> abind (update (\<lambda>ow. ow\<lparr>ro_discarded_stderr_bytes := n\<rparr>)) (\<lambda>_. aret first_error)
              | None \<Rightarrow> aret (store_first_error first_error (MonitorThreadPanicked ''stderr'')))
            else aret first_error) (\<lambda>first_error1.
     abind (attempt (drain_monitor os strict_protocol)) (\<lambda>drained.
       alift (result_or (case drained of Inl e \<Rightarrow> store_first_error first_error1 e | Inr _ \<Rightarrow> first_error1)))))))))"

text \<open>The exact session cleanup: the first error so far and whether the directory is gone.\<close>

definition clean_private_session ::
  "life_oracle \<Rightarrow> lifecycle_error option \<Rightarrow> (runtime_owner, lifecycle_error option \<times> bool) act" where
  "clean_private_session os first_error =
     abind (owner ro_session) (\<lambda>s0.
     case s0 of
       None \<Rightarrow> aret (first_error, True)
     | Some s \<Rightarrow>
         abind (session_verify os s) (\<lambda>verified.
         let first_error1 = (case verified of Inl e \<Rightarrow> store_first_error first_error (Launch e) | Inr _ \<Rightarrow> first_error) in
         abind (session_clean os s) (\<lambda>cleaned.
         case cleaned of
           Inr _ \<Rightarrow> aret (first_error1, True)
         | Inl e \<Rightarrow> aret (store_first_error first_error1 (Launch e), False))))"

text \<open>Closing the Job and releasing what the owner holds, once the Job is empty.\<close>

definition release_owner ::
  "life_oracle \<Rightarrow> bool \<Rightarrow> lifecycle_error option \<Rightarrow> (runtime_owner, lifecycle_error option \<times> bool) act" where
  "release_owner os strict_protocol first_error =
     abind (owner ro_process) (\<lambda>p.
     abind (update (\<lambda>ow. ow\<lparr>ro_process := None\<rparr>)) (\<lambda>_.
     abind (if p = None then aret () else ask LCloseJob (\<lambda>_. ())) (\<lambda>_.
     abind (attempt (join_monitors os strict_protocol)) (\<lambda>joined.
     let first_error1 = (case joined of Inl e \<Rightarrow> store_first_error first_error e | Inr _ \<Rightarrow> first_error) in
     abind (clean_private_session os first_error1) (\<lambda>(first_error2, session_removed).
     abind (update (\<lambda>ow. if session_removed then ow\<lparr>ro_session := None\<rparr> else ow)) (\<lambda>_.
     abind (update (\<lambda>ow. ow\<lparr>ro_runtime := None, ro_upstream_secret := None\<rparr>)) (\<lambda>_.
     abind (update (\<lambda>ow. if session_removed then ow\<lparr>ro_owner_state := OwnerCleaned\<rparr> else ow)) (\<lambda>_.
       aret (first_error2, session_removed)))))))))"

definition empty_outcome :: "launch_error + bool \<Rightarrow> lifecycle_error option \<Rightarrow> lifecycle_error option \<times> bool" where
  "empty_outcome r first_error =
     (case r of
        Inr True \<Rightarrow> (first_error, True)
      | Inr False \<Rightarrow> (store_first_error first_error JobDidNotBecomeEmpty, False)
      | Inl e \<Rightarrow> (store_first_error first_error (Launch e), False))"

definition wait_outcome ::
  "launch_error + nat option \<Rightarrow> lifecycle_error option \<Rightarrow> lifecycle_error option \<times> nat option" where
  "wait_outcome r first_error =
     (case r of Inr code \<Rightarrow> (first_error, code) | Inl e \<Rightarrow> (store_first_error first_error (Launch e), None))"

text \<open>The first half of \<open>finish_cleanup\<close>: whether the Job is empty, and the two exit codes.\<close>

definition observe_exit ::
  "life_oracle \<Rightarrow> (runtime_owner, lifecycle_error option \<times> bool \<times> nat option \<times> nat option) act" where
  "observe_exit os =
     abind (owner ro_limits) (\<lambda>l.
     abind (owner ro_process) (\<lambda>p.
     abind (case p of
              Some _ \<Rightarrow>
                abind (job_wait_for_empty os (ll_termination_timeout l)) (\<lambda>e.
                abind (process_wait os (ll_termination_timeout l)) (\<lambda>c.
                let (first_error, job_empty) = empty_outcome e None;
                    (first_error1, wrapper_exit_code) = wait_outcome c first_error
                in aret (first_error1, job_empty, wrapper_exit_code)))
            | None \<Rightarrow> aret (Some OwnerNotRunning, False, None)) (\<lambda>(first_error, job_empty, wrapper_exit_code).
     abind (owner ro_runtime) (\<lambda>rt.
     abind (case rt of
              Some _ \<Rightarrow>
                abind (runtime_wait os (ll_termination_timeout l)) (\<lambda>c. aret (wait_outcome c first_error))
            | None \<Rightarrow> aret (store_first_error first_error RuntimeIdentityUnavailable, None))
       (\<lambda>(first_error1, runtime_exit_code).
       aret (if wrapper_exit_code = None \<or> runtime_exit_code = None
             then store_first_error first_error1 ProcessDidNotExit else first_error1,
             job_empty, wrapper_exit_code, runtime_exit_code))))))"

definition finish_cleanup ::
  "life_oracle \<Rightarrow> shutdown_kind \<Rightarrow> bool \<Rightarrow> (runtime_owner, shutdown_report) act" where
  "finish_cleanup os kind strict_protocol =
     abind (observe_exit os) (\<lambda>(first_error, job_empty, wrapper_exit_code, runtime_exit_code).
     if \<not> job_empty \<or> wrapper_exit_code = None \<or> runtime_exit_code = None
     then afail (case first_error of Some e \<Rightarrow> e | None \<Rightarrow> ProcessDidNotExit)
     else
       abind (release_owner os strict_protocol first_error) (\<lambda>(first_error1, session_removed).
       case first_error1 of
         Some e \<Rightarrow> afail e
       | None \<Rightarrow>
           abind (owner ro_ignored_stdout_lines) (\<lambda>ignored.
           abind (owner ro_discarded_stderr_bytes) (\<lambda>discarded.
             aret \<lparr>sr_kind = kind, sr_wrapper_exit_code = wrapper_exit_code,
                   sr_runtime_exit_code = runtime_exit_code, sr_ignored_stdout_lines = ignored,
                   sr_discarded_stderr_bytes = discarded, sr_job_empty = job_empty,
                   sr_session_removed = session_removed\<rparr>))))"

definition terminate_job :: "life_oracle \<Rightarrow> (runtime_owner, lifecycle_error option \<times> bool) act" where
  "terminate_job os =
     abind (owner ro_limits) (\<lambda>l.
     abind (job_terminate os FORCED_EXIT_CODE) (\<lambda>t.
     abind (job_wait_for_empty os (ll_termination_timeout l)) (\<lambda>e.
       aret (empty_outcome e (case t of Inl err \<Rightarrow> Some (Launch err) | Inr _ \<Rightarrow> None)))))"

definition force_and_cleanup :: "life_oracle \<Rightarrow> (runtime_owner, shutdown_report) act" where
  "force_and_cleanup os =
     abind (owner ro_process) (\<lambda>p.
     abind (if p \<noteq> None then abind (terminate_job os) (\<lambda>(first_error, _). aret first_error)
            else aret (Some OwnerNotRunning)) (\<lambda>first_error.
     abind (attempt (finish_cleanup os Forced False)) (\<lambda>cleanup.
     case first_error of
       None \<Rightarrow> alift cleanup
     | Some primary \<Rightarrow>
         (case cleanup of
            Inr _ \<Rightarrow> afail primary
          | Inl e \<Rightarrow> afail (combine_cleanup_error primary (Some e))))))"

definition abort_and_cleanup :: "life_oracle \<Rightarrow> (runtime_owner, unit) act" where
  "abort_and_cleanup os =
     abind (update (\<lambda>ow. ow\<lparr>ro_owner_state := OwnerStopping\<rparr>)) (\<lambda>_.
     abind (owner ro_process) (\<lambda>p.
     abind (if p \<noteq> None then terminate_job os else aret (None, True)) (\<lambda>(first_error, job_empty).
     if \<not> job_empty then afail (case first_error of Some e \<Rightarrow> e | None \<Rightarrow> JobDidNotBecomeEmpty)
     else
       abind (release_owner os False first_error) (\<lambda>(first_error1, _). alift (result_or first_error1)))))"

subsection \<open>Shutdown\<close>

definition graceful_completion_observed :: "life_oracle \<Rightarrow> (runtime_owner, bool) act" where
  "graceful_completion_observed os =
     abind (owner ro_monitor_state) (\<lambda>state.
     if state \<noteq> LsStopped then aret False
     else
       abind process_ref (\<lambda>_.
       abind (abind (process_wait os 0) launched) (\<lambda>wrapper.
       abind runtime_ref (\<lambda>_.
       abind (abind (runtime_wait os 0) launched) (\<lambda>runtime.
       if wrapper \<noteq> None \<and> runtime \<noteq> None then
         abind (ask LActiveCount (\<lambda>h. wo_accounting os h 0)) (\<lambda>r.
         abind (launched r) (\<lambda>active. aret (active = 0)))
       else aret False)))))"

definition shutdown_turn :: "life_oracle \<Rightarrow> nat \<Rightarrow> (runtime_owner, shutdown_report option) act" where
  "shutdown_turn os deadline =
     abind (attempt (drain_monitor os True)) (\<lambda>drained.
     case drained of
       Inl primary \<Rightarrow>
         abind (attempt (force_and_cleanup os)) (\<lambda>cleanup. afail (combine_cleanup_error primary (error_of cleanup)))
     | Inr _ \<Rightarrow>
         abind (graceful_completion_observed os) (\<lambda>complete.
         if complete then abind (finish_cleanup os Graceful True) (\<lambda>report. aret (Some report))
         else
           abind (now os) (\<lambda>t.
           if deadline \<le> t then abind (force_and_cleanup os) (\<lambda>report. aret (Some report))
           else
             abind (remaining_poll os deadline) (\<lambda>d.
             abind (ask (LSleep d) (\<lambda>_. ())) (\<lambda>_. aret None)))))"

text \<open>Asking the launcher to stop, through the control file.\<close>

definition signal_stop :: "life_oracle \<Rightarrow> (runtime_owner, unit) act" where
  "signal_stop os =
     abind session_ref (\<lambda>s.
     abind (ask LCreateControl (\<lambda>h. snd (create_control_file (wo_session os h) s []))) (\<lambda>r.
     case r of
       Inl primary \<Rightarrow>
         abind (attempt (force_and_cleanup os)) (\<lambda>cleanup.
           afail (combine_cleanup_error (Launch primary) (error_of cleanup)))
     | Inr _ \<Rightarrow> aret ()))"

definition request_stop :: "life_oracle \<Rightarrow> (runtime_owner, unit) act" where
  "request_stop os = abind (update (\<lambda>ow. ow\<lparr>ro_owner_state := OwnerStopping\<rparr>)) (\<lambda>_. signal_stop os)"

definition shutdown :: "life_oracle \<Rightarrow> (runtime_owner, shutdown_report) act" where
  "shutdown os =
     abind (owner ro_owner_state) (\<lambda>st.
     if st = OwnerCleaned then afail OwnerAlreadyCleaned
     else
       abind (if st \<noteq> OwnerStopping then request_stop os else aret ()) (\<lambda>_.
       abind (owner ro_limits) (\<lambda>l.
       abind (checked_deadline os (ll_graceful_timeout l)) (\<lambda>deadline.
         loop_act (shutdown_turn os deadline)))))"

definition force_shutdown :: "life_oracle \<Rightarrow> (runtime_owner, shutdown_report) act" where
  "force_shutdown os =
     abind (owner ro_owner_state) (\<lambda>st.
     if st = OwnerCleaned then afail OwnerAlreadyCleaned
     else
       abind (update (\<lambda>ow. ow\<lparr>ro_owner_state := OwnerStopping\<rparr>)) (\<lambda>_. force_and_cleanup os))"

definition retry_private_cleanup :: "life_oracle \<Rightarrow> (runtime_owner, unit) act" where
  "retry_private_cleanup os =
     abind (owner (\<lambda>ow. ow)) (\<lambda>ow.
     if ro_owner_state ow = OwnerCleaned then afail OwnerAlreadyCleaned
     else if ro_process ow \<noteq> None \<or> ro_stdout_thread ow \<or> ro_stderr_thread ow
     then afail OwnerStillHasLiveResources
     else
       abind (clean_private_session os None) (\<lambda>(first_error, removed).
       abind (update (\<lambda>ow. if removed
                          then ow\<lparr>ro_session := None, ro_runtime := None, ro_upstream_secret := None,
                                 ro_owner_state := OwnerCleaned\<rparr>
                          else ow)) (\<lambda>_.
         alift (result_or first_error))))"

text \<open>Dropping the owner aborts what is not cleaned yet; the fields go last, and with them the Job.\<close>

definition owner_drop :: "life_oracle \<Rightarrow> (runtime_owner, unit) act" where
  "owner_drop os =
     abind (owner ro_owner_state) (\<lambda>st.
     abind (if st \<noteq> OwnerCleaned then abind (attempt (abort_and_cleanup os)) (\<lambda>_. aret ()) else aret ()) (\<lambda>_.
     abind (owner ro_process) (\<lambda>p. if p \<noteq> None then ask LCloseJob (\<lambda>_. ()) else aret ())))"

section \<open>Lemmas\<close>

subsection \<open>Running actions\<close>

lemma abind_Inr:
  "abind m f w = Some (w1, Inr y) \<longleftrightarrow> (\<exists>w2 x. m w = Some (w2, Inr x) \<and> f x w2 = Some (w1, Inr y))"
  by (auto simp: abind_def split: option.splits sum.splits)

lemma abind_Some:
  "abind m f w = Some (w1, r) \<longleftrightarrow>
     (\<exists>e. m w = Some (w1, Inl e) \<and> r = Inl e) \<or> (\<exists>w2 x. m w = Some (w2, Inr x) \<and> f x w2 = Some (w1, r))"
  by (auto simp: abind_def split: option.splits sum.splits)

lemma abind_None:
  "abind m f w = None \<longleftrightarrow> m w = None \<or> (\<exists>w2 x. m w = Some (w2, Inr x) \<and> f x w2 = None)"
  by (auto simp: abind_def split: option.splits sum.splits)

lemma abind_cases:
  assumes "abind m f w = Some (w1, r)"
  obtains (fails) e where "m w = Some (w1, Inl e)" "r = Inl e"
    | (runs) w2 x where "m w = Some (w2, Inr x)" "f x w2 = Some (w1, r)"
  using assms unfolding abind_Some by blast

lemma attempt_Some: "attempt m w = Some (w1, r) \<longleftrightarrow> (\<exists>r0. m w = Some (w1, r0) \<and> r = Inr r0)"
  by (auto simp: attempt_def split: option.splits)

lemma attempt_None: "attempt m w = None \<longleftrightarrow> m w = None"
  by (auto simp: attempt_def split: option.splits)

lemma ask_partial_Some:
  "ask_partial op f w = Some (w1, r) \<longleftrightarrow>
     (\<exists>x. f (snd w @ [op]) = Some x \<and> w1 = (fst w, snd w @ [op]) \<and> r = Inr x)"
  by (auto simp: ask_partial_def Let_def split: option.splits)

lemmas act_defs = aret_def afail_def alift_def owner_def update_def ask_def launched_def now_def

subsection \<open>Relations that every step keeps\<close>

definition keeps :: "('o world \<Rightarrow> 'o world \<Rightarrow> bool) \<Rightarrow> ('o, 'a) act \<Rightarrow> bool" where
  "keeps F m \<longleftrightarrow> (\<forall>w w1 r. m w = Some (w1, r) \<longrightarrow> F w w1)"

lemma keepsD: "keeps F m \<Longrightarrow> m w = Some (w1, r) \<Longrightarrow> F w w1"
  unfolding keeps_def by blast

locale frame =
  fixes F :: "'o world \<Rightarrow> 'o world \<Rightarrow> bool"
  assumes same: "F w w"
    and trans: "F a b \<Longrightarrow> F b c \<Longrightarrow> F a c"
begin

lemma keeps_pure: "keeps F (aret x)" "keeps F (afail e)" "keeps F (alift r)" "keeps F (owner f)"
  by (simp_all add: keeps_def act_defs same)

lemma keeps_launched: "keeps F (launched r)"
  by (simp add: keeps_def act_defs same)

lemma keeps_abind:
  assumes "keeps F m" and "\<And>x. keeps F (f x)"
  shows "keeps F (abind m f)"
  unfolding keeps_def abind_Some using assms by (blast dest: keepsD intro: trans)

lemma keeps_attempt: "keeps F m \<Longrightarrow> keeps F (attempt m)"
  by (auto simp: keeps_def attempt_Some)

text \<open>The turn in which a loop ends.\<close>

lemma loop_turn:
  assumes "\<And>w w1. body w = Some (w1, Inr None) \<Longrightarrow> F w w1" and "loop_act body w = Some (w1, r)"
  shows "\<exists>w0. F w w0 \<and> (case r of Inl e \<Rightarrow> body w0 = Some (w1, Inl e)
                        | Inr x \<Rightarrow> body w0 = Some (w1, Inr (Some x)))"
proof -
  have "(\<forall>w w1. b w = Some (w1, Inr None) \<longrightarrow> F w w1) \<longrightarrow> (\<exists>w0. F v w0 \<and> (case snd y of Inl e \<Rightarrow> b w0 = Some (fst y, Inl e)
                        | Inr x \<Rightarrow> b w0 = Some (fst y, Inr (Some x))))"
    if "loop_act b v = Some y" for b v y
  proof (rule loop_act.raw_induct [OF _ that], intro impI)
    fix loop b v y
    assume IH: "\<And>b v y. loop b v = Some y \<Longrightarrow>
        (\<forall>w w1. b w = Some (w1, Inr None) \<longrightarrow> F w w1) \<longrightarrow> (\<exists>w0. F v w0 \<and> (case snd y of Inl e \<Rightarrow> b w0 = Some (fst y, Inl e)
                        | Inr x \<Rightarrow> b w0 = Some (fst y, Inr (Some x))))"
      and step: "(case b v of None \<Rightarrow> None
        | Some (w1, r) \<Rightarrow> (case r of Inl e \<Rightarrow> Some (w1, Inl e) | Inr None \<Rightarrow> loop b w1 | Inr (Some x) \<Rightarrow> Some (w1, Inr x)))
        = Some y"
      and b: "\<forall>w w1. b w = Some (w1, Inr None) \<longrightarrow> F w w1"
    from step obtain v1 q where v1: "b v = Some (v1, q)" by (auto split: option.splits)
    show "\<exists>w0. F v w0 \<and> (case snd y of Inl e \<Rightarrow> b w0 = Some (fst y, Inl e)
                        | Inr x \<Rightarrow> b w0 = Some (fst y, Inr (Some x)))"
    proof (cases "q = Inr None")
      case True
      with step v1 have "loop b v1 = Some y" by simp
      with IH b obtain w0 where "F v1 w0" "case snd y of Inl e \<Rightarrow> b w0 = Some (fst y, Inl e)
                        | Inr x \<Rightarrow> b w0 = Some (fst y, Inr (Some x))" by blast
      moreover have "F v v1" using b v1 True by blast
      ultimately show ?thesis using trans by blast
    next
      case False
      with step v1 same [of v] show ?thesis
        by (intro exI [of _ v]) (auto split: sum.splits option.splits)
    qed
  qed
  from this [OF assms(2)] show ?thesis by (simp only: fst_conv snd_conv) (use assms(1) in blast)
qed

lemma loop_last_turn:
  assumes "keeps F body" and "loop_act body w = Some (w1, r)"
  shows "\<exists>w0. F w w0 \<and> (case r of Inl e \<Rightarrow> body w0 = Some (w1, Inl e)
                        | Inr x \<Rightarrow> body w0 = Some (w1, Inr (Some x)))"
  using keepsD [OF assms(1)] assms(2) by (rule loop_turn)

lemma keeps_loop:
  assumes "keeps F body"
  shows "keeps F (loop_act body)"
  unfolding keeps_def
proof (intro allI impI)
  fix w w1 r assume "loop_act body w = Some (w1, r)"
  from loop_last_turn [OF assms this] obtain w0 r0 where "F w w0" "body w0 = Some (w1, r0)"
    by (cases r) (simp_all only: sum.case, blast+)
  then show "F w w1" using keepsD [OF assms] trans by blast
qed

lemmas keeps_intros = keeps_pure keeps_launched keeps_abind keeps_attempt keeps_loop

end

text \<open>An owner that only changed what it knows about the monitored streams, and a history that went on
  without closing the Job.\<close>

definition monitored :: "runtime_owner world \<Rightarrow> runtime_owner world \<Rightarrow> bool" where
  "monitored w w1 \<longleftrightarrow>
     (\<exists>k. snd w1 = snd w @ k \<and> LCloseJob \<notin> set k)
     \<and> (\<exists>state ignored ended. fst w1 =
          (fst w)\<lparr>ro_monitor_state := state, ro_ignored_stdout_lines := ignored, ro_stdout_ended := ended\<rparr>)"

lemma monitored_same: "monitored w w"
proof -
  have "fst w = (fst w)\<lparr>ro_monitor_state := ro_monitor_state (fst w),
      ro_ignored_stdout_lines := ro_ignored_stdout_lines (fst w), ro_stdout_ended := ro_stdout_ended (fst w)\<rparr>"
    by simp
  then show ?thesis unfolding monitored_def by (metis append_Nil2 empty_iff list.set(1))
qed

lemma monitored_trans: "monitored a b \<Longrightarrow> monitored b c \<Longrightarrow> monitored a c"
  by (auto simp: monitored_def) blast

interpretation monitored: frame monitored
  by unfold_locales (fact monitored_same, fact monitored_trans)

lemma monitored_fields:
  assumes "monitored w w1"
  shows "ro_bundle (fst w1) = ro_bundle (fst w)" "ro_upstream_port (fst w1) = ro_upstream_port (fst w)"
    "ro_upstream_secret (fst w1) = ro_upstream_secret (fst w)" "ro_limits (fst w1) = ro_limits (fst w)"
    "ro_session (fst w1) = ro_session (fst w)" "ro_process (fst w1) = ro_process (fst w)"
    "ro_runtime (fst w1) = ro_runtime (fst w)" "ro_stdout_thread (fst w1) = ro_stdout_thread (fst w)"
    "ro_stderr_thread (fst w1) = ro_stderr_thread (fst w)" "ro_owner_state (fst w1) = ro_owner_state (fst w)"
    "ro_discarded_stderr_bytes (fst w1) = ro_discarded_stderr_bytes (fst w)"
  using assms by (auto simp: monitored_def)

lemma monitored_history: "monitored w w1 \<Longrightarrow> \<exists>k. snd w1 = snd w @ k \<and> LCloseJob \<notin> set k"
  by (auto simp: monitored_def)

lemma monitored_call: "op \<noteq> LCloseJob \<Longrightarrow> monitored w (fst w, snd w @ [op])"
  using monitored_same [of w] by (auto simp: monitored_def)

lemma monitored_ask: "op \<noteq> LCloseJob \<Longrightarrow> keeps monitored (ask op f)"
  by (auto simp: keeps_def ask_def Let_def monitored_call)

lemma monitored_ask_partial: "op \<noteq> LCloseJob \<Longrightarrow> keeps monitored (ask_partial op f)"
  by (auto simp: keeps_def ask_partial_Some monitored_call)

lemmas monitored_intros = monitored.keeps_intros monitored_ask monitored_ask_partial

lemma monitored_now: "keeps monitored (now os)"
  by (simp add: now_def monitored_ask)

lemma monitored_refs: "keeps monitored process_ref" "keeps monitored runtime_ref" "keeps monitored session_ref"
  by (auto simp: process_ref_def runtime_ref_def session_ref_def intro!: monitored_intros)

lemma monitored_calls:
  "keeps monitored (checked_deadline os d)" "keeps monitored (remaining_poll os d)"
  "keeps monitored (process_wait os d)" "keeps monitored (runtime_wait os d)"
  "keeps monitored (job_terminate os c)" "keeps monitored (job_wait_for_empty os d)"
  "keeps monitored (session_verify os s)" "keeps monitored (session_clean os s)"
  by (auto simp: checked_deadline_def remaining_poll_def process_wait_def runtime_wait_def job_terminate_def
      job_wait_for_empty_def session_verify_def session_clean_def intro!: monitored_intros monitored_now)

lemma monitored_update:
  "keeps monitored (update (\<lambda>ow. ow\<lparr>ro_monitor_state := state\<rparr>))"
  "keeps monitored (update (\<lambda>ow. ow\<lparr>ro_monitor_state := state, ro_ignored_stdout_lines := n, ro_stdout_ended := True\<rparr>))"
proof -
  have "w\<lparr>ro_monitor_state := state\<rparr> =
      w\<lparr>ro_monitor_state := state, ro_ignored_stdout_lines := ro_ignored_stdout_lines w,
        ro_stdout_ended := ro_stdout_ended w\<rparr>" for w :: runtime_owner
    by simp
  then show "keeps monitored (update (\<lambda>ow. ow\<lparr>ro_monitor_state := state\<rparr>))"
    unfolding keeps_def update_def monitored_def
    by (metis append_Nil2 empty_iff fst_conv list.set(1) option.inject snd_conv)
  show "keeps monitored (update (\<lambda>ow. ow\<lparr>ro_monitor_state := state, ro_ignored_stdout_lines := n, ro_stdout_ended := True\<rparr>))"
    unfolding keeps_def update_def monitored_def by auto
qed

lemma monitored_apply: "keeps monitored (apply_monitor message strict)"
  unfolding apply_monitor_def
  by (cases message) (auto intro!: monitored_intros monitored_update)

lemma monitored_drain: "keeps monitored (drain_monitor os strict)"
  unfolding drain_monitor_def drain_turn_def
  by (intro monitored_intros)
    (auto intro!: monitored_intros monitored_apply split: received.splits option.splits monitor_event.splits)

lemmas monitored_parts = monitored_intros monitored_now monitored_refs monitored_calls monitored_apply monitored_drain

lemma monitored_checks:
  "keeps monitored (verify_token_consumed os)" "keeps monitored (ensure_wrapper_alive_before_ready os)"
  "keeps monitored (ensure_processes_alive_before_ready os)"
  unfolding verify_token_consumed_def ensure_wrapper_alive_before_ready_def ensure_processes_alive_before_ready_def
  by (intro monitored_parts; auto intro!: monitored_parts split: sum.splits bool.splits option.splits)+

lemma monitored_listener_turn: "keeps monitored (listener_turn os d)"
  unfolding listener_turn_def
  by (intro monitored_parts monitored_checks) (auto intro!: monitored_parts monitored_checks split: sum.splits)

lemma monitored_readiness_turn: "keeps monitored (readiness_turn os d)"
  unfolding readiness_turn_def Let_def
  by (intro monitored_parts monitored_checks) (auto intro!: monitored_parts monitored_checks)

lemma monitored_waits:
  "keeps monitored (wait_for_listener os d)" "keeps monitored (wait_for_authenticated_readiness os d)"
  "keeps monitored (capture_runtime os pid)"
  unfolding wait_for_listener_def wait_for_authenticated_readiness_def capture_runtime_def
  by (intro monitored_parts monitored_listener_turn monitored_readiness_turn;
      auto intro!: monitored_parts monitored_listener_turn)+

lemma monitored_health: "keeps monitored (poll_health os)"
  unfolding poll_health_def
  by (intro monitored_parts) (auto intro!: monitored_parts)

lemma monitored_completion: "keeps monitored (graceful_completion_observed os)"
  unfolding graceful_completion_observed_def
  by (intro monitored_parts) (auto intro!: monitored_parts)

lemma monitored_session: "keeps monitored (clean_private_session os first_error)"
  unfolding clean_private_session_def Let_def
  by (intro monitored_parts) (auto intro!: monitored_parts split: option.splits sum.splits)

lemma monitored_terminate: "keeps monitored (terminate_job os)"
  unfolding terminate_job_def by (intro monitored_parts)

lemma monitored_exit: "keeps monitored (observe_exit os)"
  unfolding observe_exit_def split_beta Let_def
  by (intro monitored_parts) (auto intro!: monitored_parts split: option.splits)

subsection \<open>Startup\<close>

text \<open>What a successful startup saw last: a listening event, the consumed token, the captured Job
  member, its verified listener and an authenticated response, in this order.\<close>

definition ready_evidence ::
  "life_oracle \<Rightarrow> 16 word \<Rightarrow> secret \<Rightarrow> process_identity \<Rightarrow> life_op list \<Rightarrow> bool" where
  "ready_evidence os port s runtime h \<longleftrightarrow>
     (\<exists>h0 t state pid h1 member h2 k3 h3 listener k4 tm.
        h1 = h0 @ [LRecv t] \<and> wo_recv os h1 = Received (Event state (MonitorListening pid))
      \<and> wo_token_exists os (h1 @ [LTokenExists]) = Inr False
      \<and> h2 = h1 @ [LTokenExists, LCapture pid]
      \<and> capture_job_member (wo_open_process os h2) pid = Inr member \<and> jm_identity member = runtime
      \<and> h3 = h2 @ k3 @ [LVerifyListener port] \<and> listener_answer os h3 runtime port = Inr listener
      \<and> h = h3 @ k4 @ [LHttpReady port s tm]
      \<and> authenticated_http_ready (wo_http os h) port s = Inr True)"

lemma listener_last_turn:
  assumes "listener_turn os d w = Some (w1, Inr (Some x))"
  shows "\<exists>runtime k listener. ro_runtime (fst w) = Some runtime
    \<and> snd w1 = snd w @ k @ [LVerifyListener (ro_upstream_port (fst w))]
    \<and> listener_answer os (snd w1) runtime (ro_upstream_port (fst w)) = Inr listener"
proof -
  obtain w2 u w3 v where w2: "ensure_processes_alive_before_ready os w = Some (w2, Inr u)"
    and w3: "drain_monitor os True w2 = Some (w3, Inr v)"
    and rest: "abind process_ref (\<lambda>_. abind runtime_ref (\<lambda>identity. abind (owner ro_upstream_port) (\<lambda>port.
      abind (ask (LVerifyListener port) (\<lambda>h. listener_answer os h identity port)) (\<lambda>r.
      case r of
        Inr _ \<Rightarrow> aret (Some ())
      | Inl e \<Rightarrow>
          if e = ExpectedListenerNotFound then
            abind (now os) (\<lambda>t.
            if t < d then
              abind (remaining_poll os d) (\<lambda>d.
              abind (ask (LSleep d) (\<lambda>_. ())) (\<lambda>_. aret None))
            else afail (Launch e))
          else afail (Launch e))))) w3 = Some (w1, Inr (Some x))"
    using assms unfolding listener_turn_def by (auto simp: abind_Inr)
  have m: "monitored w w3"
    using keepsD [OF monitored_checks(3) w2] keepsD [OF monitored_drain w3] by (rule monitored_trans)
  obtain k where k: "snd w3 = snd w @ k" using monitored_history [OF m] by blast
  obtain runtime where rt: "ro_runtime (fst w3) = Some runtime"
    using rest by (auto simp: abind_Inr process_ref_def runtime_ref_def act_defs ok_or_def split: option.splits)
  let ?port = "ro_upstream_port (fst w3)" and ?h = "snd w3 @ [LVerifyListener (ro_upstream_port (fst w3))]"
  have "\<exists>listener. snd w1 = ?h \<and> listener_answer os ?h runtime ?port = Inr listener"
    using rest rt
    by (auto simp: abind_Inr process_ref_def runtime_ref_def act_defs Let_def split: sum.splits if_splits)
  with rt k monitored_fields [OF m] show ?thesis by auto
qed

lemma wait_for_listener_Ok:
  assumes "wait_for_listener os d w = Some (w1, Inr x)"
  shows "\<exists>runtime k listener. ro_runtime (fst w) = Some runtime
    \<and> snd w1 = snd w @ k @ [LVerifyListener (ro_upstream_port (fst w))]
    \<and> listener_answer os (snd w1) runtime (ro_upstream_port (fst w)) = Inr listener"
proof -
  obtain w2 d1 where w2: "checked_deadline os (ll_listener_timeout (ro_limits (fst w))) w = Some (w2, Inr d1)"
    and loop: "loop_act (listener_turn os (min d1 d)) w2 = Some (w1, Inr x)"
    using assms by (auto simp: wait_for_listener_def abind_Inr act_defs)
  from monitored.loop_last_turn [OF monitored_listener_turn loop] obtain w0 where
    w0: "monitored w2 w0" "listener_turn os (min d1 d) w0 = Some (w1, Inr (Some x))"
    by auto
  have m: "monitored w w0"
    using keepsD [OF monitored_calls(1) w2] w0(1) by (rule monitored_trans)
  with listener_last_turn [OF w0(2)] monitored_fields [OF m] monitored_history [OF m] show ?thesis by auto
qed

lemma readiness_Ok:
  assumes "wait_for_authenticated_readiness os d w = Some (w1, Inr x)"
  shows "\<exists>s k tm. ro_upstream_secret (fst w) = Some s
    \<and> snd w1 = snd w @ k @ [LHttpReady (ro_upstream_port (fst w)) s tm]
    \<and> authenticated_http_ready (wo_http os (snd w1)) (ro_upstream_port (fst w)) s = Inr True"
proof -
  from monitored.loop_last_turn [OF monitored_readiness_turn] assms obtain w0 where
    w0: "monitored w w0" "readiness_turn os d w0 = Some (w1, Inr (Some x))"
    unfolding wait_for_authenticated_readiness_def by fastforce
  obtain w2 u w3 v where w2: "ensure_processes_alive_before_ready os w0 = Some (w2, Inr u)"
    and w3: "drain_monitor os True w2 = Some (w3, Inr v)"
    using w0(2) unfolding readiness_turn_def by (auto simp: abind_Inr)
  have m: "monitored w w3"
    using w0(1) keepsD [OF monitored_checks(3) w2] keepsD [OF monitored_drain w3] by (blast intro: monitored_trans)
  let ?port = "ro_upstream_port (fst w3)"
  have "\<exists>s tm. ro_upstream_secret (fst w3) = Some s \<and> snd w1 = snd w3 @ [LNow] @ [LHttpReady ?port s tm]
      \<and> authenticated_http_ready (wo_http os (snd w1)) ?port s = Inr True"
    using w0(2) w2 w3 unfolding readiness_turn_def
    by (auto simp: abind_def act_defs Let_def ok_or_def map_err_def split: option.splits sum.splits if_splits prod.splits)
  with monitored_fields [OF m] monitored_history [OF m] show ?thesis by (metis append.assoc)
qed

text \<open>Startup changes nothing of the owner but the monitored streams, the captured runtime and the state.\<close>

definition starting :: "runtime_owner world \<Rightarrow> runtime_owner world \<Rightarrow> bool" where
  "starting w w1 \<longleftrightarrow>
     (\<exists>k. snd w1 = snd w @ k)
     \<and> (\<exists>rt st mon ignored ended. fst w1 = (fst w)\<lparr>ro_runtime := rt, ro_monitor_state := mon,
          ro_ignored_stdout_lines := ignored, ro_stdout_ended := ended, ro_owner_state := st\<rparr>)"

lemma monitored_starting: "monitored w w1 \<Longrightarrow> starting w w1"
proof -
  assume "monitored w w1"
  then obtain k mon ignored ended where "snd w1 = snd w @ k"
      "fst w1 = (fst w)\<lparr>ro_monitor_state := mon, ro_ignored_stdout_lines := ignored, ro_stdout_ended := ended\<rparr>"
    by (auto simp: monitored_def)
  moreover from this(2) have "fst w1 = (fst w)\<lparr>ro_runtime := ro_runtime (fst w), ro_monitor_state := mon,
      ro_ignored_stdout_lines := ignored, ro_stdout_ended := ended, ro_owner_state := ro_owner_state (fst w)\<rparr>"
    by simp
  ultimately show ?thesis unfolding starting_def by blast
qed

lemma starting_trans: "starting a b \<Longrightarrow> starting b c \<Longrightarrow> starting a c"
  by (auto simp: starting_def) blast

interpretation starting: frame starting
  by unfold_locales (fact monitored_starting [OF monitored_same], fact starting_trans)

lemma keeps_starting: "keeps monitored m \<Longrightarrow> keeps starting m"
  by (auto simp: keeps_def intro: monitored_starting)

lemma starting_update:
  "keeps starting (update (\<lambda>ow. ow\<lparr>ro_runtime := rt\<rparr>))"
  "keeps starting (update (\<lambda>ow. ow\<lparr>ro_owner_state := st\<rparr>))"
proof -
  have "ow\<lparr>ro_runtime := rt\<rparr> = ow\<lparr>ro_runtime := rt, ro_monitor_state := ro_monitor_state ow,
      ro_ignored_stdout_lines := ro_ignored_stdout_lines ow, ro_stdout_ended := ro_stdout_ended ow,
      ro_owner_state := ro_owner_state ow\<rparr>"
    "ow\<lparr>ro_owner_state := st\<rparr> = ow\<lparr>ro_runtime := ro_runtime ow, ro_monitor_state := ro_monitor_state ow,
      ro_ignored_stdout_lines := ro_ignored_stdout_lines ow, ro_stdout_ended := ro_stdout_ended ow,
      ro_owner_state := st\<rparr>" for ow
    by simp_all
  then show "keeps starting (update (\<lambda>ow. ow\<lparr>ro_runtime := rt\<rparr>))"
    "keeps starting (update (\<lambda>ow. ow\<lparr>ro_owner_state := st\<rparr>))"
    unfolding keeps_def update_def starting_def by (metis append_Nil2 fst_conv option.inject snd_conv)+
qed

lemmas starting_parts = starting.keeps_intros starting_update keeps_starting [OF monitored_ask]
  keeps_starting [OF monitored_checks(1)] keeps_starting [OF monitored_checks(2)]
  keeps_starting [OF monitored_waits(1)] keeps_starting [OF monitored_waits(2)]
  keeps_starting [OF monitored_waits(3)] keeps_starting [OF monitored_now] keeps_starting [OF monitored_refs(1)]
  keeps_starting [OF monitored_calls(1)] keeps_starting [OF monitored_calls(2)] keeps_starting [OF monitored_calls(3)]
  keeps_starting [OF monitored_apply]

lemma starting_event: "keeps starting (startup_event os d event)"
  unfolding startup_event_def
  by (auto intro!: starting_parts split: option.splits monitor_event.splits)

lemma starting_message: "keeps starting (startup_message os d message)"
  unfolding startup_message_def
  by (auto intro!: starting_parts starting_event split: option.splits monitor_message.splits)

lemma starting_ready_turn: "keeps starting (ready_turn os d)"
  unfolding ready_turn_def
  by (intro starting_parts) (auto intro!: starting_parts starting_message split: received.splits)

lemma startup_event_Ok:
  assumes "startup_event os d event w = Some (w1, Inr (Some x))"
  obtains pid k member runtime listener s tm k3 k4 where "event = Some (MonitorListening pid)"
    "wo_token_exists os (snd w @ [LTokenExists]) = Inr False"
    "capture_job_member (wo_open_process os (snd w @ [LTokenExists, LCapture pid])) pid = Inr member"
    "jm_identity member = runtime"
    "listener_answer os (snd w @ [LTokenExists, LCapture pid] @ k3 @ [LVerifyListener (ro_upstream_port (fst w))])
       runtime (ro_upstream_port (fst w)) = Inr listener"
    "snd w1 = (snd w @ [LTokenExists, LCapture pid] @ k3 @ [LVerifyListener (ro_upstream_port (fst w))])
       @ k4 @ [LHttpReady (ro_upstream_port (fst w)) s tm]"
    "authenticated_http_ready (wo_http os (snd w1)) (ro_upstream_port (fst w)) s = Inr True"
    "ro_owner_state (fst w1) = OwnerReady" "ro_runtime (fst w1) = Some runtime" "ro_upstream_secret (fst w) = Some s"
proof -
  obtain pid where pid: "event = Some (MonitorListening pid)"
    using assms by (auto simp: startup_event_def abind_Inr act_defs split: option.splits monitor_event.splits)
  obtain w2 w3 member w5 w6 u v where w2: "verify_token_consumed os w = Some (w2, Inr ())"
    and w3: "capture_runtime os pid w2 = Some (w3, Inr member)"
    and w5: "wait_for_listener os d ((fst w3)\<lparr>ro_runtime := Some member\<rparr>, snd w3) = Some (w5, Inr u)"
    and w6: "wait_for_authenticated_readiness os d w5 = Some (w6, Inr v)"
    and w1: "w1 = ((fst w6)\<lparr>ro_owner_state := OwnerReady\<rparr>, snd w6)"
    using assms by (auto simp: pid startup_event_def abind_Inr act_defs)
  have w2': "w2 = (fst w, snd w @ [LTokenExists])" "wo_token_exists os (snd w @ [LTokenExists]) = Inr False"
    using w2 by (auto simp: verify_token_consumed_def session_ref_def abind_Inr act_defs Let_def
        split: sum.splits bool.splits)
  obtain mb where w3': "w3 = (fst w2, snd w2 @ [LCapture pid])" "jm_identity mb = member"
      "capture_job_member (wo_open_process os (snd w2 @ [LCapture pid])) pid = Inr mb"
    using w3 by (auto simp: capture_runtime_def process_ref_def abind_Inr act_defs Let_def map_err_def
        split: sum.splits)
  obtain k3 listener where k3: "snd w5 = snd w3 @ k3 @ [LVerifyListener (ro_upstream_port (fst w3))]"
      "listener_answer os (snd w5) member (ro_upstream_port (fst w3)) = Inr listener"
    using wait_for_listener_Ok [OF w5] by auto
  have m5: "monitored ((fst w3)\<lparr>ro_runtime := Some member\<rparr>, snd w3) w5"
    and m6: "monitored w5 w6"
    using keepsD [OF monitored_waits(1) w5] keepsD [OF monitored_waits(2) w6] by auto
  obtain s k4 tm where k4: "ro_upstream_secret (fst w5) = Some s"
      "snd w6 = snd w5 @ k4 @ [LHttpReady (ro_upstream_port (fst w5)) s tm]"
      "authenticated_http_ready (wo_http os (snd w6)) (ro_upstream_port (fst w5)) s = Inr True"
    using readiness_Ok [OF w6] by blast
  show thesis
    by (rule that [OF pid w2'(2), of mb member k3 listener k4 s tm])
      (use w1 w2' w3' k3 k4 monitored_fields [OF m5] monitored_fields [OF m6] in \<open>auto\<close>)
qed

lemma ready_turn_Ok:
  assumes "ready_turn os d w = Some (w1, Inr (Some x))"
  shows "ro_owner_state (fst w1) = OwnerReady
    \<and> (\<exists>runtime s. ro_runtime (fst w1) = Some runtime \<and> ro_upstream_secret (fst w) = Some s
         \<and> ready_evidence os (ro_upstream_port (fst w)) s runtime (snd w1))"
proof -
  obtain w2 u t message where w2: "ensure_wrapper_alive_before_ready os w = Some (w2, Inr u)"
    and recv: "wo_recv os (snd w2 @ [LNow, LNow, LRecv t]) = Received message"
    and rest: "startup_message os d message (fst w2, snd w2 @ [LNow, LNow, LRecv t]) = Some (w1, Inr (Some x))"
    using assms unfolding ready_turn_def
    by (auto simp: abind_Inr act_defs Let_def remaining_poll_def split: if_splits received.splits)
  have m: "monitored w w2" by (rule keepsD [OF monitored_checks(2) w2])
  obtain event w3 where w3: "apply_monitor message True (fst w2, snd w2 @ [LNow, LNow, LRecv t]) = Some (w3, Inr event)"
    and ev: "startup_event os d event w3 = Some (w1, Inr (Some x))"
    using rest unfolding startup_message_def
    by (auto simp: abind_Inr act_defs split: monitor_message.splits option.splits)
  from ev obtain pid k member runtime listener s tm k3 k4 where e: "event = Some (MonitorListening pid)"
    "wo_token_exists os (snd w3 @ [LTokenExists]) = Inr False"
    "capture_job_member (wo_open_process os (snd w3 @ [LTokenExists, LCapture pid])) pid = Inr member"
    "jm_identity member = runtime"
    "listener_answer os (snd w3 @ [LTokenExists, LCapture pid] @ k3 @ [LVerifyListener (ro_upstream_port (fst w3))])
       runtime (ro_upstream_port (fst w3)) = Inr listener"
    "snd w1 = (snd w3 @ [LTokenExists, LCapture pid] @ k3 @ [LVerifyListener (ro_upstream_port (fst w3))])
       @ k4 @ [LHttpReady (ro_upstream_port (fst w3)) s tm]"
    "authenticated_http_ready (wo_http os (snd w1)) (ro_upstream_port (fst w3)) s = Inr True"
    "ro_owner_state (fst w1) = OwnerReady" "ro_runtime (fst w1) = Some runtime" "ro_upstream_secret (fst w3) = Some s"
    by (rule startup_event_Ok)
  obtain state where msg: "message = Event state (MonitorListening pid)" and h3: "snd w3 = snd w2 @ [LNow, LNow, LRecv t]"
    and f3: "ro_upstream_port (fst w3) = ro_upstream_port (fst w2)"
      "ro_upstream_secret (fst w3) = ro_upstream_secret (fst w2)"
    using w3 e(1) unfolding apply_monitor_def
    by (auto simp: abind_Inr act_defs split: monitor_message.splits if_splits)
  have "ready_evidence os (ro_upstream_port (fst w3)) s runtime (snd w1)"
    unfolding ready_evidence_def
    by (rule exI [of _ "snd w2 @ [LNow, LNow]"], rule exI [of _ t], rule exI [of _ state], rule exI [of _ pid],
        rule exI [of _ "snd w3"], rule exI [of _ member], rule exI [of _ "snd w3 @ [LTokenExists, LCapture pid]"],
        rule exI [of _ k3],
        rule exI [of _ "snd w3 @ [LTokenExists, LCapture pid] @ k3 @ [LVerifyListener (ro_upstream_port (fst w3))]"],
        rule exI [of _ listener], rule exI [of _ k4], rule exI [of _ tm])
      (use e msg h3 recv in simp)
  with e(8-10) f3 monitored_fields [OF m] show ?thesis by auto
qed

lemma wait_until_ready_Ok:
  assumes "wait_until_ready os w = Some (w1, Inr x)"
  shows "starting w w1 \<and> ro_owner_state (fst w1) = OwnerReady
    \<and> (\<exists>runtime s. ro_runtime (fst w1) = Some runtime \<and> ro_upstream_secret (fst w) = Some s
         \<and> ready_evidence os (ro_upstream_port (fst w)) s runtime (snd w1))"
proof -
  obtain w2 d where w2: "checked_deadline os (ll_startup_timeout (ro_limits (fst w))) w = Some (w2, Inr d)"
    and loop: "loop_act (ready_turn os d) w2 = Some (w1, Inr x)"
    using assms by (auto simp: wait_until_ready_def abind_Inr act_defs)
  from starting.loop_last_turn [OF starting_ready_turn loop] obtain w0 where
    w0: "starting w2 w0" "ready_turn os d w0 = Some (w1, Inr (Some x))"
    by auto
  have m: "starting w w0"
    using monitored_starting [OF keepsD [OF monitored_calls(1) w2]] w0(1) by (rule starting_trans)
  have "starting w w1" using m keepsD [OF starting_ready_turn w0(2)] by (rule starting_trans)
  moreover have "ro_upstream_port (fst w0) = ro_upstream_port (fst w)"
      "ro_upstream_secret (fst w0) = ro_upstream_secret (fst w)"
    using m by (auto simp: starting_def)
  ultimately show ?thesis using ready_turn_Ok [OF w0(2)] by simp
qed

end
