(* ===== verification/Owner_Cleanup.thy ===== *)
theory Owner_Cleanup
  imports Runtime_Owner
begin

text \<open>
  Shutdown and cleanup of \<open>RuntimeOwner\<close>: what every run of the cleanup operations of
  \<open>Runtime_Owner\<close> leaves in the owner and in the history of effects, and the invariant of the owner
  over all sequences of its public operations.
\<close>

section \<open>Cleanup\<close>

text \<open>The Job was asked for its processes after \<open>h0\<close> and had none.\<close>

definition job_seen_empty :: "life_oracle \<Rightarrow> life_op list \<Rightarrow> life_op list \<Rightarrow> bool" where
  "job_seen_empty os h0 h \<longleftrightarrow>
     (\<exists>a t b. h = h0 @ a @ [LWaitForEmpty t] @ b
        \<and> (let q = h0 @ a @ [LWaitForEmpty t] in
           wait_for_empty (wo_accounting os q) (wo_turn_clock os q) (wo_instant_max os) (wo_now os q) t
             = Some (Inr True)))"

lemma job_seen_empty_append: "job_seen_empty os h0 h \<Longrightarrow> job_seen_empty os h0 (h @ k)"
  unfolding job_seen_empty_def Let_def by (metis append.assoc)

lemma job_seen_empty_prefix: "job_seen_empty os (h0 @ k) h \<Longrightarrow> job_seen_empty os h0 h"
  unfolding job_seen_empty_def Let_def by (metis append.assoc)

text \<open>The owner after its cleanup, with or without the session directory removed.\<close>

definition released :: "runtime_owner \<Rightarrow> bool \<Rightarrow> runtime_owner \<Rightarrow> bool" where
  "released ow removed ow1 \<longleftrightarrow>
     ro_process ow1 = None \<and> \<not> ro_stdout_thread ow1 \<and> \<not> ro_stderr_thread ow1 \<and> ro_runtime ow1 = None
     \<and> ro_upstream_secret ow1 = None
     \<and> (if removed then ro_session ow1 = None \<and> ro_owner_state ow1 = OwnerCleaned
        else ro_session ow1 = ro_session ow \<and> ro_session ow \<noteq> None \<and> ro_owner_state ow1 = ro_owner_state ow)"

text \<open>The last effect was the session cleanup, and it succeeded.\<close>

definition session_gone :: "life_oracle \<Rightarrow> runtime_owner \<Rightarrow> life_op list \<Rightarrow> bool" where
  "session_gone os ow h \<longleftrightarrow>
     (case ro_session ow of None \<Rightarrow> True | Some s \<Rightarrow> snd (session_cleanup (wo_session os h) s []) = Inr ())"

text \<open>Joining the threads keeps everything else the owner holds.\<close>

definition joining :: "runtime_owner world \<Rightarrow> runtime_owner world \<Rightarrow> bool" where
  "joining w w1 \<longleftrightarrow>
     (\<exists>k. snd w1 = snd w @ k \<and> LCloseJob \<notin> set k)
     \<and> ro_owner_state (fst w1) = ro_owner_state (fst w) \<and> ro_session (fst w1) = ro_session (fst w)
     \<and> ro_process (fst w1) = ro_process (fst w)
     \<and> (ro_stdout_thread (fst w1) \<longrightarrow> ro_stdout_thread (fst w))
     \<and> (ro_stderr_thread (fst w1) \<longrightarrow> ro_stderr_thread (fst w))"

lemma joining_same: "joining w w"
  by (simp add: joining_def)

lemma joining_trans: "joining a b \<Longrightarrow> joining b c \<Longrightarrow> joining a c"
  by (fastforce simp: joining_def)

interpretation joining: frame joining
  by unfold_locales (fact joining_same, fact joining_trans)

lemma monitored_joining: "monitored w w1 \<Longrightarrow> joining w w1"
  using monitored_fields [of w w1] monitored_history [of w w1] by (simp add: joining_def)

lemma keeps_joining: "keeps monitored m \<Longrightarrow> keeps joining m"
  by (auto simp: keeps_def intro: monitored_joining)

lemma joining_update:
  "keeps joining (update (\<lambda>ow. ow\<lparr>ro_stdout_thread := False\<rparr>))"
  "keeps joining (update (\<lambda>ow. ow\<lparr>ro_stderr_thread := False\<rparr>))"
  "keeps joining (update (\<lambda>ow. ow\<lparr>ro_discarded_stderr_bytes := n\<rparr>))"
  by (auto simp: keeps_def update_def joining_def)

lemmas joining_parts = joining.keeps_intros joining_update keeps_joining [OF monitored_ask]
  keeps_joining [OF monitored_drain]

lemma join_monitors_run:
  assumes "join_monitors os strict w = Some (w1, r)"
  shows "joining w w1 \<and> \<not> ro_stdout_thread (fst w1) \<and> \<not> ro_stderr_thread (fst w1)"
proof -
  define drained where "drained fe =
    abind (attempt (drain_monitor os strict)) (\<lambda>d.
      alift (result_or (case d of Inl e \<Rightarrow> store_first_error fe e | Inr _ \<Rightarrow> fe)) :: (runtime_owner, unit) act)" for fe
  define stderr where "stderr fe err =
    abind (if err then
             abind (ask LJoinStderr (wo_join_stderr os)) (\<lambda>r.
             case r of
               Some n \<Rightarrow> abind (update (\<lambda>ow. ow\<lparr>ro_discarded_stderr_bytes := n\<rparr>)) (\<lambda>_. aret fe)
             | None \<Rightarrow> aret (store_first_error fe (MonitorThreadPanicked ''stderr'')))
           else aret fe) drained" for fe err
  define stdout where "stdout out = (if out then ask LJoinStdout (wo_join_stdout os) else aret True
    :: (runtime_owner, bool) act)" for out
  have k: "keeps joining (stderr fe err)" "keeps joining (stdout out)" for fe err out
    unfolding stderr_def drained_def stdout_def
    by (auto intro!: joining_parts split: option.splits)
  have eq: "join_monitors os strict =
      abind (owner ro_stdout_thread) (\<lambda>out. abind (update (\<lambda>ow. ow\<lparr>ro_stdout_thread := False\<rparr>)) (\<lambda>_.
      abind (stdout out) (\<lambda>joined. abind (owner ro_stderr_thread) (\<lambda>err.
      abind (update (\<lambda>ow. ow\<lparr>ro_stderr_thread := False\<rparr>)) (\<lambda>_.
        stderr (if joined then None else Some (MonitorThreadPanicked ''stdout'')) err)))))"
    unfolding join_monitors_def stdout_def stderr_def drained_def Let_def ..
  let ?w2 = "((fst w)\<lparr>ro_stdout_thread := False\<rparr>, snd w)"
  have "\<exists>w3 x. stdout (ro_stdout_thread (fst w)) ?w2 = Some (w3, x)
      \<and> (x = Inl undefined \<or> (\<exists>fe. stderr fe (ro_stderr_thread (fst w3)) ((fst w3)\<lparr>ro_stderr_thread := False\<rparr>, snd w3) = Some (w1, r)))"
    using assms unfolding eq by (auto simp: abind_Some act_defs stdout_def Let_def split: if_splits)
  then obtain w3 x fe where w3: "stdout (ro_stdout_thread (fst w)) ?w2 = Some (w3, x)"
    and run: "stderr fe (ro_stderr_thread (fst w3)) ((fst w3)\<lparr>ro_stderr_thread := False\<rparr>, snd w3) = Some (w1, r)"
    by (auto simp: stdout_def act_defs Let_def split: if_splits)
  have "joining ?w2 w3" "joining ((fst w3)\<lparr>ro_stderr_thread := False\<rparr>, snd w3) w1"
    using keepsD [OF k(2) w3] keepsD [OF k(1) run] by auto
  then show ?thesis by (auto simp: joining_def)
qed

lemma clean_private_session_run:
  assumes "clean_private_session os fe w = Some (w1, r)"
  obtains fe1 removed k where "r = Inr (fe1, removed)" "fst w1 = fst w"
    "snd w1 = snd w @ k" "LCloseJob \<notin> set k" "ro_session (fst w) = None \<longrightarrow> removed"
    "fe1 = None \<longrightarrow> removed" "removed \<longrightarrow> session_gone os (fst w) (snd w1)"
proof (cases "ro_session (fst w)")
  case None
  then show thesis using assms that [of fe True "[]"]
    by (simp add: clean_private_session_def abind_Some act_defs session_gone_def)
next
  case (Some s)
  define h where "h = snd w @ [LVerifySecurity]"
  define fe1 where "fe1 = (case snd (verify_security (wo_session os h) s []) of
      Inl e \<Rightarrow> store_first_error fe (Launch e) | Inr _ \<Rightarrow> fe)"
  have "w1 = (fst w, snd w @ [LVerifySecurity, LSessionCleanup])
      \<and> r = Inr (case snd (session_cleanup (wo_session os (h @ [LSessionCleanup])) s []) of
                Inr _ \<Rightarrow> (fe1, True) | Inl e \<Rightarrow> (store_first_error fe1 (Launch e), False))"
    using assms Some
    by (simp add: clean_private_session_def session_verify_def session_clean_def abind_Some act_defs Let_def
        h_def fe1_def split: sum.splits)
  then show thesis using Some that [of _ _ "[LVerifySecurity, LSessionCleanup]"]
    by (cases "snd (session_cleanup (wo_session os (h @ [LSessionCleanup])) s [])")
      (auto simp: store_first_error_def session_gone_def h_def split: option.splits)
qed

text \<open>Once the Job is empty: it is closed if the owner still has it, and everything is let go.\<close>

lemma release_owner_run:
  assumes "release_owner os strict fe w = Some (w1, r)"
  obtains fe1 removed k where "r = Inr (fe1, removed)" "released (fst w) removed (fst w1)"
    "snd w1 = snd w @ (if ro_process (fst w) = None then [] else [LCloseJob]) @ k" "LCloseJob \<notin> set k"
    "fe1 = None \<longrightarrow> removed" "removed \<longrightarrow> session_gone os (fst w) (snd w1)"
proof -
  let ?c = "if ro_process (fst w) = None then [] else [LCloseJob]"
  let ?w2 = "((fst w)\<lparr>ro_process := None\<rparr>, snd w @ ?c)"
  define finish :: "lifecycle_error option \<times> bool \<Rightarrow> (runtime_owner, lifecycle_error option \<times> bool) act"
    where "finish = (\<lambda>(fe2, removed).
        abind (update (\<lambda>ow. if removed then ow\<lparr>ro_session := None\<rparr> else ow)) (\<lambda>_.
        abind (update (\<lambda>ow. ow\<lparr>ro_runtime := None, ro_upstream_secret := None\<rparr>)) (\<lambda>_.
        abind (update (\<lambda>ow. if removed then ow\<lparr>ro_owner_state := OwnerCleaned\<rparr> else ow)) (\<lambda>_.
          aret (fe2, removed)))))"
  obtain w3 rj where w3: "join_monitors os strict ?w2 = Some (w3, rj)"
    and rest: "abind (clean_private_session os (case rj of Inl e \<Rightarrow> store_first_error fe e | Inr _ \<Rightarrow> fe)) finish w3
      = Some (w1, r)"
    using assms unfolding release_owner_def Let_def finish_def [symmetric]
    by (cases "ro_process (fst w)") (auto simp: abind_Some attempt_Some act_defs Let_def)
  note j = join_monitors_run [OF w3]
  obtain w4 fe2 removed k4 where w4: "fst w4 = fst w3" "snd w4 = snd w3 @ k4" "LCloseJob \<notin> set k4"
      "ro_session (fst w3) = None \<longrightarrow> removed" "fe2 = None \<longrightarrow> removed"
      "removed \<longrightarrow> session_gone os (fst w3) (snd w4)"
    and fin: "finish (fe2, removed) w4 = Some (w1, r)"
    using rest
  proof (cases rule: abind_cases)
    case (fails e)
    from fails(1) show thesis by (rule clean_private_session_run) simp
  next
    case (runs w4 x)
    from runs(1) show thesis
    proof (rule clean_private_session_run)
      fix fe2 removed k
      assume "Inr x = (Inr (fe2, removed) :: lifecycle_error + _)"
        and facts: "fst w4 = fst w3" "snd w4 = snd w3 @ k" "LCloseJob \<notin> set k"
        "ro_session (fst w3) = None \<longrightarrow> removed" "fe2 = None \<longrightarrow> removed"
        "removed \<longrightarrow> session_gone os (fst w3) (snd w4)"
      then have "finish (fe2, removed) w4 = Some (w1, r)" using runs(2) by (simp only: sum.inject)
      then show thesis by (rule that [OF facts])
    qed
  qed
  obtain k where k: "snd w4 = snd w @ ?c @ k" "LCloseJob \<notin> set k"
    using j w4(2,3) by (auto simp: joining_def)
  have facts: "ro_owner_state (fst w3) = ro_owner_state (fst w)" "ro_session (fst w3) = ro_session (fst w)"
      "ro_process (fst w3) = None" "\<not> ro_stdout_thread (fst w3)" "\<not> ro_stderr_thread (fst w3)"
    using j by (auto simp: joining_def)
  have "snd w1 = snd w4" "r = Inr (fe2, removed)" "released (fst w) removed (fst w1)"
    using fin w4(1,4) facts by (auto simp: finish_def abind_Some act_defs released_def)
  with k w4(5,6) facts(2) show thesis by (intro that) (auto simp: session_gone_def)
qed

text \<open>What \<open>finish_cleanup\<close> observed before releasing anything: three consecutive waits after \<open>h\<close>.\<close>

definition exit_seen :: "life_oracle \<Rightarrow> life_op list \<Rightarrow> nat \<Rightarrow> bool \<Rightarrow> nat option \<Rightarrow> nat option \<Rightarrow> bool" where
  "exit_seen os h t job_empty wrapper_exit_code runtime_exit_code \<longleftrightarrow>
     (let q1 = h @ [LWaitForEmpty t]; q2 = q1 @ [LProcessWait t]; q3 = q2 @ [LRuntimeWait t] in
        wait_for_empty (wo_accounting os q1) (wo_turn_clock os q1) (wo_instant_max os) (wo_now os q1) t
          = Some (Inr job_empty)
      \<and> wait_for_process (wo_process os q2) t = Inr wrapper_exit_code
      \<and> wait_for_process (wo_runtime os q3) t = Inr runtime_exit_code)"

lemma observe_exit_run:
  assumes "observe_exit os w = Some (w1, r)"
  obtains fe je wc rc where "r = Inr (fe, je, wc, rc)"
    "je \<and> wc \<noteq> None \<and> rc \<noteq> None \<longrightarrow>
       fe = None \<and> ro_process (fst w) \<noteq> None \<and> ro_runtime (fst w) \<noteq> None
       \<and> exit_seen os (snd w) (ll_termination_timeout (ro_limits (fst w))) je wc rc
       \<and> snd w1 = snd w @ [LWaitForEmpty (ll_termination_timeout (ro_limits (fst w))),
           LProcessWait (ll_termination_timeout (ro_limits (fst w))),
           LRuntimeWait (ll_termination_timeout (ro_limits (fst w)))]"
proof -
  have "\<exists>fe je wc rc. r = Inr (fe, je, wc, rc) \<and> (je \<and> wc \<noteq> None \<and> rc \<noteq> None \<longrightarrow>
       fe = None \<and> ro_process (fst w) \<noteq> None \<and> ro_runtime (fst w) \<noteq> None
       \<and> exit_seen os (snd w) (ll_termination_timeout (ro_limits (fst w))) je wc rc
       \<and> snd w1 = snd w @ [LWaitForEmpty (ll_termination_timeout (ro_limits (fst w))),
           LProcessWait (ll_termination_timeout (ro_limits (fst w))),
           LRuntimeWait (ll_termination_timeout (ro_limits (fst w)))])"
  proof -
    obtain ow h where w: "w = (ow, h)" by (cases w)
    let ?t = "ll_termination_timeout (ro_limits ow)"
    let ?q = "h @ [LWaitForEmpty ?t]"
    note defs = observe_exit_def abind_def act_defs Let_def ask_partial_def job_wait_for_empty_def process_wait_def
      runtime_wait_def exit_seen_def empty_outcome_def wait_outcome_def store_first_error_def w
    show ?thesis
    proof (cases "ro_process ow")
      case None
      with assms show ?thesis
        by (cases "ro_runtime ow"; cases "wait_for_process (wo_runtime os (h @ [LRuntimeWait ?t])) ?t") (auto simp: defs)
    next
      case (Some p)
      then show ?thesis using assms
        by (cases "wait_for_empty (wo_accounting os ?q) (wo_turn_clock os ?q) (wo_instant_max os) (wo_now os ?q) ?t";
            cases "wait_for_process (wo_process os (?q @ [LProcessWait ?t])) ?t";
            cases "ro_runtime ow";
            cases "wait_for_process (wo_runtime os (?q @ [LProcessWait ?t, LRuntimeWait ?t])) ?t")
          (auto simp: defs split: sum.splits bool.splits)
    qed
  qed
  then show thesis by (elim exE conjE) (rule that)
qed

lemma exit_seen_job: "exit_seen os h t True wc rc \<Longrightarrow> job_seen_empty os h (h @ [LWaitForEmpty t] @ k)"
  unfolding job_seen_empty_def exit_seen_def Let_def by (metis append_Nil)

text \<open>The effect of a cleanup that went through: before the Job was closed it had been seen empty.\<close>

definition cleaned_up :: "life_oracle \<Rightarrow> bool \<Rightarrow> runtime_owner world \<Rightarrow> runtime_owner world \<Rightarrow> bool" where
  "cleaned_up os removed w w1 \<longleftrightarrow>
     released (fst w) removed (fst w1) \<and> (removed \<longrightarrow> session_gone os (fst w) (snd w1))
   \<and> (\<exists>a k. snd w1 = snd w @ a @ (if ro_process (fst w) = None then [] else [LCloseJob]) @ k
        \<and> LCloseJob \<notin> set a \<and> LCloseJob \<notin> set k
        \<and> (ro_process (fst w) \<noteq> None \<longrightarrow> job_seen_empty os (snd w) (snd w @ a)))"

lemma cleaned_upI:
  assumes "released (fst w) removed (fst w1)" "removed \<longrightarrow> session_gone os (fst w) (snd w1)"
    and "snd w1 = snd w @ a @ (if ro_process (fst w) = None then [] else [LCloseJob]) @ k"
    and "LCloseJob \<notin> set a" "LCloseJob \<notin> set k"
    and "ro_process (fst w) \<noteq> None \<longrightarrow> job_seen_empty os (snd w) (snd w @ a)"
  shows "cleaned_up os removed w w1"
  using assms unfolding cleaned_up_def by blast

text \<open>A report says what was observed.\<close>

definition report_true :: "life_oracle \<Rightarrow> runtime_owner world \<Rightarrow> shutdown_report \<Rightarrow> bool" where
  "report_true os w report \<longleftrightarrow>
     sr_job_empty report \<and> sr_session_removed report
   \<and> sr_wrapper_exit_code report \<noteq> None \<and> sr_runtime_exit_code report \<noteq> None
   \<and> sr_ignored_stdout_lines report = ro_ignored_stdout_lines (fst w)
   \<and> sr_discarded_stderr_bytes report = ro_discarded_stderr_bytes (fst w)
   \<and> (\<exists>q t k. exit_seen os q t True (sr_wrapper_exit_code report) (sr_runtime_exit_code report)
        \<and> snd w = q @ [LWaitForEmpty t, LProcessWait t, LRuntimeWait t] @ [LCloseJob] @ k)"

lemma released_monitored:
  "monitored w w2 \<Longrightarrow> released (fst w2) removed ow \<longleftrightarrow> released (fst w) removed ow"
  using monitored_fields [of w w2] by (simp add: released_def)

lemma session_gone_monitored: "monitored w w2 \<Longrightarrow> session_gone os (fst w2) h \<longleftrightarrow> session_gone os (fst w) h"
  using monitored_fields [of w w2] by (simp add: session_gone_def)

lemma cleaned_up_monitored:
  assumes m: "monitored w w2" and c: "cleaned_up os removed w2 w1"
  shows "cleaned_up os removed w w1"
proof -
  obtain b where b: "snd w2 = snd w @ b" "LCloseJob \<notin> set b" using monitored_history [OF m] by blast
  obtain a k where k: "snd w1 = snd w2 @ a @ (if ro_process (fst w2) = None then [] else [LCloseJob]) @ k"
      "LCloseJob \<notin> set a" "LCloseJob \<notin> set k" "ro_process (fst w2) \<noteq> None \<longrightarrow> job_seen_empty os (snd w2) (snd w2 @ a)"
    using c unfolding cleaned_up_def by blast
  have "released (fst w) removed (fst w1)" "removed \<longrightarrow> session_gone os (fst w) (snd w1)"
    using c released_monitored [OF m] session_gone_monitored [OF m] by (auto simp: cleaned_up_def)
  moreover have "snd w1 = snd w @ (b @ a) @ (if ro_process (fst w) = None then [] else [LCloseJob]) @ k"
      "LCloseJob \<notin> set (b @ a)" "LCloseJob \<notin> set k"
      "ro_process (fst w) \<noteq> None \<longrightarrow> job_seen_empty os (snd w) (snd w @ (b @ a))"
    using b k job_seen_empty_prefix [of os "snd w" b] monitored_fields(6) [OF m] by auto
  ultimately show ?thesis unfolding cleaned_up_def by blast
qed

lemma finish_cleanup_run:
  assumes "finish_cleanup os kind strict w = Some (w1, r)"
  obtains (kept) e where "monitored w w1" "r = Inl e"
    | (cleaned) removed where "ro_process (fst w) \<noteq> None" "cleaned_up os removed w w1"
        "\<And>report. r = Inr report \<Longrightarrow> removed \<and> sr_kind report = kind \<and> report_true os w1 report"
  using assms unfolding finish_cleanup_def
proof (cases rule: abind_cases)
  case (fails e)
  from fails(1) show thesis by (rule observe_exit_run) simp
next
  case (runs w2 x)
  let ?t = "ll_termination_timeout (ro_limits (fst w))"
  note m = keepsD [OF monitored_exit runs(1)]
  from runs(1) obtain fe je wc rc where "Inr x = (Inr (fe, je, wc, rc) :: lifecycle_error + _)"
    and seen: "je \<and> wc \<noteq> None \<and> rc \<noteq> None \<longrightarrow>
       fe = None \<and> ro_process (fst w) \<noteq> None \<and> ro_runtime (fst w) \<noteq> None \<and> exit_seen os (snd w) ?t je wc rc
       \<and> snd w2 = snd w @ [LWaitForEmpty ?t, LProcessWait ?t, LRuntimeWait ?t]"
    by (rule observe_exit_run)
  then have x: "x = (fe, je, wc, rc)" by simp
  show thesis
  proof (cases "\<not> je \<or> wc = None \<or> rc = None")
    case True
    then show thesis using runs(2) m kept by (auto simp: x act_defs)
  next
    case False
    then have s: "fe = None" "ro_process (fst w) \<noteq> None" "exit_seen os (snd w) ?t True wc rc"
        "snd w2 = snd w @ [LWaitForEmpty ?t, LProcessWait ?t, LRuntimeWait ?t]" "je" "wc \<noteq> None" "rc \<noteq> None"
      using seen by auto
    obtain w3 r3 where w3: "release_owner os strict fe w2 = Some (w3, r3)"
      and w13: "w1 = w3" and fin: "\<And>fe1 removed report. r3 = Inr (fe1, removed) \<Longrightarrow> r = Inr report \<Longrightarrow> fe1 = None \<and>
        report = \<lparr>sr_kind = kind, sr_wrapper_exit_code = wc, sr_runtime_exit_code = rc,
          sr_ignored_stdout_lines = ro_ignored_stdout_lines (fst w3),
          sr_discarded_stderr_bytes = ro_discarded_stderr_bytes (fst w3), sr_job_empty = True,
          sr_session_removed = removed\<rparr>"
      using runs(2) False unfolding x
      by (simp add: if_P if_not_P) (erule abind_cases, force, force simp: abind_Some act_defs split: option.splits)
    from w3 obtain fe1 removed k where r3: "r3 = Inr (fe1, removed)" and rel: "released (fst w2) removed (fst w3)"
        "snd w3 = snd w2 @ (if ro_process (fst w2) = None then [] else [LCloseJob]) @ k" "LCloseJob \<notin> set k"
        "fe1 = None \<longrightarrow> removed" "removed \<longrightarrow> session_gone os (fst w2) (snd w3)"
      by (rule release_owner_run)
    let ?a = "[LWaitForEmpty ?t, LProcessWait ?t, LRuntimeWait ?t]"
    have p2: "ro_process (fst w2) \<noteq> None" using s(2) monitored_fields(6) [OF m] by simp
    have hist: "snd w3 = snd w @ ?a @ [LCloseJob] @ k" using rel(2) p2 s(4) by simp
    have job: "job_seen_empty os (snd w) (snd w @ ?a)" using exit_seen_job [OF s(3)] by simp
    have "cleaned_up os removed w w3"
      by (rule cleaned_upI [where a = ?a and k = k])
        (use rel(1,3,5) released_monitored [OF m] session_gone_monitored [OF m] s(2) hist job in auto)
    moreover have "removed \<and> sr_kind report = kind \<and> report_true os w3 report" if "r = Inr report" for report
    proof -
      note rep = fin [OF r3 that]
      have "\<exists>q t k. exit_seen os q t True wc rc
          \<and> snd w3 = q @ [LWaitForEmpty t, LProcessWait t, LRuntimeWait t] @ [LCloseJob] @ k"
        using s(3) hist by blast
      then show ?thesis using rep rel(4) s(6,7) by (simp add: report_true_def)
    qed
    ultimately show thesis using cleaned [of removed] s(2) w13 by blast
  qed
qed

lemma terminate_job_run:
  assumes "terminate_job os w = Some (w1, r)"
  shows "\<exists>fe je. r = Inr (fe, je) \<and> (je \<longrightarrow> job_seen_empty os (snd w) (snd w1)) \<and> (\<not> je \<longrightarrow> fe \<noteq> None)"
proof -
  let ?t = "ll_termination_timeout (ro_limits (fst w))"
  let ?q = "snd w @ [LTerminate FORCED_EXIT_CODE, LWaitForEmpty ?t]"
  obtain e fe where e: "wait_for_empty (wo_accounting os ?q) (wo_turn_clock os ?q) (wo_instant_max os) (wo_now os ?q) ?t = Some e"
    and w1: "w1 = (fst w, ?q)" "r = Inr (empty_outcome e fe)"
    using assms
    by (auto simp: terminate_job_def job_terminate_def job_wait_for_empty_def abind_Some act_defs Let_def ask_partial_Some)
  have "job_seen_empty os (snd w) ?q" if "e = Inr True"
    unfolding job_seen_empty_def Let_def
    by (rule exI [of _ "[LTerminate FORCED_EXIT_CODE]"], rule exI [of _ ?t], rule exI [of _ "[]"]) (use e that in simp)
  then show ?thesis using w1
    by (auto simp: empty_outcome_def store_first_error_def split: sum.splits bool.splits option.splits)
qed

lemma force_and_cleanup_run:
  assumes "force_and_cleanup os w = Some (w1, r)"
  obtains (kept) e where "monitored w w1" "r = Inl e"
    | (cleaned) removed where "ro_process (fst w) \<noteq> None" "cleaned_up os removed w w1"
        "\<And>report. r = Inr report \<Longrightarrow> removed \<and> sr_kind report = Forced \<and> report_true os w1 report"
proof -
  obtain w2 r2 where m: "monitored w w2" and w2: "finish_cleanup os Forced False w2 = Some (w1, r2)"
    and r2: "\<And>report. r = Inr report \<Longrightarrow> r2 = Inr report" "\<And>e. r2 = Inl e \<Longrightarrow> \<exists>e1. r = Inl e1"
  proof -
    let ?m = "if ro_process (fst w) \<noteq> None then abind (terminate_job os) (\<lambda>(first_error, _). aret first_error)
            else aret (Some OwnerNotRunning)"
    have k: "keeps monitored ?m"
      by (auto intro!: monitored_intros monitored_terminate)
    obtain w2 fe where w2: "?m w = Some (w2, Inr fe)"
      and rest: "abind (attempt (finish_cleanup os Forced False)) (\<lambda>cleanup.
         case fe of
           None \<Rightarrow> alift cleanup
         | Some primary \<Rightarrow>
             (case cleanup of Inr _ \<Rightarrow> afail primary | Inl e \<Rightarrow> afail (combine_cleanup_error primary (Some e)))) w2
         = Some (w1, r)"
    proof -
      have nofail: "?m w \<noteq> Some (w3, Inl e)" for w3 e
        by (cases "ro_process (fst w)") (auto simp: abind_Some act_defs dest!: terminate_job_run)
      have "abind ?m (\<lambda>fe. abind (attempt (finish_cleanup os Forced False)) (\<lambda>cleanup.
         case fe of
           None \<Rightarrow> alift cleanup
         | Some primary \<Rightarrow>
             (case cleanup of Inr _ \<Rightarrow> afail primary | Inl e \<Rightarrow> afail (combine_cleanup_error primary (Some e))))) w
         = Some (w1, r)"
        using assms by (simp add: force_and_cleanup_def abind_def [of "owner ro_process"] owner_def)
      then show thesis by (cases rule: abind_cases) (use nofail in blast, rule that)
    qed
    from rest obtain w3 r3 where w3: "finish_cleanup os Forced False w2 = Some (w3, r3)"
      and run: "(case fe of
           None \<Rightarrow> alift r3
         | Some primary \<Rightarrow>
             (case r3 of Inr _ \<Rightarrow> afail primary | Inl e \<Rightarrow> afail (combine_cleanup_error primary (Some e)))) w3
         = Some (w1, r)"
      by (cases rule: abind_cases) (auto simp: attempt_Some)
    have w31: "w3 = w1" using run by (cases fe; cases r3) (simp_all add: act_defs)
    have r3: "r3 = Inr report" if "r = Inr report" for report
      using run that by (cases fe; cases r3) (simp_all add: act_defs)
    have r3': "\<exists>e1. r = Inl e1" if "r3 = Inl e" for e
      using run [symmetric] that by (cases fe) (simp_all add: act_defs)
    show thesis using keepsD [OF k w2] w3 [unfolded w31] r3 r3' by (rule that)
  qed
  from w2 show thesis
  proof (cases rule: finish_cleanup_run)
    case (kept e)
    then show thesis using r2(2) that(1) m by (blast intro: monitored_trans)
  next
    case (cleaned removed)
    then show thesis using r2(1) that(2) [of removed] cleaned_up_monitored [OF m] monitored_fields(6) [OF m] by metis
  qed
qed

lemma abort_and_cleanup_run:
  assumes "abort_and_cleanup os w = Some (w1, r)"
  defines "w0 \<equiv> ((fst w)\<lparr>ro_owner_state := OwnerStopping\<rparr>, snd w)"
  obtains (kept) e where "ro_process (fst w) \<noteq> None" "monitored w0 w1" "r = Inl e"
    | (cleaned) removed where "cleaned_up os removed w0 w1" "\<And>u. r = Inr u \<Longrightarrow> removed"
proof -
  have p0: "ro_process (fst w0) = ro_process (fst w)" by (simp add: w0_def)
  let ?m = "if ro_process (fst w) \<noteq> None then terminate_job os else aret (None, True)"
  have run: "abind ?m (\<lambda>(fe, je).
     if \<not> je then afail (case fe of Some e \<Rightarrow> e | None \<Rightarrow> JobDidNotBecomeEmpty)
     else abind (release_owner os False fe) (\<lambda>(fe1, _). alift (result_or fe1))) w0 = Some (w1, r)"
    using assms(1) by (simp add: abort_and_cleanup_def abind_def [of "update _"] abind_def [of "owner _"] act_defs w0_def)
  have k: "keeps monitored ?m" by (auto intro!: monitored_intros monitored_terminate)
  have m: "\<exists>fe je. x = Inr (fe, je) \<and> (\<not> je \<longrightarrow> ro_process (fst w) \<noteq> None)
      \<and> (je \<and> ro_process (fst w) \<noteq> None \<longrightarrow> job_seen_empty os (snd w0) (snd w2))"
    if "?m w0 = Some (w2, x)" for w2 x
  proof (cases "ro_process (fst w) = None")
    case True with that show ?thesis by (auto simp: act_defs)
  next
    case False with that terminate_job_run [of os w0 w2 x] show ?thesis by auto
  qed
  from run show thesis
  proof (cases rule: abind_cases)
    case (fails e)
    with m show thesis by blast
  next
    case (runs w2 x)
    note mon = keepsD [OF k runs(1)]
    from m [OF runs(1)] obtain fe je where x: "x = (fe, je)"
      and je: "\<not> je \<Longrightarrow> ro_process (fst w) \<noteq> None" "je \<and> ro_process (fst w) \<noteq> None \<longrightarrow> job_seen_empty os (snd w0) (snd w2)"
      by auto
    show thesis
    proof (cases je)
      case False
      then show thesis using runs(2) je(1) mon kept by (auto simp: x act_defs)
    next
      case True
      then have "abind (release_owner os False fe) (\<lambda>(fe1, _). alift (result_or fe1)) w2 = Some (w1, r)"
        using runs(2) by (simp add: x)
      then show thesis
      proof (cases rule: abind_cases)
        case (fails e)
        from fails(1) show thesis by (rule release_owner_run) simp
      next
        case (runs w3 y)
        from runs(1) obtain fe1 removed b where y: "Inr y = (Inr (fe1, removed) :: lifecycle_error + _)"
          and rel: "released (fst w2) removed (fst w3)"
            "snd w3 = snd w2 @ (if ro_process (fst w2) = None then [] else [LCloseJob]) @ b" "LCloseJob \<notin> set b"
            "fe1 = None \<longrightarrow> removed" "removed \<longrightarrow> session_gone os (fst w2) (snd w3)"
          by (rule release_owner_run)
        obtain a where a: "snd w2 = snd w0 @ a" "LCloseJob \<notin> set a" using monitored_history [OF mon] by blast
        have "cleaned_up os removed w0 w3"
          by (rule cleaned_upI [where a = a and k = b])
            (use rel(1-3,5) released_monitored [OF mon] session_gone_monitored [OF mon] monitored_fields(6) [OF mon]
              a je(2) True p0 in auto)
        moreover have "w1 = w3" "r = Inr u \<Longrightarrow> removed" for u
          using runs(2) y rel(4) by (auto simp: act_defs result_or_def split: option.splits)
        ultimately show thesis using cleaned [of removed] by blast
      qed
    qed
  qed
qed

section \<open>The owner invariant\<close>

definition holds_all :: "runtime_owner \<Rightarrow> bool" where
  "holds_all ow \<longleftrightarrow> ro_process ow \<noteq> None \<and> ro_runtime ow \<noteq> None \<and> ro_session ow \<noteq> None
     \<and> ro_upstream_secret ow \<noteq> None \<and> ro_stdout_thread ow \<and> ro_stderr_thread ow"

definition holds_no_process :: "runtime_owner \<Rightarrow> bool" where
  "holds_no_process ow \<longleftrightarrow> ro_process ow = None \<and> ro_runtime ow = None
     \<and> ro_upstream_secret ow = None \<and> \<not> ro_stdout_thread ow \<and> \<not> ro_stderr_thread ow"

definition owner_ok :: "runtime_owner \<Rightarrow> bool" where
  "owner_ok ow \<longleftrightarrow>
     (case ro_owner_state ow of
        OwnerStarting \<Rightarrow> False
      | OwnerReady \<Rightarrow> holds_all ow
      | OwnerStopping \<Rightarrow> holds_all ow \<or> (holds_no_process ow \<and> ro_session ow \<noteq> None)
      | OwnerCleaned \<Rightarrow> holds_no_process ow \<and> ro_session ow = None)"

text \<open>Every closing of the Job after \<open>h0\<close> comes after a wait that saw the Job empty.\<close>

definition closes_empty :: "life_oracle \<Rightarrow> life_op list \<Rightarrow> life_op list \<Rightarrow> bool" where
  "closes_empty os h0 h \<longleftrightarrow>
     (\<forall>a b. h = h0 @ a @ [LCloseJob] @ b \<longrightarrow> job_seen_empty os h0 (h0 @ a))"

text \<open>The steps of an owner that is stopping.\<close>

definition stopped :: "runtime_owner \<Rightarrow> bool" where
  "stopped ow \<longleftrightarrow> owner_ok ow \<and> ro_owner_state ow \<in> {OwnerStopping, OwnerCleaned}"

definition stopping :: "life_oracle \<Rightarrow> runtime_owner world \<Rightarrow> runtime_owner world \<Rightarrow> bool" where
  "stopping os w w1 \<longleftrightarrow>
     (\<exists>k. snd w1 = snd w @ k) \<and> closes_empty os (snd w) (snd w1) \<and> (stopped (fst w) \<longrightarrow> stopped (fst w1))"

lemma closes_emptyI:
  assumes "LCloseJob \<notin> set k" shows "closes_empty os h (h @ k)"
  using assms by (auto simp: closes_empty_def)

lemma closes_empty_trans:
  assumes "closes_empty os h0 (h0 @ k1)" and "closes_empty os (h0 @ k1) (h0 @ k1 @ k2)"
  shows "closes_empty os h0 (h0 @ k1 @ k2)"
  unfolding closes_empty_def
proof (intro allI impI)
  fix a b assume "h0 @ k1 @ k2 = h0 @ a @ [LCloseJob] @ b"
  then have "k1 @ k2 = a @ LCloseJob # b" by simp
  then consider c where "k1 = a @ LCloseJob # c" | c where "a = k1 @ c" "k2 = c @ LCloseJob # b"
    by (auto simp: append_eq_append_conv2 Cons_eq_append_conv append_eq_Cons_conv)
  then show "job_seen_empty os h0 (h0 @ a)"
  proof cases
    case 1 then show ?thesis using assms(1) by (auto simp: closes_empty_def)
  next
    case 2
    then have "job_seen_empty os (h0 @ k1) (h0 @ k1 @ c)" using assms(2) by (auto simp: closes_empty_def)
    with 2 job_seen_empty_prefix show ?thesis by auto
  qed
qed

lemma stopping_same: "stopping os w w"
  using closes_emptyI [of "[]" os "snd w"] by (simp add: stopping_def)

lemma stopping_trans: "stopping os a b \<Longrightarrow> stopping os b c \<Longrightarrow> stopping os a c"
  using closes_empty_trans [of os "snd a"] by (auto simp: stopping_def)

interpretation stopping: frame "stopping os" for os
  by unfold_locales (fact stopping_same, fact stopping_trans)

lemma monitored_owner_ok: "monitored w w1 \<Longrightarrow> owner_ok (fst w1) \<longleftrightarrow> owner_ok (fst w)"
  using monitored_fields [of w w1]
  by (simp add: owner_ok_def holds_all_def holds_no_process_def split: owner_state.splits)

lemma monitored_stopping: "monitored w w1 \<Longrightarrow> stopping os w w1"
  using monitored_history [of w w1] monitored_owner_ok [of w w1] monitored_fields(10) [of w w1] closes_emptyI
  by (auto simp: stopping_def stopped_def)

lemma cleaned_up_closes: "cleaned_up os removed w w1 \<Longrightarrow> closes_empty os (snd w) (snd w1)"
proof -
  assume "cleaned_up os removed w w1"
  then obtain a k where k: "snd w1 = snd w @ a @ (if ro_process (fst w) = None then [] else [LCloseJob]) @ k"
      "LCloseJob \<notin> set a" "LCloseJob \<notin> set k" "ro_process (fst w) \<noteq> None \<longrightarrow> job_seen_empty os (snd w) (snd w @ a)"
    by (auto simp: cleaned_up_def)
  show ?thesis
  proof (cases "ro_process (fst w)")
    case None then show ?thesis using k closes_emptyI [of "a @ k"] by simp
  next
    case (Some p)
    have "c = a" if "a @ LCloseJob # k = c @ LCloseJob # b" for c b
      using that k(2,3) by (auto simp: append_eq_append_conv2 Cons_eq_append_conv append_eq_Cons_conv)
    with k Some show ?thesis by (auto simp: closes_empty_def)
  qed
qed

lemma cleaned_up_history: "cleaned_up os removed w w1 \<Longrightarrow> \<exists>k. snd w1 = snd w @ k"
  by (auto simp: cleaned_up_def)

lemma released_owner_ok:
  assumes "released ow removed ow1" and "ro_owner_state ow = OwnerStopping"
  shows "stopped ow1"
  using assms by (auto simp: released_def stopped_def owner_ok_def holds_no_process_def split: if_splits)

lemma cleaned_up_stopping:
  assumes "cleaned_up os removed w w1" and "ro_process (fst w) \<noteq> None"
  shows "stopping os w w1"
proof -
  have "stopped (fst w1)" if "stopped (fst w)"
  proof (rule released_owner_ok)
    show "released (fst w) removed (fst w1)" using assms(1) by (simp add: cleaned_up_def)
    show "ro_owner_state (fst w) = OwnerStopping"
      using that assms(2) by (auto simp: stopped_def owner_ok_def holds_no_process_def)
  qed
  then show ?thesis using cleaned_up_closes [OF assms(1)] cleaned_up_history [OF assms(1)] by (simp add: stopping_def)
qed

lemma stopping_cleanup:
  "keeps (stopping os) (finish_cleanup os kind strict)" "keeps (stopping os) (force_and_cleanup os)"
  unfolding keeps_def
  by (blast elim: finish_cleanup_run force_and_cleanup_run intro: monitored_stopping cleaned_up_stopping)+

lemma keeps_stopping: "keeps monitored m \<Longrightarrow> keeps (stopping os) m"
  by (auto simp: keeps_def intro: monitored_stopping)

lemmas stopping_parts = stopping.keeps_intros stopping_cleanup keeps_stopping [OF monitored_drain]
  keeps_stopping [OF monitored_completion] keeps_stopping [OF monitored_now] keeps_stopping [OF monitored_ask]
  keeps_stopping [OF monitored_calls(1)] keeps_stopping [OF monitored_calls(2)] keeps_stopping [OF monitored_refs(3)]

lemma stopping_shutdown_turn: "keeps (stopping os) (shutdown_turn os d)"
  unfolding shutdown_turn_def
  by (intro stopping_parts) (auto intro!: stopping_parts split: sum.splits)

text \<open>The four operations a caller has on a launched owner, and sequences of them.\<close>

inductive owner_step :: "life_oracle \<Rightarrow> runtime_owner world \<Rightarrow> runtime_owner world \<Rightarrow> bool" for os where
  polled: "poll_health os w = Some (w1, r) \<Longrightarrow> owner_step os w w1"
| shut: "shutdown os w = Some (w1, r) \<Longrightarrow> owner_step os w w1"
| forced: "force_shutdown os w = Some (w1, r) \<Longrightarrow> owner_step os w w1"
| retried: "retry_private_cleanup os w = Some (w1, r) \<Longrightarrow> owner_step os w w1"

inductive owner_steps :: "life_oracle \<Rightarrow> runtime_owner world \<Rightarrow> runtime_owner world \<Rightarrow> bool" for os where
  none: "owner_steps os w w"
| step: "owner_steps os w w1 \<Longrightarrow> owner_step os w1 w2 \<Longrightarrow> owner_steps os w w2"

abbreviation marked :: "runtime_owner world \<Rightarrow> runtime_owner world" where
  "marked w \<equiv> ((fst w)\<lparr>ro_owner_state := OwnerStopping\<rparr>, snd w)"

lemma marked_stopped: "owner_ok (fst w) \<Longrightarrow> ro_owner_state (fst w) \<noteq> OwnerCleaned \<Longrightarrow> stopped (fst (marked w))"
  by (auto simp: stopped_def owner_ok_def holds_all_def holds_no_process_def split: owner_state.splits)

text \<open>A run of \<open>shutdown\<close> on an owner that is not cleaned: it is marked as stopping, and then only loops.\<close>

lemma shutdown_run:
  assumes "shutdown os w = Some (w1, r)"
  shows "ro_owner_state (fst w) = OwnerCleaned \<and> w1 = w \<and> r = Inl OwnerAlreadyCleaned
    \<or> ro_owner_state (fst w) \<noteq> OwnerCleaned \<and> stopping os (marked w) w1"
proof (cases "ro_owner_state (fst w) = OwnerCleaned")
  case True
  with assms show ?thesis by (simp add: shutdown_def abind_def act_defs)
next
  case False
  let ?rest = "\<lambda>_. abind (owner ro_limits) (\<lambda>l. abind (checked_deadline os (ll_graceful_timeout l)) (\<lambda>deadline.
      loop_act (shutdown_turn os deadline)))"
  have k: "keeps (stopping os) (?rest u)" for u by (intro stopping_parts stopping_shutdown_turn)
  have k1: "keeps (stopping os) (signal_stop os)"
    unfolding signal_stop_def by (intro stopping_parts) (auto intro!: stopping_parts split: sum.splits)
  show ?thesis
  proof (cases "ro_owner_state (fst w) = OwnerStopping")
    case True
    then have "marked w = w" by (cases w) simp
    moreover have "?rest () w = Some (w1, r)"
      using assms True by (simp add: shutdown_def abind_def [of "owner ro_owner_state"] abind_def [of "aret ()"] owner_def aret_def)
    ultimately show ?thesis using False keepsD [OF k] by auto
  next
    case ready: False
    have "abind (signal_stop os) ?rest (marked w) = Some (w1, r)"
    proof -
      have "abind (request_stop os) ?rest w = Some (w1, r)"
        using assms False ready by (simp add: shutdown_def abind_def [of "owner ro_owner_state"] owner_def)
      moreover have "request_stop os w = signal_stop os (marked w)"
        by (simp add: request_stop_def abind_def update_def)
      ultimately show ?thesis by (simp add: abind_def)
    qed
    then show ?thesis using False keepsD [OF stopping.keeps_abind [OF k1 k]] by blast
  qed
qed

lemma force_shutdown_run:
  assumes "force_shutdown os w = Some (w1, r)"
  shows "ro_owner_state (fst w) = OwnerCleaned \<and> w1 = w \<and> r = Inl OwnerAlreadyCleaned
    \<or> ro_owner_state (fst w) \<noteq> OwnerCleaned \<and> force_and_cleanup os (marked w) = Some (w1, r)"
  using assms by (auto simp: force_shutdown_def abind_def act_defs split: if_splits)

lemma retry_run:
  assumes "retry_private_cleanup os w = Some (w1, r)" and "owner_ok (fst w)"
  shows "w1 = w \<and> (\<exists>e. r = Inl e) \<or> ro_owner_state (fst w) = OwnerStopping \<and> holds_no_process (fst w)
    \<and> (\<exists>k. snd w1 = snd w @ k \<and> LCloseJob \<notin> set k)
    \<and> (fst w1 = fst w \<and> (\<exists>e. r = Inl e)
       \<or> session_gone os (fst w) (snd w1) \<and> ro_owner_state (fst w1) = OwnerCleaned
         \<and> holds_no_process (fst w1) \<and> ro_session (fst w1) = None)"
proof (cases "ro_owner_state (fst w) = OwnerCleaned \<or> ro_process (fst w) \<noteq> None \<or> ro_stdout_thread (fst w) \<or> ro_stderr_thread (fst w)")
  case True
  with assms(1) show ?thesis by (auto simp: retry_private_cleanup_def abind_def act_defs split: if_splits)
next
  case False
  then have st: "ro_owner_state (fst w) = OwnerStopping" "holds_no_process (fst w)"
    using assms(2) by (auto simp: owner_ok_def holds_all_def split: owner_state.splits)
  have "abind (clean_private_session os None) (\<lambda>(first_error, removed).
       abind (update (\<lambda>ow. if removed
                          then ow\<lparr>ro_session := None, ro_runtime := None, ro_upstream_secret := None,
                                 ro_owner_state := OwnerCleaned\<rparr>
                          else ow)) (\<lambda>_. alift (result_or first_error))) w = Some (w1, r)"
    using assms(1) False by (simp add: retry_private_cleanup_def abind_def [of "owner _"] owner_def)
  then show ?thesis
  proof (cases rule: abind_cases)
    case (fails e)
    from fails(1) show ?thesis by (rule clean_private_session_run) simp
  next
    case (runs w2 x)
    from runs(1) obtain fe removed k where x: "Inr x = (Inr (fe, removed) :: lifecycle_error + _)"
      and c: "fst w2 = fst w" "snd w2 = snd w @ k" "LCloseJob \<notin> set k" "fe = None \<longrightarrow> removed"
        "removed \<longrightarrow> session_gone os (fst w) (snd w2)"
      by (rule clean_private_session_run)
    from runs(2) x have w1: "w1 = (if removed then (fst w2)\<lparr>ro_session := None, ro_runtime := None,
        ro_upstream_secret := None, ro_owner_state := OwnerCleaned\<rparr> else fst w2, snd w2)" "r = result_or fe"
      by (auto simp: abind_def act_defs)
    show ?thesis
    proof (cases removed)
      case True
      then show ?thesis using st c w1 by (auto simp: holds_no_process_def)
    next
      case False
      then show ?thesis using st c w1 by (auto simp: result_or_def split: option.splits)
    qed
  qed
qed

lemma owner_step_ok:
  assumes "owner_step os w w1" and ok: "owner_ok (fst w)"
  shows "owner_ok (fst w1) \<and> closes_empty os (snd w) (snd w1) \<and> (\<exists>k. snd w1 = snd w @ k)
    \<and> (ro_owner_state (fst w) = OwnerCleaned \<longrightarrow> w1 = w)"
  using assms(1)
proof cases
  case (polled r)
  note m = keepsD [OF monitored_health polled]
  have "w1 = w" if "ro_owner_state (fst w) = OwnerCleaned"
    using polled that by (auto simp: poll_health_def abind_def act_defs)
  with m ok monitored_owner_ok [OF m] monitored_stopping [OF m] show ?thesis by (auto simp: stopping_def)
next
  case (shut r)
  then consider "ro_owner_state (fst w) = OwnerCleaned" "w1 = w"
    | "ro_owner_state (fst w) \<noteq> OwnerCleaned" "stopping os (marked w) w1"
    using shutdown_run by blast
  then show ?thesis
  proof cases
    case 1 then show ?thesis using ok closes_emptyI [of "[]"] by simp
  next
    case 2 then show ?thesis using marked_stopped [OF ok] by (auto simp: stopping_def stopped_def)
  qed
next
  case (forced r)
  then consider "ro_owner_state (fst w) = OwnerCleaned" "w1 = w"
    | "ro_owner_state (fst w) \<noteq> OwnerCleaned" "stopping os (marked w) w1"
    using force_shutdown_run keepsD [OF stopping_cleanup(2)] by blast
  then show ?thesis
  proof cases
    case 1 then show ?thesis using ok closes_emptyI [of "[]"] by simp
  next
    case 2 then show ?thesis using marked_stopped [OF ok] by (auto simp: stopping_def stopped_def)
  qed
next
  case (retried r)
  from retry_run [OF this ok] show ?thesis
  proof (elim disjE conjE exE)
    assume "w1 = w" then show ?thesis using ok closes_emptyI [of "[]"] by simp
  next
    fix k e assume "ro_owner_state (fst w) = OwnerStopping" "snd w1 = snd w @ k" "LCloseJob \<notin> set k" "fst w1 = fst w"
    then show ?thesis using ok closes_emptyI [of k] by simp
  next
    fix k assume "ro_owner_state (fst w) = OwnerStopping" "snd w1 = snd w @ k" "LCloseJob \<notin> set k"
      "ro_owner_state (fst w1) = OwnerCleaned" "holds_no_process (fst w1)" "ro_session (fst w1) = None"
    then show ?thesis using closes_emptyI [of k] by (simp add: owner_ok_def)
  qed
qed

subsection \<open>The Job is held\<close>

text \<open>An owner with a process keeps it until the Job is closed.\<close>

definition job_held :: "runtime_owner world \<Rightarrow> runtime_owner world \<Rightarrow> bool" where
  "job_held w w1 \<longleftrightarrow>
     (\<exists>k. snd w1 = snd w @ k \<and> (ro_process (fst w) \<noteq> None \<longrightarrow> ro_process (fst w1) \<noteq> None \<or> LCloseJob \<in> set k))"

lemma job_held_same: "job_held w w" by (simp add: job_held_def)

lemma job_held_trans: "job_held a b \<Longrightarrow> job_held b c \<Longrightarrow> job_held a c"
  by (fastforce simp: job_held_def)

interpretation job_held: frame job_held
  by unfold_locales (fact job_held_same, fact job_held_trans)

lemma monitored_job_held: "monitored w w1 \<Longrightarrow> job_held w w1"
  using monitored_history [of w w1] monitored_fields(6) [of w w1] by (auto simp: job_held_def)

lemma cleaned_up_job_held: "cleaned_up os removed w w1 \<Longrightarrow> job_held w w1"
  by (fastforce simp: job_held_def cleaned_up_def)

lemma job_held_cleanup:
  "keeps job_held (finish_cleanup os kind strict)" "keeps job_held (force_and_cleanup os)"
  unfolding keeps_def
  by (blast elim: finish_cleanup_run force_and_cleanup_run intro: monitored_job_held cleaned_up_job_held)+

lemma keeps_job_held: "keeps monitored m \<Longrightarrow> keeps job_held m"
  by (auto simp: keeps_def intro: monitored_job_held)

lemma job_held_marks: "keeps job_held (update (\<lambda>ow. ow\<lparr>ro_owner_state := st\<rparr>))"
  by (simp add: keeps_def update_def job_held_def)

lemmas job_held_parts = job_held.keeps_intros job_held_cleanup job_held_marks keeps_job_held [OF monitored_drain]
  keeps_job_held [OF monitored_completion] keeps_job_held [OF monitored_now] keeps_job_held [OF monitored_ask]
  keeps_job_held [OF monitored_calls(1)] keeps_job_held [OF monitored_calls(2)] keeps_job_held [OF monitored_refs(3)]

lemma job_held_shutdown_turn: "keeps job_held (shutdown_turn os d)"
  unfolding shutdown_turn_def
  by (intro job_held_parts) (auto intro!: job_held_parts split: sum.splits)

lemma job_held_shutdowns: "keeps job_held (shutdown os)" "keeps job_held (force_shutdown os)"
proof -
  have "keeps job_held (signal_stop os)"
    unfolding signal_stop_def by (intro job_held_parts) (auto intro!: job_held_parts split: sum.splits)
  then show "keeps job_held (shutdown os)"
    unfolding shutdown_def request_stop_def
    by (intro job_held_parts job_held_shutdown_turn) (auto intro!: job_held_parts job_held_shutdown_turn)
  show "keeps job_held (force_shutdown os)"
    unfolding force_shutdown_def by (intro job_held_parts) (auto intro!: job_held_parts)
qed

lemma job_held_step:
  assumes "owner_step os w w1" and "owner_ok (fst w)"
  shows "job_held w w1"
  using assms(1)
proof cases
  case (polled r)
  then show ?thesis using keepsD [OF keeps_job_held [OF monitored_health]] by blast
next
  case (shut r)
  then show ?thesis using keepsD [OF job_held_shutdowns(1)] by blast
next
  case (forced r)
  then show ?thesis using keepsD [OF job_held_shutdowns(2)] by blast
next
  case (retried r)
  from retry_run [OF this assms(2)] show ?thesis
    using job_held_same by (auto simp: job_held_def holds_no_process_def)
qed

lemma closes_emptyD: "closes_empty os h0 (h0 @ k) \<Longrightarrow> \<not> job_seen_empty os h0 (h0 @ k) \<Longrightarrow> LCloseJob \<notin> set k"
  unfolding closes_empty_def using job_seen_empty_append [of os h0]
  by (metis append.assoc append_Cons append_Nil split_list)

end
