(* ===== verification/Owner_Progress.thy ===== *)
theory Owner_Progress
  imports Owner_Cleanup
begin

text \<open>
  The public operations of \<open>RuntimeOwner\<close> return: every loop of health polling, shutdown and
  cleanup ends when the clock does not go back, sleeps last as long as asked for, and the monitor threads
  send a bounded number of messages.  What a shutdown reports is what was observed.
\<close>

section \<open>Definitions\<close>

text \<open>The environment: \<open>n\<close> bounds the messages of the two monitor threads.\<close>

fun is_receive :: "life_op \<Rightarrow> bool" where
  "is_receive LTryRecv = True"
| "is_receive (LRecv t) = True"
| "is_receive op = False"

definition receives :: "life_op list \<Rightarrow> nat" where
  "receives h = length (filter is_receive h)"

definition time_passes :: "life_oracle \<Rightarrow> bool" where
  "time_passes os \<longleftrightarrow>
     (\<forall>h k. wo_now os h \<le> wo_now os (h @ k))
   \<and> (\<forall>h d k. wo_now os h + d \<le> wo_now os (h @ LSleep d # k))
   \<and> (\<forall>h d k. wo_recv os (h @ [LRecv d]) = NoMessage \<longrightarrow> wo_now os h + d \<le> wo_now os (h @ LRecv d # k))
   \<and> (\<forall>h start timeout i. wo_turn_clock os h i + sleep_nanos (start + timeout) (wo_turn_clock os h i)
        \<le> wo_turn_clock os h (Suc i))"

definition messages_end :: "life_oracle \<Rightarrow> nat \<Rightarrow> bool" where
  "messages_end os n \<longleftrightarrow> (\<forall>h message. wo_recv os h = Received message \<longrightarrow> receives h \<le> n)"

definition returns :: "('o, 'a) act \<Rightarrow> bool" where
  "returns m \<longleftrightarrow> (\<forall>w. m w \<noteq> None)"

section \<open>Lemmas\<close>

subsection \<open>Actions that return\<close>

lemma returnsD: "returns m \<Longrightarrow> m w \<noteq> None"
  unfolding returns_def by blast

lemma runs_Some: "m w \<noteq> None \<Longrightarrow> \<exists>w1 r. m w = Some (w1, r)"
  by (metis not_None_eq surj_pair)

lemma returns_pure: "returns (aret x)" "returns (afail e)" "returns (alift r)" "returns (owner f)" "returns (update g)"
  by (simp_all add: returns_def act_defs)

lemma returns_ask: "returns (ask op f)"
  by (simp add: returns_def ask_def Let_def)

lemma returns_launched: "returns (launched r)"
  by (simp add: returns_def act_defs)

lemma returns_now: "returns (now os)"
  by (simp add: now_def returns_ask)

lemma returns_abind: "returns m \<Longrightarrow> (\<And>x. returns (f x)) \<Longrightarrow> returns (abind m f)"
  by (auto simp: returns_def abind_None)

lemma returns_attempt: "returns m \<Longrightarrow> returns (attempt m)"
  by (simp add: returns_def attempt_None)

lemmas returns_intros = returns_pure returns_ask returns_launched returns_now returns_abind returns_attempt

text \<open>A loop returns when its turns do and a measure falls with every turn that goes round.\<close>

lemma loop_returns:
  assumes "wf R"
    and body: "\<And>w. I w \<Longrightarrow> body w \<noteq> None"
    and falls: "\<And>w w1. I w \<Longrightarrow> body w = Some (w1, Inr None) \<Longrightarrow> I w1 \<and> (w1, w) \<in> R"
    and "I w"
  shows "loop_act body w \<noteq> None"
  using \<open>wf R\<close> \<open>I w\<close>
proof (induction w rule: wf_induct_rule)
  case (less w)
  from body [OF less.prems] obtain w1 r where run: "body w = Some (w1, r)" by (cases "body w") auto
  show ?case
  proof (cases "r = Inr None")
    case True
    with falls [OF less.prems] run less.IH [of w1] have "loop_act body w1 \<noteq> None" by blast
    with run True show ?thesis by (subst loop_act.simps) simp
  next
    case False
    with run show ?thesis by (subst loop_act.simps) (auto split: sum.splits option.splits)
  qed
qed

text \<open>Sleeping for the rest of a poll interval brings a deadline that is not reached closer.\<close>

lemma sleep_falls:
  assumes "time_passes os" and "h = h0 @ k" and "wo_now os (h @ [LNow]) < d" and "0 < p"
    and "h1 = h @ [LNow, LNow, LSleep (min (d - wo_now os (h @ [LNow, LNow])) p)]"
  shows "d - wo_now os h1 < d - wo_now os h0"
proof -
  define t2 where "t2 = wo_now os (h @ [LNow, LNow])"
  have mono: "wo_now os q \<le> wo_now os (q @ k)" and sleep: "wo_now os q + e \<le> wo_now os (q @ LSleep e # k)" for q k e
    using assms(1) by (auto simp: time_passes_def)
  have "t2 + min (d - t2) p \<le> wo_now os h1"
    using sleep [of "h @ [LNow, LNow]" "min (d - t2) p" "[]"] by (simp add: assms(5) t2_def)
  moreover have "wo_now os (h @ [LNow]) \<le> t2" using mono [of "h @ [LNow]" "[LNow]"] by (simp add: t2_def)
  moreover have "wo_now os h0 \<le> wo_now os (h @ [LNow])" using mono [of h0 "k @ [LNow]"] by (simp add: assms(2))
  ultimately show ?thesis using assms(3,4) by simp
qed

lemma returns_refs: "returns process_ref" "returns runtime_ref" "returns session_ref"
  by (auto simp: process_ref_def runtime_ref_def session_ref_def intro!: returns_intros)

lemma returns_calls:
  "returns (checked_deadline os d)" "returns (remaining_poll os d)" "returns (process_wait os d)"
  "returns (runtime_wait os d)" "returns (job_terminate os c)" "returns (session_verify os s)"
  "returns (session_clean os s)"
  by (auto simp: checked_deadline_def remaining_poll_def process_wait_def runtime_wait_def job_terminate_def
      session_verify_def session_clean_def intro!: returns_intros)

lemma returns_apply: "returns (apply_monitor message strict)"
  unfolding apply_monitor_def by (cases message) (auto intro!: returns_intros)

lemmas returns_parts = returns_intros returns_refs returns_calls returns_apply

text \<open>Waiting for an empty Job, and draining the channel.\<close>

lemma returns_empty:
  assumes "time_passes os" shows "returns (job_wait_for_empty os t)"
proof -
  have "wait_for_empty (wo_accounting os h) (wo_turn_clock os h) (wo_instant_max os) start t \<noteq> None" for h start
  proof (cases "start + t \<le> wo_instant_max os")
    case True
    then show ?thesis
      using empty_loop_returns [of "wo_turn_clock os h" "start + t" 0 "wo_accounting os h"] assms
      by (auto simp: wait_for_empty_def checked_add_def time_passes_def)
  next
    case False
    then show ?thesis
      using empty_loop_decided [of "wo_accounting os h" None "wo_turn_clock os h" 0]
      by (auto simp: wait_for_empty_def checked_add_def decides_def split: sum.splits)
  qed
  then show ?thesis by (auto simp: returns_def job_wait_for_empty_def ask_partial_def Let_def split: option.splits)
qed

text \<open>Steps without an effect.\<close>

definition silent :: "'o world \<Rightarrow> 'o world \<Rightarrow> bool" where
  "silent w w1 \<longleftrightarrow> snd w1 = snd w"

interpretation silent: frame silent
  by unfold_locales (simp_all add: silent_def)

lemma silent_update: "keeps silent (update g)"
  by (simp add: keeps_def update_def silent_def)

lemma silent_apply: "keeps silent (apply_monitor message strict)"
  unfolding apply_monitor_def by (cases message) (auto intro!: silent.keeps_intros silent_update)

lemma drain_turn_falls:
  assumes "messages_end os n" and "drain_turn os strict w = Some (w1, Inr None)"
  shows "Suc n - receives (snd w1) < Suc n - receives (snd w)"
proof -
  let ?h = "snd w @ [LTryRecv]"
  have k: "keeps silent (case r of
       Received message \<Rightarrow>
         abind (apply_monitor message strict) (\<lambda>event.
         abind (owner ro_owner_state) (\<lambda>st.
         if strict then
           (case event of
              Some (MonitorLauncherFailed phase) \<Rightarrow> afail (LauncherReportedFailure phase)
            | Some MonitorStopping \<Rightarrow> if st \<noteq> OwnerStopping then afail StoppedUnexpectedly else aret None
            | Some (MonitorStopped _) \<Rightarrow> if st \<noteq> OwnerStopping then afail StoppedUnexpectedly else aret None
            | _ \<Rightarrow> aret None)
         else aret (None :: unit option)))
     | Disconnected \<Rightarrow>
         abind (owner ro_owner_state) (\<lambda>st.
           if strict \<and> st \<noteq> OwnerStopping then afail MonitorDisconnected else aret (Some ()))
     | NoMessage \<Rightarrow> aret (Some ()))" for r
    by (cases r) (auto intro!: silent.keeps_intros silent_apply split: option.splits monitor_event.splits)
  have "snd w1 = ?h"
    using assms(2) unfolding drain_turn_def
    by (cases rule: abind_cases) (auto simp: ask_def Let_def silent_def dest!: keepsD [OF k])
  moreover have "\<exists>message. wo_recv os ?h = Received message"
    using assms(2) by (auto simp: drain_turn_def abind_Inr act_defs Let_def split: received.splits if_splits)
  ultimately show ?thesis using assms(1) by (fastforce simp: messages_end_def receives_def)
qed

lemma returns_drain:
  assumes "messages_end os n" shows "returns (drain_monitor os strict)"
proof -
  have turn: "returns (drain_turn os strict)"
    unfolding drain_turn_def
    by (intro returns_parts) (auto intro!: returns_parts split: received.splits option.splits monitor_event.splits)
  show ?thesis unfolding returns_def drain_monitor_def
    by (intro allI loop_returns [where I = "\<lambda>_. True" and R = "measure (\<lambda>w. Suc n - receives (snd w))"])
      (use turn drain_turn_falls [OF assms] in \<open>auto simp: returns_def\<close>)
qed

subsection \<open>Cleanup and shutdown return\<close>

lemma returns_cleanup:
  assumes "time_passes os" and "messages_end os n"
  shows "returns (join_monitors os strict)" "returns (clean_private_session os fe)" "returns (observe_exit os)"
    "returns (terminate_job os)"
  unfolding join_monitors_def clean_private_session_def observe_exit_def terminate_job_def Let_def split_beta
  by (auto intro!: returns_parts returns_drain [OF assms(2)] returns_empty [OF assms(1)] split: option.splits sum.splits)

lemma returns_release:
  assumes "time_passes os" and "messages_end os n"
  shows "returns (release_owner os strict fe)"
  unfolding release_owner_def Let_def split_beta
  by (auto intro!: returns_parts returns_cleanup [OF assms])

lemma returns_finish:
  assumes "time_passes os" and "messages_end os n"
  shows "returns (finish_cleanup os kind strict)" "returns (force_and_cleanup os)" "returns (abort_and_cleanup os)"
  unfolding finish_cleanup_def force_and_cleanup_def abort_and_cleanup_def split_beta
  by (auto intro!: returns_parts returns_cleanup [OF assms] returns_release [OF assms] split: option.splits sum.splits)

lemma returns_completion: "returns (graceful_completion_observed os)"
  unfolding graceful_completion_observed_def by (auto intro!: returns_parts)

lemma returns_shutdown_turn:
  assumes "time_passes os" and "messages_end os n"
  shows "returns (shutdown_turn os d)"
  unfolding shutdown_turn_def
  by (auto intro!: returns_parts returns_drain [OF assms(2)] returns_finish [OF assms] returns_completion
      split: sum.splits)

text \<open>Steps that do not terminate the Job.\<close>

definition unforced :: "'o world \<Rightarrow> 'o world \<Rightarrow> bool" where
  "unforced w w1 \<longleftrightarrow> (\<exists>k. snd w1 = snd w @ k \<and> (\<forall>c. LTerminate c \<notin> set k))"

lemma unforced_trans: "unforced a b \<Longrightarrow> unforced b c \<Longrightarrow> unforced a c"
  by (fastforce simp: unforced_def)

interpretation unforced: frame unforced
  by unfold_locales (simp add: unforced_def, fact unforced_trans)

lemma unforced_ask: "\<forall>c. op \<noteq> LTerminate c \<Longrightarrow> keeps unforced (ask op f)"
  by (auto simp: keeps_def ask_def Let_def unforced_def)

lemma unforced_ask_partial: "\<forall>c. op \<noteq> LTerminate c \<Longrightarrow> keeps unforced (ask_partial op f)"
  by (auto simp: keeps_def ask_partial_Some unforced_def)

lemma silent_unforced: "keeps silent m \<Longrightarrow> keeps unforced m"
  unfolding keeps_def silent_def unforced_def by (metis append_Nil2 empty_iff empty_set)

lemmas unforced_intros = unforced.keeps_intros unforced_ask unforced_ask_partial silent_unforced [OF silent_update]
  silent_unforced [OF silent_apply]

lemma unforced_calls:
  "keeps unforced (now os)" "keeps unforced (checked_deadline os d)" "keeps unforced (remaining_poll os d)"
  "keeps unforced (process_wait os d)" "keeps unforced (runtime_wait os d)" "keeps unforced (job_wait_for_empty os d)"
  "keeps unforced (session_verify os s)" "keeps unforced (session_clean os s)" "keeps unforced process_ref"
  "keeps unforced runtime_ref"
  by (auto simp: now_def checked_deadline_def remaining_poll_def process_wait_def runtime_wait_def
      job_wait_for_empty_def session_verify_def session_clean_def process_ref_def runtime_ref_def
      intro!: unforced_intros)

lemma unforced_drain: "keeps unforced (drain_monitor os strict)"
  unfolding drain_monitor_def drain_turn_def
  by (intro unforced_intros)
    (auto intro!: unforced_intros split: received.splits option.splits monitor_event.splits)

lemma unforced_completion: "keeps unforced (graceful_completion_observed os)"
  unfolding graceful_completion_observed_def by (auto intro!: unforced_intros unforced_calls)

lemma unforced_cleanup:
  "keeps unforced (join_monitors os strict)" "keeps unforced (clean_private_session os fe)" "keeps unforced (observe_exit os)"
  unfolding join_monitors_def clean_private_session_def observe_exit_def Let_def split_beta
  by (auto intro!: unforced_intros unforced_calls unforced_drain split: option.splits sum.splits)

lemma unforced_finish: "keeps unforced (finish_cleanup os kind strict)"
  unfolding finish_cleanup_def release_owner_def Let_def split_beta
  by (auto intro!: unforced_intros unforced_cleanup split: option.splits)

text \<open>A turn of the shutdown loop watches, and then sleeps, or cleans up and reports.\<close>

lemma shutdown_turn_Ok:
  assumes "shutdown_turn os d w = Some (w1, Inr x)"
  obtains (sleeps) w2 where "monitored w w2" "unforced w w2" "x = None" "wo_now os (snd w2 @ [LNow]) < d"
      "w1 = (fst w2, snd w2 @ [LNow, LNow,
         LSleep (min (d - wo_now os (snd w2 @ [LNow, LNow])) (ll_poll_interval (ro_limits (fst w2))))])"
  | (graceful) w2 report where "monitored w w2" "unforced w w2" "x = Some report"
      "finish_cleanup os Graceful True w2 = Some (w1, Inr report)"
  | (force) w2 report where "monitored w w2" "x = Some report"
      "force_and_cleanup os w2 = Some (w1, Inr report)"
proof -
  obtain w2 r2 where w2: "drain_monitor os True w = Some (w2, r2)"
    and rest: "(case r2 of
       Inl primary \<Rightarrow>
         abind (attempt (force_and_cleanup os)) (\<lambda>cleanup. afail (combine_cleanup_error primary (error_of cleanup)))
     | Inr _ \<Rightarrow>
         abind (graceful_completion_observed os) (\<lambda>complete.
         if complete then abind (finish_cleanup os Graceful True) (\<lambda>report. aret (Some report))
         else
           abind (now os) (\<lambda>t.
           if d \<le> t then abind (force_and_cleanup os) (\<lambda>report. aret (Some report))
           else
             abind (remaining_poll os d) (\<lambda>d.
             abind (ask (LSleep d) (\<lambda>_. ())) (\<lambda>_. aret None))))) w2 = Some (w1, Inr x)"
    using assms unfolding shutdown_turn_def by (cases rule: abind_cases) (auto simp: attempt_Some)
  obtain u where u: "r2 = Inr u" using rest by (cases r2) (auto simp: abind_Inr act_defs)
  obtain w3 complete where w3: "graceful_completion_observed os w2 = Some (w3, Inr complete)"
    and fin: "if complete then \<exists>report. x = Some report \<and> finish_cleanup os Graceful True w3 = Some (w1, Inr report)
      else if d \<le> wo_now os (snd w3 @ [LNow])
      then \<exists>report. x = Some report \<and> force_and_cleanup os (fst w3, snd w3 @ [LNow]) = Some (w1, Inr report)
      else x = None \<and> w1 = (fst w3, snd w3 @ [LNow, LNow,
         LSleep (min (d - wo_now os (snd w3 @ [LNow, LNow])) (ll_poll_interval (ro_limits (fst w3))))])"
    using rest by (auto simp: u abind_Inr act_defs Let_def remaining_poll_def split: if_splits)
  have m: "monitored w w3" "unforced w w3"
    using monitored_trans [OF keepsD [OF monitored_drain w2] keepsD [OF monitored_completion w3]]
      unforced_trans [OF keepsD [OF unforced_drain w2] keepsD [OF unforced_completion w3]] by auto
  have m1: "monitored w (fst w3, snd w3 @ [LNow])" using monitored_trans [OF m(1) monitored_call [of LNow]] by simp
  show thesis
    using fin m m1 sleeps [of w3] graceful [of w3] force [of "(fst w3, snd w3 @ [LNow])"]
    by (auto split: if_splits)
qed

lemma shutdown_turn_falls:
  assumes "time_passes os" and "0 < ll_poll_interval (ro_limits (fst w))"
    and "shutdown_turn os d w = Some (w1, Inr None)"
  shows "0 < ll_poll_interval (ro_limits (fst w1)) \<and> d - wo_now os (snd w1) < d - wo_now os (snd w)"
proof -
  from assms(3) obtain w2 where m: "monitored w w2" and t: "wo_now os (snd w2 @ [LNow]) < d"
    and w1: "w1 = (fst w2, snd w2 @ [LNow, LNow,
       LSleep (min (d - wo_now os (snd w2 @ [LNow, LNow])) (ll_poll_interval (ro_limits (fst w2))))])"
    by (cases rule: shutdown_turn_Ok) simp_all
  obtain k where k: "snd w2 = snd w @ k" using monitored_history [OF m] by blast
  have p: "0 < ll_poll_interval (ro_limits (fst w2))" using assms(2) monitored_fields(4) [OF m] by simp
  show ?thesis using sleep_falls [OF assms(1) k t p, of "snd w1"] p by (simp add: w1)
qed

lemma shutdown_loop_returns:
  assumes "time_passes os" and "messages_end os n" and "0 < ll_poll_interval (ro_limits (fst w))"
  shows "loop_act (shutdown_turn os d) w \<noteq> None"
  by (rule loop_returns [where I = "\<lambda>w. 0 < ll_poll_interval (ro_limits (fst w))"
        and R = "measure (\<lambda>w. d - wo_now os (snd w))"])
    (use returns_shutdown_turn [OF assms(1,2)] shutdown_turn_falls [OF assms(1)] assms(3) in \<open>auto simp: returns_def\<close>)

lemma signal_stop_Ok: "signal_stop os w = Some (w1, Inr u) \<Longrightarrow> w1 = (fst w, snd w @ [LCreateControl])"
  by (fastforce simp: signal_stop_def session_ref_def abind_def act_defs Let_def ok_or_def
      split: sum.split_asm option.split_asm)

lemma returns_signal:
  assumes "time_passes os" and "messages_end os n"
  shows "returns (signal_stop os)"
  unfolding signal_stop_def by (auto intro!: returns_parts returns_finish [OF assms] split: sum.splits)

subsection \<open>Startup returns\<close>

lemma returns_checks:
  "returns (verify_token_consumed os)" "returns (ensure_wrapper_alive_before_ready os)"
  "returns (ensure_processes_alive_before_ready os)" "returns (capture_runtime os pid)"
  unfolding verify_token_consumed_def ensure_wrapper_alive_before_ready_def ensure_processes_alive_before_ready_def
    capture_runtime_def
  by (auto intro!: returns_parts split: sum.splits bool.splits option.splits)

lemma returns_listener_turn: "messages_end os n \<Longrightarrow> returns (listener_turn os d)"
  unfolding listener_turn_def
  by (auto intro!: returns_parts returns_checks returns_drain split: sum.splits)

lemma returns_readiness_turn: "messages_end os n \<Longrightarrow> returns (readiness_turn os d)"
  unfolding readiness_turn_def Let_def
  by (auto intro!: returns_parts returns_checks returns_drain)

abbreviation polls :: "runtime_owner world \<Rightarrow> bool" where
  "polls w \<equiv> 0 < ll_poll_interval (ro_limits (fst w))"

lemma listener_turn_falls:
  assumes "time_passes os" and "polls w" and "listener_turn os d w = Some (w1, Inr None)"
  shows "polls w1 \<and> d - wo_now os (snd w1) < d - wo_now os (snd w)"
proof -
  obtain w2 u w3 v where w2: "ensure_processes_alive_before_ready os w = Some (w2, Inr u)"
    and w3: "drain_monitor os True w2 = Some (w3, Inr v)"
    using assms(3) unfolding listener_turn_def by (auto simp: abind_Inr)
  have m: "monitored w w3"
    using keepsD [OF monitored_checks(3) w2] keepsD [OF monitored_drain w3] by (rule monitored_trans)
  let ?h = "snd w3 @ [LVerifyListener (ro_upstream_port (fst w3))]"
  have t: "wo_now os (?h @ [LNow]) < d"
    and w1: "w1 = (fst w3, ?h @ [LNow, LNow,
       LSleep (min (d - wo_now os (?h @ [LNow, LNow])) (ll_poll_interval (ro_limits (fst w3))))])"
    using assms(3) w2 w3 unfolding listener_turn_def
    by (auto simp: abind_def process_ref_def runtime_ref_def remaining_poll_def act_defs Let_def ok_or_def
        split: sum.splits option.splits if_splits)
  obtain k where k: "?h = snd w @ k" using monitored_history [OF m] by auto
  have p: "polls w3" using assms(2) monitored_fields(4) [OF m] by simp
  show ?thesis using sleep_falls [OF assms(1) k t p, of "snd w1"] p by (simp add: w1)
qed

lemma readiness_turn_falls:
  assumes "time_passes os" and "polls w" and "readiness_turn os d w = Some (w1, Inr None)"
  shows "polls w1 \<and> d - wo_now os (snd w1) < d - wo_now os (snd w)"
proof -
  obtain w2 u w3 v where w2: "ensure_processes_alive_before_ready os w = Some (w2, Inr u)"
    and w3: "drain_monitor os True w2 = Some (w3, Inr v)"
    using assms(3) unfolding readiness_turn_def by (auto simp: abind_Inr)
  have m: "monitored w w3"
    using keepsD [OF monitored_checks(3) w2] keepsD [OF monitored_drain w3] by (rule monitored_trans)
  have "\<exists>s tm h. h = snd w3 @ [LNow, LHttpReady (ro_upstream_port (fst w3)) s tm] \<and> wo_now os (h @ [LNow]) < d
      \<and> w1 = (fst w3, h @ [LNow, LNow,
          LSleep (min (d - wo_now os (h @ [LNow, LNow])) (ll_poll_interval (ro_limits (fst w3))))])"
    using assms(3) w2 w3 unfolding readiness_turn_def
    by (auto simp: abind_def remaining_poll_def act_defs Let_def ok_or_def map_err_def
        split: sum.splits option.splits if_splits)
  then obtain s tm h where h: "h = snd w3 @ [LNow, LHttpReady (ro_upstream_port (fst w3)) s tm]"
    and t: "wo_now os (h @ [LNow]) < d"
    and w1: "w1 = (fst w3, h @ [LNow, LNow,
          LSleep (min (d - wo_now os (h @ [LNow, LNow])) (ll_poll_interval (ro_limits (fst w3))))])"
    by blast
  obtain k where k: "h = snd w @ k" using monitored_history [OF m] h by auto
  have p: "polls w3" using assms(2) monitored_fields(4) [OF m] by simp
  show ?thesis using sleep_falls [OF assms(1) k t p, of "snd w1"] p by (simp add: w1)
qed

lemma waits_return:
  assumes "time_passes os" and "messages_end os n" and "polls w"
  shows "wait_for_listener os d w \<noteq> None" "wait_for_authenticated_readiness os d w \<noteq> None"
proof -
  have "loop_act (listener_turn os e) v \<noteq> None" if "polls v" for e v
    by (rule loop_returns [where I = polls and R = "measure (\<lambda>w. e - wo_now os (snd w))"])
      (use returns_listener_turn [OF assms(2)] listener_turn_falls [OF assms(1)] that in \<open>auto simp: returns_def\<close>)
  then show "wait_for_listener os d w \<noteq> None"
    using assms(3) by (auto simp: wait_for_listener_def abind_None checked_deadline_def act_defs Let_def abind_Inr
        ok_or_def split: option.splits)
  show "wait_for_authenticated_readiness os d w \<noteq> None"
    unfolding wait_for_authenticated_readiness_def
    by (rule loop_returns [where I = polls and R = "measure (\<lambda>w. d - wo_now os (snd w))"])
      (use returns_readiness_turn [OF assms(2)] readiness_turn_falls [OF assms(1)] assms(3) in \<open>auto simp: returns_def\<close>)
qed

lemma polls_starting: "starting w w1 \<Longrightarrow> polls w1 \<longleftrightarrow> polls w"
  by (auto simp: starting_def)

text \<open>Actions that return when the poll interval is positive, which startup never changes.\<close>

definition polling :: "(runtime_owner, 'a) act \<Rightarrow> bool" where
  "polling m \<longleftrightarrow> (\<forall>w. polls w \<longrightarrow> m w \<noteq> None)"

lemma polling_returns: "returns m \<Longrightarrow> polling m"
  by (simp add: polling_def returns_def)

lemma polling_abind:
  assumes "polling m" and "keeps starting m" and "\<And>x. polling (f x)"
  shows "polling (abind m f)"
  unfolding polling_def abind_None
  using assms(1,3) keepsD [OF assms(2)] polls_starting unfolding polling_def by meson

lemmas polling_parts = polling_abind starting_parts polling_returns [OF returns_pure(1)]
  polling_returns [OF returns_pure(2)] polling_returns [OF returns_pure(5)]
  polling_returns [OF returns_checks(1)] polling_returns [OF returns_checks(2)] polling_returns [OF returns_checks(4)]
  polling_returns [OF returns_apply] polling_returns [OF returns_ask] polling_returns [OF returns_now]
  polling_returns [OF returns_calls(2)]

lemma polling_event:
  assumes "time_passes os" and "messages_end os n"
  shows "polling (startup_event os d event)"
proof -
  have "polling (wait_for_listener os d)" "polling (wait_for_authenticated_readiness os d)"
    using waits_return [OF assms] by (simp_all add: polling_def)
  note waits = this
  show ?thesis unfolding startup_event_def
    by (auto intro!: waits polling_parts split: option.splits monitor_event.splits)
qed

lemma polling_message:
  assumes "time_passes os" and "messages_end os n"
  shows "polling (startup_message os d message)"
proof (cases "\<exists>state ignored. message = StdoutEnded state ignored")
  case True
  then have "returns (startup_message os d message)"
    unfolding startup_message_def
    by (auto intro!: returns_parts split: monitor_message.splits option.splits)
  then show ?thesis by (rule polling_returns)
next
  case False
  then have "startup_message os d message = abind (apply_monitor message True) (startup_event os d)"
    by (cases message) (auto simp: startup_message_def)
  then show ?thesis by (auto intro!: polling_parts polling_event [OF assms])
qed

lemma polling_ready_turn:
  assumes "time_passes os" and "messages_end os n"
  shows "polling (ready_turn os d)"
  unfolding ready_turn_def
  by (auto intro!: polling_parts polling_message [OF assms] split: received.splits)

text \<open>A turn of the startup loop that goes round received a message or let its timeout pass.\<close>

lemma ready_turn_falls:
  assumes "time_passes os" and "messages_end os n" and "polls w" and "ready_turn os d w = Some (w1, Inr None)"
  shows "polls w1 \<and> (Suc n - receives (snd w1) < Suc n - receives (snd w)
    \<or> Suc n - receives (snd w1) \<le> Suc n - receives (snd w) \<and> d - wo_now os (snd w1) < d - wo_now os (snd w))"
proof -
  obtain w2 u where w2: "ensure_wrapper_alive_before_ready os w = Some (w2, Inr u)"
    using assms(4) unfolding ready_turn_def by (auto simp: abind_Inr)
  note m = keepsD [OF monitored_checks(2) w2]
  define t where "t = min (d - wo_now os (snd w2 @ [LNow, LNow])) (ll_poll_interval (ro_limits (fst w2)))"
  define h where "h = snd w2 @ [LNow, LNow]"
  obtain k where k: "snd w2 = snd w @ k" using monitored_history [OF m] by blast
  have lt: "wo_now os (snd w2 @ [LNow]) < d"
    and rest: "(case wo_recv os (h @ [LRecv t]) of
         Received message \<Rightarrow> startup_message os d message
       | NoMessage \<Rightarrow> aret None
       | Disconnected \<Rightarrow> afail MonitorDisconnected) (fst w2, h @ [LRecv t]) = Some (w1, Inr None)"
    using assms(4) w2 unfolding ready_turn_def
    by (auto simp: abind_def act_defs remaining_poll_def Let_def t_def h_def split: if_splits)
  have p1: "polls w1" using polls_starting [OF keepsD [OF starting_ready_turn assms(4)]] assms(3) by simp
  show ?thesis
  proof (cases "wo_recv os (h @ [LRecv t])")
    case (Received message)
    then have run: "startup_message os d message (fst w2, h @ [LRecv t]) = Some (w1, Inr None)" using rest by simp
    obtain k1 where "snd w1 = (h @ [LRecv t]) @ k1"
      using keepsD [OF starting_message run] by (auto simp: starting_def)
    moreover have "receives (h @ [LRecv t]) \<le> n" using assms(2) Received by (auto simp: messages_end_def)
    ultimately have "Suc n - receives (snd w1) < Suc n - receives (snd w)"
      by (simp add: receives_def h_def k)
    with p1 show ?thesis by blast
  next
    case NoMessage
    then have w1: "w1 = (fst w2, h @ [LRecv t])" using rest by (simp add: aret_def)
    have mono: "wo_now os q \<le> wo_now os (q @ b)" for q b using assms(1) by (simp add: time_passes_def)
    have "wo_now os h + t \<le> wo_now os (snd w1)"
      using assms(1) NoMessage by (auto simp: time_passes_def w1)
    moreover have "wo_now os (snd w) \<le> wo_now os (snd w2 @ [LNow])" using mono [of "snd w" "k @ [LNow]"] k by simp
    moreover have "wo_now os (snd w2 @ [LNow]) \<le> wo_now os h" using mono [of "snd w2 @ [LNow]" "[LNow]"] by (simp add: h_def)
    moreover have "polls w2" using assms(3) monitored_fields(4) [OF m] by simp
    ultimately have "d - wo_now os (snd w1) < d - wo_now os (snd w)" using lt by (simp add: t_def h_def)
    moreover have "Suc n - receives (snd w1) \<le> Suc n - receives (snd w)" by (simp add: receives_def w1 h_def k)
    ultimately show ?thesis using p1 by blast
  next
    case Disconnected
    then show ?thesis using rest by (simp add: afail_def)
  qed
qed

lemma wait_until_ready_returns:
  assumes "time_passes os" and "messages_end os n" and "polls w"
  shows "wait_until_ready os w \<noteq> None"
proof -
  have "loop_act (ready_turn os d) v \<noteq> None" if v: "polls v" for d v
  proof (rule loop_returns [where I = polls and w = v])
    let ?R = "inv_image (less_than <*lex*> less_than) (\<lambda>w. (Suc n - receives (snd w), d - wo_now os (snd w)))"
    show "wf ?R" by (intro wf_inv_image wf_lex_prod wf_less_than)
    show "polls w1 \<and> (w1, w) \<in> ?R" if "polls w" "ready_turn os d w = Some (w1, Inr None)" for w w1
      using ready_turn_falls [OF assms(1,2) that] by (simp add: in_inv_image) linarith
  qed (use v polling_ready_turn [OF assms(1,2), of d] in \<open>auto simp: polling_def\<close>)
  then show ?thesis
    using assms(3) by (auto simp: wait_until_ready_def abind_None checked_deadline_def act_defs Let_def abind_Inr
        ok_or_def split: option.splits)
qed

subsection \<open>Reports\<close>

lemma terminate_job_history:
  "terminate_job os w = Some (w1, r) \<Longrightarrow> \<exists>k. snd w1 = snd w @ LTerminate FORCED_EXIT_CODE # k"
  by (auto simp: terminate_job_def job_terminate_def job_wait_for_empty_def abind_Some act_defs Let_def ask_partial_Some)

lemma force_and_cleanup_terminates:
  assumes "force_and_cleanup os w = Some (w1, r)" and "ro_process (fst w) \<noteq> None"
  shows "\<exists>k. snd w1 = snd w @ LTerminate FORCED_EXIT_CODE # k"
proof -
  define rest where "rest first_error = abind (attempt (finish_cleanup os Forced False)) (\<lambda>cleanup.
       case first_error of
         None \<Rightarrow> alift cleanup
       | Some primary \<Rightarrow>
           (case cleanup of
              Inr _ \<Rightarrow> afail primary
            | Inl e \<Rightarrow> afail (combine_cleanup_error primary (Some e))))" for first_error
  have k: "keeps (stopping os) (rest e)" for e
    unfolding rest_def by (auto intro!: stopping_parts split: option.splits sum.splits)
  have "abind (abind (terminate_job os) (\<lambda>(first_error, _). aret first_error)) rest w = Some (w1, r)"
    using assms by (simp add: force_and_cleanup_def rest_def [abs_def] abind_def [of "owner _"] owner_def)
  then obtain w2 r2 where "terminate_job os w = Some (w2, r2)" and "\<exists>k. snd w1 = snd w2 @ k"
  proof (cases rule: abind_cases)
    case (fails e)
    from fails(1) show thesis by (cases rule: abind_cases) (auto intro: that simp: aret_def)
  next
    case (runs w2 x)
    from keepsD [OF k runs(2)] have "\<exists>k. snd w1 = snd w2 @ k" by (simp add: stopping_def)
    with runs(1) show thesis by (cases rule: abind_cases) (auto intro: that simp: aret_def)
  qed
  with terminate_job_history show ?thesis by fastforce
qed

text \<open>A shutdown that reports ended in one of the two cleanups, and until then only watched.\<close>

definition watching :: "runtime_owner world \<Rightarrow> runtime_owner world \<Rightarrow> bool" where
  "watching w w1 \<longleftrightarrow> monitored w w1 \<and> unforced w w1"

interpretation watching: frame watching
  by unfold_locales (use monitored_trans unforced_trans in
    \<open>auto simp: watching_def monitored_same unforced.same\<close>)

lemma watching_calls: "k \<in> lists {LNow, LSleep t, LCreateControl} \<Longrightarrow> watching w (fst w, snd w @ k)"
  by (auto simp: watching_def unforced_def monitored_def intro!: exI [of _ "ro_monitor_state (fst w)"]
      exI [of _ "ro_ignored_stdout_lines (fst w)"] exI [of _ "ro_stdout_ended (fst w)"])

lemma shutdown_turn_watches:
  assumes "shutdown_turn os d w = Some (w1, Inr None)"
  shows "watching w w1"
  using assms
proof (cases rule: shutdown_turn_Ok)
  case (sleeps w2)
  have "watching w2 w1" unfolding sleeps(5) by (rule watching_calls) simp
  then show ?thesis using sleeps(1,2) watching.trans [of w w2 w1] by (simp add: watching_def)
qed simp_all

text \<open>\<open>shutdown\<close> up to its loop: the owner is marked, the control file created unless it was before.\<close>

lemma shutdown_enters:
  assumes "ro_owner_state (fst w) \<noteq> OwnerCleaned"
  shows "(\<exists>w1 e. shutdown os w = Some (w1, Inl e))
    \<or> (\<exists>k d. set k \<subseteq> {LCreateControl, LNow}
        \<and> shutdown os w = loop_act (shutdown_turn os d) (fst (marked w), snd w @ k))
    \<or> shutdown os w = None \<and> signal_stop os (marked w) = None"
proof -
  let ?loop = "\<lambda>_. abind (owner ro_limits) (\<lambda>l. abind (checked_deadline os (ll_graceful_timeout l)) (\<lambda>deadline.
      loop_act (shutdown_turn os deadline)))"
  have loop: "(\<exists>w1 e. ?loop () v = Some (w1, Inl e))
      \<or> (\<exists>d. ?loop () v = loop_act (shutdown_turn os d) (fst v, snd v @ [LNow]))" for v
    by (auto simp: abind_def checked_deadline_def act_defs Let_def ok_or_def split: option.splits)
  show ?thesis
  proof (cases "ro_owner_state (fst w) = OwnerStopping")
    case True
    then have "marked w = w" by (cases w) simp
    moreover have "shutdown os w = ?loop () w"
      using True by (simp add: shutdown_def abind_def [of "owner ro_owner_state"] abind_def [of "aret ()"] owner_def aret_def)
    ultimately show ?thesis using loop [of w] by (metis empty_set fst_conv insert_subset empty_subsetI insertI1 insert_commute list.simps(15))
  next
    case False
    have "shutdown os w = abind (request_stop os) ?loop w"
      using assms False by (simp add: shutdown_def abind_def [of "owner ro_owner_state"] owner_def)
    also have "\<dots> = abind (signal_stop os) ?loop (marked w)"
      by (simp add: request_stop_def abind_def [of "update _"] abind_def [of "abind _ _"] abind_def [of "signal_stop _"] update_def)
    finally have eq: "shutdown os w = abind (signal_stop os) ?loop (marked w)" .
    consider "signal_stop os (marked w) = None" | w1 e where "signal_stop os (marked w) = Some (w1, Inl e)"
      | w1 u where "signal_stop os (marked w) = Some (w1, Inr u)"
      by (metis not_Some_eq old.prod.exhaust sum.exhaust)
    then show ?thesis
    proof cases
      case 3
      note w1 = signal_stop_Ok [OF 3]
      have "shutdown os w = ?loop u (fst (marked w), snd w @ [LCreateControl])"
        using eq 3 by (simp add: abind_def [of "signal_stop _"] w1)
      moreover have "set [LCreateControl, LNow] \<subseteq> {LCreateControl, LNow}" by simp
      ultimately show ?thesis
        using loop [of "(fst (marked w), snd w @ [LCreateControl])"]
        by (metis append.assoc append_Cons append_Nil fst_conv snd_conv)
    qed (simp_all add: eq abind_def)
  qed
qed

lemma watching_marked: "set k \<subseteq> {LCreateControl, LNow} \<Longrightarrow> watching w (fst w, snd w @ k)"
  by (rule watching_calls) auto

lemma shutdown_Ok:
  assumes "shutdown os w = Some (w1, Inr report)"
  obtains (graceful) w2 where "watching (marked w) w2" "finish_cleanup os Graceful True w2 = Some (w1, Inr report)"
    | (force) w2 where "monitored (marked w) w2" "force_and_cleanup os w2 = Some (w1, Inr report)"
proof -
  have "ro_owner_state (fst w) \<noteq> OwnerCleaned" using shutdown_run [OF assms] by auto
  then obtain k d where k: "set k \<subseteq> {LCreateControl, LNow}"
    and loop: "loop_act (shutdown_turn os d) (fst (marked w), snd w @ k) = Some (w1, Inr report)"
    using shutdown_enters [of w os] assms by auto
  have w3: "watching (marked w) (fst (marked w), snd w @ k)" using watching_marked [OF k, of "marked w"] by simp
  from watching.loop_turn [OF shutdown_turn_watches [of os d] loop] obtain w0 where
    w0: "watching (fst (marked w), snd w @ k) w0" "shutdown_turn os d w0 = Some (w1, Inr (Some report))" by auto
  have w: "watching (marked w) w0" using w3 w0(1) by (rule watching.trans)
  from w0(2) show thesis
  proof (cases rule: shutdown_turn_Ok)
    case (graceful w2 report')
    then show thesis using that(1) watching.trans [OF w, of w2] by (simp add: watching_def)
  next
    case (force w2 report')
    have "monitored (marked w) w0" using w by (simp add: watching_def)
    then have "monitored (marked w) w2" using force(1) by (rule monitored_trans)
    then show thesis using that(2) force(2,3) by simp
  qed simp
qed

text \<open>What a cleanup that reports leaves behind, whichever way it went.\<close>

lemma cleaned_up_True:
  assumes "cleaned_up os True w w1"
  shows "ro_owner_state (fst w1) = OwnerCleaned \<and> holds_no_process (fst w1) \<and> ro_session (fst w1) = None
    \<and> session_gone os (fst w) (snd w1)"
  using assms by (simp add: cleaned_up_def released_def holds_no_process_def)

lemma report_outcome:
  assumes m: "monitored (marked w) w2"
    and run: "finish_cleanup os Graceful True w2 = Some (w1, Inr report) \<and> unforced (marked w) w2
      \<or> force_and_cleanup os w2 = Some (w1, Inr report)"
  shows "report_true os w1 report \<and> ro_owner_state (fst w1) = OwnerCleaned \<and> holds_no_process (fst w1)
    \<and> ro_session (fst w1) = None \<and> session_gone os (fst w) (snd w1)
    \<and> (sr_kind report = Forced \<longleftrightarrow> (\<exists>k c. snd w1 = snd w @ k \<and> LTerminate c \<in> set k))"
proof -
  have gone: "session_gone os (fst w2) h \<longleftrightarrow> session_gone os (fst w) h" for h
    using session_gone_monitored [OF m] by (simp add: session_gone_def)
  from run show ?thesis
  proof (elim disjE conjE)
    assume fin: "finish_cleanup os Graceful True w2 = Some (w1, Inr report)" and u: "unforced (marked w) w2"
    from fin have "cleaned_up os True w2 w1 \<and> sr_kind report = Graceful \<and> report_true os w1 report"
      by (cases rule: finish_cleanup_run) auto
    moreover have "unforced (marked w) w1" using u keepsD [OF unforced_finish fin] by (rule unforced_trans)
    then have "LTerminate c \<notin> set k" if "snd w1 = snd w @ k" for c k using that by (auto simp: unforced_def)
    ultimately show ?thesis using cleaned_up_True [of os w2 w1] gone by auto
  next
    assume force: "force_and_cleanup os w2 = Some (w1, Inr report)"
    then have p: "ro_process (fst w2) \<noteq> None"
      and c: "cleaned_up os True w2 w1 \<and> sr_kind report = Forced \<and> report_true os w1 report"
      by (cases rule: force_and_cleanup_run; auto)+
    obtain k1 k2 where "snd w2 = snd w @ k1" "snd w1 = snd w2 @ LTerminate FORCED_EXIT_CODE # k2"
      using monitored_history [OF m] force_and_cleanup_terminates [OF force p] by auto
    then have "\<exists>k c. snd w1 = snd w @ k \<and> LTerminate c \<in> set k"
      by (intro exI [of _ "k1 @ LTerminate FORCED_EXIT_CODE # k2"]) auto
    then show ?thesis using c cleaned_up_True [of os w2 w1] gone by auto
  qed
qed

lemma shutdown_outcome:
  assumes "shutdown os w = Some (w1, Inr report) \<or> force_shutdown os w = Some (w1, Inr report)"
  shows "report_true os w1 report \<and> ro_owner_state (fst w1) = OwnerCleaned \<and> holds_no_process (fst w1)
    \<and> ro_session (fst w1) = None \<and> session_gone os (fst w) (snd w1)
    \<and> (sr_kind report = Forced \<longleftrightarrow> (\<exists>k c. snd w1 = snd w @ k \<and> LTerminate c \<in> set k))"
  using assms
proof
  assume "shutdown os w = Some (w1, Inr report)"
  then show ?thesis
  proof (cases rule: shutdown_Ok)
    case (graceful w2)
    then show ?thesis by (intro report_outcome [of w w2]) (auto simp only: watching_def)
  next
    case (force w2)
    then show ?thesis by (intro report_outcome [of w w2]) simp_all
  qed
next
  assume "force_shutdown os w = Some (w1, Inr report)"
  then have "force_and_cleanup os (marked w) = Some (w1, Inr report)" using force_shutdown_run by blast
  then show ?thesis by (intro report_outcome [of w "marked w"] monitored_same) simp
qed

section \<open>Properties\<close>

text \<open>C22: The report of a shutdown is the truth.  When \<open>shutdown\<close> or \<open>force_shutdown\<close> returns a report, the
  Job had been seen empty and both processes had been seen to exit with the reported codes before
  the Job was closed; the last effect is the successful removal of the private session; the owner is
  cleaned and holds nothing any more; the stream counters are those of the owner; and the
  shutdown is reported as forced exactly when the Job was terminated.\<close>

theorem shutdown_report_truthful:
  assumes "shutdown os w = Some (w1, Inr report) \<or> force_shutdown os w = Some (w1, Inr report)"
  shows "report_true os w1 report \<and> ro_owner_state (fst w1) = OwnerCleaned \<and> holds_no_process (fst w1)
    \<and> ro_session (fst w1) = None \<and> session_gone os (fst w) (snd w1)
    \<and> (sr_kind report = Forced \<longleftrightarrow> (\<exists>k c. snd w1 = snd w @ k \<and> LTerminate c \<in> set k))"
  using assms by (rule shutdown_outcome)

text \<open>C23: Every operation on a launched owner returns.  When the clock does not go back, sleeps last as
  long as asked for, and the two monitor threads send finitely many messages, then health polling, graceful
  shutdown, forced shutdown and the retry of the session cleanup all return a result, whatever the
  processes, the Job, the file system and the monitor threads answer; \<open>wait_until_ready\<close> returns as well.\<close>

theorem owner_operations_return:
  assumes "time_passes os" and "messages_end os n" and "limits_valid (ro_limits (fst w))"
  shows "(\<exists>w1 r. shutdown os w = Some (w1, r)) \<and> (\<exists>w1 r. force_shutdown os w = Some (w1, r))
    \<and> (\<exists>w1 r. poll_health os w = Some (w1, r)) \<and> (\<exists>w1 r. retry_private_cleanup os w = Some (w1, r))
    \<and> (\<exists>w1 r. wait_until_ready os w = Some (w1, r)) \<and> (\<exists>w1 r. owner_drop os w = Some (w1, r))"
proof -
  have p: "polls w" using assms(3) by (simp add: limits_valid_def Let_def)
  have "shutdown os w \<noteq> None"
  proof (cases "ro_owner_state (fst w) = OwnerCleaned")
    case True then show ?thesis by (simp add: shutdown_def abind_def act_defs)
  next
    case False
    from shutdown_enters [OF this, of os] show ?thesis
    proof (elim disjE exE conjE)
      fix k d assume "shutdown os w = loop_act (shutdown_turn os d) (fst (marked w), snd w @ k)"
      then show ?thesis using shutdown_loop_returns [OF assms(1,2)] p by (simp only: fst_conv) simp
    next
      assume "signal_stop os (marked w) = None"
      then show ?thesis using returnsD [OF returns_signal [OF assms(1,2)]] by blast
    qed (simp only: option.distinct simp_thms)
  qed
  moreover have "returns (force_shutdown os)" "returns (poll_health os)" "returns (retry_private_cleanup os)"
      "returns (owner_drop os)"
    unfolding force_shutdown_def poll_health_def retry_private_cleanup_def owner_drop_def split_beta
    by (auto intro!: returns_parts returns_finish [OF assms(1,2)] returns_drain [OF assms(2)] returns_cleanup [OF assms(1,2)])
  ultimately show ?thesis
    using wait_until_ready_returns [OF assms(1,2) p] by (intro conjI runs_Some) (assumption | erule returnsD)+
qed

text \<open>C21: The owner keeps its invariant.  Over any sequence of health polls, shutdowns, forced shutdowns and
  cleanup retries on a launched owner: while it is ready it holds the Job, the captured runtime, the
  session, the secret and both monitor threads; while it is stopping it still holds all of them, or nothing but
  the private session; once cleaned it holds nothing, and no operation has any further effect.
  The Job is never closed without having been seen empty before: when every wait for it failed or timed
  out, no operation closes the Job and the owner still holds its process.  A comment in \<open>finish_cleanup\<close>
  says that the process owner is dropped also after a query error; the code returns before it, and only
  dropping the owner closes such a Job.\<close>

theorem owner_invariant:
  assumes "owner_ok (fst w)" and "owner_steps os w w1"
  shows "owner_ok (fst w1) \<and> closes_empty os (snd w) (snd w1)
    \<and> (ro_owner_state (fst w) = OwnerCleaned \<longrightarrow> w1 = w)
    \<and> (\<exists>k. snd w1 = snd w @ k
         \<and> (\<not> job_seen_empty os (snd w) (snd w1) \<longrightarrow> LCloseJob \<notin> set k
              \<and> (ro_process (fst w) \<noteq> None \<longrightarrow> ro_process (fst w1) \<noteq> None)))"
proof -
  have inv: "owner_ok (fst w1) \<and> closes_empty os (snd w) (snd w1) \<and> job_held w w1
      \<and> (ro_owner_state (fst w) = OwnerCleaned \<longrightarrow> w1 = w)"
    using assms(2,1)
  proof induction
    case (none w) then show ?case using closes_emptyI [of "[]"] job_held_same by simp
  next
    case (step w w1 w2)
    then obtain k1 k2 where k: "snd w1 = snd w @ k1" "snd w2 = snd w1 @ k2"
      using owner_step_ok [OF step.hyps(2)] by (auto simp: job_held_def)
    have "job_held w w2" using step job_held_step [OF step.hyps(2)] job_held_trans by blast
    with step owner_step_ok [OF step.hyps(2)] closes_empty_trans [of os "snd w" k1 k2] show ?case
      by (auto simp: k)
  qed
  then obtain k where k: "snd w1 = snd w @ k" "ro_process (fst w) \<noteq> None \<longrightarrow> ro_process (fst w1) \<noteq> None \<or> LCloseJob \<in> set k"
    by (auto simp: job_held_def)
  have "\<not> job_seen_empty os (snd w) (snd w1) \<longrightarrow> LCloseJob \<notin> set k"
    using inv closes_emptyD [of os "snd w" k] k(1) by simp
  with inv k show ?thesis by blast
qed

section \<open>Witnesses\<close>

text \<open>A runtime that listens at once, exits with code 0 when its Job is terminated, and a file system on which
  every call succeeds.\<close>

definition example_process :: "nat \<Rightarrow> process_oracle" where
  "example_process wait =
     \<lparr>po_wait = (\<lambda>_. WAIT_TIMEOUT), po_in_job = (\<lambda>_. Inr True), po_creation_time = Inr (1, 2),
      po_timed_wait = (\<lambda>_. wait), po_exit_code = Inr 0\<rparr>"

definition example_alive :: "life_op list \<Rightarrow> nat" where
  "example_alive h = (if LTerminate FORCED_EXIT_CODE \<in> set h then WAIT_OBJECT_0 else WAIT_TIMEOUT)"

fun op_duration :: "life_op \<Rightarrow> nat" where
  "op_duration (LSleep d) = d"
| "op_duration (LRecv d) = d"
| "op_duration op = 0"

definition example_table :: "octets \<Rightarrow> table_oracle" where
  "example_table storage =
     \<lparr>to_size_query = (ERROR_INSUFFICIENT_BUFFER, 8), to_query = (\<lambda>_ _. (0, 8, storage))\<rparr>"

definition example_layout :: "'r \<Rightarrow> 'r row_layout" where
  "example_layout row = \<lparr>rl_size = 4, rl_offset = 4, rl_read = (\<lambda>_. row)\<rparr>"

definition example_life :: life_oracle where
  "example_life =
     \<lparr>wo_now = (\<lambda>h. sum_list (map op_duration h)), wo_instant_max = u64_max,
      wo_recv = (\<lambda>h. if h \<noteq> [] \<and> last h \<noteq> LTryRecv \<and> receives h = 1
                  then Received (Event LsListening (MonitorListening 7)) else NoMessage),
      wo_process = (\<lambda>h. example_process (example_alive h)), wo_runtime = (\<lambda>h. example_process (example_alive h)),
      wo_open_process = (\<lambda>h pid. Inr (example_process (example_alive h))),
      wo_terminate = (\<lambda>h. Inr ()), wo_accounting = (\<lambda>h i. Inr 0), wo_turn_clock = (\<lambda>h i. 10000000 * i),
      wo_tcp_table = (\<lambda>h. example_table [1, 0, 0, 0, 0, 0, 0, 0]), wo_tcp6_table = (\<lambda>h. example_table (replicate 8 0)),
      wo_tcp_layout = example_layout \<lparr>tr_local_addr = 0x0100007F, tr_local_port = 0xFE0E,
        tr_state = MIB_TCP_STATE_LISTEN, tr_owning_pid = 7\<rparr>,
      wo_tcp6_layout = example_layout \<lparr>t6_local_port = 0\<rparr>,
      wo_http = (\<lambda>h. \<lparr>ha_connect = True, ha_set_read_timeout = True, ha_set_write_timeout = True,
        ha_write_all = (\<lambda>_. True), ha_flush = True,
        ha_reads = (\<lambda>_. map Some (''HTTP/1.1 200 OK'' @ crlf))\<rparr>),
      wo_token_exists = (\<lambda>h. Inr False), wo_session = (\<lambda>h. example_session_oracle),
      wo_join_stdout = (\<lambda>h. True), wo_join_stderr = (\<lambda>h. Some 0), wo_launch = (\<lambda>h. example_oracle),
      wo_taken = (\<lambda>h. True), wo_spawned = (\<lambda>h. True)\<rparr>"

definition example_owner :: runtime_owner where
  "example_owner =
     \<lparr>ro_bundle = example_bundle, ro_upstream_port = 3838, ro_upstream_secret = Some \<lparr>secret_value = ''rp-00''\<rparr>,
      ro_limits = default_lifecycle_limits, ro_session = Some example_session,
      ro_process = Some \<lparr>pi_pid = 5, pi_creation_time_100ns = 9\<rparr>, ro_runtime = None,
      ro_stdout_thread = True, ro_stderr_thread = True, ro_monitor_state = LsAwaitingStart,
      ro_ignored_stdout_lines = 0, ro_discarded_stderr_bytes = 0, ro_stdout_ended = False,
      ro_owner_state = OwnerStarting\<rparr>"

lemma drain_idle:
  assumes "wo_recv os (snd w @ [LTryRecv]) = NoMessage"
  shows "drain_monitor os strict w = Some ((fst w, snd w @ [LTryRecv]), Inr ())"
  unfolding drain_monitor_def
  by (subst loop_act.simps) (simp add: drain_turn_def abind_def act_defs Let_def assms)

lemma empty_at_once: "accounting 0 = Inr 0 \<Longrightarrow> wait_for_empty accounting clock instant_max start timeout = Some (Inr True)"
  by (simp add: wait_for_empty_def empty_loop.simps)

definition example_ready :: runtime_owner where
  "example_ready = example_owner\<lparr>ro_runtime := Some \<lparr>pi_pid = 7, pi_creation_time_100ns = 4294967298\<rparr>,
     ro_monitor_state := LsListening, ro_owner_state := OwnerReady\<rparr>"

lemma session_ok: "snd (verify_security example_session_oracle example_session []) = Inr ()"
   "snd (session_cleanup example_session_oracle example_session []) = Inr ()"
  by code_simp+

lemma example_forces:
  assumes "ro_owner_state rt = OwnerReady" "ro_process rt \<noteq> None" "ro_runtime rt \<noteq> None"
    "ro_session rt = Some example_session" "ro_stdout_thread rt" "ro_stderr_thread rt"
  shows "\<exists>w1 report. force_shutdown example_life (rt, h) = Some (w1, Inr report)"
proof -
  have waits: "wait_for_process (example_process WAIT_OBJECT_0) t = Inr (Some 0)" for t
    by (simp add: wait_for_process_def example_process_def WAIT_OBJECT_0_def WAIT_TIMEOUT_def)
  obtain p q where "ro_process rt = Some p" "ro_runtime rt = Some q" using assms(2,3) by blast
  with assms show ?thesis
    by (simp add: force_shutdown_def force_and_cleanup_def finish_cleanup_def observe_exit_def release_owner_def
      terminate_job_def job_terminate_def job_wait_for_empty_def process_wait_def runtime_wait_def join_monitors_def
      clean_private_session_def session_verify_def session_clean_def abind_def act_defs Let_def ask_partial_def
      empty_at_once drain_idle attempt_def empty_outcome_def wait_outcome_def result_or_def session_ok
      example_life_def example_alive_def waits)
qed

lemma example_forced:
  "\<exists>w1 report. force_shutdown example_life (example_ready, h) = Some (w1, Inr report)"
  by (rule example_forces) (simp_all add: example_ready_def example_owner_def)

lemma example_time: "time_passes example_life" "messages_end example_life 1"
  by (auto simp: time_passes_def messages_end_def example_life_def sleep_nanos_def)

lemma shutdown_report_truthful_witness:
  "\<exists>w1 report. force_shutdown example_life (example_ready, []) = Some (w1, Inr report)
     \<and> report_true example_life w1 report \<and> ro_session (fst w1) = None \<and> sr_kind report = Forced"
proof -
  obtain w1 report where run: "force_shutdown example_life (example_ready, []) = Some (w1, Inr report)"
    using example_forced by blast
  have "sr_kind report = Forced"
    using force_shutdown_run [OF run] by (auto simp: example_ready_def elim: force_and_cleanup_run)
  with run shutdown_report_truthful [OF disjI2, OF run] show ?thesis by blast
qed

lemma owner_operations_return_witness:
  "\<exists>w1 r. shutdown example_life (example_ready, []) = Some (w1, r)"
proof -
  have "limits_valid (ro_limits (fst (example_ready, [])))"
    by code_simp
  from owner_operations_return [OF example_time this] show ?thesis by blast
qed

lemma owner_invariant_witness:
  "\<exists>w1. owner_steps example_life (example_ready, []) w1 \<and> owner_ok (fst w1) \<and> closes_empty example_life [] (snd w1)
     \<and> ro_owner_state (fst w1) = OwnerCleaned"
proof -
  obtain w1 report where run: "force_shutdown example_life (example_ready, []) = Some (w1, Inr report)"
    using example_forced by blast
  have steps: "owner_steps example_life (example_ready, []) w1"
    by (rule owner_steps.step [OF owner_steps.none owner_step.forced [OF run]])
  have "owner_ok (fst (example_ready, []))"
    by (simp add: owner_ok_def holds_all_def example_ready_def example_owner_def)
  then have inv: "owner_ok (fst w1)" "closes_empty example_life (snd (example_ready, [])) (snd w1)"
    using owner_invariant [OF _ steps] by blast+
  have "force_and_cleanup example_life (marked (example_ready, [])) = Some (w1, Inr report)"
    using force_shutdown_run [OF run] by blast
  then have "ro_owner_state (fst w1) = OwnerCleaned"
    using report_outcome [of "(example_ready, [])", OF monitored_same] by blast
  with steps inv show ?thesis unfolding snd_conv by blast
qed

end
