(* ===== verification/Runtime_Launch.thy ===== *)
theory Runtime_Launch
  imports Owner_Progress
begin

text \<open>
  \<open>RuntimeOwner::launch\<close> of \<open>crates/windows-lifecycle/src/lib.rs\<close>: from the validated resources over the private
  session, the one-time token, the interpreter command and the suspended launch to the monitored
  owner that is ready, with the cleanup of every failing exit.
\<close>

section \<open>Definitions\<close>

text \<open>Running an action of the owner that was just built; its failure is an answer like any other.\<close>

definition on_owner ::
  "runtime_owner \<Rightarrow> (runtime_owner, 'a) act \<Rightarrow> ('o, runtime_owner \<times> (lifecycle_error + 'a)) act" where
  "on_owner ow m w =
     (case m (ow, snd w) of None \<Rightarrow> None | Some ((ow1, h), r) \<Rightarrow> Some ((fst w, h), Inr (ow1, r)))"

definition cleanup_prelaunch_error ::
  "life_oracle \<Rightarrow> lifecycle_error \<Rightarrow> private_session \<Rightarrow> (unit, 'a) act" where
  "cleanup_prelaunch_error os primary session =
     abind (session_clean os session) (\<lambda>r.
     case r of
       Inr _ \<Rightarrow> afail primary
     | Inl cleanup \<Rightarrow> afail (combine_cleanup_error primary (Some (Launch cleanup))))"

definition attach_startup_stderr_count :: "lifecycle_error \<Rightarrow> nat \<Rightarrow> lifecycle_error" where
  "attach_startup_stderr_count error bytes =
     (case error of
        InterpreterExitedBeforeReadiness exit_code _ \<Rightarrow> InterpreterExitedBeforeReadiness exit_code bytes
      | other \<Rightarrow> other)"

text \<open>Joining the threads that were spawned, and removing the session, after a failed setup of the monitors.\<close>

definition cleanup_spawned_session ::
  "life_oracle \<Rightarrow> private_session \<Rightarrow> bool \<Rightarrow> bool \<Rightarrow> lifecycle_error option \<Rightarrow> (unit, lifecycle_error option) act" where
  "cleanup_spawned_session os session stdout_thread stderr_thread cleanup_error =
     abind (if stdout_thread then ask LJoinStdout (wo_join_stdout os) else aret True) (\<lambda>out.
     let e1 = (if out then cleanup_error else store_first_error cleanup_error (MonitorThreadPanicked ''stdout'')) in
     abind (if stderr_thread then ask LJoinStderr (wo_join_stderr os) else aret (Some 0)) (\<lambda>err.
     let e2 = (if err \<noteq> None then e1 else store_first_error e1 (MonitorThreadPanicked ''stderr'')) in
     abind (session_verify os session) (\<lambda>v.
     let e3 = (case v of Inl e \<Rightarrow> store_first_error e2 (Launch e) | Inr _ \<Rightarrow> e2) in
     abind (session_clean os session) (\<lambda>c.
       aret (case c of Inl e \<Rightarrow> store_first_error e3 (Launch e) | Inr _ \<Rightarrow> e3)))))"

definition cleanup_spawned_error ::
  "life_oracle \<Rightarrow> lifecycle_error \<Rightarrow> private_session \<Rightarrow> bool \<Rightarrow> bool \<Rightarrow> nat \<Rightarrow> (unit, 'a) act" where
  "cleanup_spawned_error os primary session stdout_thread stderr_thread timeout =
     abind (job_terminate os FORCED_EXIT_CODE) (\<lambda>t.
     abind (job_wait_for_empty os timeout) (\<lambda>e.
     let (cleanup_error, job_empty) = empty_outcome e (case t of Inl err \<Rightarrow> Some (Launch err) | Inr _ \<Rightarrow> None) in
     abind (ask LCloseJob (\<lambda>_. ())) (\<lambda>_.
     if \<not> job_empty then
       afail (combine_cleanup_error primary
         (Some (case cleanup_error of Some e \<Rightarrow> e | None \<Rightarrow> JobDidNotBecomeEmpty)))
     else
       abind (cleanup_spawned_session os session stdout_thread stderr_thread cleanup_error) (\<lambda>cleanup_error.
         afail (combine_cleanup_error primary cleanup_error)))))"

text \<open>The owner as it is built once both monitor threads run.\<close>

definition new_owner ::
  "validated_bundle \<Rightarrow> 16 word \<Rightarrow> secret \<Rightarrow> lifecycle_limits \<Rightarrow> private_session \<Rightarrow> process_identity \<Rightarrow> runtime_owner" where
  "new_owner bundle upstream_port upstream_secret limits session process =
     \<lparr>ro_bundle = bundle, ro_upstream_port = upstream_port, ro_upstream_secret = Some upstream_secret,
      ro_limits = limits, ro_session = Some session, ro_process = Some process, ro_runtime = None,
      ro_stdout_thread = True, ro_stderr_thread = True, ro_monitor_state = LsAwaitingStart,
      ro_ignored_stdout_lines = 0, ro_discarded_stderr_bytes = 0, ro_stdout_ended = False,
      ro_owner_state = OwnerStarting\<rparr>"

text \<open>Waiting for readiness; a failure aborts, cleans up, and drops the owner.\<close>

definition start_owner :: "life_oracle \<Rightarrow> runtime_owner \<Rightarrow> (unit, runtime_owner) act" where
  "start_owner os ow0 =
     abind (on_owner ow0 (wait_until_ready os)) (\<lambda>(ow1, ready).
     case ready of
       Inr _ \<Rightarrow> aret ow1
     | Inl primary \<Rightarrow>
         abind (on_owner ow1 (abort_and_cleanup os)) (\<lambda>(ow2, cleanup).
         let primary1 = attach_startup_stderr_count primary (ro_discarded_stderr_bytes ow2) in
         abind (on_owner ow2 (owner_drop os)) (\<lambda>_.
           afail (combine_cleanup_error primary1 (error_of cleanup)))))"

text \<open>Taking the two pipes of the launched process and starting the monitor threads on them.\<close>

definition attach_monitors ::
  "life_oracle \<Rightarrow> private_session \<Rightarrow> lifecycle_limits \<Rightarrow> (unit, unit) act" where
  "attach_monitors os session limits =
     abind (ask LTakeStdout (wo_taken os)) (\<lambda>stdout.
     if \<not> stdout
     then cleanup_spawned_error os (MissingLifecyclePipe ''stdout'') session False False (ll_termination_timeout limits)
     else
       abind (ask LTakeStderr (wo_taken os)) (\<lambda>stderr.
       if \<not> stderr
       then cleanup_spawned_error os (MissingLifecyclePipe ''stderr'') session False False (ll_termination_timeout limits)
       else
         abind (ask LSpawnStderr (wo_spawned os)) (\<lambda>stderr_thread.
         if \<not> stderr_thread
         then cleanup_spawned_error os (ThreadSpawn ''stderr'') session False False (ll_termination_timeout limits)
         else
           abind (ask LSpawnStdout (wo_spawned os)) (\<lambda>stdout_thread.
           if \<not> stdout_thread
           then cleanup_spawned_error os (ThreadSpawn ''stdout'') session False True (ll_termination_timeout limits)
           else aret ()))))"

text \<open>The interpreter command, from the paths and the environment of the host.\<close>

definition interpreter_command ::
  "runtime_env \<Rightarrow> validated_bundle \<Rightarrow> 16 word \<Rightarrow> private_session \<Rightarrow> lifecycle_error + launch_command" where
  "interpreter_command env bundle upstream_port session =
     rbind (rbind (bundled_r_interpreter env bundle) (r_compatible_existing_path env)) (\<lambda>interpreter.
     rbind (bundled_r_environment env bundle interpreter) (\<lambda>environment.
       bundled_r_command env bundle interpreter upstream_port (px_token_path session) (px_control_path session)
         environment))"

definition launch_validated_inner ::
  "life_oracle \<Rightarrow> runtime_env \<Rightarrow> validated_bundle \<Rightarrow> win_path \<Rightarrow> 16 word \<Rightarrow> transport_secrets \<Rightarrow> lifecycle_limits \<Rightarrow>
     (unit, runtime_owner) act" where
  "launch_validated_inner os env bundle session_parent upstream_port secrets limits =
     abind (ask (LCreateSession session_parent) (\<lambda>h. snd (session_create (wo_session os h) session_parent []))) (\<lambda>r.
     abind (launched r) (\<lambda>session.
     let upstream_secret = ts_upstream secrets in
     abind (ask (LWriteToken (secret_value upstream_secret))
              (\<lambda>h. snd (write_token_file (wo_session os h) session (secret_value upstream_secret) []))) (\<lambda>written.
     case written of
       Inl e \<Rightarrow> cleanup_prelaunch_error os (Launch e) session
     | Inr _ \<Rightarrow>
         (case interpreter_command env bundle upstream_port session of
            Inl e \<Rightarrow> cleanup_prelaunch_error os e session
          | Inr command \<Rightarrow>
              abind (ask (LLaunch command) (\<lambda>h. snd (launch_process (wo_launch os h) command []))) (\<lambda>p.
              case p of
                Inl e \<Rightarrow> cleanup_prelaunch_error os (Launch e) session
              | Inr process \<Rightarrow>
                  abind (attach_monitors os session limits) (\<lambda>_.
                    start_owner os (new_owner bundle upstream_port upstream_secret limits session process)))))))"

definition launch_validated ::
  "life_oracle \<Rightarrow> runtime_env \<Rightarrow> validated_bundle \<Rightarrow> win_path \<Rightarrow> 16 word \<Rightarrow> transport_secrets \<Rightarrow> lifecycle_limits \<Rightarrow>
     (unit, runtime_owner) act" where
  "launch_validated os env bundle session_parent upstream_port secrets limits =
     (if \<not> limits_valid limits then afail InvalidLimits
      else if upstream_port = 0 then afail InvalidUpstreamPort
      else launch_validated_inner os env bundle session_parent upstream_port secrets limits)"

definition launch ::
  "life_oracle \<Rightarrow> runtime_env \<Rightarrow> bundle_env \<Rightarrow> path \<Rightarrow> win_path \<Rightarrow> 16 word \<Rightarrow> transport_secrets \<Rightarrow> lifecycle_limits \<Rightarrow>
     (unit, runtime_owner) act" where
  "launch os env files bundle_path session_parent upstream_port secrets limits =
     (if \<not> limits_valid limits then afail InvalidLimits
      else if upstream_port = 0 then afail InvalidUpstreamPort
      else
        abind (alift (map_err Bundle (bundle_load files bundle_path))) (\<lambda>bundle.
          launch_validated_inner os env bundle session_parent upstream_port secrets limits))"

text \<open>\<open>select_upstream_port\<close>: whether the ephemeral listener could be bound, and its port if it could be read.\<close>

definition select_upstream_port :: "bool \<Rightarrow> (16 word) option \<Rightarrow> lifecycle_error + 16 word" where
  "select_upstream_port reserved address =
     (if \<not> reserved then Inl (Io ''reserve upstream loopback port'')
      else
        rbind (ok_or address (Io ''inspect reserved upstream port'')) (\<lambda>port.
        if port = 0 then Inl InvalidUpstreamPort else Inr port))"

subsection \<open>Specifications\<close>

text \<open>What a failed launch leaves: no process was created, or its Job was terminated and then closed.\<close>

definition launch_released :: "life_oracle \<Rightarrow> life_op list \<Rightarrow> life_op list \<Rightarrow> bool" where
  "launch_released os h0 h \<longleftrightarrow>
     (\<exists>k. h = h0 @ k \<and> (\<forall>c. LLaunch c \<notin> set k))
   \<or> (\<exists>a c b e. h = h0 @ a @ LLaunch c # b \<and> (\<forall>c. LLaunch c \<notin> set (a @ b))
        \<and> snd (launch_process (wo_launch os (h0 @ a @ [LLaunch c])) c []) = Inl e)
   \<or> (\<exists>a c b1 b2. h = h0 @ a @ LLaunch c # b1 @ LTerminate FORCED_EXIT_CODE # b2 \<and> (\<forall>c. LLaunch c \<notin> set a)
        \<and> LCloseJob \<in> set b2)"

text \<open>What a successful launch did, in this order, before it waited for readiness.\<close>

definition launch_prepared ::
  "life_oracle \<Rightarrow> runtime_env \<Rightarrow> win_path \<Rightarrow> secret \<Rightarrow> life_op list \<Rightarrow> runtime_owner \<Rightarrow> bool" where
  "launch_prepared os env session_parent s h0 ow \<longleftrightarrow>
     (\<exists>session command identity.
        let h1 = h0 @ [LCreateSession session_parent]; h2 = h1 @ [LWriteToken (secret_value s)];
            h3 = h2 @ [LLaunch command] in
        snd (session_create (wo_session os h1) session_parent []) = Inr session
      \<and> snd (write_token_file (wo_session os h2) session (secret_value s) []) = Inr ()
      \<and> interpreter_command env (ro_bundle ow) (ro_upstream_port ow) session = Inr command
      \<and> snd (launch_process (wo_launch os h3) command []) = Inr identity
      \<and> ro_session ow = Some session \<and> ro_process ow = Some identity)"

section \<open>Lemmas\<close>

lemma on_owner_Some:
  "on_owner ow m w = Some (w1, r) \<longleftrightarrow>
     (\<exists>ow1 h r0. m (ow, snd w) = Some ((ow1, h), r0) \<and> w1 = (fst w, h) \<and> r = Inr (ow1, r0))"
  by (auto simp: on_owner_def split: option.splits)

subsection \<open>Failures\<close>

text \<open>Effects without a launch.\<close>

definition unlaunched :: "'o world \<Rightarrow> 'o world \<Rightarrow> bool" where
  "unlaunched w w1 \<longleftrightarrow> (\<exists>k. snd w1 = snd w @ k \<and> (\<forall>c. LLaunch c \<notin> set k))"

lemma unlaunched_trans: "unlaunched a b \<Longrightarrow> unlaunched b c \<Longrightarrow> unlaunched a c"
  by (fastforce simp: unlaunched_def)

interpretation unlaunched: frame unlaunched
  by unfold_locales (simp add: unlaunched_def, fact unlaunched_trans)

lemma unlaunched_ask: "\<forall>c. op \<noteq> LLaunch c \<Longrightarrow> keeps unlaunched (ask op f)"
  by (auto simp: keeps_def ask_def Let_def unlaunched_def)

lemma unlaunched_clean: "keeps unlaunched (session_clean os s)"
  by (simp add: session_clean_def unlaunched_ask)

lemma prelaunch_fails:
  "cleanup_prelaunch_error os primary session w = Some (w1, r) \<Longrightarrow> (\<exists>e. r = Inl e) \<and> snd w1 = snd w @ [LSessionCleanup]"
  by (auto simp: cleanup_prelaunch_error_def session_clean_def abind_Some act_defs Let_def split: sum.splits)

lemma spawned_session_extends:
  "cleanup_spawned_session os session out err e w = Some (w1, r) \<Longrightarrow> \<exists>k. snd w1 = snd w @ k"
  by (auto simp: cleanup_spawned_session_def session_verify_def session_clean_def abind_Some act_defs Let_def
      split: if_splits)

lemma spawned_fails:
  assumes "cleanup_spawned_error os primary session out err timeout w = Some (w1, r)"
  shows "(\<exists>e. r = Inl e) \<and> (\<exists>b. snd w1 = snd w @ LTerminate FORCED_EXIT_CODE # b \<and> LCloseJob \<in> set b)"
  using assms
  by (auto simp: cleanup_spawned_error_def job_terminate_def job_wait_for_empty_def abind_Some act_defs Let_def
      ask_partial_Some split_beta split: if_splits dest!: spawned_session_extends)

lemma attach_monitors_run:
  assumes "attach_monitors os session limits w = Some (w1, r)"
  shows "r = Inr () \<and> snd w1 = snd w @ [LTakeStdout, LTakeStderr, LSpawnStderr, LSpawnStdout]
    \<or> (\<exists>e b1 b2. r = Inl e \<and> snd w1 = snd w @ b1 @ LTerminate FORCED_EXIT_CODE # b2 \<and> LCloseJob \<in> set b2)"
proof -
  have fails: "\<exists>e b1 b2. r = Inl e \<and> snd w1 = snd w @ b1 @ LTerminate FORCED_EXIT_CODE # b2 \<and> LCloseJob \<in> set b2"
    if "cleanup_spawned_error os primary session out err timeout (v, snd w @ k) = Some (w1, r)" for primary out err timeout k v
  proof -
    from spawned_fails [OF that] obtain e b where "r = Inl e" "snd w1 = (snd w @ k) @ LTerminate FORCED_EXIT_CODE # b"
        "LCloseJob \<in> set b" by auto
    then show ?thesis by (intro exI [of _ e] exI [of _ k] exI [of _ b]) simp
  qed
  show ?thesis
    using assms unfolding attach_monitors_def
    by (auto simp: abind_Some act_defs Let_def split: if_splits dest: fails)
qed

text \<open>Aborting and dropping an owner that still has its Job terminates the Job and closes it.\<close>

lemma drop_closes:
  assumes "owner_drop os w = Some (w1, r)"
  shows "(\<exists>k. snd w1 = snd w @ k) \<and> (ro_process (fst w) \<noteq> None \<longrightarrow> (\<exists>k. snd w1 = snd w @ k \<and> LCloseJob \<in> set k))"
proof -
  have abort: "(\<exists>k. snd w2 = snd w @ k)
      \<and> (ro_process (fst w) \<noteq> None \<longrightarrow> ro_process (fst w2) \<noteq> None \<or> (\<exists>k. snd w2 = snd w @ k \<and> LCloseJob \<in> set k))"
    if "abort_and_cleanup os w = Some (w2, r2)" for w2 r2
    using that
  proof (cases rule: abort_and_cleanup_run)
    case (kept e)
    then show ?thesis using monitored_history [OF kept(2)] monitored_fields(6) [OF kept(2)] by auto
  next
    case (cleaned removed)
    then show ?thesis unfolding cleaned_up_def by fastforce
  qed
  show ?thesis
  proof (cases "ro_owner_state (fst w) = OwnerCleaned")
    case True
    with assms show ?thesis
      by (auto simp: owner_drop_def abind_Some act_defs Let_def split: if_splits)
  next
    case False
    then obtain w2 r2 where w2: "abort_and_cleanup os w = Some (w2, r2)"
      and w1: "w1 = (if ro_process (fst w2) \<noteq> None then (fst w2, snd w2 @ [LCloseJob]) else w2)"
      using assms by (auto simp: owner_drop_def abind_Some attempt_Some act_defs Let_def split: if_splits)
    from abort [OF w2] w1 show ?thesis by auto
  qed
qed

lemma abort_terminates:
  assumes "abort_and_cleanup os w = Some (w1, r)" and p: "ro_process (fst w) \<noteq> None"
  shows "\<exists>k. snd w1 = snd w @ LTerminate FORCED_EXIT_CODE # k \<and> (ro_process (fst w1) \<noteq> None \<or> LCloseJob \<in> set k)"
proof -
  have run: "abind (terminate_job os) (\<lambda>(fe, je).
     if \<not> je then afail (case fe of Some e \<Rightarrow> e | None \<Rightarrow> JobDidNotBecomeEmpty)
     else abind (release_owner os False fe) (\<lambda>(fe1, _). alift (result_or fe1))) (marked w) = Some (w1, r)"
    using assms by (simp add: abort_and_cleanup_def abind_def [of "update _"] abind_def [of "owner _"] act_defs)
  then show ?thesis
  proof (cases rule: abind_cases)
    case (fails e)
    then show ?thesis using terminate_job_run [OF fails(1)] by simp
  next
    case (runs w2 x)
    obtain k where k: "snd w2 = snd w @ LTerminate FORCED_EXIT_CODE # k"
      using terminate_job_history [OF runs(1)] by auto
    have p2: "ro_process (fst w2) \<noteq> None"
      using p monitored_fields(6) [OF keepsD [OF monitored_terminate runs(1)]] by simp
    obtain fe je where x: "x = (fe, je)" by (cases x)
    show ?thesis
    proof (cases je)
      case False
      with runs(2) k p2 show ?thesis by (auto simp: x act_defs)
    next
      case True
      then have "abind (release_owner os False fe) (\<lambda>(fe1, _). alift (result_or fe1)) w2 = Some (w1, r)"
        using runs(2) by (simp add: x)
      then show ?thesis
      proof (cases rule: abind_cases)
        case (fails e)
        from fails(1) show ?thesis by (rule release_owner_run) simp
      next
        case (runs w3 y)
        from runs(1) obtain fe1 removed b where "snd w3 = snd w2 @ [LCloseJob] @ b"
          using p2 by (auto elim: release_owner_run)
        moreover have "w1 = w3" using runs(2) by (auto simp: act_defs split: prod.splits)
        ultimately show ?thesis using k by (intro exI [of _ "k @ [LCloseJob] @ b"]) simp
      qed
    qed
  qed
qed

lemma wait_until_ready_starting: "wait_until_ready os w = Some (w1, r) \<Longrightarrow> starting w w1"
proof -
  have "keeps starting (wait_until_ready os)"
    unfolding wait_until_ready_def by (intro starting_parts starting_ready_turn)
  then show "wait_until_ready os w = Some (w1, r) \<Longrightarrow> starting w w1" by (rule keepsD)
qed

lemma start_owner_run:
  assumes "start_owner os ow w = Some (w1, r)" and p: "ro_process ow \<noteq> None"
  shows "(\<exists>ow1. r = Inr ow1 \<and> wait_until_ready os (ow, snd w) = Some ((ow1, snd w1), Inr ()))
    \<or> (\<exists>e b1 b2. r = Inl e \<and> snd w1 = snd w @ b1 @ LTerminate FORCED_EXIT_CODE # b2 \<and> LCloseJob \<in> set b2)"
proof -
  obtain ow1 h1 ready where w1: "wait_until_ready os (ow, snd w) = Some ((ow1, h1), ready)"
    and rest: "(case ready of
       Inr _ \<Rightarrow> aret ow1
     | Inl primary \<Rightarrow>
         abind (on_owner ow1 (abort_and_cleanup os)) (\<lambda>(ow2, cleanup).
         abind (on_owner ow2 (owner_drop os)) (\<lambda>_.
           afail (combine_cleanup_error
             (attach_startup_stderr_count primary (ro_discarded_stderr_bytes ow2)) (error_of cleanup)))))
         (fst w, h1) = Some (w1, r)"
    using assms(1) by (auto simp: start_owner_def abind_Some on_owner_Some Let_def)
  show ?thesis
  proof (cases ready)
    case (Inr u)
    then show ?thesis using rest w1 by (auto simp: aret_def)
  next
    case (Inl primary)
    obtain ow2 h2 cleanup h3 ow3 rd where abort: "abort_and_cleanup os (ow1, h1) = Some ((ow2, h2), cleanup)"
      and dropped: "owner_drop os (ow2, h2) = Some ((ow3, h3), rd)" and fin: "snd w1 = h3" "\<exists>e. r = Inl e"
      using rest by (auto simp: Inl abind_Some on_owner_Some Let_def afail_def)
    have "starting (ow, snd w) (ow1, h1)"
      using wait_until_ready_starting [OF w1] .
    then obtain k where k: "h1 = snd w @ k" and p1: "ro_process ow1 \<noteq> None" using p by (auto simp: starting_def)
    obtain k1 where k1: "h2 = h1 @ LTerminate FORCED_EXIT_CODE # k1" "ro_process ow2 \<noteq> None \<or> LCloseJob \<in> set k1"
      using abort_terminates [OF abort] p1 by auto
    obtain k2 where k2: "h3 = h2 @ k2" "ro_process ow2 \<noteq> None \<longrightarrow> LCloseJob \<in> set k2"
      using drop_closes [OF dropped] by auto
    have "snd w1 = snd w @ k @ LTerminate FORCED_EXIT_CODE # (k1 @ k2)" "LCloseJob \<in> set (k1 @ k2)"
      using k k1 k2 fin by auto
    then show ?thesis using fin(2) by blast
  qed
qed

subsection \<open>Launches\<close>

lemma releasedI:
  assumes "h = h0 @ a @ LLaunch c # b1 @ LTerminate FORCED_EXIT_CODE # b2" "\<forall>c. LLaunch c \<notin> set a" "LCloseJob \<in> set b2"
  shows "launch_released os h0 h"
  unfolding launch_released_def using assms by blast

lemma released_unlaunched: "\<forall>c. LLaunch c \<notin> set k \<Longrightarrow> launch_released os h0 (h0 @ k)"
  unfolding launch_released_def by blast

lemma inner_run:
  assumes "launch_validated_inner os env bundle parent port secrets limits w = Some (w1, r)"
  shows "case r of
      Inl e \<Rightarrow> launch_released os (snd w) (snd w1)
    | Inr ow \<Rightarrow> \<exists>ow0 h0. launch_prepared os env parent (ts_upstream secrets) (snd w) ow0
        \<and> ro_bundle ow0 = bundle \<and> ro_upstream_port ow0 = port \<and> ro_limits ow0 = limits
        \<and> ro_upstream_secret ow0 = Some (ts_upstream secrets) \<and> ro_stdout_thread ow0 \<and> ro_stderr_thread ow0
        \<and> wait_until_ready os (ow0, h0) = Some ((ow, snd w1), Inr ())"
proof -
  define s where "s = ts_upstream secrets"
  define h1 where "h1 = snd w @ [LCreateSession parent]"
  define h2 where "h2 = h1 @ [LWriteToken (secret_value s)]"
  define launching where "launching command session =
     abind (ask (LLaunch command) (\<lambda>h. snd (launch_process (wo_launch os h) command []))) (\<lambda>p.
              case p of
                Inl e \<Rightarrow> cleanup_prelaunch_error os (Launch e) session
              | Inr process \<Rightarrow>
                  abind (attach_monitors os session limits) (\<lambda>_.
                    start_owner os (new_owner bundle port s limits session process)))" for command session
  have fail: "case r of Inl e \<Rightarrow> launch_released os (snd w) (snd w1) | Inr ow \<Rightarrow> Q ow"
    if "cleanup_prelaunch_error os e session (v, snd w @ k) = Some (w1, r)" "\<forall>c. LLaunch c \<notin> set k" for v k e session Q
  proof -
    from prelaunch_fails [OF that(1)] have "snd w1 = snd w @ (k @ [LSessionCleanup])" "\<exists>e. r = Inl e" by auto
    moreover have "\<forall>c. LLaunch c \<notin> set (k @ [LSessionCleanup])" using that(2) by simp
    ultimately show ?thesis using released_unlaunched [of "k @ [LSessionCleanup]" os "snd w"] by auto
  qed
  show ?thesis
  proof (cases "snd (session_create (wo_session os h1) parent [])")
    case (Inl e)
    then have "w1 = (fst w, h1)" "r = Inl (Launch e)"
      using assms by (auto simp: launch_validated_inner_def abind_Some act_defs Let_def map_err_def h1_def)
    then show ?thesis using released_unlaunched [of "[LCreateSession parent]"] by (simp add: h1_def)
  next
    case (Inr session)
    then have run: "(case snd (write_token_file (wo_session os h2) session (secret_value s) []) of
       Inl e \<Rightarrow> cleanup_prelaunch_error os (Launch e) session
     | Inr _ \<Rightarrow>
         (case interpreter_command env bundle port session of
            Inl e \<Rightarrow> cleanup_prelaunch_error os e session
          | Inr command \<Rightarrow> launching command session)) (fst w, h2) = Some (w1, r)"
      using assms
      by (simp add: launch_validated_inner_def abind_def act_defs Let_def map_err_def h1_def h2_def s_def launching_def
          cong: sum.case_cong)
    have h2': "h2 = snd w @ [LCreateSession parent, LWriteToken (secret_value s)]" by (simp add: h1_def h2_def)
    note prefail = fail [of _ session "fst w" "[LCreateSession parent, LWriteToken (secret_value s)]", folded h2', simplified]
    show ?thesis
    proof (cases "snd (write_token_file (wo_session os h2) session (secret_value s) [])")
      case (Inl e) then show ?thesis using run prefail by simp
    next
      case written: (Inr u)
      show ?thesis
      proof (cases "interpreter_command env bundle port session")
        case (Inl e) then show ?thesis using run written prefail by simp
      next
        case command: (Inr command)
        define h3 where "h3 = h2 @ [LLaunch command]"
        have run3: "(case snd (launch_process (wo_launch os h3) command []) of
                Inl e \<Rightarrow> cleanup_prelaunch_error os (Launch e) session
              | Inr process \<Rightarrow>
                  abind (attach_monitors os session limits) (\<lambda>_.
                    start_owner os (new_owner bundle port s limits session process))) (fst w, h3) = Some (w1, r)"
          using run written command by (simp add: launching_def abind_def [of "ask _ _"] ask_def Let_def h3_def)
        let ?a = "[LCreateSession parent, LWriteToken (secret_value s)]"
        show ?thesis
        proof (cases "snd (launch_process (wo_launch os h3) command [])")
          case (Inl e)
          then have "snd w1 = h3 @ [LSessionCleanup]" "\<exists>e. r = Inl e" using run3 prelaunch_fails by fastforce+
          moreover have "launch_released os (snd w) (h3 @ [LSessionCleanup])"
            unfolding launch_released_def
            by (intro disjI2 disjI1 exI [of _ ?a] exI [of _ command] exI [of _ "[LSessionCleanup]"] exI [of _ e])
              (use Inl in \<open>simp add: h3_def h2'\<close>)
          ultimately show ?thesis by auto
        next
          case process: (Inr identity)
          let ?ow = "new_owner bundle port s limits session identity"
          have prep: "launch_prepared os env parent s (snd w) ?ow"
            unfolding launch_prepared_def Let_def
            by (intro exI [of _ session] exI [of _ command] exI [of _ identity])
              (use Inr written command process in \<open>simp add: h1_def h2_def h3_def new_owner_def\<close>)
          from run3 process have "abind (attach_monitors os session limits) (\<lambda>_. start_owner os ?ow) (fst w, h3) = Some (w1, r)"
            by simp
          then show ?thesis
          proof (cases rule: abind_cases)
            case (fails e)
            from attach_monitors_run [OF fails(1)] obtain b1 b2 where
              "snd w1 = h3 @ b1 @ LTerminate FORCED_EXIT_CODE # b2" "LCloseJob \<in> set b2" by auto
            then have "launch_released os (snd w) (snd w1)"
              by (intro releasedI [where a = ?a and c = command and ?b1.0 = b1 and ?b2.0 = b2]) (simp_all add: h3_def h2')
            with fails(2) show ?thesis by simp
          next
            case (runs w2 u)
            have h4: "snd w2 = h3 @ [LTakeStdout, LTakeStderr, LSpawnStderr, LSpawnStdout]"
              using attach_monitors_run [OF runs(1)] by auto
            have "ro_process ?ow \<noteq> None" by (simp add: new_owner_def)
            from start_owner_run [OF runs(2) this] show ?thesis
            proof (elim disjE exE conjE)
              fix ow1 assume "r = Inr ow1" "wait_until_ready os (?ow, snd w2) = Some ((ow1, snd w1), Inr ())"
              then show ?thesis using prep
                by (auto simp: s_def [symmetric] new_owner_def intro!: exI [of _ ?ow] exI [of _ "snd w2"])
            next
              fix e b1 b2 assume e: "r = Inl e" and b: "snd w1 = snd w2 @ b1 @ LTerminate FORCED_EXIT_CODE # b2"
                "LCloseJob \<in> set b2"
              then have "launch_released os (snd w) (snd w1)"
                by (intro releasedI [where a = ?a and c = command and
                      ?b1.0 = "[LTakeStdout, LTakeStderr, LSpawnStderr, LSpawnStdout] @ b1" and ?b2.0 = b2])
                  (simp_all add: h3_def h2' h4)
              with e show ?thesis by simp
            qed
          qed
        qed
      qed
    qed
  qed
qed

text \<open>What a launch answers.\<close>

lemma launch_outcome:
  assumes "launch_validated os env bundle parent port secrets limits w = Some (w1, r)"
  shows "case r of
      Inl e \<Rightarrow> launch_released os (snd w) (snd w1)
    | Inr ow \<Rightarrow> ro_owner_state ow = OwnerReady \<and> owner_ok ow \<and> limits_valid limits \<and> port \<noteq> 0
        \<and> ro_bundle ow = bundle \<and> ro_upstream_port ow = port \<and> ro_limits ow = limits
        \<and> ro_upstream_secret ow = Some (ts_upstream secrets)
        \<and> launch_prepared os env parent (ts_upstream secrets) (snd w) ow
        \<and> (\<exists>runtime. ro_runtime ow = Some runtime
             \<and> ready_evidence os port (ts_upstream secrets) runtime (snd w1))"
proof -
  consider "w1 = w" "\<exists>e. r = Inl e" | "limits_valid limits" "port \<noteq> 0"
      "launch_validated_inner os env bundle parent port secrets limits w = Some (w1, r)"
    using assms by (auto simp: launch_validated_def act_defs split: if_splits)
  then show ?thesis
  proof cases
    case 1
    then show ?thesis using released_unlaunched [of "[]" os "snd w"] by auto
  next
    case 2
    note inner = inner_run [OF 2(3)]
    show ?thesis
    proof (cases r)
      case (Inl e)
      then show ?thesis using inner by simp
    next
      case (Inr ow)
      then obtain ow0 h0 where ow0: "launch_prepared os env parent (ts_upstream secrets) (snd w) ow0"
          "ro_bundle ow0 = bundle" "ro_upstream_port ow0 = port" "ro_limits ow0 = limits"
          "ro_upstream_secret ow0 = Some (ts_upstream secrets)" "ro_stdout_thread ow0" "ro_stderr_thread ow0"
        and ready: "wait_until_ready os (ow0, h0) = Some ((ow, snd w1), Inr ())"
        using inner by auto
      note evidence = wait_until_ready_Ok [OF ready, unfolded fst_conv snd_conv]
      from ow0(1) have "ro_session ow0 \<noteq> None" "ro_process ow0 \<noteq> None"
        by (auto simp: launch_prepared_def Let_def)
      moreover have "launch_prepared os env parent (ts_upstream secrets) (snd w) ow"
        using ow0(1) evidence by (auto simp: launch_prepared_def starting_def Let_def)
      ultimately show ?thesis using Inr ow0 evidence 2(1,2)
        by (auto simp: owner_ok_def holds_all_def starting_def)
    qed
  qed
qed

section \<open>Properties\<close>

text \<open>C20: A launch gives a verified owner or gives everything back.  A launched owner is ready and holds everything
  it needs; before, the private session was created, the token of the upstream secret written, and
  the bundled interpreter launched in its Job, in this order; and at the end the launcher had announced the
  runtime, the one-time token was gone, the announced process was captured as a member of the
  Job, it alone listened on the upstream port, and an HTTP request with the secret was answered.  When
  the launch fails, no process was created, or its Job was terminated and then closed.\<close>

theorem launch_verified:
  assumes "launch_validated os env bundle parent port secrets limits w = Some (w1, r)"
  shows "case r of
      Inl e \<Rightarrow> launch_released os (snd w) (snd w1)
    | Inr ow \<Rightarrow> ro_owner_state ow = OwnerReady \<and> owner_ok ow \<and> limits_valid limits \<and> port \<noteq> 0
        \<and> ro_bundle ow = bundle \<and> ro_upstream_port ow = port \<and> ro_limits ow = limits
        \<and> ro_upstream_secret ow = Some (ts_upstream secrets)
        \<and> launch_prepared os env parent (ts_upstream secrets) (snd w) ow
        \<and> (\<exists>runtime. ro_runtime ow = Some runtime
             \<and> ready_evidence os port (ts_upstream secrets) runtime (snd w1))"
  using assms by (rule launch_outcome)

section \<open>Witnesses\<close>

lemma loop_once: "body w = Some (w1, Inr (Some x)) \<Longrightarrow> loop_act body w = Some (w1, Inr x)"
  by (subst loop_act.simps) simp

text \<open>A startup that succeeds at the first attempt, for any owner that was just built and any history in which
  no time has passed and nothing was received.\<close>

abbreviation example_runtime :: process_identity where
  "example_runtime \<equiv> \<lparr>pi_pid = 7, pi_creation_time_100ns = 4294967298\<rparr>"

definition quiet :: "life_op list \<Rightarrow> bool" where
  "quiet h \<longleftrightarrow> LTerminate FORCED_EXIT_CODE \<notin> set h \<and> receives h = 0 \<and> sum_list (map op_duration h) = 0"

lemma example_starts:
  fixes resources :: validated_bundle and process :: process_identity
  assumes q: "quiet h0"
    and http: "\<And>h. authenticated_http_ready (wo_http example_life h) 3838 s = Inr True"
  defines "ow0 \<equiv> new_owner resources 3838 s default_lifecycle_limits example_session process"
  shows "\<exists>k. wait_until_ready example_life (ow0, h0)
    = Some ((ow0\<lparr>ro_monitor_state := LsListening, ro_runtime := Some example_runtime, ro_owner_state := OwnerReady\<rparr>, h0 @ k), Inr ())"
proof -
  have wait: "wait_for_process (example_process (example_alive h)) t = Inr None" if "LTerminate FORCED_EXIT_CODE \<notin> set h" for t h
    using that by (simp add: wait_for_process_def example_process_def example_alive_def)
  have capture: "capture_job_member (\<lambda>pid. Inr (example_process n)) 7 =
      Inr \<lparr>jm_process = example_process n, jm_identity = example_runtime\<rparr>" for n
    by (simp add: capture_job_member_def process_is_alive_def identity_of_def example_process_def rbind_def)
  have "case listener_answer example_life h example_runtime 3838 of Inr _ \<Rightarrow> True | Inl _ \<Rightarrow> False" for h
    by code_simp
  then have listener: "\<exists>l. listener_answer example_life h example_runtime 3838 = Inr l" for h
    by (cases "listener_answer example_life h example_runtime 3838") (metis sum.case)+
  define ow where "ow = ow0\<lparr>ro_monitor_state := LsListening, ro_runtime := Some example_runtime\<rparr>"
  have life: "wo_process example_life = (\<lambda>h. example_process (example_alive h))"
    "wo_runtime example_life = (\<lambda>h. example_process (example_alive h))"
    "wo_now example_life = (\<lambda>h. sum_list (map op_duration h))" "wo_instant_max example_life = u64_max"
    "wo_token_exists example_life = (\<lambda>h. Inr False)"
    "wo_open_process example_life = (\<lambda>h pid. Inr (example_process (example_alive h)))"
    by (simp_all add: example_life_def)
  have idle: "drain_monitor example_life strict (v, h) = Some ((v, h @ [LTryRecv]), Inr ())" for v h strict
    by (simp add: drain_idle example_life_def)
  have quiet: "LTerminate FORCED_EXIT_CODE \<notin> set h0" "receives h0 = 0" "sum_list (map op_duration h0) = 0"
    using q by (simp_all add: quiet_def)
  have fields: "ro_session ow0 = Some example_session" "ro_process ow0 = Some process"
      "ro_limits ow0 = default_lifecycle_limits" "ro_upstream_port ow0 = 3838" "ro_upstream_secret ow0 = Some s"
      "ro_monitor_state ow0 = LsAwaitingStart" "ro_owner_state ow0 = OwnerStarting" "ro_runtime ow0 = None"
    by (simp_all add: ow0_def new_owner_def)
  note parts = abind_def act_defs Let_def process_ref_def runtime_ref_def ok_or_def map_err_def process_wait_def runtime_wait_def
    ensure_processes_alive_before_ready_def ensure_wrapper_alive_before_ready_def wait life idle quiet fields
  have "loop_act (listener_turn example_life d) (ow, h)
      = Some ((ow, h @ [LProcessWait 0, LRuntimeWait 0, LTryRecv, LVerifyListener 3838]), Inr ())"
    if "LTerminate FORCED_EXIT_CODE \<notin> set h" for d h
    using listener [of "h @ [LProcessWait 0, LRuntimeWait 0, LTryRecv, LVerifyListener 3838]"] that
    by (intro loop_once) (auto simp: listener_turn_def parts ow_def)
  note listening = this
  have "loop_act (readiness_turn example_life d) (ow, h)
      = Some ((ow, h @ [LProcessWait 0, LRuntimeWait 0, LTryRecv, LNow,
          LHttpReady 3838 s (min 1000000000 (d - sum_list (map op_duration h)))]), Inr ())"
    if "LTerminate FORCED_EXIT_CODE \<notin> set h" "sum_list (map op_duration h) < d" for d h
    using that http
    by (intro loop_once) (simp add: readiness_turn_def parts ow_def default_lifecycle_limits_def)
  note answering = this
  let ?h = "h0 @ [LNow, LProcessWait 0, LNow, LNow, LRecv 25000000]"
  have wo_recv: "wo_recv example_life ?h = Received (Event LsListening (MonitorListening 7))"
    using quiet by (simp add: example_life_def receives_def)
  let ?listening = "ow0\<lparr>ro_monitor_state := LsListening\<rparr>"
  let ?k = "?h @ [LTokenExists, LCapture 7, LNow, LProcessWait 0, LRuntimeWait 0, LTryRecv, LVerifyListener 3838,
        LProcessWait 0, LRuntimeWait 0, LTryRecv, LNow, LHttpReady 3838 s 1000000000]"
  have bound: "25000000 + ll_listener_timeout default_lifecycle_limits \<le> u64_max"
    by (simp add: default_lifecycle_limits_def u64_max_def)
  have event: "startup_event example_life 30000000000 (Some (MonitorListening 7)) (?listening, ?h)
      = Some ((ow\<lparr>ro_owner_state := OwnerReady\<rparr>, ?k), Inr (Some ()))"
    using bound
    by (auto simp: startup_event_def verify_token_consumed_def session_ref_def capture_runtime_def parts capture
        wait_for_listener_def checked_deadline_def checked_add_def
        wait_for_authenticated_readiness_def listening [unfolded ow_def] answering [unfolded ow_def] ow_def)
  let ?w = "(ow\<lparr>ro_owner_state := OwnerReady\<rparr>, ?k)"
  have turn: "ready_turn example_life 30000000000 (ow0, h0 @ [LNow]) = Some (?w, Inr (Some ()))"
    using event
    by (simp add: ready_turn_def parts remaining_poll_def startup_message_def apply_monitor_def wo_recv
        default_lifecycle_limits_def)
  have "30000000000 \<le> u64_max" by (simp add: u64_max_def)
  then have run: "wait_until_ready example_life (ow0, h0) = Some (?w, Inr ())"
    using loop_once [of "ready_turn example_life 30000000000", OF turn]
    by (simp add: wait_until_ready_def checked_deadline_def checked_add_def parts default_lifecycle_limits_def)
  then show ?thesis by (auto simp: ow_def)
qed

definition foreign_runtime_env :: runtime_env where
  "foreign_runtime_env = example_runtime_env\<lparr>rv_arch := ''aarch64''\<rparr>"

definition example_secrets :: transport_secrets where
  "example_secrets =
     (let s = \<lparr>secret_value = replicate 32 CHR ''a''\<rparr> in \<lparr>ts_session = s, ts_upstream = s, ts_bootstrap = s\<rparr>)"

lemma launch_verified_witness:
  "\<exists>h. launch_validated example_life foreign_runtime_env example_bundle example_parent 3838 example_secrets
         default_lifecycle_limits ((), []) = Some (((), h), Inl UnsupportedWindowsArchitecture)
     \<and> launch_released example_life [] h"
proof -
  have limits: "limits_valid default_lifecycle_limits" by code_simp
  have token: "snd (write_token_file example_session_oracle example_session (replicate 32 CHR ''a'') []) = Inr ()"
    by code_simp
  have "\<exists>h. launch_validated example_life foreign_runtime_env example_bundle example_parent 3838 example_secrets
         default_lifecycle_limits ((), []) = Some (((), h), Inl UnsupportedWindowsArchitecture)"
    by (simp add: launch_validated_def limits launch_validated_inner_def abind_def act_defs Let_def map_err_def
        example_life_def example_session_created example_secrets_def token interpreter_command_def
        bundled_r_interpreter_def foreign_runtime_env_def cleanup_prelaunch_error_def session_clean_def session_ok)
  with launch_verified [of example_life foreign_runtime_env example_bundle example_parent 3838 example_secrets
      default_lifecycle_limits "((), [])"] show ?thesis by fastforce
qed

end
