(* ===== verification/Http_Api.thy ===== *)
theory Http_Api
  imports Rust_Prelude
begin

text \<open>
  The third-party interface of the transport crate.  \<open>http\<close>, \<open>hyper\<close>, \<open>percent-encoding\<close>, \<open>url\<close>,
  \<open>base64\<close> and \<open>sha1\<close> are not part of the repository, so what the code calls of them is a record
  \<open>http_api\<close> that every definition takes as its argument \<open>A\<close>.  The locale \<open>http_laws\<close> states the
  documented behaviour the code relies on: \<open>HeaderMap\<close> is a multimap keyed by lower-case names,
  \<open>HeaderValue::to_str\<close> yields the text of a visible-ASCII value and refuses any other,
  \<open>HeaderValue::from_str\<close> accepts visible ASCII, and percent decoding leaves text without
  a percent sign alone.  \<open>reference_api\<close> is one instance, an association list in insertion order,
  and its interpretation shows that the laws can hold together.
\<close>

record uri =
  uri_path :: string
  uri_query :: "string option"
  uri_scheme :: "string option"
  uri_authority :: "string option"

record 'h http_api =
  hm_empty :: "'h"
  hm_get_all :: "'h \<Rightarrow> string \<Rightarrow> bytes list"
  hm_insert :: "'h \<Rightarrow> string \<Rightarrow> bytes \<Rightarrow> 'h"
  hm_append :: "'h \<Rightarrow> string \<Rightarrow> bytes \<Rightarrow> 'h"
  hm_remove :: "'h \<Rightarrow> string \<Rightarrow> 'h"
  hm_keys :: "'h \<Rightarrow> string list"
  header_name_from_bytes :: "bytes \<Rightarrow> string option"
  header_value_from_bytes :: "bytes \<Rightarrow> bytes option"
  header_value_from_str :: "string \<Rightarrow> bytes option"
  header_value_to_str :: "bytes \<Rightarrow> string option"
  uri_from_str :: "string \<Rightarrow> uri option"
  percent_decode :: "string \<Rightarrow> bytes"
  utf8_lossy :: "bytes \<Rightarrow> string"
  base64_decode :: "bytes \<Rightarrow> bytes option"
  websocket_digest :: "bytes \<Rightarrow> bytes"

text \<open>The characters \<open>HeaderValue::to_str\<close> accepts: horizontal tab, space and graphic ASCII.\<close>

definition visible_ascii :: "char \<Rightarrow> bool" where
  "visible_ascii c = (byte c = 9 \<or> (32 \<le> byte c \<and> byte c < 127))"

definition hm_contains_key :: "'h http_api \<Rightarrow> 'h \<Rightarrow> string \<Rightarrow> bool" where
  "hm_contains_key A h n = (hm_get_all A h n \<noteq> [])"

definition hm_remove_all :: "'h http_api \<Rightarrow> 'h \<Rightarrow> string list \<Rightarrow> 'h" where
  "hm_remove_all A h ns = foldl (hm_remove A) h ns"

locale http_laws =
  fixes A :: "'h http_api"
  assumes get_all_empty [simp]: "hm_get_all A (hm_empty A) n = []"
    and get_all_insert [simp]:
      "hm_get_all A (hm_insert A h m v) n = (if n = m then [v] else hm_get_all A h n)"
    and get_all_append [simp]:
      "hm_get_all A (hm_append A h m v) n =
         (if n = m then hm_get_all A h n @ [v] else hm_get_all A h n)"
    and get_all_remove [simp]:
      "hm_get_all A (hm_remove A h m) n = (if n = m then [] else hm_get_all A h n)"
    and keys_iff [simp]: "n \<in> set (hm_keys A h) \<longleftrightarrow> hm_get_all A h n \<noteq> []"
    and to_str_iff [simp]:
      "header_value_to_str A v = Some s \<longleftrightarrow> s = v \<and> list_all visible_ascii v"
    and from_str_visible: "list_all visible_ascii s \<Longrightarrow> header_value_from_str A s = Some s"
    and from_str_same: "header_value_from_str A s = Some v \<Longrightarrow> v = s"
    and percent_decode_plain: "CHR ''%'' \<notin> set s \<Longrightarrow> percent_decode A s = s"
begin

lemma contains_key_insert [simp]:
  "hm_contains_key A (hm_insert A h m v) n \<longleftrightarrow> n = m \<or> hm_contains_key A h n"
  by (simp add: hm_contains_key_def)

lemma contains_key_remove [simp]:
  "hm_contains_key A (hm_remove A h m) n \<longleftrightarrow> n \<noteq> m \<and> hm_contains_key A h n"
  by (simp add: hm_contains_key_def)

lemma get_all_remove_all [simp]:
  "hm_get_all A (hm_remove_all A h ns) n = (if n \<in> set ns then [] else hm_get_all A h n)"
  unfolding hm_remove_all_def by (induction ns arbitrary: h) auto

lemma contains_key_remove_all [simp]:
  "hm_contains_key A (hm_remove_all A h ns) n \<longleftrightarrow> n \<notin> set ns \<and> hm_contains_key A h n"
  by (simp add: hm_contains_key_def)

lemma get_all_remove_matching:
  "hm_get_all A (hm_remove_all A h (filter P (hm_keys A h))) n =
     (if P n then [] else hm_get_all A h n)"
  by simp

end

section \<open>A reference instance\<close>

type_synonym header_list = "(string \<times> bytes) list"

definition list_get_all :: "header_list \<Rightarrow> string \<Rightarrow> bytes list" where
  "list_get_all h n = map snd (filter (\<lambda>(m, _). m = n) h)"

definition list_remove :: "header_list \<Rightarrow> string \<Rightarrow> header_list" where
  "list_remove h n = filter (\<lambda>(m, _). m \<noteq> n) h"

definition list_insert :: "header_list \<Rightarrow> string \<Rightarrow> bytes \<Rightarrow> header_list" where
  "list_insert h n v = list_remove h n @ [(n, v)]"

definition list_append :: "header_list \<Rightarrow> string \<Rightarrow> bytes \<Rightarrow> header_list" where
  "list_append h n v = h @ [(n, v)]"

definition value_from_str :: "string \<Rightarrow> bytes option" where
  "value_from_str s = (if list_all visible_ascii s then Some s else None)"

definition hex_value :: "char \<Rightarrow> nat option" where
  "hex_value c =
     (if is_ascii_digit c then Some (byte c - 48)
      else if is_ascii_hexdigit c then
        Some (if is_ascii_uppercase c then byte c - 55 else byte c - 87)
      else None)"

fun percent_decode_ref :: "string \<Rightarrow> bytes" where
  "percent_decode_ref (c # a # b # s) =
     (case (if c = CHR ''%'' then hex_value a else None, hex_value b) of
        (Some x, Some y) \<Rightarrow> char_of (16 * x + y) # percent_decode_ref s
      | _ \<Rightarrow> c # percent_decode_ref (a # b # s))"
| "percent_decode_ref s = s"

definition split_path_query :: "string \<Rightarrow> uri option" where
  "split_path_query s =
     (case split_once (CHR ''?'') s of
        None \<Rightarrow> Some \<lparr>uri_path = s, uri_query = None, uri_scheme = None, uri_authority = None\<rparr>
      | Some (p, q) \<Rightarrow>
          Some \<lparr>uri_path = p, uri_query = Some q, uri_scheme = None, uri_authority = None\<rparr>)"

definition reference_api :: "header_list http_api" where
  "reference_api =
     \<lparr>hm_empty = [],
      hm_get_all = list_get_all,
      hm_insert = list_insert,
      hm_append = list_append,
      hm_remove = list_remove,
      hm_keys = (\<lambda>h. remdups (map fst h)),
      header_name_from_bytes = (\<lambda>s. Some (to_ascii_lowercase s)),
      header_value_from_bytes = (\<lambda>s. Some s),
      header_value_from_str = value_from_str,
      header_value_to_str = value_from_str,
      uri_from_str = split_path_query,
      percent_decode = percent_decode_ref,
      utf8_lossy = (\<lambda>s. s),
      base64_decode = (\<lambda>s. Some (take 16 s)),
      websocket_digest = (\<lambda>s. s)\<rparr>"

lemma percent_decode_ref_plain: "CHR ''%'' \<notin> set s \<Longrightarrow> percent_decode_ref s = s"
  by (induction s rule: percent_decode_ref.induct) auto

interpretation reference: http_laws reference_api
proof
  show "hm_get_all reference_api (hm_empty reference_api) n = []" for n
    by (simp add: reference_api_def list_get_all_def)
  show "hm_get_all reference_api (hm_insert reference_api h m v) n =
      (if n = m then [v] else hm_get_all reference_api h n)" for h m v n
    by (auto simp: reference_api_def list_get_all_def list_insert_def list_remove_def
        filter_empty_conv intro!: arg_cong [where f = "map snd"] filter_cong)
  show "hm_get_all reference_api (hm_append reference_api h m v) n =
      (if n = m then hm_get_all reference_api h n @ [v] else hm_get_all reference_api h n)"
    for h m v n
    by (simp add: reference_api_def list_get_all_def list_append_def)
  show "hm_get_all reference_api (hm_remove reference_api h m) n =
      (if n = m then [] else hm_get_all reference_api h n)" for h m n
    by (auto simp: reference_api_def list_get_all_def list_remove_def filter_empty_conv
        intro!: arg_cong [where f = "map snd"] filter_cong)
  show "n \<in> set (hm_keys reference_api h) \<longleftrightarrow> hm_get_all reference_api h n \<noteq> []" for n h
    by (force simp: reference_api_def list_get_all_def filter_empty_conv)
  show "header_value_to_str reference_api v = Some s \<longleftrightarrow> s = v \<and> list_all visible_ascii v" for v s
    by (auto simp: reference_api_def value_from_str_def)
  show "list_all visible_ascii s \<Longrightarrow> header_value_from_str reference_api s = Some s" for s
    by (simp add: reference_api_def value_from_str_def)
  show "header_value_from_str reference_api s = Some v \<Longrightarrow> v = s" for s v
    by (simp add: reference_api_def value_from_str_def split: if_splits)
  show "CHR ''%'' \<notin> set s \<Longrightarrow> percent_decode reference_api s = s" for s
    by (simp add: reference_api_def percent_decode_ref_plain)
qed

end
