(* ===== verification/Admission.thy ===== *)
theory Admission
  imports Http_Api Transport_Limits
begin

text \<open>
  \<open>crates/transport/src/admission.rs\<close>: bounded raw HTTP/1.1 admission.  The \<open>httparse\<close> crate is the
  argument \<open>parse\<close>: given the header capacity and the head's bytes it reports an error (\<open>None\<close>) or
  a status with the parsed request line and header fields.  \<open>HeaderName::from_bytes\<close>,
  \<open>HeaderValue::from_bytes\<close> and \<open>Uri::from_str\<close> come from the argument \<open>A\<close>.  The theorems say what
  an admitted head guarantees, whatever the parser returns.
\<close>

section \<open>Definitions\<close>

datatype admission_error =
    Incomplete | HeaderLimit | RequestLineLimit | Malformed | Target | Method | Authority
  | Framing | Upgrade | ProtectedConnectionToken | AmbiguousSecurityHeader | BodyLimit

record raw_admission =
  connection_tokens :: "string list"
  websocket_upgrade :: bool

datatype parse_status = Complete nat | Partial

record parsed_request =
  pr_method :: "string option"
  pr_path :: "string option"
  pr_version :: "nat option"
  pr_headers :: "(bytes \<times> bytes) list"

type_synonym request_parser = "nat \<Rightarrow> bytes \<Rightarrow> (parse_status \<times> parsed_request) option"

type_synonym header_values = "string \<rightharpoonup> bytes list"

definition PROTECTED_HEADER :: string where
  "PROTECTED_HEADER = ''shiny-shared-secret''"

definition is_token_byte :: "char \<Rightarrow> bool" where
  "is_token_byte c =
     (is_ascii_alphanumeric c
      \<or> c \<in> {CHR ''!'', CHR ''#'', CHR ''$'', CHR ''%'', CHR ''&'', CHR 0x27, CHR ''*'',
              CHR ''+'', CHR ''-'', CHR ''.'', CHR ''^'', CHR ''_'', CHR 0x60, CHR ''|'',
              CHR ''~''})"

definition is_protected_connection_target :: "string \<Rightarrow> bool" where
  "is_protected_connection_target name =
     (name \<in> {''host'', ''cookie'', ''origin'', ''content-length'', ''transfer-encoding'',
              ''shiny-shared-secret'', ''x-rpackit-bootstrap'', ''forwarded'', ''x-real-ip''}
      \<or> prefix ''x-forwarded-'' name \<or> prefix ''x-original-'' name)"

definition header_end :: "bytes \<Rightarrow> nat option" where
  "header_end bs = map_option (\<lambda>position. position + 4) (find_sub (crlf @ crlf) bs)"

definition bare_at :: "bytes \<Rightarrow> nat \<Rightarrow> bool" where
  "bare_at bs i =
     ((bs ! i = CHR 0x0A \<and> (i = 0 \<or> bs ! (i - 1) \<noteq> CHR 0x0D))
      \<or> (bs ! i = CHR 0x0D \<and> \<not> (i + 1 < length bs \<and> bs ! (i + 1) = CHR 0x0A)))"

fun no_continuation_line :: "bytes list \<Rightarrow> bool" where
  "no_continuation_line [] = True"
| "no_continuation_line (line # ls) =
     (let content = (case strip_suffix [CHR 0x0D] line of Some c \<Rightarrow> c | None \<Rightarrow> line)
      in case content of
           [] \<Rightarrow> True
         | c # _ \<Rightarrow> if c = CHR '' '' \<or> c = CHR 0x09 then False else no_continuation_line ls)"

definition validate_line_endings :: "bytes \<Rightarrow> admission_error + unit" where
  "validate_line_endings bs =
     (if CHR 0x00 \<in> set bs then Inl Malformed
      else if list_ex (bare_at bs) [0..<length bs] then Inl Malformed
      else if \<not> no_continuation_line (tl (split_on (CHR 0x0A) bs)) then Inl Malformed
      else Inr ())"

definition validate_method :: "string \<Rightarrow> admission_error + unit" where
  "validate_method m =
     (if \<not> list_all is_token_byte m then Inl Malformed
      else if eq_ignore_ascii_case m ''CONNECT'' \<or> eq_ignore_ascii_case m ''TRACE''
      then Inl Method else Inr ())"

definition validate_target :: "'h http_api \<Rightarrow> string \<Rightarrow> admission_error + unit" where
  "validate_target A target =
     (if \<not> prefix ''/'' target \<or> prefix ''//'' target \<or> CHR ''#'' \<in> set target then Inl Target
      else rbind (ok_or (uri_from_str A target) Target) (\<lambda>u.
        if uri_scheme u \<noteq> None \<or> uri_authority u \<noteq> None then Inl Target else Inr ()))"

definition is_ows :: "char \<Rightarrow> bool" where
  "is_ows c = (c = CHR '' '' \<or> c = CHR 0x09)"

definition trim_ows :: "bytes \<Rightarrow> bytes" where
  "trim_ows v = rev (dropWhile is_ows (rev (dropWhile is_ows v)))"

fun collect_values ::
  "'h http_api \<Rightarrow> (bytes \<times> bytes) list \<Rightarrow> header_values \<Rightarrow> admission_error + header_values" where
  "collect_values A [] vals = Inr vals"
| "collect_values A ((n, v) # hs) vals =
     rbind (ok_or (header_name_from_bytes A n) Malformed) (\<lambda>name.
     rbind (ok_or (header_value_from_bytes A v) Malformed) (\<lambda>_.
       collect_values A hs
         (vals(name \<mapsto> (case vals name of None \<Rightarrow> [] | Some vs \<Rightarrow> vs) @ [trim_ows v]))))"

definition require_exact_authority :: "header_values \<Rightarrow> string \<Rightarrow> admission_error + unit" where
  "require_exact_authority vals expected =
     rbind (ok_or (vals ''host'') Authority) (\<lambda>hosts.
       reject_if (length hosts \<noteq> 1 \<or> hosts ! 0 \<noteq> expected) Authority)"

definition single_valued_headers :: "string list" where
  "single_valued_headers =
     [''cookie'', ''origin'', PROTECTED_HEADER, ''x-rpackit-bootstrap'', ''connection'', ''upgrade'']"

definition reject_ambiguous_security_headers :: "header_values \<Rightarrow> admission_error + unit" where
  "reject_ambiguous_security_headers vals =
     reject_if
       (list_ex (\<lambda>name. case vals name of None \<Rightarrow> False | Some es \<Rightarrow> 1 < length es)
          single_valued_headers)
       AmbiguousSecurityHeader"

definition validate_content_length ::
  "bytes list \<Rightarrow> transport_limits \<Rightarrow> admission_error + unit" where
  "validate_content_length entries limits =
     (let text = entries ! 0 in
      if \<not> utf8_valid text then Inl Framing
      else if text = [] \<or> \<not> list_all is_ascii_digit text then Inl BodyLimit
      else rbind (ok_or (parse_unsigned usize_max text) Framing) (\<lambda>n.
        reject_if (max_request_body_bytes limits < n) BodyLimit))"

definition validate_transfer_encoding :: "bytes list \<Rightarrow> admission_error + unit" where
  "validate_transfer_encoding entries =
     (let text = entries ! 0 in
      if \<not> utf8_valid text then Inl Framing
      else reject_if (\<not> eq_ignore_ascii_case text ''chunked'') Framing)"

definition validate_framing ::
  "header_values \<Rightarrow> transport_limits \<Rightarrow> admission_error + unit" where
  "validate_framing vals limits =
     (let cl = vals ''content-length''; te = vals ''transfer-encoding'' in
      if (case cl of None \<Rightarrow> False | Some es \<Rightarrow> length es \<noteq> 1)
         \<or> (case te of None \<Rightarrow> False | Some es \<Rightarrow> length es \<noteq> 1)
         \<or> (cl \<noteq> None \<and> te \<noteq> None)
      then Inl Framing
      else
        rbind (case cl of None \<Rightarrow> Inr () | Some es \<Rightarrow> validate_content_length es limits) (\<lambda>_.
          case te of None \<Rightarrow> Inr () | Some es \<Rightarrow> validate_transfer_encoding es))"

fun collect_tokens :: "string list \<Rightarrow> string list \<Rightarrow> admission_error + string list" where
  "collect_tokens [] tokens = Inr tokens"
| "collect_tokens (v # vs) tokens =
     (let token = str_trim v in
      if token = [] \<or> \<not> list_all is_token_byte token then Inl Malformed
      else
        let lower = to_ascii_lowercase token in
        if lower \<in> set tokens then Inl Malformed else collect_tokens vs (tokens @ [lower]))"

definition parse_connection_tokens :: "header_values \<Rightarrow> admission_error + string list" where
  "parse_connection_tokens vals =
     (case vals ''connection'' of
        None \<Rightarrow> Inr []
      | Some entries \<Rightarrow>
          if \<not> utf8_valid (entries ! 0) then Inl Malformed
          else collect_tokens (split_on (CHR '','') (entries ! 0)) [])"

definition validate_upgrade :: "header_values \<Rightarrow> string list \<Rightarrow> admission_error + bool" where
  "validate_upgrade vals tokens =
     (if vals ''http2-settings'' \<noteq> None then Inl Upgrade
      else
        let connection_upgrade = (''upgrade'' \<in> set tokens) in
        case vals ''upgrade'' of
          None \<Rightarrow> if connection_upgrade then Inl Upgrade else Inr False
        | Some entries \<Rightarrow>
            if \<not> utf8_valid (entries ! 0) then Inl Upgrade
            else if \<not> connection_upgrade \<or> \<not> eq_ignore_ascii_case (entries ! 0) ''websocket''
            then Inl Upgrade else Inr True)"

definition validate_values ::
  "header_values \<Rightarrow> string \<Rightarrow> transport_limits \<Rightarrow> admission_error + raw_admission" where
  "validate_values vals expected limits =
     rbind (require_exact_authority vals expected) (\<lambda>_.
     rbind (reject_ambiguous_security_headers vals) (\<lambda>_.
     rbind (validate_framing vals limits) (\<lambda>_.
     rbind (parse_connection_tokens vals) (\<lambda>tokens.
       if list_ex is_protected_connection_target tokens then Inl ProtectedConnectionToken
       else
         rbind (validate_upgrade vals tokens) (\<lambda>upgrade.
           Inr \<lparr>connection_tokens = tokens, websocket_upgrade = upgrade\<rparr>)))))"

definition validate ::
  "'h http_api \<Rightarrow> request_parser \<Rightarrow> bytes \<Rightarrow> string \<Rightarrow> transport_limits
   \<Rightarrow> admission_error + raw_admission" where
  "validate A parse bs expected limits =
     rbind (ok_or (header_end bs) Incomplete) (\<lambda>end.
     if max_header_bytes limits < end then Inl HeaderLimit
     else
     rbind (validate_line_endings (take end bs)) (\<lambda>_.
     rbind (ok_or (find_sub crlf (take end bs)) Malformed) (\<lambda>first_line_end.
     if max_request_line_bytes limits < first_line_end then Inl RequestLineLimit
     else
     rbind (ok_or (parse (max_headers limits) (take end bs)) Malformed) (\<lambda>(status, request).
     case status of
       Partial \<Rightarrow> Inl Incomplete
     | Complete parsed_end \<Rightarrow>
         if parsed_end \<noteq> end \<or> pr_version request \<noteq> Some 1 then Inl Malformed
         else
         rbind (ok_or (pr_method request) Malformed) (\<lambda>m.
         rbind (ok_or (pr_path request) Malformed) (\<lambda>target.
         rbind (validate_method m) (\<lambda>_.
         rbind (validate_target A target) (\<lambda>_.
         rbind (collect_values A (pr_headers request) Map.empty) (\<lambda>vals.
           validate_values vals expected limits)))))))))"

text \<open>The values the parser reported under one lower-case field name, in order of arrival.\<close>

definition field_values :: "'h http_api \<Rightarrow> parsed_request \<Rightarrow> string \<Rightarrow> bytes list" where
  "field_values A req n =
     map (trim_ows \<circ> snd) (filter (\<lambda>(m, _). header_name_from_bytes A m = Some n) (pr_headers req))"

text \<open>A left-to-right scan that finds the same bare line endings with one byte of memory.\<close>

fun bare_scan :: "bool \<Rightarrow> bytes \<Rightarrow> bool" where
  "bare_scan cr [] = False"
| "bare_scan cr (c # cs) =
     ((c = CHR 0x0A \<and> \<not> cr) \<or> (c = CHR 0x0D \<and> \<not> prefix [CHR 0x0A] cs)
      \<or> bare_scan (c = CHR 0x0D) cs)"

section \<open>Lemmas\<close>

lemma bare_scan_iff:
  "bare_scan cr bs \<longleftrightarrow>
     (\<exists>i < length bs.
        (bs ! i = CHR 0x0A \<and> (if i = 0 then \<not> cr else bs ! (i - 1) \<noteq> CHR 0x0D))
        \<or> (bs ! i = CHR 0x0D \<and> \<not> (i + 1 < length bs \<and> bs ! (i + 1) = CHR 0x0A)))"
proof (induction bs arbitrary: cr)
  case (Cons c cs)
  have "prefix [CHR 0x0A] cs \<longleftrightarrow> 0 < length cs \<and> cs ! 0 = CHR 0x0A"
    by (cases cs) auto
  moreover have "(if i = 0 then \<not> (c = CHR 0x0D) else cs ! (i - 1) \<noteq> CHR 0x0D)
      \<longleftrightarrow> (c # cs) ! i \<noteq> CHR 0x0D" for i
    by (cases i) auto
  ultimately show ?case
    by (simp add: Ex_less_Suc2 Cons.IH) blast
qed simp

lemma bare_at_scan: "list_ex (bare_at bs) [0..<length bs] \<longleftrightarrow> bare_scan False bs"
proof -
  have "bare_at bs i \<longleftrightarrow>
      (bs ! i = CHR 0x0A \<and> (if i = 0 then \<not> False else bs ! (i - 1) \<noteq> CHR 0x0D))
      \<or> (bs ! i = CHR 0x0D \<and> \<not> (i + 1 < length bs \<and> bs ! (i + 1) = CHR 0x0A))" for i
    by (simp add: bare_at_def)
  then have "bare_scan False bs \<longleftrightarrow> (\<exists>i < length bs. bare_at bs i)"
    by (simp only: bare_scan_iff)
  then show ?thesis by (auto simp: list_ex_iff)
qed

lemma validate_line_endings_scan [code]:
  "validate_line_endings bs =
     (if CHR 0x00 \<in> set bs then Inl Malformed
      else if bare_scan False bs then Inl Malformed
      else if \<not> no_continuation_line (tl (split_on (CHR 0x0A) bs)) then Inl Malformed
      else Inr ())"
  by (simp add: validate_line_endings_def bare_at_scan)

subsection \<open>The header block\<close>

lemma header_end_Some:
  "header_end bs = Some e \<Longrightarrow> \<exists>a b. bs = a @ crlf @ crlf @ b \<and> e = length a + 4"
  using find_sub_Some [of "crlf @ crlf" bs] by (fastforce simp: header_end_def)

lemma header_end_le: "header_end bs = Some e \<Longrightarrow> e \<le> length bs"
  by (auto simp: crlf_def dest!: header_end_Some)

lemma header_end_append: "header_end bs = Some e \<Longrightarrow> header_end (bs @ rest) = Some e"
  using find_sub_append [of "crlf @ crlf" bs _ rest] by (auto simp: header_end_def)

lemma header_end_None_iff: "header_end bs = None \<longleftrightarrow> (\<forall>a b. bs \<noteq> a @ crlf @ crlf @ b)"
  by (simp add: header_end_def find_sub_None)

lemma header_end_first:
  "bs = a @ crlf @ crlf @ b \<Longrightarrow> \<exists>e. header_end bs = Some e \<and> e \<le> length a + 4"
  using find_sub_le [of bs a "crlf @ crlf" b] by (auto simp: header_end_def)

subsection \<open>Collected values\<close>

definition named_values :: "'h http_api \<Rightarrow> (bytes \<times> bytes) list \<Rightarrow> string \<Rightarrow> bytes list" where
  "named_values A hs n =
     map (trim_ows \<circ> snd) (filter (\<lambda>(m, _). header_name_from_bytes A m = Some n) hs)"

lemma collect_values_lookup:
  "collect_values A hs vals = Inr vals' \<Longrightarrow>
   vals' n = (if named_values A hs n = [] then vals n
              else Some ((case vals n of None \<Rightarrow> [] | Some vs \<Rightarrow> vs) @ named_values A hs n))"
proof (induction A hs vals arbitrary: vals' rule: collect_values.induct)
  case (2 A m v hs vals)
  then obtain name w where name: "header_name_from_bytes A m = Some name"
    and w: "header_value_from_bytes A v = Some w"
    and rec: "collect_values A hs
      (vals(name \<mapsto> (case vals name of None \<Rightarrow> [] | Some vs \<Rightarrow> vs) @ [trim_ows v])) = Inr vals'"
    by auto
  have "ok_or (header_name_from_bytes A m) Malformed = Inr name"
    "ok_or (header_value_from_bytes A v) Malformed = Inr w" using name w by auto
  from "2.IH" [OF rec] name show ?case
    by (auto simp: named_values_def)
qed (simp add: named_values_def)

lemma collect_values_field:
  assumes "collect_values A (pr_headers req) Map.empty = Inr vals"
  shows "vals n = (if field_values A req n = [] then None else Some (field_values A req n))"
  using collect_values_lookup [OF assms, of n] by (simp add: named_values_def field_values_def)

lemma collect_values_not_Nil:
  fixes req :: parsed_request
  shows "collect_values A (pr_headers req) Map.empty = Inr vals \<Longrightarrow> vals n = Some vs \<Longrightarrow> vs \<noteq> []"
  using collect_values_field [of A req vals n] by (auto split: if_splits)

subsection \<open>Checks on the collected values\<close>

lemma require_exact_authority_ok [simp]:
  "require_exact_authority vals expected = Inr u \<longleftrightarrow> vals ''host'' = Some [expected]"
  by (auto simp: require_exact_authority_def length_Suc_conv)

lemma reject_ambiguous_ok:
  "reject_ambiguous_security_headers vals = Inr u \<longleftrightarrow>
     (\<forall>n \<in> set single_valued_headers. \<forall>es. vals n = Some es \<longrightarrow> length es \<le> 1)"
  by (fastforce simp: reject_ambiguous_security_headers_def list_ex_iff split: option.splits)

lemma field_values_single:
  assumes "collect_values A (pr_headers req) Map.empty = Inr vals"
    and "reject_ambiguous_security_headers vals = Inr ()" and "n \<in> set single_valued_headers"
  shows "length (field_values A req n) \<le> 1"
  using assms(2,3) collect_values_field [OF assms(1), of n]
  by (cases "field_values A req n = []") (auto simp: reject_ambiguous_ok)

lemma parse_unsigned_digits:
  "list_all is_ascii_digit s \<Longrightarrow> parse_unsigned m s = Some n \<Longrightarrow> n = digits_value 0 s \<and> n \<le> m"
  by (auto simp: parse_unsigned_def Let_def is_ascii_digit_def byte_def
      split: list.splits if_splits)

lemma validate_content_length_ok:
  "validate_content_length [v] l = Inr u \<Longrightarrow>
     v \<noteq> [] \<and> list_all is_ascii_digit v \<and> digits_value 0 v \<le> max_request_body_bytes l"
  using parse_unsigned_digits [of v usize_max]
  by (auto simp: validate_content_length_def Let_def split: if_splits)

lemma validate_framing_ok:
  assumes "validate_framing vals l = Inr u"
  shows "vals ''content-length'' = None \<or> vals ''transfer-encoding'' = None"
    and "vals ''content-length'' = Some es \<Longrightarrow>
      \<exists>v. es = [v] \<and> v \<noteq> [] \<and> list_all is_ascii_digit v
        \<and> digits_value 0 v \<le> max_request_body_bytes l"
    and "vals ''transfer-encoding'' = Some es \<Longrightarrow>
      \<exists>v. es = [v] \<and> eq_ignore_ascii_case v ''chunked''"
proof -
  show "vals ''content-length'' = None \<or> vals ''transfer-encoding'' = None"
    using assms by (auto simp: validate_framing_def Let_def split: if_splits)
  show "\<exists>v. es = [v] \<and> v \<noteq> [] \<and> list_all is_ascii_digit v
      \<and> digits_value 0 v \<le> max_request_body_bytes l"
    if "vals ''content-length'' = Some es"
  proof -
    from assms that obtain v where "es = [v]" "validate_content_length [v] l = Inr ()"
      by (auto simp: validate_framing_def Let_def length_Suc_conv split: if_splits)
    with validate_content_length_ok show ?thesis by blast
  qed
  show "\<exists>v. es = [v] \<and> eq_ignore_ascii_case v ''chunked''"
    if "vals ''transfer-encoding'' = Some es"
  proof -
    from assms that obtain v where "es = [v]" "validate_transfer_encoding [v] = Inr ()"
      by (auto simp: validate_framing_def Let_def length_Suc_conv split: if_splits)
    then show ?thesis by (auto simp: validate_transfer_encoding_def Let_def split: if_splits)
  qed
qed

lemma collect_tokens_Cons:
  assumes "collect_tokens (v # vs) acc = Inr ts"
  shows "str_trim v \<noteq> []" "list_all is_token_byte (str_trim v)"
    and "to_ascii_lowercase (str_trim v) \<notin> set acc"
    and "collect_tokens vs (acc @ [to_ascii_lowercase (str_trim v)]) = Inr ts"
  using assms by (simp_all add: Let_def split: if_splits)

lemma collect_tokens_shape:
  "collect_tokens vs acc = Inr ts \<Longrightarrow>
   ts = acc @ map (to_ascii_lowercase \<circ> str_trim) vs
   \<and> (\<forall>v \<in> set vs. str_trim v \<noteq> [] \<and> list_all is_token_byte (str_trim v))"
proof (induction vs arbitrary: acc)
  case (Cons v vs)
  note step = collect_tokens_Cons [OF Cons.prems]
  from Cons.IH [OF step(4)] step(1,2) show ?case by simp
qed simp

lemma collect_tokens_distinct:
  "collect_tokens vs acc = Inr ts \<Longrightarrow> distinct acc \<Longrightarrow> distinct ts"
proof (induction vs arbitrary: acc)
  case (Cons v vs)
  note step = collect_tokens_Cons [OF Cons.prems(1)]
  from Cons.IH [OF step(4)] step(3) Cons.prems(2) show ?case by simp
qed simp

lemma parse_connection_tokens_ok:
  assumes "parse_connection_tokens vals = Inr ts"
  shows "distinct ts"
    and "vals ''connection'' = None \<Longrightarrow> ts = []"
    and "vals ''connection'' = Some (v # vs) \<Longrightarrow>
      ts = map (to_ascii_lowercase \<circ> str_trim) (split_on (CHR '','') v)"
  using assms collect_tokens_shape [of _ "[]" ts] collect_tokens_distinct [of _ "[]" ts]
  by (simp_all add: parse_connection_tokens_def split: option.splits if_splits)

lemma validate_upgrade_ok:
  assumes "validate_upgrade vals ts = Inr b"
  shows "vals ''http2-settings'' = None"
    and "b \<longleftrightarrow> ''upgrade'' \<in> set ts"
    and "b \<longleftrightarrow> vals ''upgrade'' \<noteq> None"
    and "vals ''upgrade'' = Some (v # vs) \<Longrightarrow> eq_ignore_ascii_case v ''websocket''"
  using assms by (auto simp: validate_upgrade_def Let_def split: option.splits if_splits)

lemma validate_values_ok:
  assumes "validate_values vals expected l = Inr raw"
  shows "require_exact_authority vals expected = Inr ()"
    and "reject_ambiguous_security_headers vals = Inr ()"
    and "validate_framing vals l = Inr ()"
    and "parse_connection_tokens vals = Inr (connection_tokens raw)"
    and "\<not> list_ex is_protected_connection_target (connection_tokens raw)"
    and "validate_upgrade vals (connection_tokens raw) = Inr (websocket_upgrade raw)"
  using assms by (auto simp: validate_values_def split: if_splits)

lemma validate_ok:
  assumes "validate A parse bs expected l = Inr raw"
  obtains "end" line req m target vals where
    "header_end bs = Some end" "end \<le> max_header_bytes l"
    "validate_line_endings (take end bs) = Inr ()"
    "find_sub crlf (take end bs) = Some line" "line \<le> max_request_line_bytes l"
    "parse (max_headers l) (take end bs) = Some (Complete end, req)"
    "pr_version req = Some 1" "pr_method req = Some m" "pr_path req = Some target"
    "validate_method m = Inr ()" "validate_target A target = Inr ()"
    "collect_values A (pr_headers req) Map.empty = Inr vals"
    "validate_values vals expected l = Inr raw"
proof -
  from assms obtain "end" line st req where
    1: "header_end bs = Some end" "end \<le> max_header_bytes l"
    "validate_line_endings (take end bs) = Inr ()"
    "find_sub crlf (take end bs) = Some line" "line \<le> max_request_line_bytes l"
    and 2: "parse (max_headers l) (take end bs) = Some (st, req)"
    and 3: "(case st of
       Partial \<Rightarrow> Inl Incomplete
     | Complete parsed_end \<Rightarrow>
         if parsed_end \<noteq> end \<or> pr_version req \<noteq> Some 1 then Inl Malformed
         else
         rbind (ok_or (pr_method req) Malformed) (\<lambda>m.
         rbind (ok_or (pr_path req) Malformed) (\<lambda>target.
         rbind (validate_method m) (\<lambda>_.
         rbind (validate_target A target) (\<lambda>_.
         rbind (collect_values A (pr_headers req) Map.empty) (\<lambda>vals.
           validate_values vals expected l)))))) = Inr raw"
    unfolding validate_def by (auto split: if_splits)
  then obtain e where "st = Complete e" by (cases st) auto
  with 1 2 3 that show thesis by (auto split: if_splits)
qed

lemma validate_line_endings_ok:
  assumes "validate_line_endings bs = Inr u"
  shows "CHR 0x00 \<notin> set bs"
    and "i < length bs \<Longrightarrow> bs ! i = CHR 0x0A \<Longrightarrow> 0 < i \<and> bs ! (i - 1) = CHR 0x0D"
    and "i < length bs \<Longrightarrow> bs ! i = CHR 0x0D \<Longrightarrow> i + 1 < length bs \<and> bs ! (i + 1) = CHR 0x0A"
proof -
  from assms have nul: "CHR 0x00 \<notin> set bs" and bare: "\<not> list_ex (bare_at bs) [0..<length bs]"
    by (simp_all add: validate_line_endings_def split: if_splits)
  show "CHR 0x00 \<notin> set bs" by (fact nul)
  from bare have "\<not> bare_at bs i" if "i < length bs" for i
    using that by (simp add: list_ex_iff)
  then show "i < length bs \<Longrightarrow> bs ! i = CHR 0x0A \<Longrightarrow> 0 < i \<and> bs ! (i - 1) = CHR 0x0D"
    and "i < length bs \<Longrightarrow> bs ! i = CHR 0x0D \<Longrightarrow> i + 1 < length bs \<and> bs ! (i + 1) = CHR 0x0A"
    by (auto simp: bare_at_def)
qed

section \<open>Properties\<close>

text \<open>C4: an admitted request has exactly one \<open>Host\<close> equal to the proxy's own authority, no repeated
  credential, origin, connection or upgrade field, and unambiguous framing: never both a
  \<open>Content-Length\<close> and a \<open>Transfer-Encoding\<close>, at most one of each, a length that is a decimal
  within the body limit and no transfer coding but \<open>chunked\<close>.\<close>

theorem validate_unambiguous:
  assumes "validate A parse bs expected l = Inr raw"
  shows "\<exists>end req. header_end bs = Some end
    \<and> parse (max_headers l) (take end bs) = Some (Complete end, req)
    \<and> field_values A req ''host'' = [expected]
    \<and> (\<forall>n \<in> set single_valued_headers. length (field_values A req n) \<le> 1)
    \<and> (field_values A req ''content-length'' = [] \<or> field_values A req ''transfer-encoding'' = [])
    \<and> length (field_values A req ''content-length'') \<le> 1
    \<and> (\<forall>v \<in> set (field_values A req ''content-length''). v \<noteq> [] \<and> list_all is_ascii_digit v
         \<and> digits_value 0 v \<le> max_request_body_bytes l)
    \<and> length (field_values A req ''transfer-encoding'') \<le> 1
    \<and> (\<forall>v \<in> set (field_values A req ''transfer-encoding''). eq_ignore_ascii_case v ''chunked'')"
proof -
  obtain "end" line req m target vals where
    head: "header_end bs = Some end" "parse (max_headers l) (take end bs) = Some (Complete end, req)"
    and col: "collect_values A (pr_headers req) Map.empty = Inr vals"
    and ok: "validate_values vals expected l = Inr raw"
    using validate_ok [OF assms] by metis
  note look = collect_values_field [OF col]
  note checks = validate_values_ok [OF ok]
  have "field_values A req ''host'' = [expected]"
    using checks(1) look [of "''host''"] by (simp split: if_splits)
  moreover have "\<forall>n \<in> set single_valued_headers. length (field_values A req n) \<le> 1"
    using field_values_single [OF col checks(2)] by blast
  moreover note validate_framing_ok [OF checks(3)]
  ultimately show ?thesis
    using head look [of "''content-length''"] look [of "''transfer-encoding''"]
    by (cases "field_values A req ''content-length'' = []";
        cases "field_values A req ''transfer-encoding'' = []") auto
qed

text \<open>the \<open>Connection\<close> tokens kept from an admitted request are distinct lower-case tokens, none
  of them nominates a protected header, and the request is treated as a WebSocket upgrade exactly
  when the connection asks for one, the single \<open>Upgrade\<close> field then being \<open>websocket\<close>; HTTP/2
  upgrades are never admitted.\<close>

lemma validate_connection_policy:
  assumes "validate A parse bs expected l = Inr raw"
  shows "distinct (connection_tokens raw)
    \<and> (\<forall>t \<in> set (connection_tokens raw). \<not> is_protected_connection_target t
         \<and> to_ascii_lowercase t = t)
    \<and> (websocket_upgrade raw \<longleftrightarrow> ''upgrade'' \<in> set (connection_tokens raw))
    \<and> (\<exists>end req. header_end bs = Some end
         \<and> parse (max_headers l) (take end bs) = Some (Complete end, req)
         \<and> field_values A req ''http2-settings'' = []
         \<and> (websocket_upgrade raw \<longrightarrow>
              (\<exists>v. field_values A req ''upgrade'' = [v] \<and> eq_ignore_ascii_case v ''websocket''))
         \<and> (\<not> websocket_upgrade raw \<longrightarrow> field_values A req ''upgrade'' = []))"
proof -
  obtain "end" line req m target vals where
    head: "header_end bs = Some end" "parse (max_headers l) (take end bs) = Some (Complete end, req)"
    and col: "collect_values A (pr_headers req) Map.empty = Inr vals"
    and ok: "validate_values vals expected l = Inr raw"
    using validate_ok [OF assms] by metis
  note look = collect_values_field [OF col]
  note checks = validate_values_ok [OF ok]
  note tokens = parse_connection_tokens_ok [OF checks(4)]
  have lower: "to_ascii_lowercase t = t" if "t \<in> set (connection_tokens raw)" for t
  proof (cases "vals ''connection''")
    case None
    with tokens(2) that show ?thesis by simp
  next
    case (Some vs)
    with collect_values_not_Nil [OF col] obtain w ws where "vals ''connection'' = Some (w # ws)"
      by (cases vs) auto
    with tokens(3) that show ?thesis by auto
  qed
  have single: "length (field_values A req ''upgrade'') \<le> 1"
    by (rule field_values_single [OF col checks(2)]) (simp add: single_valued_headers_def)
  note up = validate_upgrade_ok [OF checks(6)]
  have "websocket_upgrade raw \<longrightarrow>
      (\<exists>v. field_values A req ''upgrade'' = [v] \<and> eq_ignore_ascii_case v ''websocket'')"
    using up(3,4) look [of "''upgrade''"] single
    by (cases "field_values A req ''upgrade''") auto
  moreover have "\<not> websocket_upgrade raw \<longrightarrow> field_values A req ''upgrade'' = []"
    using up(3) look [of "''upgrade''"] by (auto split: if_splits)
  moreover have "field_values A req ''http2-settings'' = []"
    using up(1) look [of "''http2-settings''"] by (simp split: if_splits)
  ultimately show ?thesis
    using tokens(1) checks(5) lower up(2) head by (simp add: list_ex_iff)
qed

text \<open>C5: an admitted head respects the byte limits, contains no NUL and no bare carriage return or
  line feed, and its request line is an HTTP/1.1 origin-form request whose method is neither
  \<open>CONNECT\<close> nor \<open>TRACE\<close>.\<close>

theorem validate_head_bounds:
  assumes "validate A parse bs expected l = Inr raw"
  shows "\<exists>end line req m target. header_end bs = Some end \<and> end \<le> max_header_bytes l
    \<and> find_sub crlf (take end bs) = Some line \<and> line \<le> max_request_line_bytes l
    \<and> CHR 0x00 \<notin> set (take end bs)
    \<and> (\<forall>i < length (take end bs).
         (take end bs ! i = CHR 0x0A \<longrightarrow> 0 < i \<and> take end bs ! (i - 1) = CHR 0x0D)
         \<and> (take end bs ! i = CHR 0x0D \<longrightarrow>
              i + 1 < length (take end bs) \<and> take end bs ! (i + 1) = CHR 0x0A))
    \<and> parse (max_headers l) (take end bs) = Some (Complete end, req)
    \<and> pr_version req = Some 1 \<and> pr_method req = Some m \<and> pr_path req = Some target
    \<and> \<not> eq_ignore_ascii_case m ''CONNECT'' \<and> \<not> eq_ignore_ascii_case m ''TRACE''
    \<and> prefix ''/'' target \<and> \<not> prefix ''//'' target \<and> CHR ''#'' \<notin> set target"
proof -
  obtain "end" line req m target vals where
    head: "header_end bs = Some end" "end \<le> max_header_bytes l"
      "validate_line_endings (take end bs) = Inr ()"
      "find_sub crlf (take end bs) = Some line" "line \<le> max_request_line_bytes l"
      "parse (max_headers l) (take end bs) = Some (Complete end, req)"
      "pr_version req = Some 1" "pr_method req = Some m" "pr_path req = Some target"
    and m: "validate_method m = Inr ()" and t: "validate_target A target = Inr ()"
    using validate_ok [OF assms] by metis
  from m have "\<not> eq_ignore_ascii_case m ''CONNECT''" "\<not> eq_ignore_ascii_case m ''TRACE''"
    by (auto simp: validate_method_def split: if_splits)
  moreover from t have "prefix ''/'' target" "\<not> prefix ''//'' target" "CHR ''#'' \<notin> set target"
    by (auto simp: validate_target_def split: if_splits)
  moreover note validate_line_endings_ok [OF head(3)]
  ultimately show ?thesis using head by blast
qed

section \<open>Witnesses\<close>

text \<open>A WebSocket upgrade request and the parse result of its head.\<close>

definition example_head :: bytes where
  "example_head = ''GET /w HTTP/1.1'' @ crlf @ ''Host: a:1'' @ crlf
     @ ''Connection: Upgrade'' @ crlf @ ''Upgrade: websocket'' @ crlf @ crlf"

definition example_parser :: request_parser where
  "example_parser n bs =
     Some (Complete (length bs),
       \<lparr>pr_method = Some ''GET'', pr_path = Some ''/w'', pr_version = Some 1,
        pr_headers = [(''Host'', ''a:1''), (''Connection'', ''Upgrade''),
                      (''Upgrade'', ''websocket'')]\<rparr>)"

lemma example_admitted:
  "validate reference_api example_parser example_head ''a:1'' default_limits =
     Inr \<lparr>connection_tokens = [''upgrade''], websocket_upgrade = True\<rparr>"
  by code_simp

theorem validate_unambiguous_witness:
  "\<exists>end req. header_end example_head = Some end
    \<and> example_parser 96 (take end example_head) = Some (Complete end, req)
    \<and> field_values reference_api req ''host'' = [''a:1'']"
  using validate_unambiguous [OF example_admitted] by (auto simp: default_limits_def)

theorem validate_connection_policy_witness:
  "distinct [''upgrade''] \<and> \<not> is_protected_connection_target ''upgrade''"
  using validate_connection_policy [OF example_admitted] by simp

theorem validate_head_bounds_witness:
  "\<exists>end. header_end example_head = Some end \<and> end \<le> 32 * 1024"
  using validate_head_bounds [OF example_admitted] by (auto simp: default_limits_def)

end
