(* ===== verification/Cookie.thy ===== *)
theory Cookie
  imports Admission
begin

text \<open>
  \<open>crates/transport/src/cookie.rs\<close>: authentication by the proxy-session cookie, its removal from the
  forwarded request, and the normalisation of upstream \<open>Set-Cookie\<close> fields.  A \<open>HashSet\<close> is the list
  of its elements in insertion order.
\<close>

section \<open>Definitions\<close>

datatype cookie_error = Authentication | Ambiguous | UnsafeUpstreamCookie

definition SESSION_COOKIE_NAME :: string where
  "SESSION_COOKIE_NAME = ''rpackit_proxy_v1''"

definition is_reserved_name :: "'h http_api \<Rightarrow> string \<Rightarrow> bool" where
  "is_reserved_name A name =
     (if eq_ignore_ascii_case name SESSION_COOKIE_NAME then True
      else
        let decoded = percent_decode A name in
        utf8_valid decoded \<and> eq_ignore_ascii_case decoded SESSION_COOKIE_NAME)"

text \<open>The loop state of \<open>authenticate_and_strip\<close>.\<close>

record cookie_scan =
  session_seen :: bool
  valid_session :: bool
  application :: "string list"
  application_names :: "string list"

definition scan_init :: cookie_scan where
  "scan_init =
     \<lparr>session_seen = False, valid_session = False, application = [], application_names = []\<rparr>"

definition scan_segment ::
  "'h http_api \<Rightarrow> secret \<Rightarrow> string \<Rightarrow> cookie_scan \<Rightarrow> cookie_error + cookie_scan" where
  "scan_segment A session segment st =
     (let trimmed = str_trim segment in
      case split_once (CHR ''='') trimmed of
        None \<Rightarrow> Inl Ambiguous
      | Some (name, value) \<Rightarrow>
          if name = [] \<or> \<not> list_all is_token_byte name \<or> list_ex is_ascii_control value
          then Inl Ambiguous
          else if is_reserved_name A name then
            if session_seen st then Inl Ambiguous
            else Inr (st\<lparr>session_seen := True, valid_session := secret_matches session value\<rparr>)
          else if name \<in> set (application_names st) then Inl Ambiguous
          else Inr (st\<lparr>application := application st @ [trimmed],
                       application_names := application_names st @ [name]\<rparr>))"

fun scan_segments ::
  "'h http_api \<Rightarrow> secret \<Rightarrow> string list \<Rightarrow> cookie_scan \<Rightarrow> cookie_error + cookie_scan" where
  "scan_segments A session [] st = Inr st"
| "scan_segments A session (segment # segments) st =
     rbind (scan_segment A session segment st) (scan_segments A session segments)"

definition authenticate_and_strip ::
  "'h http_api \<Rightarrow> 'h \<Rightarrow> secret \<Rightarrow> cookie_error + 'h" where
  "authenticate_and_strip A headers session =
     (let vals = hm_get_all A headers ''cookie'' in
      if length vals \<noteq> 1 then Inl Authentication
      else
        rbind (ok_or (header_value_to_str A (vals ! 0)) Authentication) (\<lambda>text.
        rbind (scan_segments A session (split_on (CHR '';'') text) scan_init) (\<lambda>st.
          if \<not> session_seen st \<or> \<not> valid_session st then Inl Authentication
          else
            let stripped = hm_remove A headers ''cookie'' in
            if application st \<noteq> [] then
              rbind (ok_or (header_value_from_str A (join_with ''; '' (application st))) Ambiguous)
                (\<lambda>rebuilt. Inr (hm_insert A stripped ''cookie'' rebuilt))
            else Inr stripped)))"

definition split_attribute :: "string \<Rightarrow> string \<times> string option" where
  "split_attribute attribute =
     (case split_once (CHR ''='') attribute of
        None \<Rightarrow> (attribute, None)
      | Some (name, value) \<Rightarrow> (str_trim name, Some (str_trim value)))"

fun normalize_attributes ::
  "string \<Rightarrow> string list \<Rightarrow> string list \<Rightarrow> string list \<Rightarrow> cookie_error + string list" where
  "normalize_attributes upstream_host [] seen rebuilt = Inr rebuilt"
| "normalize_attributes upstream_host (raw # parts) seen rebuilt =
     (let attribute = str_trim raw in
      if attribute = [] then Inl UnsafeUpstreamCookie
      else
        case split_attribute attribute of (attribute_name, attribute_value) \<Rightarrow>
          if attribute_name = [] \<or> \<not> list_all is_token_byte attribute_name
          then Inl UnsafeUpstreamCookie
          else
            let lower = to_ascii_lowercase attribute_name in
            if lower \<in> set seen then Inl UnsafeUpstreamCookie
            else if lower = ''domain'' then
              rbind (ok_or attribute_value UnsafeUpstreamCookie) (\<lambda>domain.
                if eq_ignore_ascii_case (dropWhile (\<lambda>c. c = CHR ''.'') domain) upstream_host
                then normalize_attributes upstream_host parts (lower # seen) rebuilt
                else Inl UnsafeUpstreamCookie)
            else normalize_attributes upstream_host parts (lower # seen) (rebuilt @ [attribute]))"

definition normalize_set_cookie ::
  "'h http_api \<Rightarrow> bytes \<Rightarrow> string \<Rightarrow> cookie_error + bytes" where
  "normalize_set_cookie A value upstream_host =
     rbind (ok_or (header_value_to_str A value) UnsafeUpstreamCookie) (\<lambda>text.
       let parts = split_on (CHR '';'') text; first = str_trim (hd parts) in
       rbind (ok_or (split_once (CHR ''='') first) UnsafeUpstreamCookie) (\<lambda>(name, _).
         if name = [] \<or> \<not> list_all is_token_byte name \<or> is_reserved_name A name
         then Inl UnsafeUpstreamCookie
         else
           rbind (normalize_attributes upstream_host (tl parts) [] [first]) (\<lambda>rebuilt.
             ok_or (header_value_from_str A (join_with ''; '' rebuilt)) UnsafeUpstreamCookie)))"

fun append_normalized ::
  "'h http_api \<Rightarrow> string \<Rightarrow> bytes list \<Rightarrow> 'h \<Rightarrow> cookie_error + 'h" where
  "append_normalized A upstream_host [] headers = Inr headers"
| "append_normalized A upstream_host (v # vs) headers =
     rbind (normalize_set_cookie A v upstream_host) (\<lambda>normalized.
       append_normalized A upstream_host vs (hm_append A headers ''set-cookie'' normalized))"

definition normalize_set_cookie_headers ::
  "'h http_api \<Rightarrow> 'h \<Rightarrow> string \<Rightarrow> cookie_error + 'h" where
  "normalize_set_cookie_headers A headers upstream_host =
     (let vals = hm_get_all A headers ''set-cookie'' in
      if vals = [] then Inr headers
      else append_normalized A upstream_host vals (hm_remove A headers ''set-cookie''))"

text \<open>The trimmed segments of a cookie header, and the name and value of one segment.\<close>

definition cookie_segments :: "string \<Rightarrow> string list" where
  "cookie_segments text = map str_trim (split_on (CHR '';'') text)"

definition segment_name :: "string \<Rightarrow> string" where
  "segment_name seg = takeWhile (\<lambda>c. c \<noteq> CHR ''='') seg"

definition segment_value :: "string \<Rightarrow> string" where
  "segment_value seg = drop (Suc (length (segment_name seg))) seg"

definition segment_ok :: "string \<Rightarrow> bool" where
  "segment_ok seg =
     (CHR ''='' \<in> set seg \<and> segment_name seg \<noteq> [] \<and> list_all is_token_byte (segment_name seg)
      \<and> \<not> list_ex is_ascii_control (segment_value seg))"

definition session_segments :: "'h http_api \<Rightarrow> string \<Rightarrow> string list" where
  "session_segments A text = filter (\<lambda>t. is_reserved_name A (segment_name t)) (cookie_segments text)"

definition application_segments :: "'h http_api \<Rightarrow> string \<Rightarrow> string list" where
  "application_segments A text =
     filter (\<lambda>t. \<not> is_reserved_name A (segment_name t)) (cookie_segments text)"

text \<open>The lower-case name of an attribute of \<open>Set-Cookie\<close>, and the attributes that are kept.\<close>

definition attribute_key :: "string \<Rightarrow> string" where
  "attribute_key attribute = to_ascii_lowercase (fst (split_attribute attribute))"

definition attribute_ok :: "string \<Rightarrow> string \<Rightarrow> bool" where
  "attribute_ok upstream_host attribute =
     (fst (split_attribute attribute) \<noteq> []
      \<and> list_all is_token_byte (fst (split_attribute attribute))
      \<and> (attribute_key attribute = ''domain'' \<longrightarrow>
           (case snd (split_attribute attribute) of
              None \<Rightarrow> False
            | Some domain \<Rightarrow>
                eq_ignore_ascii_case (dropWhile (\<lambda>c. c = CHR ''.'') domain) upstream_host)))"

definition kept_attributes :: "string list \<Rightarrow> string list" where
  "kept_attributes = filter (\<lambda>a. attribute_key a \<noteq> ''domain'')"

section \<open>Lemmas\<close>

lemma split_once_segment:
  "split_once (CHR ''='') seg =
     (if CHR ''='' \<in> set seg then Some (segment_name seg, segment_value seg) else None)"
proof (cases "split_once (CHR ''='') seg")
  case None
  then have "CHR ''='' \<notin> set seg"
    by (auto simp: split_once_def dropWhile_eq_Nil_conv split: list.splits)
  with None show ?thesis by simp
next
  case (Some p)
  then obtain n v where p: "p = (n, v)" and s: "seg = n @ CHR ''='' # v" "CHR ''='' \<notin> set n"
    using Some by (cases p) auto
  then have "segment_name seg = n" by (auto simp: segment_name_def takeWhile_append)
  with s Some p show ?thesis by (simp add: segment_value_def)
qed

lemma scan_segment_ok:
  "scan_segment A s seg st = Inr st' \<longleftrightarrow>
     segment_ok (str_trim seg)
     \<and> (if is_reserved_name A (segment_name (str_trim seg))
        then \<not> session_seen st
          \<and> st' = st\<lparr>session_seen := True,
                      valid_session := secret_matches s (segment_value (str_trim seg))\<rparr>
        else segment_name (str_trim seg) \<notin> set (application_names st)
          \<and> st' = st\<lparr>application := application st @ [str_trim seg],
                application_names := application_names st @ [segment_name (str_trim seg)]\<rparr>)"
  by (auto simp: scan_segment_def segment_ok_def split_once_segment Let_def split: if_splits)

text \<open>What the loop has accumulated after a list of segments.\<close>

lemma scan_segments_ok:
  "scan_segments A s segs st = Inr st' \<Longrightarrow>
     (let ts = map str_trim segs; R = (\<lambda>t. is_reserved_name A (segment_name t));
          app = filter (\<lambda>t. \<not> R t) ts; res = filter R ts in
      list_all segment_ok ts
      \<and> application st' = application st @ app
      \<and> application_names st' = application_names st @ map segment_name app
      \<and> (distinct (application_names st) \<longrightarrow> distinct (application_names st'))
      \<and> (if session_seen st then res = [] \<and> session_seen st' \<and> valid_session st' = valid_session st
         else length res \<le> 1 \<and> (session_seen st' \<longleftrightarrow> res \<noteq> [])
           \<and> (valid_session st' \<longleftrightarrow>
                (if res = [] then valid_session st
                 else secret_value s = segment_value (hd res)))))"
proof (induction segs arbitrary: st)
  case (Cons seg segs)
  then obtain st1 where 1: "scan_segment A s seg st = Inr st1"
    and 2: "scan_segments A s segs st1 = Inr st'" by auto
  from Cons.IH [OF 2] 1 [unfolded scan_segment_ok] show ?case
    by (cases "is_reserved_name A (segment_name (str_trim seg))"; cases "session_seen st")
       (auto simp: Let_def)
qed simp

lemma cookie_segments_no_sep: "t \<in> set (cookie_segments ct) \<Longrightarrow> CHR '';'' \<notin> set t"
  using set_str_trim split_on_pieces [of _ "CHR '';''" ct]
  by (fastforce simp: cookie_segments_def)

lemma cookie_segments_subset: "t \<in> set (cookie_segments ct) \<Longrightarrow> set t \<subseteq> set ct"
  using set_str_trim split_on_subset by (fastforce simp: cookie_segments_def)

lemma join_space_segments:
  assumes "ps \<noteq> []" "\<forall>p \<in> set ps. CHR '';'' \<notin> set p \<and> str_trim p = p"
  shows "cookie_segments (join_with ''; '' ps) = ps"
proof -
  have "split_on (CHR '';'') (join_with ''; '' ps) = hd ps # map ((@) '' '') (tl ps)"
    using assms split_on_join_space [of ps "CHR '';''" "'' ''"] by simp
  moreover have "map (str_trim \<circ> (@) '' '') (tl ps) = tl ps"
    using assms by (cases ps) (auto simp: str_trim_space intro: map_idI)
  ultimately show ?thesis
    using assms by (cases ps) (auto simp: cookie_segments_def)
qed

lemma scan_segments_accepts:
  assumes "list_all segment_ok (map str_trim segs)"
    and "session_seen st \<longrightarrow> filter (\<lambda>t. is_reserved_name A (segment_name t)) (map str_trim segs) = []"
    and "length (filter (\<lambda>t. is_reserved_name A (segment_name t)) (map str_trim segs)) \<le> 1"
    and "distinct (application_names st @ map segment_name
           (filter (\<lambda>t. \<not> is_reserved_name A (segment_name t)) (map str_trim segs)))"
  shows "\<exists>st'. scan_segments A s segs st = Inr st'"
  using assms
proof (induction segs arbitrary: st)
  case (Cons seg segs)
  let ?t = "str_trim seg"
  define st1 where "st1 =
    (if is_reserved_name A (segment_name ?t)
     then st\<lparr>session_seen := True, valid_session := secret_matches s (segment_value ?t)\<rparr>
     else st\<lparr>application := application st @ [?t],
             application_names := application_names st @ [segment_name ?t]\<rparr>)"
  have "scan_segment A s seg st = Inr st1"
    unfolding scan_segment_ok using Cons.prems by (auto simp: st1_def split: if_splits)
  moreover have "\<exists>st'. scan_segments A s segs st1 = Inr st'"
    by (rule Cons.IH) (use Cons.prems in \<open>auto simp: st1_def filter_empty_conv split: if_splits\<close>)
  ultimately show ?case by auto
qed simp

lemma cookie_segments_normal:
  "t \<in> set (cookie_segments ct) \<Longrightarrow> CHR '';'' \<notin> set t \<and> str_trim t = t"
  using cookie_segments_no_sep [of t ct] by (auto simp: cookie_segments_def)

lemma normalize_attributes_Cons:
  assumes "normalize_attributes host (raw # parts) seen rebuilt = Inr out"
  shows "attribute_ok host (str_trim raw)" "attribute_key (str_trim raw) \<notin> set seen"
    and "normalize_attributes host parts (attribute_key (str_trim raw) # seen)
           (rebuilt @ kept_attributes [str_trim raw]) = Inr out"
proof -
  obtain n v where nv: "split_attribute (str_trim raw) = (n, v)" by fastforce
  show "attribute_ok host (str_trim raw)" "attribute_key (str_trim raw) \<notin> set seen"
    and "normalize_attributes host parts (attribute_key (str_trim raw) # seen)
           (rebuilt @ kept_attributes [str_trim raw]) = Inr out"
    using assms nv
    by (auto simp: Let_def attribute_ok_def attribute_key_def kept_attributes_def split: if_splits)
qed

lemma normalize_attributes_ok:
  assumes "normalize_attributes host parts seen rebuilt = Inr out"
  shows "out = rebuilt @ kept_attributes (map str_trim parts)
    \<and> distinct (map attribute_key (map str_trim parts))
    \<and> list_all (attribute_ok host) (map str_trim parts)
    \<and> set (map attribute_key (map str_trim parts)) \<inter> set seen = {}"
  using assms
proof (induction parts arbitrary: seen rebuilt)
  case (Cons raw parts)
  note C = normalize_attributes_Cons [OF Cons.prems]
  from C(1,2) Cons.IH [OF C(3)] show ?case by (auto simp: kept_attributes_def)
qed (simp add: kept_attributes_def)

context http_laws
begin

lemma authenticate_ok:
  assumes "authenticate_and_strip A h s = Inr h'"
  obtains ct where "hm_get_all A h ''cookie'' = [ct]"
    and "list_all visible_ascii ct"
    and "list_all segment_ok (cookie_segments ct)"
    and "\<exists>t. session_segments A ct = [t] \<and> segment_value t = secret_value s"
    and "distinct (map segment_name (application_segments A ct))"
    and "hm_get_all A h' ''cookie'' =
      (if application_segments A ct = [] then []
       else [join_with ''; '' (application_segments A ct)])"
    and "\<And>n. n \<noteq> ''cookie'' \<Longrightarrow> hm_get_all A h' n = hm_get_all A h n"
proof -
  from assms obtain ct where one: "hm_get_all A h ''cookie'' = [ct]"
    by (auto simp: authenticate_and_strip_def Let_def length_Suc_conv split: if_splits)
  with assms obtain st where vis: "list_all visible_ascii ct"
    and scan: "scan_segments A s (split_on (CHR '';'') ct) scan_init = Inr st"
    and seen: "session_seen st" "valid_session st"
    and res: "(if application st \<noteq> [] then
              rbind (ok_or (header_value_from_str A (join_with ''; '' (application st))) Ambiguous)
                (\<lambda>rebuilt. Inr (hm_insert A (hm_remove A h ''cookie'') ''cookie'' rebuilt))
            else Inr (hm_remove A h ''cookie'')) = Inr h'"
    by (auto simp: authenticate_and_strip_def Let_def split: if_splits)
  note S = scan_segments_ok [OF scan, unfolded Let_def, folded cookie_segments_def
      session_segments_def application_segments_def]
  have app: "application st = application_segments A ct"
    and names: "distinct (map segment_name (application_segments A ct))"
    and ok: "list_all segment_ok (cookie_segments ct)"
    and sess: "\<exists>t. session_segments A ct = [t] \<and> segment_value t = secret_value s"
    using S seen by (auto simp: scan_init_def le_Suc_eq length_Suc_conv)
  from res app have "hm_get_all A h' ''cookie'' =
      (if application_segments A ct = [] then []
       else [join_with ''; '' (application_segments A ct)])"
    and "\<And>n. n \<noteq> ''cookie'' \<Longrightarrow> hm_get_all A h' n = hm_get_all A h n"
    by (auto dest: from_str_same split: if_splits)
  with that one vis ok sess names show thesis by blast
qed

lemma forwarded_cookie_segments:
  assumes "authenticate_and_strip A h s = Inr h'" and "v \<in> set (hm_get_all A h' ''cookie'')"
    and "t \<in> set (cookie_segments v)"
  shows "segment_ok t \<and> \<not> is_reserved_name A (segment_name t)"
proof -
  obtain ct where ok: "list_all segment_ok (cookie_segments ct)"
    and c: "hm_get_all A h' ''cookie'' =
      (if application_segments A ct = [] then []
       else [join_with ''; '' (application_segments A ct)])"
    using authenticate_ok [OF assms(1)] by metis
  let ?app = "application_segments A ct"
  from c assms(2) have v: "?app \<noteq> []" "v = join_with ''; '' ?app" by (auto split: if_splits)
  have "\<forall>p \<in> set ?app. CHR '';'' \<notin> set p \<and> str_trim p = p"
    by (auto simp: application_segments_def dest: cookie_segments_no_sep)
       (auto simp: cookie_segments_def)
  with v have "cookie_segments v = ?app" by (simp add: join_space_segments)
  with assms(3) ok show ?thesis
    by (auto simp: application_segments_def list_all_iff)
qed

lemma authenticate_accepts:
  assumes "hm_get_all A h ''cookie'' = [ct]" "list_all visible_ascii ct"
    and "list_all segment_ok (cookie_segments ct)"
    and "session_segments A ct = [t]" "segment_value t = secret_value s"
    and "distinct (map segment_name (application_segments A ct))"
  shows "\<exists>h'. authenticate_and_strip A h s = Inr h'"
proof -
  have "\<exists>st. scan_segments A s (split_on (CHR '';'') ct) scan_init = Inr st"
    by (rule scan_segments_accepts)
       (use assms in \<open>simp_all add: cookie_segments_def session_segments_def
          application_segments_def scan_init_def\<close>)
  then obtain st where scan: "scan_segments A s (split_on (CHR '';'') ct) scan_init = Inr st"
    by blast
  note S = scan_segments_ok [OF scan, unfolded Let_def, folded cookie_segments_def
      session_segments_def application_segments_def]
  have st: "session_seen st" "valid_session st" "application st = application_segments A ct"
    using S assms(4,5) by (simp_all add: scan_init_def)
  have "\<And>u. u \<in> set (application_segments A ct) \<Longrightarrow> list_all visible_ascii u"
    using assms(2) cookie_segments_subset by (fastforce simp: application_segments_def list_all_iff)
  then have "list_all visible_ascii (join_with ''; '' (application_segments A ct))"
    by (rule join_with_all) (simp_all add: visible_ascii_def byte_def)
  with assms(1,2) scan st show ?thesis
    by (auto simp: authenticate_and_strip_def Let_def from_str_visible)
qed

lemma normalize_set_cookie_ok:
  assumes "normalize_set_cookie A v host = Inr v'"
  shows "cookie_segments v' = hd (cookie_segments v) # kept_attributes (tl (cookie_segments v))"
    and "\<not> is_reserved_name A (segment_name (hd (cookie_segments v)))"
    and "distinct (map attribute_key (tl (cookie_segments v)))"
    and "list_all (attribute_ok host) (tl (cookie_segments v))"
proof -
  let ?parts = "split_on (CHR '';'') v"
  have hd: "hd (cookie_segments v) = str_trim (hd ?parts)"
    and tl: "tl (cookie_segments v) = map str_trim (tl ?parts)"
    by (simp_all add: cookie_segments_def hd_map map_tl)
  obtain name val rebuilt where
    first: "split_once (CHR ''='') (str_trim (hd ?parts)) = Some (name, val)"
    and reserved: "\<not> is_reserved_name A name"
    and attrs: "normalize_attributes host (tl ?parts) [] [str_trim (hd ?parts)] = Inr rebuilt"
    and v': "v' = join_with ''; '' rebuilt"
    using assms by (auto simp: normalize_set_cookie_def Let_def dest!: from_str_same split: if_splits)
  note N = normalize_attributes_ok [OF attrs, folded tl hd]
  then have out: "rebuilt = hd (cookie_segments v) # kept_attributes (tl (cookie_segments v))"
    by simp
  have "\<forall>p \<in> set rebuilt. CHR '';'' \<notin> set p \<and> str_trim p = p"
  proof -
    have "cookie_segments v \<noteq> []" by (simp add: cookie_segments_def)
    then have "set rebuilt \<subseteq> set (cookie_segments v)"
      unfolding out kept_attributes_def by (cases "cookie_segments v") auto
    then show ?thesis using cookie_segments_normal [of _ v] by blast
  qed
  then show "cookie_segments v' = hd (cookie_segments v) # kept_attributes (tl (cookie_segments v))"
    using out by (simp add: v' join_space_segments)
  show "\<not> is_reserved_name A (segment_name (hd (cookie_segments v)))"
    using first reserved by (auto simp: split_once_segment hd split: if_splits)
  show "distinct (map attribute_key (tl (cookie_segments v)))"
    and "list_all (attribute_ok host) (tl (cookie_segments v))"
    using N by simp_all
qed

lemma append_normalized_ok:
  "append_normalized A host vs h = Inr h' \<Longrightarrow>
     (\<exists>ws. hm_get_all A h' ''set-cookie'' = hm_get_all A h ''set-cookie'' @ ws
        \<and> list_all2 (\<lambda>v v'. normalize_set_cookie A v host = Inr v') vs ws)
     \<and> (\<forall>n. n \<noteq> ''set-cookie'' \<longrightarrow> hm_get_all A h' n = hm_get_all A h n)"
proof (induction vs arbitrary: h)
  case (Cons v vs)
  then obtain v' where v': "normalize_set_cookie A v host = Inr v'"
    and rest: "append_normalized A host vs (hm_append A h ''set-cookie'' v') = Inr h'" by auto
  from Cons.IH [OF rest] obtain ws where
    "hm_get_all A h' ''set-cookie'' = hm_get_all A h ''set-cookie'' @ v' # ws"
    "list_all2 (\<lambda>v v'. normalize_set_cookie A v host = Inr v') (v # vs) (v' # ws)"
    using v' by auto
  with Cons.IH [OF rest] show ?case by fastforce
qed auto

lemma normalize_headers_ok:
  assumes "normalize_set_cookie_headers A h host = Inr h'"
  shows "list_all2 (\<lambda>v v'. normalize_set_cookie A v host = Inr v')
           (hm_get_all A h ''set-cookie'') (hm_get_all A h' ''set-cookie'')"
    and "n \<noteq> ''set-cookie'' \<Longrightarrow> hm_get_all A h' n = hm_get_all A h n"
  using assms append_normalized_ok
  by (fastforce simp: normalize_set_cookie_headers_def Let_def split: if_splits)+

end

section \<open>Properties\<close>

text \<open>C6: authentication by cookie accepts exactly the requests with one \<open>Cookie\<close> field of visible
  ASCII whose segments are all well-formed name and value pairs with distinct application names,
  exactly one of which bears the reserved session name, in any spelling, with the session secret as
  its value.\<close>

theorem authenticate_and_strip_accepts_iff:
  assumes "http_laws A"
  shows "(\<exists>h'. authenticate_and_strip A h s = Inr h') \<longleftrightarrow>
    (\<exists>ct t. hm_get_all A h ''cookie'' = [ct] \<and> list_all visible_ascii ct
       \<and> list_all segment_ok (cookie_segments ct)
       \<and> session_segments A ct = [t] \<and> segment_value t = secret_value s
       \<and> distinct (map segment_name (application_segments A ct)))"
proof
  assume "\<exists>h'. authenticate_and_strip A h s = Inr h'"
  then obtain h' where "authenticate_and_strip A h s = Inr h'" by blast
  then show "\<exists>ct t. hm_get_all A h ''cookie'' = [ct] \<and> list_all visible_ascii ct
       \<and> list_all segment_ok (cookie_segments ct)
       \<and> session_segments A ct = [t] \<and> segment_value t = secret_value s
       \<and> distinct (map segment_name (application_segments A ct))"
    by (rule http_laws.authenticate_ok [OF assms]) blast
qed (use http_laws.authenticate_accepts [OF assms] in blast)

text \<open>C7: what is forwarded after authentication: the application segments in their order, without
  the session segment, every other header unchanged; no cookie name the upstream can see is the
  reserved one, percent-encoded or in any case.\<close>

theorem authenticate_and_strip_forwards:
  assumes "http_laws A" and "authenticate_and_strip A h s = Inr h'"
  shows "(\<exists>ct. hm_get_all A h ''cookie'' = [ct]
      \<and> concat (map cookie_segments (hm_get_all A h' ''cookie'')) = application_segments A ct)
    \<and> length (hm_get_all A h' ''cookie'') \<le> 1
    \<and> (\<forall>v \<in> set (hm_get_all A h' ''cookie''). \<forall>t \<in> set (cookie_segments v).
         \<not> is_reserved_name A (segment_name t))
    \<and> (\<forall>n. n \<noteq> ''cookie'' \<longrightarrow> hm_get_all A h' n = hm_get_all A h n)"
proof -
  obtain ct where ct: "hm_get_all A h ''cookie'' = [ct]"
    and c: "hm_get_all A h' ''cookie'' =
      (if application_segments A ct = [] then []
       else [join_with ''; '' (application_segments A ct)])"
    and other: "\<And>n. n \<noteq> ''cookie'' \<Longrightarrow> hm_get_all A h' n = hm_get_all A h n"
    by (rule http_laws.authenticate_ok [OF assms]) blast
  have "cookie_segments (join_with ''; '' (application_segments A ct)) = application_segments A ct"
    if "application_segments A ct \<noteq> []"
    using that cookie_segments_normal [of _ ct]
    by (intro join_space_segments) (auto simp: application_segments_def)
  with c have "concat (map cookie_segments (hm_get_all A h' ''cookie'')) = application_segments A ct"
    by simp
  with ct c other http_laws.forwarded_cookie_segments [OF assms] show ?thesis by auto
qed

text \<open>C8: every \<open>Set-Cookie\<close> field of an accepted response is passed on in order as its first
  segment followed by its attributes without \<open>Domain\<close>; its name is not the reserved one, its
  attributes are distinct and a dropped \<open>Domain\<close> named the upstream host.  No other header changes.\<close>

theorem normalize_set_cookie_headers_safe:
  assumes "http_laws A" and "normalize_set_cookie_headers A h host = Inr h'"
  shows "list_all2 (\<lambda>v v'.
        cookie_segments v' = hd (cookie_segments v) # kept_attributes (tl (cookie_segments v))
        \<and> \<not> is_reserved_name A (segment_name (hd (cookie_segments v')))
        \<and> distinct (map attribute_key (tl (cookie_segments v)))
        \<and> list_all (attribute_ok host) (tl (cookie_segments v))
        \<and> ''domain'' \<notin> set (map attribute_key (tl (cookie_segments v'))))
      (hm_get_all A h ''set-cookie'') (hm_get_all A h' ''set-cookie'')
    \<and> (\<forall>n. n \<noteq> ''set-cookie'' \<longrightarrow> hm_get_all A h' n = hm_get_all A h n)"
  using http_laws.normalize_headers_ok [OF assms] http_laws.normalize_set_cookie_ok [OF assms(1)]
  by (auto elim!: list_all2_mono simp: kept_attributes_def)

section \<open>Witnesses\<close>

definition example_session :: secret where
  "example_session = \<lparr>secret_value = ''rp-0a''\<rparr>"

definition example_cookies :: header_list where
  "example_cookies = [(''host'', ''a:1''), (''cookie'', ''a=1; Rpackit_proxy_v1=rp-0a;b=2'')]"

definition example_set_cookies :: header_list where
  "example_set_cookies = [(''set-cookie'', ''a=1; Path=/; Domain=.127.0.0.1'')]"

lemma example_authenticated:
  "authenticate_and_strip reference_api example_cookies example_session =
     Inr [(''host'', ''a:1''), (''cookie'', ''a=1; b=2'')]"
  by code_simp

lemma example_set_cookie_accepted:
  "normalize_set_cookie_headers reference_api example_set_cookies ''127.0.0.1'' =
     Inr [(''set-cookie'', ''a=1; Path=/'')]"
  by code_simp

theorem authenticate_and_strip_accepts_iff_witness:
  "\<exists>ct t. hm_get_all reference_api example_cookies ''cookie'' = [ct]
     \<and> session_segments reference_api ct = [t] \<and> segment_value t = ''rp-0a''"
proof -
  have "\<exists>h'. authenticate_and_strip reference_api example_cookies example_session = Inr h'"
    by (simp add: example_authenticated)
  then show ?thesis
    unfolding authenticate_and_strip_accepts_iff [OF reference.http_laws_axioms]
    by (auto simp: example_session_def)
qed

theorem authenticate_and_strip_forwards_witness:
  "hm_get_all reference_api [(''host'', ''a:1''), (''cookie'', ''a=1; b=2'')] ''host'' =
   hm_get_all reference_api example_cookies ''host''"
  using authenticate_and_strip_forwards [OF reference.http_laws_axioms example_authenticated]
  by auto

theorem normalize_set_cookie_headers_safe_witness:
  "list_all2 (\<lambda>v v'. cookie_segments v' =
        hd (cookie_segments v) # kept_attributes (tl (cookie_segments v)))
      (hm_get_all reference_api example_set_cookies ''set-cookie'')
      (hm_get_all reference_api [(''set-cookie'', ''a=1; Path=/'')] ''set-cookie'')"
  using normalize_set_cookie_headers_safe
    [OF reference.http_laws_axioms example_set_cookie_accepted]
  by (auto elim!: list_all2_mono)

end
