(* ===== verification/Body_Guards.thy ===== *)
theory Body_Guards
  imports Transport_Limits
begin

text \<open>
  \<open>crates/transport/src/request_body.rs\<close> and \<open>crates/transport/src/response_body.rs\<close>: the three
  streaming guards.  The guarded body is any implementation of hyper's \<open>Body\<close> trait, the argument
  \<open>B\<close>.  Each call of \<open>poll_frame\<close> takes the reading \<open>now\<close> of the monotonic clock, in nanoseconds,
  that its timers and its \<open>Instant::now()\<close> see; a \<open>Sleep\<close> is its deadline and is ready from then on.
  The locale \<open>bounded_guard\<close> states what the three guards have in common and derives what a consumer
  can observe over any sequence of polls; it is interpreted on each of them.
\<close>

section \<open>Polling\<close>

datatype 'a poll = Pending | Ready 'a

datatype frame = FrameData bytes | FrameTrailers "(string \<times> bytes) list" | FrameOther

datatype io_error = IoOther string | IoUnexpectedEof string | IoAddrInUse string

type_synonym frame_poll = "(io_error + frame) option poll"

type_synonym instant = nat

record size_hint =
  hint_lower :: nat
  hint_upper :: "nat option"

record 'b body_api =
  body_poll :: "'b \<Rightarrow> instant \<Rightarrow> 'b \<times> frame_poll"
  body_is_end_stream :: "'b \<Rightarrow> bool"
  body_size_hint :: "'b \<Rightarrow> size_hint"

definition exact_hint :: "nat \<Rightarrow> size_hint" where
  "exact_hint n = \<lparr>hint_lower = n, hint_upper = Some n\<rparr>"

definition timer_elapsed :: "instant option \<Rightarrow> instant \<Rightarrow> bool" where
  "timer_elapsed timer now = (case timer of None \<Rightarrow> False | Some deadline \<Rightarrow> deadline \<le> now)"

definition minimum_bytes_for_window :: "nat \<Rightarrow> duration \<Rightarrow> nat" where
  "minimum_bytes_for_window bytes_per_second window =
     (let numerator = saturating_mul u128_max bytes_per_second window;
          rounded_up = saturating_add u128_max numerator (1000000000 - 1) div 1000000000
      in case try_from u64_max rounded_up of None \<Rightarrow> u64_max | Some n \<Rightarrow> n)"

definition capacity :: "nat \<Rightarrow> nat" where
  "capacity max_body_bytes = (case try_from u64_max max_body_bytes of None \<Rightarrow> u64_max | Some n \<Rightarrow> n)"

section \<open>The request guard\<close>

record 'b request_guard =
  rq_inner :: "'b"
  rq_max_body_bytes :: nat
  rq_bytes_forwarded :: nat
  rq_idle_timeout :: duration
  rq_total_timeout :: duration
  rq_rate_window :: duration
  rq_minimum_window_bytes :: nat
  rq_window_bytes :: nat
  rq_idle_timer :: "instant option"
  rq_total_timer :: "instant option"
  rq_rate_timer :: "instant option"
  rq_completed :: bool
  rq_failed :: bool

definition request_guard_new ::
  "'b \<Rightarrow> nat \<Rightarrow> duration \<Rightarrow> duration \<Rightarrow> nat \<Rightarrow> duration \<Rightarrow> 'b request_guard" where
  "request_guard_new inner max_body_bytes idle_timeout total_timeout minimum_bytes_per_second
       rate_window =
     \<lparr>rq_inner = inner, rq_max_body_bytes = capacity max_body_bytes, rq_bytes_forwarded = 0,
      rq_idle_timeout = idle_timeout, rq_total_timeout = total_timeout,
      rq_rate_window = rate_window,
      rq_minimum_window_bytes = minimum_bytes_for_window minimum_bytes_per_second rate_window,
      rq_window_bytes = 0, rq_idle_timer = None, rq_total_timer = None, rq_rate_timer = None,
      rq_completed = False, rq_failed = False\<rparr>"

definition request_start_timers :: "'b request_guard \<Rightarrow> instant \<Rightarrow> 'b request_guard" where
  "request_start_timers g now =
     (if rq_idle_timer g = None then
        let g1 = g\<lparr>rq_idle_timer := Some (now + rq_idle_timeout g),
                   rq_total_timer := Some (now + rq_total_timeout g)\<rparr>
        in if 0 < rq_minimum_window_bytes g
           then g1\<lparr>rq_rate_timer := Some (now + rq_rate_window g)\<rparr> else g1
      else g)"

definition request_reject :: "'b request_guard \<Rightarrow> string \<Rightarrow> 'b request_guard \<times> frame_poll" where
  "request_reject g message = (g\<lparr>rq_failed := True\<rparr>, Ready (Some (Inl (IoOther message))))"

definition request_reset_idle_timer :: "'b request_guard \<Rightarrow> instant \<Rightarrow> 'b request_guard" where
  "request_reset_idle_timer g now =
     (if rq_idle_timer g \<noteq> None then g\<lparr>rq_idle_timer := Some (now + rq_idle_timeout g)\<rparr> else g)"

definition request_reset_rate_window :: "'b request_guard \<Rightarrow> instant \<Rightarrow> 'b request_guard" where
  "request_reset_rate_window g now =
     (let g1 = g\<lparr>rq_window_bytes := 0\<rparr> in
      if rq_rate_timer g \<noteq> None then g1\<lparr>rq_rate_timer := Some (now + rq_rate_window g)\<rparr> else g1)"

definition request_data ::
  "'b request_guard \<Rightarrow> bytes \<Rightarrow> instant \<Rightarrow> 'b request_guard \<times> frame_poll" where
  "request_data g data now =
     (case try_from u64_max (length data) of
        None \<Rightarrow> request_reject g ''downstream request body exceeded limit''
      | Some data_length \<Rightarrow>
          (case checked_add u64_max (rq_bytes_forwarded g) data_length of
             None \<Rightarrow> request_reject g ''downstream request body exceeded limit''
           | Some tot \<Rightarrow>
               if rq_max_body_bytes g < tot
               then request_reject g ''downstream request body exceeded limit''
               else
                 let g1 = g\<lparr>rq_bytes_forwarded := tot,
                     rq_window_bytes := saturating_add u64_max (rq_window_bytes g) data_length\<rparr>;
                     g2 = (if 0 < data_length then request_reset_idle_timer g1 now else g1)
                 in (g2, Ready (Some (Inr (FrameData data))))))"

definition request_forward ::
  "'b body_api \<Rightarrow> 'b request_guard \<Rightarrow> instant \<Rightarrow> 'b request_guard \<times> frame_poll" where
  "request_forward B g now =
     (case body_poll B (rq_inner g) now of (inner, polled) \<Rightarrow>
        let g1 = g\<lparr>rq_inner := inner\<rparr> in
        case polled of
          Pending \<Rightarrow> (g1, Pending)
        | Ready (Some (Inl _)) \<Rightarrow> request_reject g1 ''downstream request body was malformed''
        | Ready (Some (Inr (FrameData data))) \<Rightarrow> request_data g1 data now
        | Ready (Some (Inr _)) \<Rightarrow>
            request_reject g1 ''downstream request body trailers were rejected''
        | Ready None \<Rightarrow> (g1\<lparr>rq_completed := True\<rparr>, Ready None))"

definition request_poll_frame ::
  "'b body_api \<Rightarrow> 'b request_guard \<Rightarrow> instant \<Rightarrow> 'b request_guard \<times> frame_poll" where
  "request_poll_frame B g0 now =
     (if rq_failed g0 \<or> rq_completed g0 then (g0, Ready None)
      else
        let g = request_start_timers g0 now in
        if timer_elapsed (rq_total_timer g) now
        then request_reject g ''downstream request body exceeded total timeout''
        else if timer_elapsed (rq_idle_timer g) now
        then request_reject g ''downstream request body exceeded idle timeout''
        else if timer_elapsed (rq_rate_timer g) now then
          (if rq_window_bytes g < rq_minimum_window_bytes g
           then request_reject g ''downstream request body rate was below limit''
           else request_forward B (request_reset_rate_window g now) now)
        else request_forward B g now)"

definition request_is_end_stream :: "'b body_api \<Rightarrow> 'b request_guard \<Rightarrow> bool" where
  "request_is_end_stream B g = (rq_failed g \<or> rq_completed g \<or> body_is_end_stream B (rq_inner g))"

text \<open>The hint shared by the request guard and the decoded guard: the inner hint clamped to what
  the cap leaves.\<close>

definition clamped_hint :: "size_hint \<Rightarrow> nat \<Rightarrow> size_hint" where
  "clamped_hint inner_hint remaining =
     (let lower = min (hint_lower inner_hint) remaining;
          upper = min (case hint_upper inner_hint of None \<Rightarrow> remaining | Some u \<Rightarrow> u) remaining
      in \<lparr>hint_lower = lower, hint_upper = Some (max upper lower)\<rparr>)"

definition request_size_hint :: "'b body_api \<Rightarrow> 'b request_guard \<Rightarrow> size_hint" where
  "request_size_hint B g =
     (if rq_failed g \<or> rq_completed g then exact_hint 0
      else clamped_hint (body_size_hint B (rq_inner g))
             (saturating_sub (rq_max_body_bytes g) (rq_bytes_forwarded g)))"

section \<open>The response guard\<close>

record 'b response_guard =
  rs_inner :: "'b"
  rs_declared_length :: "nat option"
  rs_size_hint_length :: "nat option"
  rs_bytes_forwarded :: nat
  rs_max_body_bytes :: nat
  rs_idle_timeout :: "duration option"
  rs_rate_window :: duration
  rs_minimum_window_bytes :: nat
  rs_window_bytes :: nat
  rs_idle_timer :: "instant option"
  rs_rate_timer :: "instant option"
  rs_terminal :: bool

definition response_guard_streaming ::
  "'b \<Rightarrow> nat option \<Rightarrow> nat \<Rightarrow> duration \<Rightarrow> nat \<Rightarrow> duration \<Rightarrow> 'b response_guard" where
  "response_guard_streaming inner declared_length max_body_bytes idle_timeout
       minimum_bytes_per_second rate_window =
     \<lparr>rs_inner = inner, rs_declared_length = declared_length,
      rs_size_hint_length = declared_length, rs_bytes_forwarded = 0,
      rs_max_body_bytes = capacity max_body_bytes, rs_idle_timeout = Some idle_timeout,
      rs_rate_window = rate_window,
      rs_minimum_window_bytes = minimum_bytes_for_window minimum_bytes_per_second rate_window,
      rs_window_bytes = 0, rs_idle_timer = None, rs_rate_timer = None, rs_terminal = False\<rparr>"

definition response_guard_forbidden :: "'b \<Rightarrow> nat option \<Rightarrow> 'b response_guard" where
  "response_guard_forbidden inner advertised_length =
     \<lparr>rs_inner = inner, rs_declared_length = None, rs_size_hint_length = advertised_length,
      rs_bytes_forwarded = 0, rs_max_body_bytes = 0, rs_idle_timeout = None, rs_rate_window = 0,
      rs_minimum_window_bytes = 0, rs_window_bytes = 0, rs_idle_timer = None,
      rs_rate_timer = None, rs_terminal = False\<rparr>"

definition response_start_timers :: "'b response_guard \<Rightarrow> instant \<Rightarrow> 'b response_guard" where
  "response_start_timers g now =
     (case (rs_idle_timer g, rs_idle_timeout g) of
        (None, Some idle_timeout) \<Rightarrow>
          let g1 = g\<lparr>rs_idle_timer := Some (now + idle_timeout)\<rparr> in
          if 0 < rs_minimum_window_bytes g
          then g1\<lparr>rs_rate_timer := Some (now + rs_rate_window g)\<rparr> else g1
      | _ \<Rightarrow> g)"

definition response_reject :: "'b response_guard \<Rightarrow> string \<Rightarrow> 'b response_guard \<times> frame_poll" where
  "response_reject g message = (g\<lparr>rs_terminal := True\<rparr>, Ready (Some (Inl (IoOther message))))"

definition response_reset_idle_timer :: "'b response_guard \<Rightarrow> instant \<Rightarrow> 'b response_guard" where
  "response_reset_idle_timer g now =
     (case (rs_idle_timeout g, rs_idle_timer g) of
        (Some timeout, Some _) \<Rightarrow> g\<lparr>rs_idle_timer := Some (now + timeout)\<rparr>
      | _ \<Rightarrow> g)"

definition response_reset_rate_window :: "'b response_guard \<Rightarrow> instant \<Rightarrow> 'b response_guard" where
  "response_reset_rate_window g now =
     (let g1 = g\<lparr>rs_window_bytes := 0\<rparr> in
      if rs_rate_timer g \<noteq> None then g1\<lparr>rs_rate_timer := Some (now + rs_rate_window g)\<rparr> else g1)"

definition response_data ::
  "'b response_guard \<Rightarrow> bytes \<Rightarrow> instant \<Rightarrow> 'b response_guard \<times> frame_poll" where
  "response_data g data now =
     (case try_from u64_max (length data) of
        None \<Rightarrow> response_reject g ''upstream response body exceeded limit''
      | Some data_length \<Rightarrow>
          (case checked_add u64_max (rs_bytes_forwarded g) data_length of
             None \<Rightarrow> response_reject g ''upstream response body exceeded limit''
           | Some tot \<Rightarrow>
               if rs_max_body_bytes g < tot
               then response_reject g ''upstream response body exceeded limit''
               else if (case rs_declared_length g of None \<Rightarrow> False | Some d \<Rightarrow> d < tot)
               then response_reject g ''upstream response body exceeded declared length''
               else
                 let g1 = g\<lparr>rs_bytes_forwarded := tot,
                     rs_window_bytes := saturating_add u64_max (rs_window_bytes g) data_length\<rparr>;
                     g2 = (if 0 < data_length then response_reset_idle_timer g1 now else g1)
                 in (g2, Ready (Some (Inr (FrameData data))))))"

definition response_end :: "'b response_guard \<Rightarrow> 'b response_guard \<times> frame_poll" where
  "response_end g =
     (let g1 = g\<lparr>rs_terminal := True\<rparr> in
      if (case rs_declared_length g of None \<Rightarrow> False | Some d \<Rightarrow> d \<noteq> rs_bytes_forwarded g)
      then (g1, Ready (Some (Inl (IoUnexpectedEof
             ''upstream response body ended before its declared length''))))
      else (g1, Ready None))"

definition response_forward ::
  "'b body_api \<Rightarrow> 'b response_guard \<Rightarrow> instant \<Rightarrow> 'b response_guard \<times> frame_poll" where
  "response_forward B g now =
     (case body_poll B (rs_inner g) now of (inner, polled) \<Rightarrow>
        let g1 = g\<lparr>rs_inner := inner\<rparr> in
        case polled of
          Pending \<Rightarrow> (g1, Pending)
        | Ready (Some (Inl _)) \<Rightarrow> response_reject g1 ''upstream response body was malformed''
        | Ready (Some (Inr (FrameData data))) \<Rightarrow> response_data g1 data now
        | Ready (Some (Inr (FrameTrailers _))) \<Rightarrow>
            response_reject g1 ''upstream response trailers were rejected''
        | Ready (Some (Inr FrameOther)) \<Rightarrow>
            response_reject g1 ''upstream response body frame was rejected''
        | Ready None \<Rightarrow> response_end g1)"

definition response_poll_frame ::
  "'b body_api \<Rightarrow> 'b response_guard \<Rightarrow> instant \<Rightarrow> 'b response_guard \<times> frame_poll" where
  "response_poll_frame B g0 now =
     (if rs_terminal g0 then (g0, Ready None)
      else
        let g = response_start_timers g0 now in
        if timer_elapsed (rs_idle_timer g) now
        then response_reject g ''upstream response body exceeded idle timeout''
        else if timer_elapsed (rs_rate_timer g) now then
          (if rs_window_bytes g < rs_minimum_window_bytes g
           then response_reject g ''upstream response body rate was below limit''
           else response_forward B (response_reset_rate_window g now) now)
        else response_forward B g now)"

definition response_is_end_stream :: "'b response_guard \<Rightarrow> bool" where
  "response_is_end_stream g = rs_terminal g"

definition response_size_hint :: "'b response_guard \<Rightarrow> size_hint" where
  "response_size_hint g =
     (if rs_terminal g then exact_hint 0
      else
        case rs_size_hint_length g of
          Some declared \<Rightarrow> exact_hint (saturating_sub declared (rs_bytes_forwarded g))
        | None \<Rightarrow>
            \<lparr>hint_lower = 0,
             hint_upper = Some (saturating_sub (rs_max_body_bytes g) (rs_bytes_forwarded g))\<rparr>)"

section \<open>The decoded guard\<close>

record 'b decoded_guard =
  dc_inner :: "'b"
  dc_bytes_forwarded :: nat
  dc_max_body_bytes :: nat
  dc_terminal :: bool

definition decoded_guard_new :: "'b \<Rightarrow> nat \<Rightarrow> 'b decoded_guard" where
  "decoded_guard_new inner max_body_bytes =
     \<lparr>dc_inner = inner, dc_bytes_forwarded = 0, dc_max_body_bytes = capacity max_body_bytes,
      dc_terminal = False\<rparr>"

definition decoded_reject :: "'b decoded_guard \<Rightarrow> string \<Rightarrow> 'b decoded_guard \<times> frame_poll" where
  "decoded_reject g message = (g\<lparr>dc_terminal := True\<rparr>, Ready (Some (Inl (IoOther message))))"

definition decoded_data :: "'b decoded_guard \<Rightarrow> bytes \<Rightarrow> 'b decoded_guard \<times> frame_poll" where
  "decoded_data g data =
     (case try_from u64_max (length data) of
        None \<Rightarrow> decoded_reject g ''decoded upstream response body exceeded limit''
      | Some data_length \<Rightarrow>
          (case checked_add u64_max (dc_bytes_forwarded g) data_length of
             None \<Rightarrow> decoded_reject g ''decoded upstream response body exceeded limit''
           | Some tot \<Rightarrow>
               if dc_max_body_bytes g < tot
               then decoded_reject g ''decoded upstream response body exceeded limit''
               else (g\<lparr>dc_bytes_forwarded := tot\<rparr>, Ready (Some (Inr (FrameData data))))))"

definition decoded_poll_frame ::
  "'b body_api \<Rightarrow> 'b decoded_guard \<Rightarrow> instant \<Rightarrow> 'b decoded_guard \<times> frame_poll" where
  "decoded_poll_frame B g now =
     (if dc_terminal g then (g, Ready None)
      else
        case body_poll B (dc_inner g) now of (inner, polled) \<Rightarrow>
          let g1 = g\<lparr>dc_inner := inner\<rparr> in
          case polled of
            Pending \<Rightarrow> (g1, Pending)
          | Ready (Some (Inl _)) \<Rightarrow> decoded_reject g1 ''upstream response content decoding failed''
          | Ready (Some (Inr (FrameData data))) \<Rightarrow> decoded_data g1 data
          | Ready (Some (Inr _)) \<Rightarrow> decoded_reject g1 ''upstream response content decoding failed''
          | Ready None \<Rightarrow> (g1\<lparr>dc_terminal := True\<rparr>, Ready None))"

definition decoded_is_end_stream :: "'b decoded_guard \<Rightarrow> bool" where
  "decoded_is_end_stream g = dc_terminal g"

definition decoded_size_hint :: "'b body_api \<Rightarrow> 'b decoded_guard \<Rightarrow> size_hint" where
  "decoded_size_hint B g =
     (if dc_terminal g then exact_hint 0
      else clamped_hint (body_size_hint B (dc_inner g))
             (saturating_sub (dc_max_body_bytes g) (dc_bytes_forwarded g)))"

section \<open>Runs of polls\<close>

fun run_polls :: "('g \<Rightarrow> 't \<Rightarrow> 'g \<times> 'r) \<Rightarrow> 'g \<Rightarrow> 't list \<Rightarrow> 'g \<times> 'r list" where
  "run_polls poll g [] = (g, [])"
| "run_polls poll g (t # ts) =
     (case poll g t of (g1, r) \<Rightarrow> case run_polls poll g1 ts of (g2, rs) \<Rightarrow> (g2, r # rs))"

fun frame_bytes :: "frame_poll \<Rightarrow> bytes" where
  "frame_bytes (Ready (Some (Inr (FrameData d)))) = d"
| "frame_bytes _ = []"

definition delivered :: "frame_poll list \<Rightarrow> bytes" where
  "delivered rs = concat (map frame_bytes rs)"

fun frame_allowed :: "frame_poll \<Rightarrow> bool" where
  "frame_allowed (Ready (Some (Inr (FrameData d)))) = True"
| "frame_allowed (Ready (Some (Inr _))) = False"
| "frame_allowed _ = True"

fun stops :: "frame_poll \<Rightarrow> bool" where
  "stops (Ready None) = True"
| "stops (Ready (Some (Inl _))) = True"
| "stops _ = False"

fun fails :: "frame_poll \<Rightarrow> bool" where
  "fails (Ready (Some (Inl _))) = True"
| "fails _ = False"

text \<open>After the first end or error a guard only reports the end again.\<close>

fun latched :: "frame_poll list \<Rightarrow> bool" where
  "latched [] = True"
| "latched (r # rs) = (if stops r then list_all (\<lambda>q. q = Ready None) rs else latched rs)"

section \<open>The common contract\<close>

lemma run_polls_ConsE:
  assumes "run_polls poll g (t # ts) = (g', rs)"
  obtains g1 r qs where "poll g t = (g1, r)" "run_polls poll g1 ts = (g', qs)" "rs = r # qs"
  using assms by (auto split: prod.splits)

lemma run_polls_length: "run_polls poll g ts = (g', rs) \<Longrightarrow> length rs = length ts"
  by (induction ts arbitrary: g rs) (auto split: prod.splits)

locale bounded_guard =
  fixes poll :: "'g \<Rightarrow> instant \<Rightarrow> 'g \<times> frame_poll"
    and forwarded :: "'g \<Rightarrow> nat"
    and cap :: "'g \<Rightarrow> nat"
    and closed :: "'g \<Rightarrow> bool"
  assumes poll_cap: "poll g t = (g', r) \<Longrightarrow> cap g' = cap g"
    and poll_frame: "poll g t = (g', r) \<Longrightarrow> frame_allowed r"
    and poll_forwarded:
      "poll g t = (g', r) \<Longrightarrow> forwarded g' = forwarded g + length (frame_bytes r)"
    and poll_bound: "poll g t = (g', r) \<Longrightarrow> forwarded g \<le> cap g \<Longrightarrow> forwarded g' \<le> cap g"
    and poll_stops: "poll g t = (g', r) \<Longrightarrow> closed g' \<longleftrightarrow> closed g \<or> stops r"
    and poll_closed: "closed g \<Longrightarrow> poll g t = (g, Ready None)"
begin

lemma run_closed:
  "closed g \<Longrightarrow> run_polls poll g ts = (g, replicate (length ts) (Ready None))"
  by (induction ts) (simp_all add: poll_closed)

lemma run_bounded:
  assumes "run_polls poll g ts = (g', rs)"
  shows "cap g' = cap g \<and> forwarded g' = forwarded g + length (delivered rs)
    \<and> (forwarded g \<le> cap g \<longrightarrow> forwarded g' \<le> cap g) \<and> list_all frame_allowed rs \<and> latched rs"
  using assms
proof (induction ts arbitrary: g rs)
  case (Cons t ts)
  from Cons.prems obtain g1 r qs where p: "poll g t = (g1, r)"
    and q: "run_polls poll g1 ts = (g', qs)" and rs: "rs = r # qs"
    by (rule run_polls_ConsE)
  have "list_all (\<lambda>q. q = Ready None) qs" if "stops r"
    using q run_closed [of g1 ts] poll_stops [OF p] that by (auto simp: list_all_iff)
  with Cons.IH [OF q] poll_cap [OF p] poll_frame [OF p] poll_forwarded [OF p] poll_bound [OF p]
  show ?case by (auto simp: rs delivered_def)
qed (simp add: delivered_def)

end

section \<open>Interpretations\<close>

lemmas decoded_step_defs = decoded_poll_frame_def decoded_data_def decoded_reject_def

text \<open>What one poll does to the cap, the byte count and the latch.\<close>

definition step_ok ::
  "nat \<Rightarrow> nat \<Rightarrow> bool \<Rightarrow> nat \<Rightarrow> nat \<Rightarrow> bool \<Rightarrow> frame_poll \<Rightarrow> bool" where
  "step_ok c f cl c' f' cl' r =
     (c' = c \<and> frame_allowed r \<and> f' = f + length (frame_bytes r) \<and> (f \<le> c \<longrightarrow> f' \<le> c)
      \<and> (cl' \<longleftrightarrow> cl \<or> stops r))"

definition request_closed :: "'b request_guard \<Rightarrow> bool" where
  "request_closed g = (rq_failed g \<or> rq_completed g)"

lemma request_data_step:
  assumes "request_data g d t = (g', r)"
  shows "step_ok (rq_max_body_bytes g) (rq_bytes_forwarded g) (request_closed g) (rq_max_body_bytes g')
       (rq_bytes_forwarded g') (request_closed g') r"
  using assms
  by (auto simp: step_ok_def request_data_def request_reject_def request_reset_idle_timer_def request_closed_def
      Let_def split: if_splits option.splits)

lemma request_forward_step:
  assumes "request_forward B g t = (g', r)"
  shows "step_ok (rq_max_body_bytes g) (rq_bytes_forwarded g) (request_closed g) (rq_max_body_bytes g')
       (rq_bytes_forwarded g') (request_closed g') r"
proof -
  obtain i p where b: "body_poll B (rq_inner g) t = (i, p)" by fastforce
  have closed: "request_closed (g\<lparr>rq_inner := i\<rparr>) = request_closed g"
    by (simp add: request_closed_def)
  show ?thesis
  proof (cases "\<exists>d. p = Ready (Some (Inr (FrameData d)))")
    case True
    with b assms closed show ?thesis
      using request_data_step [of "g\<lparr>rq_inner := i\<rparr>"] by (auto simp: request_forward_def Let_def)
  next
    case False
    with b assms show ?thesis
      by (auto simp: step_ok_def request_forward_def request_reject_def request_closed_def Let_def
          split: poll.splits option.splits sum.splits frame.splits)
  qed
qed

lemma request_timers_same [simp]:
  "request_closed (request_start_timers g t) = request_closed g"
  "request_closed (request_reset_rate_window g t) = request_closed g"
  "rq_max_body_bytes (request_start_timers g t) = rq_max_body_bytes g"
  "rq_bytes_forwarded (request_start_timers g t) = rq_bytes_forwarded g"
  "rq_max_body_bytes (request_reset_rate_window g t) = rq_max_body_bytes g"
  "rq_bytes_forwarded (request_reset_rate_window g t) = rq_bytes_forwarded g"
  by (simp_all add: request_start_timers_def request_reset_rate_window_def request_closed_def Let_def)

lemma request_poll_cases:
  assumes "request_poll_frame B g t = (g', r)"
  shows "(g' = g \<and> r = Ready None \<and> request_closed g)
    \<or> (\<exists>m. request_reject (request_start_timers g t) m = (g', r))
    \<or> request_forward B (request_reset_rate_window (request_start_timers g t) t) t = (g', r)
    \<or> request_forward B (request_start_timers g t) t = (g', r)"
proof (cases "request_closed g")
  case True
  with assms show ?thesis by (simp add: request_poll_frame_def request_closed_def Let_def)
next
  case False
  with assms show ?thesis
    unfolding request_poll_frame_def Let_def request_closed_def by (metis (no_types))
qed

lemma request_poll_step:
  assumes "request_poll_frame B g t = (g', r)"
  shows "step_ok (rq_max_body_bytes g) (rq_bytes_forwarded g) (request_closed g) (rq_max_body_bytes g')
       (rq_bytes_forwarded g') (request_closed g') r"
proof -
  let ?g = "request_start_timers g t"
  consider (closed) "g' = g" "r = Ready None" "request_closed g"
    | (reject) m where "request_reject ?g m = (g', r)"
    | (window) "request_forward B (request_reset_rate_window ?g t) t = (g', r)"
    | (plain) "request_forward B ?g t = (g', r)"
    using request_poll_cases [OF assms] by blast
  then show ?thesis
  proof cases
    case closed
    then show ?thesis by (simp add: step_ok_def)
  next
    case reject
    then show ?thesis by (auto simp: step_ok_def request_reject_def request_closed_def)
  next
    case window
    from request_forward_step [OF window] show ?thesis by simp
  next
    case plain
    from request_forward_step [OF plain] show ?thesis by simp
  qed
qed

interpretation request: bounded_guard "request_poll_frame B" rq_bytes_forwarded rq_max_body_bytes
  request_closed for B
proof (unfold_locales, goal_cases)
  case (6 g t)
  then show ?case by (simp add: request_poll_frame_def request_closed_def)
qed (use request_poll_step in \<open>unfold step_ok_def, blast\<close>)+

lemma response_data_step:
  assumes "response_data g d t = (g', r)"
  shows "step_ok (rs_max_body_bytes g) (rs_bytes_forwarded g) (rs_terminal g) (rs_max_body_bytes g')
       (rs_bytes_forwarded g') (rs_terminal g') r \<and> rs_declared_length g' = rs_declared_length g
    \<and> r \<noteq> Ready None"
  using assms
  by (auto simp: step_ok_def response_data_def response_reject_def response_reset_idle_timer_def
      Let_def split: if_splits option.splits)

lemma response_forward_step:
  assumes "response_forward B g t = (g', r)"
  shows "step_ok (rs_max_body_bytes g) (rs_bytes_forwarded g) (rs_terminal g) (rs_max_body_bytes g')
       (rs_bytes_forwarded g') (rs_terminal g') r \<and> rs_declared_length g' = rs_declared_length g
    \<and> (r = Ready None \<longrightarrow> (\<forall>d. rs_declared_length g = Some d \<longrightarrow> rs_bytes_forwarded g' = d))"
proof -
  obtain i p where b: "body_poll B (rs_inner g) t = (i, p)" by fastforce
  show ?thesis
  proof (cases "\<exists>d. p = Ready (Some (Inr (FrameData d)))")
    case True
    with b assms show ?thesis
      using response_data_step [of "g\<lparr>rs_inner := i\<rparr>"] by (fastforce simp: response_forward_def Let_def)
  next
    case False
    with b assms show ?thesis
      by (auto simp: step_ok_def response_forward_def response_reject_def response_end_def Let_def
          split: poll.splits option.splits sum.splits frame.splits if_splits)
  qed
qed

lemma response_timers_same [simp]:
  "rs_terminal (response_start_timers g t) = rs_terminal g"
  "rs_terminal (response_reset_rate_window g t) = rs_terminal g"
  "rs_max_body_bytes (response_start_timers g t) = rs_max_body_bytes g"
  "rs_bytes_forwarded (response_start_timers g t) = rs_bytes_forwarded g"
  "rs_declared_length (response_start_timers g t) = rs_declared_length g"
  "rs_max_body_bytes (response_reset_rate_window g t) = rs_max_body_bytes g"
  "rs_bytes_forwarded (response_reset_rate_window g t) = rs_bytes_forwarded g"
  "rs_declared_length (response_reset_rate_window g t) = rs_declared_length g"
  by (simp_all add: response_start_timers_def response_reset_rate_window_def Let_def
      split: option.splits)

lemma response_poll_cases:
  assumes "response_poll_frame B g t = (g', r)"
  shows "(g' = g \<and> r = Ready None \<and> rs_terminal g)
    \<or> (\<exists>m. response_reject (response_start_timers g t) m = (g', r))
    \<or> response_forward B (response_reset_rate_window (response_start_timers g t) t) t = (g', r)
    \<or> response_forward B (response_start_timers g t) t = (g', r)"
proof (cases "rs_terminal g")
  case True
  with assms show ?thesis by (simp add: response_poll_frame_def Let_def)
next
  case False
  with assms show ?thesis
    unfolding response_poll_frame_def Let_def by (metis (no_types))
qed

lemma response_poll_step:
  assumes "response_poll_frame B g t = (g', r)"
  shows "step_ok (rs_max_body_bytes g) (rs_bytes_forwarded g) (rs_terminal g) (rs_max_body_bytes g')
       (rs_bytes_forwarded g') (rs_terminal g') r \<and> rs_declared_length g' = rs_declared_length g
    \<and> (r = Ready None \<longrightarrow> \<not> rs_terminal g \<longrightarrow>
         (\<forall>d. rs_declared_length g = Some d \<longrightarrow> rs_bytes_forwarded g' = d))"
proof -
  let ?g = "response_start_timers g t"
  consider (closed) "g' = g" "r = Ready None" "rs_terminal g"
    | (reject) m where "response_reject ?g m = (g', r)"
    | (window) "response_forward B (response_reset_rate_window ?g t) t = (g', r)"
    | (plain) "response_forward B ?g t = (g', r)"
    using response_poll_cases [OF assms] by blast
  then show ?thesis
  proof cases
    case closed
    then show ?thesis by (simp add: step_ok_def)
  next
    case reject
    then show ?thesis by (auto simp: step_ok_def response_reject_def)
  next
    case window
    from response_forward_step [OF window] show ?thesis by simp
  next
    case plain
    from response_forward_step [OF plain] show ?thesis by simp
  qed
qed

interpretation response: bounded_guard "response_poll_frame B" rs_bytes_forwarded rs_max_body_bytes
  rs_terminal for B
proof (unfold_locales, goal_cases)
  case (6 g t)
  then show ?case by (simp add: response_poll_frame_def)
qed (use response_poll_step in \<open>unfold step_ok_def, blast\<close>)+

lemma decoded_poll_step:
  assumes "decoded_poll_frame B g t = (g', r)"
  shows "step_ok (dc_max_body_bytes g) (dc_bytes_forwarded g) (dc_terminal g) (dc_max_body_bytes g')
       (dc_bytes_forwarded g') (dc_terminal g') r"
proof -
  obtain i p where "body_poll B (dc_inner g) t = (i, p)" by fastforce
  with assms show ?thesis
    by (auto simp: step_ok_def decoded_step_defs Let_def
        split: poll.splits option.splits sum.splits frame.splits if_splits)
qed

interpretation decoded: bounded_guard "decoded_poll_frame B" dc_bytes_forwarded dc_max_body_bytes
  dc_terminal for B
proof (unfold_locales, goal_cases)
  case (6 g t)
  then show ?case by (simp add: decoded_poll_frame_def)
qed (use decoded_poll_step in \<open>unfold step_ok_def, blast\<close>)+

section \<open>Lemmas on single guards\<close>

lemma capacity_le: "capacity m \<le> m"
  by (simp add: capacity_def try_from_def)

lemma div_ge_iff:
  fixes a b c :: nat
  shows "0 < c \<Longrightarrow> b \<le> a div c \<longleftrightarrow> b * c \<le> a"
  by (simp add: less_eq_div_iff_mult_less_eq)

lemma clamped_hint_bounds:
  "hint_lower (clamped_hint h r) \<le> r \<and> (\<exists>u. hint_upper (clamped_hint h r) = Some u
     \<and> hint_lower (clamped_hint h r) \<le> u \<and> u \<le> r)"
  by (simp add: clamped_hint_def Let_def)

text \<open>The upper hint of an open guard never promises more than its cap leaves.\<close>

lemma request_hint_within_cap:
  assumes "rq_bytes_forwarded g \<le> rq_max_body_bytes g"
  shows "\<exists>u. hint_upper (request_size_hint B g) = Some u
    \<and> rq_bytes_forwarded g + u \<le> rq_max_body_bytes g"
  using assms clamped_hint_bounds [of "body_size_hint B (rq_inner g)"
      "rq_max_body_bytes g - rq_bytes_forwarded g"]
  by (auto simp: request_size_hint_def exact_hint_def saturating_sub_def)

text \<open>The total deadline is set by the first poll and never moves.\<close>

lemma request_forward_total [simp]:
  "request_forward B g t = (g', r) \<Longrightarrow>
     rq_total_timer g' = rq_total_timer g \<and> (rq_idle_timer g \<noteq> None \<longrightarrow> rq_idle_timer g' \<noteq> None)"
  by (auto simp: request_forward_def request_data_def request_reject_def
      request_reset_idle_timer_def Let_def
      split: prod.splits poll.splits option.splits sum.splits frame.splits if_splits)

lemma request_poll_total:
  assumes "request_poll_frame B g t = (g', r)" "\<not> request_closed g"
  shows "rq_total_timer g' = rq_total_timer (request_start_timers g t)
    \<and> rq_idle_timer g' \<noteq> None
    \<and> (\<not> stops r \<longrightarrow> \<not> timer_elapsed (rq_total_timer g') t)"
proof -
  let ?g = "request_start_timers g t"
  have idle: "rq_idle_timer ?g \<noteq> None" by (simp add: request_start_timers_def Let_def)
  have fwd: "rq_total_timer g' = rq_total_timer ?g \<and> rq_idle_timer g' \<noteq> None"
    using request_poll_cases [OF assms(1)] assms(2) idle
    by (auto simp: request_reject_def request_reset_rate_window_def Let_def
        dest!: request_forward_total)
  moreover have "stops r" if "timer_elapsed (rq_total_timer ?g) t"
    using assms that
    by (auto simp: request_poll_frame_def request_closed_def request_reject_def Let_def)
  ultimately show ?thesis by auto
qed

lemma request_run_total:
  assumes "run_polls (request_poll_frame B) g ts = (g', rs)"
    and "rq_idle_timer g \<noteq> None" "rq_total_timer g = Some deadline"
    and "i < length rs" "\<not> stops (rs ! i)"
  shows "ts ! i < deadline"
  using assms
proof (induction ts arbitrary: g rs i)
  case (Cons t ts)
  from Cons.prems(1) obtain g1 r qs where p: "request_poll_frame B g t = (g1, r)"
    and q: "run_polls (request_poll_frame B) g1 ts = (g', qs)" and rs: "rs = r # qs"
    by (rule run_polls_ConsE)
  show ?case
  proof (cases "request_closed g")
    case True
    with Cons.prems request.run_closed [of g B "t # ts"] show ?thesis
      by (auto simp: nth_Cons split: nat.splits simp del: run_polls.simps)
  next
    case False
    have "request_start_timers g t = g"
      using Cons.prems(2) by (auto simp: request_start_timers_def)
    with request_poll_total [OF p False] Cons.prems(3)
    have t: "rq_total_timer g1 = Some deadline" "rq_idle_timer g1 \<noteq> None"
      and now: "\<not> stops r \<longrightarrow> t < deadline"
      by (auto simp: timer_elapsed_def)
    show ?thesis
    proof (cases i)
      case 0
      with now Cons.prems(5) rs show ?thesis by simp
    next
      case (Suc k)
      with Cons.IH [OF q t(2,1), of k] Cons.prems(4,5) rs show ?thesis by simp
    qed
  qed
qed simp

lemma response_poll_declared:
  assumes "response_poll_frame B g t = (g', r)" "rs_declared_length g = Some d"
    and "rs_bytes_forwarded g \<le> d"
  shows "rs_bytes_forwarded g' \<le> d"
proof -
  have "rs_bytes_forwarded g' \<le> d"
    if f: "response_forward B h t = (g', r)" and h: "rs_declared_length h = Some d"
      "rs_bytes_forwarded h \<le> d" for h
  proof -
    obtain i p where b: "body_poll B (rs_inner h) t = (i, p)" by fastforce
    have "rs_bytes_forwarded k \<le> d" if "response_data (h\<lparr>rs_inner := i\<rparr>) x t = (k, q)" for x k q
      using that h
      by (auto simp: response_data_def response_reject_def response_reset_idle_timer_def Let_def
          split: if_splits option.splits)
    with b f h show ?thesis
      by (auto simp: response_forward_def response_reject_def response_end_def Let_def
          split: poll.splits option.splits sum.splits frame.splits if_splits)
  qed
  with response_poll_cases [OF assms(1)] assms(2,3) show ?thesis
    by (auto simp: response_reject_def)
qed

lemma response_run_declared:
  assumes "run_polls (response_poll_frame B) g ts = (g', rs)"
    and "rs_declared_length g = Some d" "rs_bytes_forwarded g \<le> d"
  shows "rs_bytes_forwarded g' \<le> d
    \<and> (\<not> rs_terminal g \<and> Ready None \<in> set rs \<and> \<not> list_ex fails rs \<longrightarrow> rs_bytes_forwarded g' = d)"
  using assms
proof (induction ts arbitrary: g rs)
  case (Cons t ts)
  from Cons.prems(1) obtain g1 r qs where p: "response_poll_frame B g t = (g1, r)"
    and q: "run_polls (response_poll_frame B) g1 ts = (g', qs)" and rs: "rs = r # qs"
    by (rule run_polls_ConsE)
  note step = response_poll_step [OF p]
  have d1: "rs_declared_length g1 = Some d" "rs_bytes_forwarded g1 \<le> d"
    using step Cons.prems response_poll_declared [OF p] by auto
  note IH = Cons.IH [OF q d1]
  have "rs_bytes_forwarded g' = d"
    if "\<not> rs_terminal g" "r = Ready None"
  proof -
    from step that Cons.prems have g1: "rs_terminal g1" "rs_bytes_forwarded g1 = d"
      by (auto simp: step_ok_def)
    with response.run_closed [OF g1(1), of B ts] q show ?thesis by simp
  qed
  moreover have "rs_bytes_forwarded g' = d"
    if "\<not> rs_terminal g" "r \<noteq> Ready None" "Ready None \<in> set rs" "\<not> list_ex fails rs"
  proof -
    from that rs have "\<not> stops r" "\<not> list_ex fails qs" "Ready None \<in> set qs"
      by (cases r rule: stops.cases; simp)+
    moreover from this step that(1) have "\<not> rs_terminal g1" by (simp add: step_ok_def)
    ultimately show ?thesis using IH by blast
  qed
  ultimately show ?case using IH by blast
qed simp

lemma minimum_bytes_saturated:
  fixes r w :: nat
  assumes "u128_max - 999999999 < r * w"
  shows "minimum_bytes_for_window r w = u64_max" and "u64_max < (r * w + 999999999) div 1000000000"
proof -
  define q where "q = saturating_add u128_max (saturating_mul u128_max r w) 999999999"
  have "u128_max - 999999999 \<le> q"
    using assms by (simp add: q_def saturating_add_def saturating_mul_def u128_max_def)
  then have "u64_max + 1 \<le> q div 1000000000"
    unfolding div_ge_iff [of 1000000000, OF zero_less_numeral]
    by (simp add: u128_max_def u64_max_def)
  then show "minimum_bytes_for_window r w = u64_max"
    by (simp add: minimum_bytes_for_window_def Let_def try_from_def flip: q_def)
  have "u64_max + 1 \<le> (r * w + 999999999) div 1000000000"
    unfolding div_ge_iff [of 1000000000, OF zero_less_numeral]
    using assms by (simp add: u128_max_def u64_max_def)
  then show "u64_max < (r * w + 999999999) div 1000000000" by simp
qed

section \<open>Properties\<close>

text \<open>over any sequence of polls, at any times and over any inner body, the request guard lets
  through at most \<open>max_body_bytes\<close> bytes, only data frames, and reports only the end of the stream
  once it has reported an end or an error.\<close>

lemma request_guard_bounded:
  "let rs = snd (run_polls (request_poll_frame B)
              (request_guard_new inner max_body_bytes idle total_time rate window) ts)
   in length (delivered rs) \<le> max_body_bytes \<and> list_all frame_allowed rs \<and> latched rs"
proof -
  let ?g = "request_guard_new inner max_body_bytes idle total_time rate window"
  obtain g' rs where r: "run_polls (request_poll_frame B) ?g ts = (g', rs)" by fastforce
  show ?thesis
    unfolding r Let_def snd_conv using request.run_bounded [OF r] capacity_le [of max_body_bytes]
    by (simp add: request_guard_new_def)
qed

text \<open>no frame of a request body is let through at or after \<open>total_timeout\<close> from the first poll,
  however the inner body behaves.\<close>

lemma request_guard_total_deadline:
  assumes "run_polls (request_poll_frame B)
      (request_guard_new inner max_body_bytes idle total_time rate window) (t # ts) = (g', rs)"
    and "i < length rs" and "\<exists>f. rs ! i = Ready (Some (Inr f))"
  shows "(t # ts) ! i < t + total_time"
proof -
  let ?g = "request_guard_new inner max_body_bytes idle total_time rate window"
  from assms(1) obtain g1 r qs where p: "request_poll_frame B ?g t = (g1, r)"
    and q: "run_polls (request_poll_frame B) g1 ts = (g', qs)" and rs: "rs = r # qs"
    by (rule run_polls_ConsE)
  have "\<not> request_closed ?g" by (simp add: request_closed_def request_guard_new_def)
  from request_poll_total [OF p this] have g1: "rq_total_timer g1 = Some (t + total_time)"
    and i1: "rq_idle_timer g1 \<noteq> None" and now: "\<not> stops r \<longrightarrow> t < t + total_time"
    by (auto simp: request_start_timers_def request_guard_new_def timer_elapsed_def Let_def
        split: if_splits)
  have run: "\<not> stops (rs ! i)" using assms(3) by auto
  show ?thesis
  proof (cases i)
    case 0
    with run now rs show ?thesis by simp
  next
    case (Suc k)
    with request_run_total [OF q i1 g1, of k] assms(2) run rs show ?thesis by simp
  qed
qed

text \<open>the response guard lets through at most the declared length and at most
  \<open>max_body_bytes\<close>, never trailers, and if it reports a clean end, with no error, then exactly the
  declared number of bytes has been delivered.\<close>

lemma response_guard_exact_length:
  assumes "run_polls (response_poll_frame B)
      (response_guard_streaming inner declared max_body_bytes idle rate window) ts = (g', rs)"
  shows "length (delivered rs) \<le> max_body_bytes \<and> list_all frame_allowed rs \<and> latched rs
    \<and> (\<forall>d. declared = Some d \<longrightarrow> length (delivered rs) \<le> d
         \<and> (Ready None \<in> set rs \<and> \<not> list_ex fails rs \<longrightarrow> length (delivered rs) = d))"
  using response.run_bounded [OF assms] response_run_declared [OF assms] capacity_le [of max_body_bytes]
  by (auto simp: response_guard_streaming_def)

text \<open>a response that must not have a body delivers no byte, whatever length it advertises; and
  the decoded guard delivers at most its own cap of decoded bytes.\<close>

lemma response_guard_forbidden_empty:
  "delivered (snd (run_polls (response_poll_frame B)
     (response_guard_forbidden inner advertised) ts)) = []
   \<and> (let rs = snd (run_polls (decoded_poll_frame D) (decoded_guard_new decoder max_decoded) us)
      in length (delivered rs) \<le> max_decoded \<and> list_all frame_allowed rs \<and> latched rs)"
proof -
  obtain g rs where r: "run_polls (response_poll_frame B)
      (response_guard_forbidden inner advertised) ts = (g, rs)" by fastforce
  obtain h qs where q: "run_polls (decoded_poll_frame D) (decoded_guard_new decoder max_decoded) us
      = (h, qs)" by fastforce
  show ?thesis
    unfolding r q Let_def snd_conv
    using response.run_bounded [OF r] decoded.run_bounded [OF q] capacity_le [of max_decoded]
    by (auto simp: response_guard_forbidden_def decoded_guard_new_def)
qed

text \<open>\<open>minimum_bytes_for_window\<close> is the number of bytes the rate requires of a window, rounded
  up to a whole byte, and saturates at the largest \<open>u64\<close> instead of wrapping.\<close>

lemma minimum_bytes_for_window_ceiling:
  "minimum_bytes_for_window rate window = min u64_max ((rate * window + 999999999) div 1000000000)"
proof (cases "rate * window \<le> u128_max - 999999999")
  case True
  then have "saturating_add u128_max (saturating_mul u128_max rate window) 999999999
      = rate * window + 999999999"
    by (simp add: saturating_add_def saturating_mul_def u128_max_def)
  then show ?thesis
    by (simp add: minimum_bytes_for_window_def Let_def try_from_def min_def)
next
  case False
  with minimum_bytes_saturated [of rate window] show ?thesis by simp
qed

section \<open>Witnesses\<close>

text \<open>A body that plays back a script of polls.\<close>

definition scripted_body :: "frame_poll list body_api" where
  "scripted_body =
     \<lparr>body_poll = (\<lambda>script _. case script of [] \<Rightarrow> ([], Ready None) | p # ps \<Rightarrow> (ps, p)),
      body_is_end_stream = (\<lambda>script. script = []),
      body_size_hint = (\<lambda>_. \<lparr>hint_lower = 0, hint_upper = None\<rparr>)\<rparr>"

definition example_script :: "frame_poll list" where
  "example_script = [Ready (Some (Inr (FrameData ''safe''))), Pending,
     Ready (Some (Inr (FrameData ''-body'')))]"

definition example_outcome :: "frame_poll list" where
  "example_outcome = example_script @ [Ready None]"

lemma example_request_run:
  "\<exists>g. run_polls (request_poll_frame scripted_body)
     (request_guard_new example_script 9 5 20 0 0) [0, 1, 2, 3] = (g, example_outcome)"
proof -
  have "snd (run_polls (request_poll_frame scripted_body)
     (request_guard_new example_script 9 5 20 0 0) [0, 1, 2, 3]) = example_outcome"
    by code_simp
  then show ?thesis by (metis prod.collapse)
qed

lemma example_response_run:
  "\<exists>g. run_polls (response_poll_frame scripted_body)
     (response_guard_streaming example_script (Some 9) 9 5 0 0) [0, 1, 2, 3] = (g, example_outcome)"
proof -
  have "snd (run_polls (response_poll_frame scripted_body)
     (response_guard_streaming example_script (Some 9) 9 5 0 0) [0, 1, 2, 3]) = example_outcome"
    by code_simp
  then show ?thesis by (metis prod.collapse)
qed

theorem request_guard_total_deadline_witness:
  "example_outcome ! 2 = Ready (Some (Inr (FrameData ''-body''))) \<and> ([0, 1, 2, 3] ! 2 :: nat) < 0 + 20"
proof -
  obtain g where g: "run_polls (request_poll_frame scripted_body)
     (request_guard_new example_script 9 5 20 0 0) [0, 1, 2, 3] = (g, example_outcome)"
    using example_request_run by blast
  have f: "example_outcome ! 2 = Ready (Some (Inr (FrameData ''-body'')))" and l: "2 < length example_outcome"
    by (simp_all add: example_outcome_def example_script_def)
  from request_guard_total_deadline [OF g l] f show ?thesis by blast
qed

theorem response_guard_exact_length_witness: "length (delivered example_outcome) = 9"
proof -
  obtain g where g: "run_polls (response_poll_frame scripted_body)
     (response_guard_streaming example_script (Some 9) 9 5 0 0) [0, 1, 2, 3] = (g, example_outcome)"
    using example_response_run by blast
  from response_guard_exact_length [OF g] show ?thesis
    by (simp add: example_outcome_def example_script_def)
qed

end
