(* ===== verification/Response_Decode.thy ===== *)
theory Response_Decode
  imports Admission Body_Guards
begin

text \<open>
  \<open>crates/transport/src/response_decode.rs\<close>: the ordered list of content codings of a response and
  the chain of decoders built from it.  The decoders of \<open>async-compression\<close> are an argument
  \<open>codec\<close>, which wraps a reader of any type.  The chain ends in the decoded guard of
  \<open>Body_Guards\<close>.
\<close>

section \<open>Definitions\<close>

datatype content_coding = Gzip | Deflate | Brotli | Zstd

definition coding_of_token :: "string \<Rightarrow> io_error + content_coding option" where
  "coding_of_token token =
     (let lower = to_ascii_lowercase token in
      if lower = ''identity'' then Inr None
      else if lower = ''gzip'' \<or> lower = ''x-gzip'' then Inr (Some Gzip)
      else if lower = ''deflate'' then Inr (Some Deflate)
      else if lower = ''br'' then Inr (Some Brotli)
      else if lower = ''zstd'' then Inr (Some Zstd)
      else Inl (IoOther ''upstream content encoding was unsupported''))"

fun parse_coding_tokens ::
  "nat \<Rightarrow> string list \<Rightarrow> content_coding list \<Rightarrow> io_error + content_coding list" where
  "parse_coding_tokens max_layers [] codings = Inr codings"
| "parse_coding_tokens max_layers (raw # tokens) codings =
     (let token = str_trim raw in
      if token = [] \<or> \<not> list_all is_token_byte token
      then Inl (IoOther ''upstream content encoding was invalid'')
      else
        rbind (coding_of_token token) (\<lambda>coding.
          case coding of
            None \<Rightarrow> parse_coding_tokens max_layers tokens codings
          | Some c \<Rightarrow>
              if max_layers < length (codings @ [c])
              then Inl (IoOther ''upstream content encoding layers exceeded limit'')
              else parse_coding_tokens max_layers tokens (codings @ [c])))"

fun parse_coding_values ::
  "'h http_api \<Rightarrow> nat \<Rightarrow> bytes list \<Rightarrow> content_coding list \<Rightarrow> io_error + content_coding list" where
  "parse_coding_values A max_layers [] codings = Inr codings"
| "parse_coding_values A max_layers (v # vs) codings =
     rbind (ok_or (header_value_to_str A v) (IoOther ''upstream content encoding was invalid''))
       (\<lambda>value. rbind (parse_coding_tokens max_layers (split_on (CHR '','') value) codings)
          (parse_coding_values A max_layers vs))"

definition parse_content_codings ::
  "'h http_api \<Rightarrow> 'h \<Rightarrow> nat \<Rightarrow> io_error + content_coding list" where
  "parse_content_codings A headers max_layers =
     parse_coding_values A max_layers (hm_get_all A headers ''content-encoding'') []"

text \<open>The readers of \<open>decode_body\<close>, wrapped in reverse order of application, and its guard.\<close>

definition decode_reader :: "(content_coding \<Rightarrow> 'r \<Rightarrow> 'r) \<Rightarrow> content_coding list \<Rightarrow> 'r \<Rightarrow> 'r" where
  "decode_reader codec codings reader = foldl (\<lambda>r coding. codec coding r) reader (rev codings)"

definition decode_body ::
  "(content_coding \<Rightarrow> 'r \<Rightarrow> 'r) \<Rightarrow> 'r \<Rightarrow> content_coding list \<Rightarrow> nat \<Rightarrow> 'r decoded_guard" where
  "decode_body codec body codings max_decoded_body_bytes =
     decoded_guard_new (decode_reader codec codings body) max_decoded_body_bytes"

text \<open>What the sender did: one encoding after the other, in the order of the header.\<close>

definition encode_layers :: "(content_coding \<Rightarrow> bytes \<Rightarrow> bytes) \<Rightarrow> content_coding list \<Rightarrow> bytes \<Rightarrow> bytes" where
  "encode_layers enc codings content = foldl (\<lambda>c coding. enc coding c) content codings"

section \<open>Lemmas\<close>

lemma parse_coding_tokens_bound:
  "parse_coding_tokens m ts cs = Inr out \<Longrightarrow> length cs \<le> m \<Longrightarrow>
     length out \<le> m \<and> length out \<le> length cs + length ts"
proof (induction m ts cs rule: parse_coding_tokens.induct)
  case (2 m raw ts cs)
  then obtain c where "coding_of_token (str_trim raw) = Inr c"
    by (auto simp: Let_def split: if_splits)
  with 2 show ?case by (cases c) (fastforce simp: Let_def split: if_splits)+
qed simp

lemma parse_coding_values_bound:
  "parse_coding_values A m vs cs = Inr out \<Longrightarrow> length cs \<le> m \<Longrightarrow> length out \<le> m"
  by (induction A m vs cs rule: parse_coding_values.induct) (auto dest: parse_coding_tokens_bound)

text \<open>The parser reads the codings off the tokens in order, dropping \<open>identity\<close>.\<close>

lemma parse_coding_tokens_order:
  "parse_coding_tokens m ts cs = Inr out \<Longrightarrow>
     \<exists>ds. list_all2 (\<lambda>t d. coding_of_token (str_trim t) = Inr d) ts ds
        \<and> out = cs @ map the (filter (\<lambda>d. d \<noteq> None) ds)"
proof (induction m ts cs rule: parse_coding_tokens.induct)
  case (2 m raw ts cs)
  then obtain c where c: "coding_of_token (str_trim raw) = Inr c"
    by (auto simp: Let_def split: if_splits)
  from "2.prems" c have "parse_coding_tokens m ts (cs @ (case c of None \<Rightarrow> [] | Some x \<Rightarrow> [x])) = Inr out"
    by (cases c) (auto simp: Let_def split: if_splits)
  moreover have "\<exists>ds. list_all2 (\<lambda>t d. coding_of_token (str_trim t) = Inr d) ts ds
      \<and> out = (cs @ (case c of None \<Rightarrow> [] | Some x \<Rightarrow> [x])) @ map the (filter (\<lambda>d. d \<noteq> None) ds)"
    using 2 c calculation by (cases c) (fastforce simp: Let_def split: if_splits)+
  then obtain ds where "list_all2 (\<lambda>t d. coding_of_token (str_trim t) = Inr d) ts ds"
    "out = (cs @ (case c of None \<Rightarrow> [] | Some x \<Rightarrow> [x])) @ map the (filter (\<lambda>d. d \<noteq> None) ds)" by blast
  with c show ?case by (intro exI [of _ "c # ds"]) (auto split: option.splits)
qed simp

section \<open>Properties\<close>

text \<open>a response is decoded through at most \<open>max_layers\<close> codings; a header of one field yields
  the codings of its tokens in their order, \<open>identity\<close> contributing none.\<close>

lemma parse_content_codings_bounded:
  assumes "parse_content_codings A h max_layers = Inr codings"
  shows "length codings \<le> max_layers
    \<and> (\<forall>v. hm_get_all A h ''content-encoding'' = [v] \<longrightarrow>
         (\<exists>value ds. header_value_to_str A v = Some value
            \<and> list_all2 (\<lambda>t d. coding_of_token (str_trim t) = Inr d) (split_on (CHR '','') value) ds
            \<and> codings = map the (filter (\<lambda>d. d \<noteq> None) ds)))"
  using assms parse_coding_values_bound parse_coding_tokens_order
  by (fastforce simp: parse_content_codings_def)

text \<open>nested codings are undone in reverse order of application: if each decoder inverts its
  encoder on complete contents, the reader chain built by \<open>decode_body\<close> over the encoded body yields
  the original content, and the guard around it starts with nothing delivered.\<close>

lemma decode_body_inverts:
  assumes dec: "\<And>c r x. content r = Some (enc c x) \<Longrightarrow> content (codec c r) = Some x"
    and body: "content body = Some (encode_layers enc codings x)"
  shows "content (dc_inner (decode_body codec body codings m)) = Some x
    \<and> dc_bytes_forwarded (decode_body codec body codings m) = 0"
proof -
  have "content (decode_reader codec codings body) = Some x"
    using body
  proof (induction codings arbitrary: body rule: rev_induct)
    case Nil
    then show ?case by (simp add: decode_reader_def encode_layers_def)
  next
    case (snoc c cs)
    then have "content (codec c body) = Some (encode_layers enc cs x)"
      by (intro dec) (simp add: encode_layers_def)
    from snoc.IH [OF this] show ?case by (simp add: decode_reader_def)
  qed
  then show ?thesis by (simp add: decode_body_def decoded_guard_new_def)
qed

section \<open>Witnesses\<close>

theorem parse_content_codings_bounded_witness:
  "parse_content_codings reference_api [(''content-encoding'', ''identity, GZIP,br'')] 2
     = Inr [Gzip, Brotli] \<and> length [Gzip, Brotli] \<le> 2"
proof -
  have "parse_content_codings reference_api [(''content-encoding'', ''identity, GZIP,br'')] 2
     = Inr [Gzip, Brotli]" by code_simp
  from this parse_content_codings_bounded [OF this] show ?thesis by blast
qed

text \<open>Two codings that each add their own mark in front of the content.\<close>

fun example_mark :: "content_coding \<Rightarrow> char" where
  "example_mark Gzip = CHR ''g''"
| "example_mark Deflate = CHR ''d''"
| "example_mark Brotli = CHR ''b''"
| "example_mark Zstd = CHR ''z''"

theorem decode_body_inverts_witness:
  "Some (dc_inner (decode_body (\<lambda>c r. if prefix [example_mark c] r then tl r else '''')
      ''bgdata'' [Gzip, Brotli] 10)) = Some ''data''"
proof -
  have "encode_layers (\<lambda>c x. example_mark c # x) [Gzip, Brotli] ''data'' = ''bgdata''"
    by (simp add: encode_layers_def)
  then show ?thesis
    using decode_body_inverts [where content = Some and enc = "\<lambda>c x. example_mark c # x"
        and codec = "\<lambda>c r. if prefix [example_mark c] r then tl r else ''''"
        and body = "''bgdata''" and codings = "[Gzip, Brotli]" and x = "''data''" and m = 10]
    by simp
qed

end
