(* ===== verification/Proxy_Http.thy ===== *)
theory Proxy_Http
  imports Cookie Response_Decode
begin

text \<open>
  The request and response transformations of \<open>crates/transport/src/proxy.rs\<close>: the browser-facing
  address, header stripping and rewriting, the response body policy, redirects, and the WebSocket
  handshake.  Header maps and header values come from the argument \<open>A\<close>, URLs from the argument
  \<open>U\<close> (the \<open>url\<close> crate).  The error of a fallible step is a \<open>proxy_failure\<close>, the
  boxed error of the source.
\<close>

section \<open>Addresses and configuration\<close>

text \<open>An IP address is its number, and std orders every IPv4 address before every IPv6 one.\<close>

datatype ip_addr = V4 nat | V6 nat

instantiation ip_addr :: linorder
begin

fun less_eq_ip_addr :: "ip_addr \<Rightarrow> ip_addr \<Rightarrow> bool" where
  "less_eq_ip_addr (V4 a) (V4 b) = (a \<le> b)"
| "less_eq_ip_addr (V4 a) (V6 b) = True"
| "less_eq_ip_addr (V6 a) (V4 b) = False"
| "less_eq_ip_addr (V6 a) (V6 b) = (a \<le> b)"

definition less_ip_addr :: "ip_addr \<Rightarrow> ip_addr \<Rightarrow> bool" where
  "less_ip_addr a b = (a \<le> b \<and> \<not> b \<le> a)"

instance
proof
  fix x y z :: ip_addr
  show "x < y \<longleftrightarrow> x \<le> y \<and> \<not> y \<le> x" by (rule less_ip_addr_def)
  show "x \<le> x" by (cases x) auto
  show "x \<le> y \<Longrightarrow> y \<le> z \<Longrightarrow> x \<le> z" by (cases x; cases y; cases z) auto
  show "x \<le> y \<Longrightarrow> y \<le> x \<Longrightarrow> x = y" by (cases x; cases y) auto
  show "x \<le> y \<or> y \<le> x" by (cases x; cases y) auto
qed

end

definition LOCALHOST_V4 :: ip_addr where
  "LOCALHOST_V4 = V4 (127 * 2 ^ 24 + 1)"

fun is_loopback :: "ip_addr \<Rightarrow> bool" where
  "is_loopback (V4 a) = (a div 2 ^ 24 = 127)"
| "is_loopback (V6 a) = (a = 1)"

record socket_addr =
  sa_ip :: ip_addr
  sa_port :: nat

text \<open>The upstream once it is known to be an IPv4 address, and its display forms.\<close>

record socket_v4 =
  v4_addr :: nat
  v4_port :: nat

definition v4_ip_string :: "socket_v4 \<Rightarrow> string" where
  "v4_ip_string s =
     join_with ''.'' (map (\<lambda>i. decimal (v4_addr s div 2 ^ i mod 256)) [24, 16, 8, 0])"

definition v4_string :: "socket_v4 \<Rightarrow> string" where
  "v4_string s = v4_ip_string s @ '':'' @ decimal (v4_port s)"

record proxy_address =
  pa_hostname :: string
  pa_port :: nat

definition BOOTSTRAP_HEADER_NAME :: string where
  "BOOTSTRAP_HEADER_NAME = ''x-rpackit-bootstrap''"

definition BOOTSTRAP_PATH :: string where
  "BOOTSTRAP_PATH = ''/__rpackit_bootstrap''"

definition address_authority :: "proxy_address \<Rightarrow> string" where
  "address_authority a = pa_hostname a @ '':'' @ decimal (pa_port a)"

definition address_origin :: "proxy_address \<Rightarrow> string" where
  "address_origin a = ''http://'' @ address_authority a"

definition address_bootstrap_url :: "proxy_address \<Rightarrow> string" where
  "address_bootstrap_url a = address_origin a @ BOOTSTRAP_PATH"

definition address_root_url :: "proxy_address \<Rightarrow> string" where
  "address_root_url a = address_origin a @ ''/''"

datatype host_resolution = Loopback "ip_addr list" | NonLoopback "ip_addr list" | Unavailable

text \<open>\<open>resolve_hostname\<close> on the answer of the resolver; \<open>sort\<close> then \<open>dedup\<close>.\<close>

definition resolve_hostname :: "ip_addr list option \<Rightarrow> host_resolution" where
  "resolve_hostname resolved =
     (case resolved of
        None \<Rightarrow> Unavailable
      | Some answers \<Rightarrow>
          let addresses = remdups_adj (sort answers) in
          if addresses = [] then Unavailable
          else if list_all is_loopback addresses then Loopback addresses
          else NonLoopback addresses)"

definition valid_generated_hostname :: "string \<Rightarrow> bool" where
  "valid_generated_hostname hostname =
     (case strip_prefix ''rpackit-'' hostname of
        None \<Rightarrow> False
      | Some value \<Rightarrow>
          (case strip_suffix ''.localhost'' value of
             None \<Rightarrow> False
           | Some nonce \<Rightarrow> length nonce = 32 \<and> list_all is_ascii_hexdigit nonce))"

datatype proxy_error = InvalidConfiguration | Random | Bind io_error | Listener io_error | Task io_error

record proxy_config =
  pc_upstream :: socket_v4
  pc_hostname :: string
  pc_secrets :: transport_secrets
  pc_limits :: transport_limits

definition upstream_v4 :: "socket_addr \<Rightarrow> socket_v4 option" where
  "upstream_v4 upstream =
     (if sa_ip upstream = LOCALHOST_V4
      then Some \<lparr>v4_addr = 127 * 2 ^ 24 + 1, v4_port = sa_port upstream\<rparr> else None)"

definition generate_with_secrets ::
  "socket_addr \<Rightarrow> transport_secrets \<Rightarrow> bytes option \<Rightarrow> proxy_error + proxy_config" where
  "generate_with_secrets upstream secrets nonce =
     rbind (ok_or (upstream_v4 upstream) InvalidConfiguration) (\<lambda>u.
     rbind (ok_or nonce Random) (\<lambda>n.
       Inr \<lparr>pc_upstream = u, pc_hostname = ''rpackit-'' @ hex_encode n @ ''.localhost'',
            pc_secrets = secrets, pc_limits = default_limits\<rparr>))"

definition config_generate ::
  "socket_addr \<Rightarrow> bytes option list \<Rightarrow> bytes option \<Rightarrow> proxy_error + proxy_config" where
  "config_generate upstream rnd nonce =
     rbind (ok_or (secrets_generate rnd) Random) (\<lambda>secrets.
       generate_with_secrets upstream secrets nonce)"

definition config_explicit ::
  "socket_addr \<Rightarrow> string \<Rightarrow> transport_secrets \<Rightarrow> proxy_error + proxy_config" where
  "config_explicit upstream hostname secrets =
     (case upstream_v4 upstream of
        None \<Rightarrow> Inl InvalidConfiguration
      | Some u \<Rightarrow>
          if \<not> valid_generated_hostname hostname then Inl InvalidConfiguration
          else Inr \<lparr>pc_upstream = u, pc_hostname = hostname, pc_secrets = secrets,
                    pc_limits = default_limits\<rparr>)"

definition with_limits :: "proxy_config \<Rightarrow> transport_limits \<Rightarrow> proxy_config" where
  "with_limits config limits = config\<lparr>pc_limits := limits\<rparr>"

section \<open>Requests and responses\<close>

datatype proxy_failure =
    Failure string
  | InvalidHeaderValue
  | NotText
  | InvalidUri
  | CookieFailure cookie_error
  | UpstreamFailure io_error

record ('h, 'b) request =
  req_method :: string
  req_uri :: uri
  req_version :: nat
  req_headers :: "'h"
  req_body :: "'b"

record ('h, 'c) response =
  res_status :: nat
  res_version :: nat
  res_headers :: "'h"
  res_body :: "'c"

text \<open>\<open>Uri::path_and_query\<close>, absent from an authority-form URI.\<close>

definition path_and_query :: "uri \<Rightarrow> string option" where
  "path_and_query u =
     (if uri_path u = [] \<and> uri_query u = None then None
      else Some (uri_path u @ (case uri_query u of None \<Rightarrow> [] | Some q \<Rightarrow> ''?'' @ q)))"

definition origin_form_uri :: "'h http_api \<Rightarrow> uri \<Rightarrow> proxy_failure + uri" where
  "origin_form_uri A u =
     ok_or (uri_from_str A (case path_and_query u of None \<Rightarrow> ''/'' | Some p \<Rightarrow> p)) InvalidUri"

section \<open>Request headers\<close>

definition request_hop_headers :: "string list" where
  "request_hop_headers =
     [''connection'', ''proxy-connection'', ''keep-alive'', ''transfer-encoding'', ''te'',
      ''trailer'', ''upgrade'', ''content-length'', ''proxy-authorization'', ''proxy-authenticate'',
      PROTECTED_HEADER, BOOTSTRAP_HEADER_NAME]"

definition forwarding_header :: "string \<Rightarrow> bool" where
  "forwarding_header lower =
     (lower = ''forwarded'' \<or> lower = ''x-real-ip''
      \<or> prefix ''x-forwarded-'' lower \<or> prefix ''x-original-'' lower)"

definition strip_request_headers :: "'h http_api \<Rightarrow> 'h \<Rightarrow> string list \<Rightarrow> 'h" where
  "strip_request_headers A headers tokens =
     (let h1 = hm_remove_all A headers request_hop_headers;
          h2 = hm_remove_all A h1 tokens
      in hm_remove_all A h2 (filter forwarding_header (hm_keys A h2)))"

definition rewrite_origin :: "'h http_api \<Rightarrow> 'h \<Rightarrow> socket_v4 \<Rightarrow> 'h" where
  "rewrite_origin A headers upstream =
     (if hm_contains_key A headers ''origin'' then
        case header_value_from_str A (''http://'' @ v4_string upstream) of
          Some origin \<Rightarrow> hm_insert A headers ''origin'' origin
        | None \<Rightarrow> headers
      else headers)"

definition request_method_is_safe :: "string \<Rightarrow> bool" where
  "request_method_is_safe m = (m = ''GET'' \<or> m = ''HEAD'' \<or> m = ''OPTIONS'')"

definition validate_origin :: "'h http_api \<Rightarrow> ('h, 'b) request \<Rightarrow> string \<Rightarrow> bool \<Rightarrow> bool" where
  "validate_origin A request expected_origin websocket =
     (let unsafe_method = \<not> request_method_is_safe (req_method request);
          origins = hm_get_all A (req_headers request) ''origin'' in
      if websocket \<or> unsafe_method then
        \<not> (length origins \<noteq> 1 \<or> origins ! 0 \<noteq> expected_origin)
      else \<not> (origins \<noteq> [] \<and> (length origins \<noteq> 1 \<or> origins ! 0 \<noteq> expected_origin)))"

section \<open>Response headers and bodies\<close>

datatype response_body_policy = Streaming "nat option" | Forbidden "nat option"

definition declared_length ::
  "'h http_api \<Rightarrow> 'h \<Rightarrow> proxy_failure + nat option" where
  "declared_length A headers =
     (let vals = hm_get_all A headers ''content-length'' in
      if 1 < length vals then Inl (Failure ''ambiguous upstream response length'')
      else
        case vals of
          [] \<Rightarrow> Inr None
        | v # _ \<Rightarrow>
            rbind (ok_or (header_value_to_str A v) NotText) (\<lambda>s.
              rbind (ok_or (parse_unsigned u64_max s) (Failure ''invalid upstream response length''))
                (\<lambda>n. Inr (Some n))))"

definition validate_response_body_head ::
  "'h http_api \<Rightarrow> string \<Rightarrow> nat \<Rightarrow> 'h \<Rightarrow> nat \<Rightarrow> proxy_failure + response_body_policy" where
  "validate_response_body_head A request_method status headers max_bytes =
     (if hm_contains_key A headers ''trailer''
      then Inl (Failure ''upstream response trailers are unsupported'')
      else
        rbind (declared_length A headers) (\<lambda>declared.
          if status = 204 \<and> (declared \<noteq> None \<or> hm_contains_key A headers ''transfer-encoding'')
          then Inl (Failure ''upstream no-content response used forbidden framing'')
          else if status = 205 \<and> ((case declared of None \<Rightarrow> False | Some d \<Rightarrow> d \<noteq> 0)
                                  \<or> hm_contains_key A headers ''transfer-encoding'')
          then Inl (Failure ''upstream reset-content response used forbidden framing'')
          else if request_method = ''HEAD'' \<or> status \<in> {204, 205, 304}
          then Inr (Forbidden declared)
          else if (case declared of None \<Rightarrow> False | Some d \<Rightarrow> capacity max_bytes < d)
          then Inl (Failure ''upstream response length exceeded limit'')
          else Inr (Streaming declared)))"

fun reject_no_transform :: "'h http_api \<Rightarrow> bytes list \<Rightarrow> proxy_failure + unit" where
  "reject_no_transform A [] = Inr ()"
| "reject_no_transform A (v # vs) =
     rbind (ok_or (header_value_to_str A v) (Failure ''upstream cache control was invalid''))
       (\<lambda>value.
          if list_ex (\<lambda>d. eq_ignore_ascii_case (str_trim d) ''no-transform'')
               (split_on (CHR '','') value)
          then Inl (Failure ''upstream response forbade required content decoding'')
          else reject_no_transform A vs)"

definition validate_decoded_response_transform ::
  "'h http_api \<Rightarrow> nat \<Rightarrow> 'h \<Rightarrow> proxy_failure + unit" where
  "validate_decoded_response_transform A status headers =
     (if status = 206 \<or> hm_contains_key A headers ''content-range''
      then Inl (Failure ''encoded partial upstream responses are unsupported'')
      else reject_no_transform A (hm_get_all A headers ''cache-control''))"

definition decoded_representation_headers :: "string list" where
  "decoded_representation_headers =
     [''content-encoding'', ''content-length'', ''accept-ranges'', ''content-range'', ''etag'',
      ''content-md5'', ''digest'', ''content-digest'', ''repr-digest'']"

definition strip_decoded_representation_headers :: "'h http_api \<Rightarrow> 'h \<Rightarrow> 'h" where
  "strip_decoded_representation_headers A headers =
     hm_remove_all A headers decoded_representation_headers"

definition response_hop_headers :: "string list" where
  "response_hop_headers =
     [''connection'', ''proxy-connection'', ''keep-alive'', ''transfer-encoding'', ''te'',
      ''trailer'', ''upgrade'', ''proxy-authenticate'', PROTECTED_HEADER, BOOTSTRAP_HEADER_NAME]"

fun nominated_tokens :: "string list \<Rightarrow> proxy_failure + string list" where
  "nominated_tokens [] = Inr []"
| "nominated_tokens (raw # rest) =
     (let token = to_ascii_lowercase (str_trim raw) in
      if token = [] \<or> \<not> list_all is_token_byte token \<or> is_protected_connection_target token
      then Inl (Failure ''invalid upstream connection header'')
      else rbind (nominated_tokens rest) (\<lambda>ts. Inr (token # ts)))"

definition strip_response_headers :: "'h http_api \<Rightarrow> 'h \<Rightarrow> proxy_failure + 'h" where
  "strip_response_headers A headers =
     (let connection_values = hm_get_all A headers ''connection'' in
      if 1 < length connection_values
      then Inl (Failure ''ambiguous upstream connection header'')
      else
        rbind (case connection_values of
                 [] \<Rightarrow> Inr []
               | v # _ \<Rightarrow> rbind (ok_or (header_value_to_str A v) NotText)
                            (\<lambda>s. nominated_tokens (split_on (CHR '','') s)))
          (\<lambda>nominated. Inr (hm_remove_all A (hm_remove_all A headers response_hop_headers) nominated)))"

text \<open>The operations of \<open>url::Url\<close> that the redirect rewriting calls.\<close>

record 'u url_api =
  url_parse :: "string \<Rightarrow> 'u option"
  url_scheme :: "'u \<Rightarrow> string"
  url_host_str :: "'u \<Rightarrow> string option"
  url_port_or_known_default :: "'u \<Rightarrow> nat option"
  url_set_host :: "'u \<Rightarrow> string \<Rightarrow> 'u option"
  url_set_port :: "'u \<Rightarrow> nat \<Rightarrow> 'u option"
  url_as_str :: "'u \<Rightarrow> string"

definition points_to_upstream :: "'u url_api \<Rightarrow> 'u \<Rightarrow> socket_v4 \<Rightarrow> bool" where
  "points_to_upstream U location upstream =
     (url_scheme U location = ''http''
      \<and> url_host_str U location = Some (v4_ip_string upstream)
      \<and> url_port_or_known_default U location = Some (v4_port upstream))"

definition rewrite_location ::
  "'h http_api \<Rightarrow> 'u url_api \<Rightarrow> 'h \<Rightarrow> socket_v4 \<Rightarrow> proxy_address \<Rightarrow> proxy_failure + 'h" where
  "rewrite_location A U headers upstream address =
     (let vals = hm_get_all A headers ''location'' in
      if 1 < length vals then Inl (Failure ''ambiguous upstream redirect'')
      else
        case vals of
          [] \<Rightarrow> Inr headers
        | v # _ \<Rightarrow>
            rbind (ok_or (header_value_to_str A v) NotText) (\<lambda>s.
              case url_parse U s of
                None \<Rightarrow>
                  if prefix ''/'' s \<and> \<not> prefix ''//'' s then Inr headers
                  else Inl (Failure ''invalid upstream redirect'')
              | Some location \<Rightarrow>
                  if points_to_upstream U location upstream then
                    rbind (ok_or (url_set_host U location (pa_hostname address))
                             (Failure ''redirect rewrite failed'')) (\<lambda>l1.
                    rbind (ok_or (url_set_port U l1 (pa_port address))
                             (Failure ''redirect rewrite failed'')) (\<lambda>l2.
                    rbind (ok_or (header_value_from_str A (url_as_str U l2)) InvalidHeaderValue)
                      (\<lambda>value. Inr (hm_insert A headers ''location'' value))))
                  else Inr headers))"

end
