(* ===== verification/Stream_Io.thy ===== *)
theory Stream_Io
  imports Admission Body_Guards
begin

text \<open>
  The byte streams around one connection: \<open>read_request_prefix\<close> of \<open>crates/transport/src/proxy.rs\<close>,
  \<open>crates/transport/src/replay_io.rs\<close> and \<open>crates/transport/src/response_guard_io.rs\<close>.  A socket is
  an argument \<open>rd\<close>: asked for at most \<open>n\<close> bytes it is pending, fails, or yields bytes, the empty
  list being the end of the stream.  \<open>poll_write\<close>, \<open>poll_flush\<close> and \<open>poll_shutdown\<close> of both
  adapters only delegate and are not repeated.  \<open>httparse::Response::parse\<close> is the argument \<open>parse\<close>.
\<close>

section \<open>Definitions\<close>

type_synonym read_poll = "(io_error + bytes) poll"

type_synonym 's reader = "'s \<Rightarrow> nat \<Rightarrow> 's \<times> read_poll"

text \<open>\<open>poll_read\<close> fills at most the buffer it is given.\<close>

definition bounded_reader :: "'s reader \<Rightarrow> bool" where
  "bounded_reader rd = (\<forall>s n s' bs. rd s n = (s', Ready (Inr bs)) \<longrightarrow> length bs \<le> n)"

text \<open>A read that is awaited: the task is suspended while the socket is pending.\<close>

type_synonym 's await_reader = "'s \<Rightarrow> nat \<Rightarrow> 's \<times> (io_error + bytes)"

subsection \<open>Reading the request head\<close>

lemma diff_append_less: "b \<noteq> [] \<Longrightarrow> l < m \<Longrightarrow> m - (l + length b) < m - l"
  by (cases b) auto

function read_request_prefix ::
  "'s await_reader \<Rightarrow> nat \<Rightarrow> 's \<Rightarrow> bytes \<Rightarrow> 's \<times> (io_error + bytes)" where
  "read_request_prefix rd max_bytes socket bs =
     (if header_end bs \<noteq> None then (socket, Inr bs)
      else if max_bytes \<le> length bs then (socket, Inl (IoOther ''request header limit exceeded''))
      else
        case rd socket (min (max_bytes - length bs) (4 * 1024)) of
          (socket', Inl e) \<Rightarrow> (socket', Inl e)
        | (socket', Inr chunk) \<Rightarrow>
            if chunk = []
            then (socket', Inl (IoUnexpectedEof ''request ended before headers completed''))
            else read_request_prefix rd max_bytes socket' (bs @ chunk))"
  by pat_completeness auto
termination
  by (relation "measure (\<lambda>(rd, max_bytes, socket, bs). max_bytes - length bs)")
     (auto simp: not_le intro!: diff_append_less)

declare read_request_prefix.simps [simp del]

subsection \<open>Replaying the consumed prefix\<close>

record 's replay_io =
  ri_prefix :: bytes
  ri_inner :: "'s"

definition replay_new :: "bytes \<Rightarrow> 's \<Rightarrow> 's replay_io" where
  "replay_new pre inner = \<lparr>ri_prefix = pre, ri_inner = inner\<rparr>"

definition replay_poll_read :: "'s reader \<Rightarrow> 's replay_io \<Rightarrow> nat \<Rightarrow> 's replay_io \<times> read_poll" where
  "replay_poll_read rd g n =
     (if ri_prefix g \<noteq> [] then
        let count = min (length (ri_prefix g)) n in
        (g\<lparr>ri_prefix := drop count (ri_prefix g)\<rparr>, Ready (Inr (take count (ri_prefix g))))
      else
        case rd (ri_inner g) n of (inner, r) \<Rightarrow> (g\<lparr>ri_inner := inner\<rparr>, r))"

subsection \<open>Guarding the response head\<close>

record parsed_response =
  rp_code :: "nat option"
  rp_version :: "nat option"
  rp_headers :: "(bytes \<times> bytes) list"

type_synonym response_parser = "nat \<Rightarrow> bytes \<Rightarrow> (parse_status \<times> parsed_response) option"

definition response_header_values :: "(bytes \<times> bytes) list \<Rightarrow> bytes \<Rightarrow> bytes list" where
  "response_header_values headers name =
     map snd (filter (\<lambda>h. eq_ignore_ascii_case (fst h) name) headers)"

definition has_bare_line_ending :: "bytes \<Rightarrow> bool" where
  "has_bare_line_ending bs = list_ex (bare_at bs) [0..<length bs]"

definition trim_ascii :: "bytes \<Rightarrow> bytes" where
  "trim_ascii s = rev (dropWhile is_ascii_whitespace (rev (dropWhile is_ascii_whitespace s)))"

definition response_length_malformed :: "bytes \<Rightarrow> bool" where
  "response_length_malformed raw =
     (let v = trim_ascii raw in
      v = [] \<or> \<not> list_all is_ascii_digit v
      \<or> (if utf8_valid v then parse_unsigned u64_max v else None) = None)"

definition status_allowed :: "nat option \<Rightarrow> bool \<Rightarrow> bool" where
  "status_allowed code allow_switching_protocols =
     ((case code of Some c \<Rightarrow> 200 \<le> c \<and> c \<le> 599 | None \<Rightarrow> False)
      \<or> (code = Some 101 \<and> allow_switching_protocols))"

definition validate_response_framing :: "(bytes \<times> bytes) list \<Rightarrow> io_error + unit" where
  "validate_response_framing headers =
     (let content_lengths = response_header_values headers ''content-length'';
          transfer_encodings = response_header_values headers ''transfer-encoding'' in
      if 1 < length content_lengths \<or> 1 < length transfer_encodings
         \<or> (content_lengths \<noteq> [] \<and> transfer_encodings \<noteq> [])
      then Inl (IoOther ''upstream response framing is ambiguous'')
      else if content_lengths \<noteq> [] \<and> response_length_malformed (hd content_lengths)
      then Inl (IoOther ''upstream content length is malformed'')
      else if transfer_encodings \<noteq> []
              \<and> \<not> eq_ignore_ascii_case (trim_ascii (hd transfer_encodings)) ''chunked''
      then Inl (IoOther ''upstream transfer encoding is unsupported'')
      else Inr ())"

definition validate_response_head ::
  "response_parser \<Rightarrow> bytes \<Rightarrow> nat \<Rightarrow> bool \<Rightarrow> io_error + unit" where
  "validate_response_head parse bs header_slots allow_switching_protocols =
     (if has_bare_line_ending bs then Inl (IoOther ''upstream response used a bare line ending'')
      else
        case parse header_slots bs of
          None \<Rightarrow> Inl (IoOther ''upstream response head is malformed'')
        | Some (parsed, response) \<Rightarrow>
            if parsed \<noteq> Complete (length bs) \<or> rp_version response \<noteq> Some 1
               \<or> \<not> status_allowed (rp_code response) allow_switching_protocols
            then Inl (IoOther ''upstream response status is invalid'')
            else if rp_code response = Some 101 \<and> \<not> allow_switching_protocols
            then Inl (IoOther ''upstream protocol switch was not requested'')
            else validate_response_framing (rp_headers response))"

record 's response_guard_io =
  gi_inner :: "'s"
  gi_prefix :: bytes
  gi_max_header_bytes :: nat
  gi_max_headers :: nat
  gi_allow_switching_protocols :: bool
  gi_validated :: bool
  gi_rejected :: bool

definition response_guard_io_new :: "'s \<Rightarrow> nat \<Rightarrow> nat \<Rightarrow> bool \<Rightarrow> 's response_guard_io" where
  "response_guard_io_new inner max_bytes max_heads allow =
     \<lparr>gi_inner = inner, gi_prefix = [], gi_max_header_bytes = max_bytes,
      gi_max_headers = max_heads, gi_allow_switching_protocols = allow,
      gi_validated = False, gi_rejected = False\<rparr>"

definition validate_prefix ::
  "response_parser \<Rightarrow> 's response_guard_io \<Rightarrow> io_error + 's response_guard_io" where
  "validate_prefix parse g =
     rbind (ok_or (header_end (gi_prefix g)) (IoOther ''upstream response head is incomplete''))
       (\<lambda>end. rbind (validate_response_head parse (take end (gi_prefix g)) (gi_max_headers g)
                       (gi_allow_switching_protocols g))
          (\<lambda>_. Inr (g\<lparr>gi_validated := True\<rparr>)))"

definition guard_fail ::
  "'s response_guard_io \<Rightarrow> io_error \<Rightarrow> 's response_guard_io \<times> read_poll option" where
  "guard_fail g e = (g\<lparr>gi_prefix := [], gi_rejected := True\<rparr>, Some (Ready (Inl e)))"

text \<open>The loop of \<open>poll_read\<close>: \<open>None\<close> means that the head is validated and the call goes on, any
  other value is what the call returns.\<close>

function fill_prefix ::
  "'s reader \<Rightarrow> response_parser \<Rightarrow> 's response_guard_io \<Rightarrow> 's response_guard_io \<times> read_poll option"
  where
  "fill_prefix rd parse g =
     (if gi_validated g then (g, None)
      else if header_end (gi_prefix g) \<noteq> None then
        (case validate_prefix parse g of Inl e \<Rightarrow> guard_fail g e | Inr g1 \<Rightarrow> (g1, None))
      else if gi_max_header_bytes g \<le> length (gi_prefix g)
      then guard_fail g (IoOther ''upstream response head exceeded limit'')
      else
        case rd (gi_inner g) (min (gi_max_header_bytes g - length (gi_prefix g)) (4 * 1024)) of
          (inner, Pending) \<Rightarrow> (g\<lparr>gi_inner := inner\<rparr>, Some Pending)
        | (inner, Ready (Inl e)) \<Rightarrow> guard_fail (g\<lparr>gi_inner := inner\<rparr>) e
        | (inner, Ready (Inr incoming)) \<Rightarrow>
            if incoming = []
            then guard_fail (g\<lparr>gi_inner := inner\<rparr>)
                   (IoUnexpectedEof ''upstream closed before its response head completed'')
            else fill_prefix rd parse
                   (g\<lparr>gi_inner := inner, gi_prefix := gi_prefix g @ incoming\<rparr>))"
  by pat_completeness auto
termination
  by (relation "measure (\<lambda>(rd, parse, g). gi_max_header_bytes g - length (gi_prefix g))")
     (auto simp: not_le intro!: diff_append_less)

declare fill_prefix.simps [simp del]

definition guard_drain ::
  "'s reader \<Rightarrow> 's response_guard_io \<Rightarrow> nat \<Rightarrow> 's response_guard_io \<times> read_poll" where
  "guard_drain rd g n =
     (if gi_prefix g \<noteq> [] then
        let count = min (length (gi_prefix g)) n in
        (g\<lparr>gi_prefix := drop count (gi_prefix g)\<rparr>, Ready (Inr (take count (gi_prefix g))))
      else
        case rd (gi_inner g) n of (inner, r) \<Rightarrow> (g\<lparr>gi_inner := inner\<rparr>, r))"

definition guard_poll_read ::
  "'s reader \<Rightarrow> response_parser \<Rightarrow> 's response_guard_io \<Rightarrow> nat \<Rightarrow> 's response_guard_io \<times> read_poll"
  where
  "guard_poll_read rd parse g n =
     (if gi_rejected g then (g, Ready (Inl (IoOther ''upstream response head was rejected'')))
      else
        case fill_prefix rd parse g of
          (g1, Some r) \<Rightarrow> (g1, r)
        | (g1, None) \<Rightarrow> guard_drain rd g1 n)"

subsection \<open>Observations\<close>

fun ready_bytes :: "read_poll \<Rightarrow> bytes" where
  "ready_bytes (Ready (Inr bs)) = bs"
| "ready_bytes _ = []"

definition read_bytes :: "read_poll list \<Rightarrow> bytes" where
  "read_bytes rs = concat (map ready_bytes rs)"

definition replay_view :: "'s response_guard_io \<Rightarrow> 's replay_io" where
  "replay_view g = \<lparr>ri_prefix = gi_prefix g, ri_inner = gi_inner g\<rparr>"

section \<open>The socket's contract\<close>

locale stream_reader =
  fixes rd :: "'s await_reader"
    and unread :: "'s \<Rightarrow> bytes"
  assumes read_ok: "rd s n = (s', Inr chunk) \<Longrightarrow>
      unread s = chunk @ unread s' \<and> length chunk \<le> n"
    and read_end: "rd s n = (s', Inr []) \<Longrightarrow> 0 < n \<Longrightarrow> unread s = []"
    and read_total: "\<exists>s' chunk. rd s n = (s', Inr chunk)"
begin

lemma prefix_result:
  assumes "read_request_prefix rd m s bs = (s', r)" "length bs \<le> m"
  shows "(is_ok r \<longleftrightarrow> header_end (take m (bs @ unread s)) \<noteq> None)
    \<and> (\<forall>out. r = Inr out \<longrightarrow> header_end out \<noteq> None \<and> length out \<le> m
         \<and> bs @ unread s = out @ unread s')"
  using assms
proof (induction rd \<equiv> rd m s bs rule: read_request_prefix.induct)
  case (1 m s bs)
  obtain s1 chunk where c: "rd s (min (m - length bs) (4 * 1024)) = (s1, Inr chunk)"
    using read_total by blast
  note ok = read_ok [OF c]
  consider (complete) "header_end bs \<noteq> None" | (full) "header_end bs = None" "m \<le> length bs"
    | (eof) "header_end bs = None" "length bs < m" "chunk = []"
    | (grow) "header_end bs = None" "length bs < m" "chunk \<noteq> []" by fastforce
  then show ?case
  proof cases
    case complete
    then obtain e where "header_end (bs @ take (m - length bs) (unread s)) = Some e"
      using header_end_append by blast
    moreover have "read_request_prefix rd m s bs = (s, Inr bs)"
      using complete by (subst read_request_prefix.simps) simp
    ultimately show ?thesis using complete 1(2,3) by auto
  next
    case full
    then have "read_request_prefix rd m s bs = (s, Inl (IoOther ''request header limit exceeded''))"
      by (subst read_request_prefix.simps) simp
    with full 1(2,3) show ?thesis by auto
  next
    case eof
    with c have "unread s = []" by (intro read_end) auto
    moreover have "is_ok (snd (read_request_prefix rd m s bs)) = False"
      using eof c by (subst read_request_prefix.simps) simp
    ultimately show ?thesis using eof 1(2,3) by auto
  next
    case grow
    have run: "read_request_prefix rd m s1 (bs @ chunk) = (s', r)"
      using 1(2) grow c by (subst (asm) read_request_prefix.simps) simp
    have len: "length (bs @ chunk) \<le> m" using ok grow by auto
    from 1(1) [OF _ _ c [symmetric] refl _ run len] grow ok show ?thesis by simp
  qed
qed

end

section \<open>Lemmas\<close>

lemma read_bytes_simps [simp]:
  "read_bytes [] = []" "read_bytes (r # rs) = ready_bytes r @ read_bytes rs"
  by (simp_all add: read_bytes_def)

lemma replay_empty_run:
  assumes "run_polls (replay_poll_read rd) g ns = (g', rs)" "ri_prefix g = []"
  shows "rs = snd (run_polls rd (ri_inner g) ns)
    \<and> g' = g\<lparr>ri_inner := fst (run_polls rd (ri_inner g) ns)\<rparr>"
  using assms
proof (induction ns arbitrary: g rs)
  case (Cons n ns)
  obtain s1 r where r: "rd (ri_inner g) n = (s1, r)" by fastforce
  have "replay_poll_read rd g n = (g\<lparr>ri_inner := s1\<rparr>, r)"
    using Cons.prems(2) r by (simp add: replay_poll_read_def)
  with Cons.prems(1) obtain qs
    where q: "run_polls (replay_poll_read rd) (g\<lparr>ri_inner := s1\<rparr>) ns = (g', qs)"
      and rs: "rs = r # qs" by (auto elim!: run_polls_ConsE simp del: run_polls.simps)
  from Cons.IH [OF q] Cons.prems(2) r rs show ?case by (auto split: prod.splits)
qed auto

text \<open>The replayed prefix comes first and complete; then every read is the socket's own.\<close>

lemma replay_run:
  assumes "run_polls (replay_poll_read rd) g ns = (g', rs)"
  shows "\<exists>k \<le> length ns. read_bytes (take k rs) @ ri_prefix g' = ri_prefix g
    \<and> drop k rs = snd (run_polls rd (ri_inner g) (drop k ns))
    \<and> ri_inner g' = fst (run_polls rd (ri_inner g) (drop k ns))
    \<and> (k < length ns \<longrightarrow> ri_prefix g' = [])"
  using assms
proof (induction ns arbitrary: g rs)
  case (Cons n ns)
  show ?case
  proof (cases "ri_prefix g = []")
    case True
    from replay_empty_run [OF Cons.prems this] True show ?thesis by (intro exI [of _ 0]) simp
  next
    case False
    let ?c = "min (length (ri_prefix g)) n"
    have "replay_poll_read rd g n =
        (g\<lparr>ri_prefix := drop ?c (ri_prefix g)\<rparr>, Ready (Inr (take ?c (ri_prefix g))))"
      using False by (simp add: replay_poll_read_def Let_def)
    with Cons.prems obtain qs where
      q: "run_polls (replay_poll_read rd) (g\<lparr>ri_prefix := drop ?c (ri_prefix g)\<rparr>) ns = (g', qs)"
      and rs: "rs = Ready (Inr (take ?c (ri_prefix g))) # qs"
      by (auto elim!: run_polls_ConsE simp del: run_polls.simps)
    from Cons.IH [OF q] obtain k where "k \<le> length ns"
      "read_bytes (take k qs) @ ri_prefix g' = drop ?c (ri_prefix g)"
      "drop k qs = snd (run_polls rd (ri_inner g) (drop k ns))"
      "ri_inner g' = fst (run_polls rd (ri_inner g) (drop k ns))"
      "k < length ns \<longrightarrow> ri_prefix g' = []" by auto
    moreover from this(2) have "(take ?c (ri_prefix g) @ read_bytes (take k qs)) @ ri_prefix g' = ri_prefix g"
      by (metis append_assoc append_take_drop_id)
    ultimately show ?thesis using rs by (intro exI [of _ "Suc k"]) simp
  qed
qed auto

text \<open>What the filling loop leaves behind.\<close>

definition head_accepted :: "response_parser \<Rightarrow> 's response_guard_io \<Rightarrow> bytes \<Rightarrow> bool" where
  "head_accepted parse g w =
     (case header_end w of
        None \<Rightarrow> False
      | Some end \<Rightarrow> validate_response_head parse (take end w) (gi_max_headers g)
                      (gi_allow_switching_protocols g) = Inr ())"

definition same_limits :: "'s response_guard_io \<Rightarrow> 's response_guard_io \<Rightarrow> bool" where
  "same_limits g h =
     (gi_max_header_bytes h = gi_max_header_bytes g \<and> gi_max_headers h = gi_max_headers g
      \<and> gi_allow_switching_protocols h = gi_allow_switching_protocols g)"

lemma head_accepted_cong:
  "same_limits g h \<Longrightarrow> head_accepted parse h = head_accepted parse g"
  by (auto simp: head_accepted_def same_limits_def fun_eq_iff split: option.splits)

lemma head_accepted_update [simp]:
  "head_accepted parse (g\<lparr>gi_inner := s, gi_prefix := p\<rparr>) = head_accepted parse g"
  by (rule head_accepted_cong) (simp add: same_limits_def)

lemma validate_prefix_ok:
  assumes "validate_prefix parse g = Inr g1"
  shows "g1 = g\<lparr>gi_validated := True\<rparr> \<and> head_accepted parse g (gi_prefix g)"
  using assms by (auto simp: validate_prefix_def head_accepted_def)

lemma fill_prefix_result:
  assumes "fill_prefix rd parse g = (g', r)" "\<not> gi_validated g" "\<not> gi_rejected g"
    and bound: "bounded_reader rd"
    and "length (gi_prefix g) \<le> gi_max_header_bytes g"
  shows "same_limits g g' \<and> length (gi_prefix g') \<le> gi_max_header_bytes g
    \<and> (case r of
         None \<Rightarrow> gi_validated g' \<and> \<not> gi_rejected g' \<and> head_accepted parse g (gi_prefix g')
       | Some Pending \<Rightarrow> \<not> gi_validated g' \<and> \<not> gi_rejected g'
       | Some (Ready (Inl e)) \<Rightarrow> gi_rejected g'
       | Some (Ready (Inr bs)) \<Rightarrow> False)"
  using assms(1-3,5)
proof (induction rd \<equiv> rd parse g rule: fill_prefix.induct)
  case (1 parse g)
  let ?n = "min (gi_max_header_bytes g - length (gi_prefix g)) (4 * 1024)"
  obtain s1 p where p: "rd (gi_inner g) ?n = (s1, p)" by fastforce
  consider (complete) "header_end (gi_prefix g) \<noteq> None"
    | (full) "header_end (gi_prefix g) = None" "gi_max_header_bytes g \<le> length (gi_prefix g)"
    | (read) "header_end (gi_prefix g) = None" "length (gi_prefix g) < gi_max_header_bytes g"
    by fastforce
  then show ?case
  proof cases
    case complete
    with 1(2,3) have "(case validate_prefix parse g of Inl e \<Rightarrow> guard_fail g e | Inr g1 \<Rightarrow> (g1, None))
        = (g', r)"
      by (subst (asm) fill_prefix.simps) simp
    with 1(3-5) show ?thesis
      by (auto simp: guard_fail_def same_limits_def dest: validate_prefix_ok split: sum.splits)
  next
    case full
    with 1(2,3) have "guard_fail g (IoOther ''upstream response head exceeded limit'') = (g', r)"
      by (subst (asm) fill_prefix.simps) simp
    with 1(3-5) show ?thesis by (auto simp: guard_fail_def same_limits_def)
  next
    case read
    show ?thesis
    proof (cases "\<exists>bs. p = Ready (Inr bs) \<and> bs \<noteq> []")
      case True
      then obtain bs where bs: "p = Ready (Inr bs)" "bs \<noteq> []" by blast
      let ?g = "g\<lparr>gi_inner := s1, gi_prefix := gi_prefix g @ bs\<rparr>"
      have run: "fill_prefix rd parse ?g = (g', r)"
        using 1(2,3) read p bs by (subst (asm) fill_prefix.simps) simp
      have len: "length (gi_prefix ?g) \<le> gi_max_header_bytes ?g"
        using bound p bs read by (fastforce simp: bounded_reader_def)
      have "\<not> gi_validated ?g" "\<not> gi_rejected ?g" using 1(3,4) by simp_all
      from 1(1) [OF _ _ _ p [symmetric] bs(1) refl bs(2) run this len] 1(3) read
      show ?thesis
        by (auto simp: same_limits_def split: option.splits poll.splits sum.splits)
    next
      case False
      with 1(2,3) read p have "(case p of
            Pending \<Rightarrow> (g\<lparr>gi_inner := s1\<rparr>, Some Pending)
          | Ready (Inl e) \<Rightarrow> guard_fail (g\<lparr>gi_inner := s1\<rparr>) e
          | Ready (Inr bs) \<Rightarrow> guard_fail (g\<lparr>gi_inner := s1\<rparr>)
                   (IoUnexpectedEof ''upstream closed before its response head completed''))
          = (g', r)"
        by (subst (asm) fill_prefix.simps) (auto split: poll.splits sum.splits)
      with 1(3-5) show ?thesis
        by (auto simp: guard_fail_def same_limits_def split: poll.splits sum.splits)
    qed
  qed
qed

text \<open>A rejected guard yields nothing; a validated one is the replay adapter.\<close>

lemma guard_rejected_run:
  assumes "run_polls (guard_poll_read rd parse) g ns = (g', rs)" "gi_rejected g"
  shows "g' = g \<and> read_bytes rs = []"
  using assms
proof (induction ns arbitrary: rs)
  case (Cons n ns)
  from Cons.prems(1) show ?case
    by (rule run_polls_ConsE) (use Cons.prems(2) Cons.IH in \<open>auto simp: guard_poll_read_def\<close>)
qed simp

lemma guard_validated_step:
  assumes "gi_validated g" "\<not> gi_rejected g" "guard_poll_read rd parse g n = (g', r)"
  shows "replay_poll_read rd (replay_view g) n = (replay_view g', r)"
    and "gi_validated g'" "\<not> gi_rejected g'"
proof -
  have "fill_prefix rd parse g = (g, None)" using assms(1) by (subst fill_prefix.simps) simp
  with assms have "guard_drain rd g n = (g', r)" by (simp add: guard_poll_read_def)
  with assms(1,2) show "replay_poll_read rd (replay_view g) n = (replay_view g', r)"
    and "gi_validated g'" "\<not> gi_rejected g'"
    by (auto simp: guard_drain_def replay_poll_read_def replay_view_def Let_def
        split: if_splits prod.splits)
qed

lemma guard_validated_run:
  assumes "run_polls (guard_poll_read rd parse) g ns = (g', rs)" "gi_validated g" "\<not> gi_rejected g"
  shows "run_polls (replay_poll_read rd) (replay_view g) ns = (replay_view g', rs)
    \<and> \<not> gi_rejected g'"
  using assms
proof (induction ns arbitrary: g rs)
  case (Cons n ns)
  from Cons.prems(1) obtain g1 r qs where p: "guard_poll_read rd parse g n = (g1, r)"
    and q: "run_polls (guard_poll_read rd parse) g1 ns = (g', qs)" and rs: "rs = r # qs"
    by (rule run_polls_ConsE)
  note v = guard_validated_step [OF Cons.prems(2,3) p]
  from Cons.IH [OF q v(2,3)] v(1) rs show ?case by simp
qed simp

lemma guard_run:
  assumes "run_polls (guard_poll_read rd parse) g ns = (g', rs)"
    and "\<not> gi_validated g" "\<not> gi_rejected g"
    and bound: "bounded_reader rd"
    and "length (gi_prefix g) \<le> gi_max_header_bytes g"
  shows "read_bytes rs = []
    \<or> (\<exists>w. head_accepted parse g w \<and> length w \<le> gi_max_header_bytes g \<and> \<not> gi_rejected g'
         \<and> (prefix (read_bytes rs) w \<or> prefix w (read_bytes rs)))"
  using assms(1-3,5)
proof (induction ns arbitrary: g rs)
  case (Cons n ns)
  obtain g1 f where f: "fill_prefix rd parse g = (g1, f)" by fastforce
  note F = fill_prefix_result [OF f Cons.prems(2,3) bound Cons.prems(4)]
  show ?case
  proof (cases f)
    case None
    with F have v: "gi_validated g1" "\<not> gi_rejected g1" "head_accepted parse g (gi_prefix g1)"
      "length (gi_prefix g1) \<le> gi_max_header_bytes g" by auto
    have "guard_poll_read rd parse g n = guard_poll_read rd parse g1 n"
      using f None Cons.prems(3) v fill_prefix.simps [of rd parse g1]
      by (simp add: guard_poll_read_def)
    with Cons.prems(1) have "run_polls (guard_poll_read rd parse) g1 (n # ns) = (g', rs)" by simp
    from guard_validated_run [OF this v(1,2)] obtain
      run: "run_polls (replay_poll_read rd) (replay_view g1) (n # ns) = (replay_view g', rs)"
      and ok: "\<not> gi_rejected g'" by blast
    from replay_run [OF run] obtain k where k: "k \<le> length (n # ns)"
      "read_bytes (take k rs) @ gi_prefix g' = gi_prefix g1"
      "k < length (n # ns) \<longrightarrow> gi_prefix g' = []"
      by (auto simp: replay_view_def simp del: run_polls.simps)
    have len: "length rs = length (n # ns)" by (rule run_polls_length [OF run])
    have "prefix (read_bytes rs) (gi_prefix g1) \<or> prefix (gi_prefix g1) (read_bytes rs)"
    proof (cases "k < length (n # ns)")
      case True
      with k have "read_bytes (take k rs) = gi_prefix g1" by simp
      moreover have "prefix (read_bytes (take k rs)) (read_bytes rs)"
        by (metis append_take_drop_id concat_append map_append prefixI read_bytes_def)
      ultimately show ?thesis by simp
    next
      case False
      with k(1) len have "take k rs = rs" by simp
      with k(2) show ?thesis by (metis prefixI)
    qed
    with v ok show ?thesis by blast
  next
    case (Some p)
    with f Cons.prems(3) have step: "guard_poll_read rd parse g n = (g1, p)"
      by (simp add: guard_poll_read_def)
    from Cons.prems(1) step obtain qs
      where q: "run_polls (guard_poll_read rd parse) g1 ns = (g', qs)" and rs: "rs = p # qs"
      by (auto elim!: run_polls_ConsE simp del: run_polls.simps)
    show ?thesis
    proof (cases "gi_rejected g1")
      case True
      with F Some have "ready_bytes p = []" by (auto split: poll.splits sum.splits)
      with guard_rejected_run [OF q True] rs show ?thesis by simp
    next
      case False
      with F Some have p: "p = Pending" and v: "\<not> gi_validated g1"
        by (auto split: poll.splits sum.splits)
      have "head_accepted parse g1 = head_accepted parse g"
        "gi_max_header_bytes g1 = gi_max_header_bytes g"
        using F head_accepted_cong by (auto simp: same_limits_def)
      with Cons.IH [OF q v False] F p rs show ?thesis by auto
    qed
  qed
qed simp

text \<open>A socket over which the bytes \<open>w\<close> arrive in segments of arbitrary sizes.\<close>

definition segment_size :: "nat list \<Rightarrow> nat \<Rightarrow> nat" where
  "segment_size cs n = (case cs of [] \<Rightarrow> n | c # _ \<Rightarrow> min n (Suc c))"

definition segmented_read :: "(nat list \<times> bytes) await_reader" where
  "segmented_read s n =
     (let c = segment_size (fst s) n in ((tl (fst s), drop c (snd s)), Inr (take c (snd s))))"

interpretation segmented: stream_reader segmented_read snd
proof
  show "segmented_read s n = (s', Inr chunk) \<Longrightarrow> snd s = chunk @ snd s' \<and> length chunk \<le> n"
    for s n s' chunk
    by (auto simp: segmented_read_def segment_size_def Let_def split: list.splits)
  show "segmented_read s n = (s', Inr []) \<Longrightarrow> 0 < n \<Longrightarrow> snd s = []" for s n s'
    by (auto simp: segmented_read_def segment_size_def Let_def split: list.splits)
  show "\<exists>s' chunk. segmented_read s n = (s', Inr chunk)" for s n
    by (simp add: segmented_read_def Let_def)
qed

lemma validate_response_framing_ok:
  assumes "validate_response_framing hs = Inr u"
  shows "length (response_header_values hs ''content-length'') \<le> 1"
    and "length (response_header_values hs ''transfer-encoding'') \<le> 1"
    and "response_header_values hs ''content-length'' = []
       \<or> response_header_values hs ''transfer-encoding'' = []"
    and "v \<in> set (response_header_values hs ''content-length'') \<Longrightarrow>
       list_all is_ascii_digit (trim_ascii v) \<and> (\<exists>n. parse_unsigned u64_max (trim_ascii v) = Some n)"
    and "v \<in> set (response_header_values hs ''transfer-encoding'') \<Longrightarrow>
       eq_ignore_ascii_case (trim_ascii v) ''chunked''"
proof -
  let ?cl = "response_header_values hs ''content-length''"
  let ?te = "response_header_values hs ''transfer-encoding''"
  from assms show "length ?cl \<le> 1" "length ?te \<le> 1" "?cl = [] \<or> ?te = []"
    by (auto simp: validate_response_framing_def Let_def split: if_splits)
  then have "v \<in> set ?cl \<Longrightarrow> v = hd ?cl" "v \<in> set ?te \<Longrightarrow> v = hd ?te"
    by (auto simp: le_Suc_eq length_Suc_conv)
  with assms show "v \<in> set ?cl \<Longrightarrow> list_all is_ascii_digit (trim_ascii v)
      \<and> (\<exists>n. parse_unsigned u64_max (trim_ascii v) = Some n)"
    and "v \<in> set ?te \<Longrightarrow> eq_ignore_ascii_case (trim_ascii v) ''chunked''"
    by (auto simp: validate_response_framing_def response_length_malformed_def Let_def
        split: if_splits)
qed

section \<open>Properties\<close>

text \<open>C12: on a socket that delivers a byte stream in segments of any size, \<open>read_request_prefix\<close>
  returns (the loop ends) with success exactly when the first \<open>max_header_bytes\<close> bytes of the stream
  contain a complete head; it then holds a complete head within the limit, and its bytes followed by
  what is left on the socket are the stream: nothing is lost, repeated or reordered.\<close>

theorem read_request_prefix_exact:
  assumes "stream_reader rd unread"
    and "read_request_prefix rd max_bytes socket [] = (socket', result)"
  shows "(is_ok result \<longleftrightarrow> header_end (take max_bytes (unread socket)) \<noteq> None)
    \<and> (\<forall>out. result = Inr out \<longrightarrow> header_end out \<noteq> None \<and> length out \<le> max_bytes
         \<and> out @ unread socket' = unread socket)"
  using stream_reader.prefix_result [OF assms] by simp

text \<open>the replay adapter first yields exactly the consumed prefix, in order and however the reads
  are sized, and from then on each read is the socket's own.\<close>

lemma replay_io_transparent:
  "\<exists>k \<le> length ns.
     read_bytes (take k (snd (run_polls (replay_poll_read rd) (replay_new pre socket) ns)))
       @ ri_prefix (fst (run_polls (replay_poll_read rd) (replay_new pre socket) ns)) = pre
     \<and> drop k (snd (run_polls (replay_poll_read rd) (replay_new pre socket) ns))
         = snd (run_polls rd socket (drop k ns))"
proof -
  obtain g' rs where r: "run_polls (replay_poll_read rd) (replay_new pre socket) ns = (g', rs)"
    by fastforce
  show ?thesis unfolding r fst_conv snd_conv using replay_run [OF r] by (auto simp: replay_new_def)
qed

text \<open>C13: no byte of an upstream response reaches the HTTP parser before its head has been accepted:
  whatever is read through the guard is part of a stream that starts with a head of at most
  \<open>max_header_bytes\<close> bytes accepted by \<open>validate_response_head\<close>, and a guard that has rejected its
  head has released nothing.\<close>

theorem response_guard_io_releases_validated:
  assumes bound: "bounded_reader rd"
    and run: "run_polls (guard_poll_read rd parse)
      (response_guard_io_new inner max_bytes max_heads allow) ns = (g', rs)"
    and some: "read_bytes rs \<noteq> []"
  shows "\<not> gi_rejected g'
    \<and> (\<exists>w end. header_end w = Some end \<and> length w \<le> max_bytes
         \<and> validate_response_head parse (take end w) max_heads allow = Inr ()
         \<and> (prefix (read_bytes rs) w \<or> prefix w (read_bytes rs)))"
proof -
  let ?g = "response_guard_io_new inner max_bytes max_heads allow"
  have init: "\<not> gi_validated ?g" "\<not> gi_rejected ?g" "length (gi_prefix ?g) \<le> gi_max_header_bytes ?g"
    by (simp_all add: response_guard_io_new_def)
  from guard_run [OF run init(1,2) bound init(3)] some obtain w where
    w: "head_accepted parse ?g w" "length w \<le> gi_max_header_bytes ?g" "\<not> gi_rejected g'"
      "prefix (read_bytes rs) w \<or> prefix w (read_bytes rs)" by blast
  then show ?thesis
    by (auto simp: head_accepted_def response_guard_io_new_def split: option.splits)
qed

text \<open>an accepted response head is a complete HTTP/1.1 head without bare line endings, with a final
  status or a requested protocol switch, and unambiguous framing: at most one length, a decimal that
  fits 64 bits, or one chunked transfer coding, never both.\<close>

lemma validate_response_head_ok:
  assumes "validate_response_head parse bs max_heads allow = Inr ()"
  shows "\<not> has_bare_line_ending bs
    \<and> (\<exists>response code. parse max_heads bs = Some (Complete (length bs), response)
         \<and> rp_version response = Some 1 \<and> rp_code response = Some code
         \<and> (200 \<le> code \<and> code \<le> 599 \<or> code = 101 \<and> allow)
         \<and> length (response_header_values (rp_headers response) ''content-length'')
             + length (response_header_values (rp_headers response) ''transfer-encoding'') \<le> 1
         \<and> (\<forall>v \<in> set (response_header_values (rp_headers response) ''content-length'').
              \<exists>n. parse_unsigned u64_max (trim_ascii v) = Some n)
         \<and> (\<forall>v \<in> set (response_header_values (rp_headers response) ''transfer-encoding'').
              eq_ignore_ascii_case (trim_ascii v) ''chunked''))"
proof -
  from assms obtain response where
    bare: "\<not> has_bare_line_ending bs"
    and p: "parse max_heads bs = Some (Complete (length bs), response)" "rp_version response = Some 1"
    and st: "status_allowed (rp_code response) allow"
    and fr: "validate_response_framing (rp_headers response) = Inr ()"
    by (auto simp: validate_response_head_def split: if_splits option.splits)
  note F = validate_response_framing_ok [OF fr]
  from st obtain code where "rp_code response = Some code"
    "200 \<le> code \<and> code \<le> 599 \<or> code = 101 \<and> allow"
    by (auto simp: status_allowed_def split: option.splits)
  moreover from F(1-3) have
    "length (response_header_values (rp_headers response) ''content-length'')
       + length (response_header_values (rp_headers response) ''transfer-encoding'') \<le> 1" by auto
  ultimately show ?thesis using bare p F(4,5) by blast
qed

section \<open>Witnesses\<close>

definition example_response :: bytes where
  "example_response = ''HTTP/1.1 200 OK'' @ crlf @ ''Content-Length: 2'' @ crlf @ crlf @ ''ok''"

definition example_response_parser :: response_parser where
  "example_response_parser n bs =
     Some (Complete (length bs),
       \<lparr>rp_code = Some 200, rp_version = Some 1, rp_headers = [(''Content-Length'', ''2'')]\<rparr>)"

definition whole_read :: "bytes reader" where
  "whole_read s n = (drop n s, Ready (Inr (take n s)))"

lemma whole_read_bounded: "bounded_reader whole_read"
  by (simp add: bounded_reader_def whole_read_def)

lemma has_bare_line_ending_code [code]: "has_bare_line_ending bs = bare_scan False bs"
  by (simp add: has_bare_line_ending_def bare_at_scan)

lemma example_guard_run:
  "snd (run_polls (guard_poll_read whole_read example_response_parser)
     (response_guard_io_new example_response 64 8 False) [10, 100]) =
   [Ready (Inr (take 10 example_response)), Ready (Inr (drop 10 example_response))]"
  by code_simp

theorem read_request_prefix_exact_witness:
  "\<exists>out. snd (read_request_prefix segmented_read 100 ([3, 0, 7], example_head @ ''x'') []) = Inr out"
proof -
  obtain s' r where r: "read_request_prefix segmented_read 100 ([3, 0, 7], example_head @ ''x'') []
      = (s', r)" by fastforce
  have "header_end (take 100 (snd ([3 :: nat, 0, 7], example_head @ ''x''))) \<noteq> None" by code_simp
  with read_request_prefix_exact [OF segmented.stream_reader_axioms r] r show ?thesis
    by auto
qed

theorem response_guard_io_releases_validated_witness:
  "\<exists>w end. header_end w = Some end \<and> length w \<le> 64
     \<and> validate_response_head example_response_parser (take end w) 8 False = Inr ()
     \<and> (prefix (take 10 example_response @ drop 10 example_response) w
        \<or> prefix w (take 10 example_response @ drop 10 example_response))"
proof -
  obtain g' rs where r: "run_polls (guard_poll_read whole_read example_response_parser)
     (response_guard_io_new example_response 64 8 False) [10, 100] = (g', rs)" by fastforce
  have rs: "rs = [Ready (Inr (take 10 example_response)), Ready (Inr (drop 10 example_response))]"
    using example_guard_run by (simp only: r snd_conv)
  have "read_bytes rs = take 10 example_response @ drop 10 example_response" by (simp add: rs)
  moreover from this have "read_bytes rs \<noteq> []" by (simp add: example_response_def)
  ultimately show ?thesis
    using response_guard_io_releases_validated [OF whole_read_bounded r] by auto
qed

theorem validate_response_head_ok_witness:
  "\<not> has_bare_line_ending (take 38 example_response)"
proof -
  have "validate_response_head example_response_parser (take 38 example_response) 8 False = Inr ()"
    by code_simp
  from validate_response_head_ok [OF this] show ?thesis by blast
qed

end
