(* ===== verification/Websocket_Io.thy ===== *)
theory Websocket_Io
  imports Stream_Io
begin

text \<open>
  \<open>crates/transport/src/websocket_io.rs\<close>: the token bucket and the stream wrapper of an upgraded
  tunnel.  One token unit is a billionth of a byte, so that a rate in bytes per second refills one
  unit per byte and nanosecond.  A call that looks at the clock takes the list of its readings: for
  each turn of the waiting loop the instant \<open>now\<close> it reads and the instant at which it polls the
  timer.  \<open>None\<close> means that the loop has used up the readings without returning.
\<close>

section \<open>Definitions\<close>

definition TOKEN_UNITS_PER_BYTE :: nat where
  "TOKEN_UNITS_PER_BYTE = 1000000000"

record byte_rate_limiter =
  bytes_per_second :: nat
  bucket_capacity :: nat
  available :: nat
  last_refill :: instant
  wake :: "instant option"

definition limiter_new :: "nat \<Rightarrow> duration \<Rightarrow> instant \<Rightarrow> byte_rate_limiter" where
  "limiter_new rate burst_window now =
     (let cap = (if rate = 0 then 0
                 else max (saturating_mul u128_max rate burst_window) TOKEN_UNITS_PER_BYTE)
      in \<lparr>bytes_per_second = rate, bucket_capacity = cap, available = cap, last_refill = now,
          wake = None\<rparr>)"

definition refill :: "byte_rate_limiter \<Rightarrow> instant \<Rightarrow> byte_rate_limiter" where
  "refill l now =
     (let elapsed = now - last_refill l;
          added = saturating_mul u128_max (bytes_per_second l) elapsed
      in l\<lparr>last_refill := now,
           available := min (bucket_capacity l) (saturating_add u128_max (available l) added)\<rparr>)"

definition consume :: "byte_rate_limiter \<Rightarrow> nat \<Rightarrow> byte_rate_limiter" where
  "consume l bs =
     (if bytes_per_second l = 0 then l
      else l\<lparr>available :=
             saturating_sub (available l) (saturating_mul u128_max bs TOKEN_UNITS_PER_BYTE)\<rparr>)"

definition wait_nanos :: "byte_rate_limiter \<Rightarrow> nat" where
  "wait_nanos l =
     (let missing = saturating_sub TOKEN_UNITS_PER_BYTE (available l);
          wait = max (div_ceil missing (bytes_per_second l)) 1
      in case try_from u64_max wait of None \<Rightarrow> u64_max | Some w \<Rightarrow> w)"

fun allowance_loop ::
  "byte_rate_limiter \<Rightarrow> (instant \<times> instant) list \<Rightarrow> (byte_rate_limiter \<times> nat poll) option" where
  "allowance_loop l [] = None"
| "allowance_loop l ((now, polled_at) # readings) =
     (let l1 = refill l now; bs = available l1 div TOKEN_UNITS_PER_BYTE in
      if 0 < bs then
        Some (l1\<lparr>wake := None\<rparr>,
              Ready (case try_from usize_max bs of None \<Rightarrow> usize_max | Some b \<Rightarrow> b))
      else
        let deadline = now + wait_nanos l1; l2 = l1\<lparr>wake := Some deadline\<rparr> in
        if polled_at < deadline then Some (l2, Pending)
        else allowance_loop (l2\<lparr>wake := None\<rparr>) readings)"

definition poll_allowance ::
  "byte_rate_limiter \<Rightarrow> (instant \<times> instant) list \<Rightarrow> (byte_rate_limiter \<times> nat poll) option" where
  "poll_allowance l readings =
     (if bytes_per_second l = 0 then Some (l, Ready usize_max) else allowance_loop l readings)"

record 's web_socket_io =
  ws_inner :: "'s"
  ws_activity :: nat
  ws_read_rate :: byte_rate_limiter

definition web_socket_io_new :: "'s \<Rightarrow> nat \<Rightarrow> nat \<Rightarrow> duration \<Rightarrow> instant \<Rightarrow> 's web_socket_io" where
  "web_socket_io_new inner activity rate burst_window now =
     \<lparr>ws_inner = inner, ws_activity = activity, ws_read_rate = limiter_new rate burst_window now\<rparr>"

text \<open>\<open>record_activity\<close>: the sequence number of the watch channel wraps at 64 bits.\<close>

definition record_activity :: "'s web_socket_io \<Rightarrow> 's web_socket_io" where
  "record_activity w = w\<lparr>ws_activity := (ws_activity w + 1) mod 2 ^ 64\<rparr>"

definition ws_poll_read ::
  "'s reader \<Rightarrow> 's web_socket_io \<Rightarrow> nat \<times> (instant \<times> instant) list \<Rightarrow>
     ('s web_socket_io \<times> read_poll) option" where
  "ws_poll_read rd w op =
     (case op of (remaining, readings) \<Rightarrow>
        if remaining = 0 then
          case rd (ws_inner w) 0 of (inner, r) \<Rightarrow> Some (w\<lparr>ws_inner := inner\<rparr>, r)
        else
          case poll_allowance (ws_read_rate w) readings of
            None \<Rightarrow> None
          | Some (l, Pending) \<Rightarrow> Some (w\<lparr>ws_read_rate := l\<rparr>, Pending)
          | Some (l, Ready allowed) \<Rightarrow>
              (case rd (ws_inner w) (min allowed remaining) of (inner, r) \<Rightarrow>
                 let w1 = w\<lparr>ws_inner := inner, ws_read_rate := l\<rparr> in
                 case r of
                   Ready (Inr bs) \<Rightarrow>
                     let w2 = w1\<lparr>ws_read_rate := consume l (length bs)\<rparr>
                     in Some (if bs \<noteq> [] then record_activity w2 else w2, r)
                 | _ \<Rightarrow> Some (w1, r)))"

definition ws_poll_write ::
  "('s \<Rightarrow> bytes \<Rightarrow> 's \<times> (io_error + nat) poll) \<Rightarrow> 's web_socket_io \<Rightarrow> bytes \<Rightarrow>
     's web_socket_io \<times> (io_error + nat) poll" where
  "ws_poll_write wr w buf =
     (case wr (ws_inner w) buf of (inner, r) \<Rightarrow>
        let w1 = w\<lparr>ws_inner := inner\<rparr> in
        case r of
          Ready (Inr written) \<Rightarrow> (if 0 < written then record_activity w1 else w1, r)
        | _ \<Rightarrow> (w1, r))"

text \<open>A sequence of reads, each with its buffer size and its clock readings.\<close>

fun ws_reads ::
  "'s reader \<Rightarrow> 's web_socket_io \<Rightarrow> (nat \<times> (instant \<times> instant) list) list \<Rightarrow>
     ('s web_socket_io \<times> read_poll list) option" where
  "ws_reads rd w [] = Some (w, [])"
| "ws_reads rd w (op # ops) =
     (case ws_poll_read rd w op of
        None \<Rightarrow> None
      | Some (w1, r) \<Rightarrow> map_option (apsnd ((#) r)) (ws_reads rd w1 ops))"

definition clock_readings :: "(nat \<times> (instant \<times> instant) list) list \<Rightarrow> instant list" where
  "clock_readings ops = concat (map (\<lambda>op. map fst (snd op)) ops)"

section \<open>Lemmas\<close>

text \<open>The bucket's account: what has been spent and what is left never exceed the initial burst and
  what the rate has earned since the start.\<close>

definition account :: "nat \<Rightarrow> nat \<Rightarrow> instant \<Rightarrow> nat \<Rightarrow> byte_rate_limiter \<Rightarrow> bool" where
  "account rate cap t0 spent l =
     (bytes_per_second l = rate \<and> bucket_capacity l = cap \<and> t0 \<le> last_refill l \<and> available l \<le> bucket_capacity l
      \<and> bucket_capacity l \<le> u128_max
      \<and> spent * TOKEN_UNITS_PER_BYTE + available l
          \<le> bucket_capacity l + rate * (last_refill l - t0))"

lemma account_refill:
  assumes "account rate cap t0 spent l" "last_refill l \<le> now"
  shows "account rate cap t0 spent (refill l now)"
proof -
  define e where "e = now - last_refill l"
  have now: "now - t0 = (last_refill l - t0) + e"
    using assms by (simp add: account_def e_def)
  have "available (refill l now) \<le> available l + rate * e"
    using assms by (simp add: refill_def e_def account_def Let_def saturating_add_def
        saturating_mul_def)
  moreover have fields: "last_refill (refill l now) = now"
      "bucket_capacity (refill l now) = bucket_capacity l"
      "bytes_per_second (refill l now) = bytes_per_second l"
    and "available (refill l now) \<le> bucket_capacity l"
    by (simp_all add: refill_def Let_def)
  moreover have "rate * (now - t0) = rate * (last_refill l - t0) + rate * e"
    unfolding now by (rule distrib_left)
  ultimately show ?thesis
    using assms unfolding account_def fields by (elim conjE, intro conjI) linarith+
qed

lemma account_wake [simp]: "account rate cap t0 spent (l\<lparr>wake := x\<rparr>) = account rate cap t0 spent l"
  by (simp add: account_def)

lemma account_consume:
  assumes "account rate cap t0 spent l" "n * TOKEN_UNITS_PER_BYTE \<le> available l" "0 < rate"
  shows "account rate cap t0 (spent + n) (consume l n)"
proof -
  have "saturating_mul u128_max n TOKEN_UNITS_PER_BYTE = n * TOKEN_UNITS_PER_BYTE"
    using assms by (simp add: account_def saturating_mul_def)
  with assms show ?thesis
    by (auto simp: account_def consume_def saturating_sub_def distrib_right)
qed

lemma allowance_account:
  assumes "allowance_loop l readings = Some (l', p)" "account rate cap t0 spent l"
    and "sorted (last_refill l # map fst readings)"
  shows "account rate cap t0 spent l'
    \<and> last_refill l' \<in> set (map fst readings)
    \<and> (\<forall>n. p = Ready n \<longrightarrow> n * TOKEN_UNITS_PER_BYTE \<le> available l')"
  using assms
proof (induction l readings rule: allowance_loop.induct)
  case (2 l now polled_at readings)
  let ?l1 = "refill l now"
  have acc: "account rate cap t0 spent ?l1" using 2 account_refill by simp
  have last: "last_refill ?l1 = now" by (simp add: refill_def Let_def)
  consider (ready) "0 < available ?l1 div TOKEN_UNITS_PER_BYTE"
    | (pending) "\<not> 0 < available ?l1 div TOKEN_UNITS_PER_BYTE" "polled_at < now + wait_nanos ?l1"
    | (again) "\<not> 0 < available ?l1 div TOKEN_UNITS_PER_BYTE" "\<not> polled_at < now + wait_nanos ?l1"
    by blast
  then show ?case
  proof cases
    case ready
    have "(case try_from usize_max b of None \<Rightarrow> usize_max | Some b \<Rightarrow> b) \<le> b" for b
      by (simp add: try_from_def)
    then have "(case try_from usize_max (available ?l1 div TOKEN_UNITS_PER_BYTE) of
        None \<Rightarrow> usize_max | Some b \<Rightarrow> b) * TOKEN_UNITS_PER_BYTE \<le> available ?l1"
      by (meson div_times_less_eq_dividend mult_le_mono1 order_trans)
    with ready 2(2) acc last show ?thesis by (auto simp: Let_def)
  next
    case pending
    with 2(2) acc last show ?thesis by (auto simp: Let_def)
  next
    case again
    with 2(2) have "allowance_loop (?l1\<lparr>wake := Some (now + wait_nanos ?l1), wake := None\<rparr>) readings
        = Some (l', p)" by (simp add: Let_def)
    from 2(1) [OF refl refl again(1) refl refl again(2) this] acc last 2(4) show ?thesis by simp
  qed
qed simp

lemma limiter_new_account:
  "account rate (bucket_capacity (limiter_new rate window now)) now 0 (limiter_new rate window now)"
  by (simp add: account_def limiter_new_def Let_def saturating_mul_def u128_max_def
      TOKEN_UNITS_PER_BYTE_def)

lemma ws_read_account:
  assumes "ws_poll_read rd w (remaining, readings) = Some (w', r)" "bounded_reader rd" "0 < rate"
    and "account rate cap t0 spent (ws_read_rate w)"
    and "sorted (last_refill (ws_read_rate w) # map fst readings)"
  shows "account rate cap t0 (spent + length (ready_bytes r)) (ws_read_rate w')
    \<and> last_refill (ws_read_rate w') \<in> {last_refill (ws_read_rate w)} \<union> set (map fst readings)"
proof (cases "remaining = 0")
  case True
  with assms(1,2,4) show ?thesis
    by (cases r rule: ready_bytes.cases)
       (fastforce simp: ws_poll_read_def bounded_reader_def split: prod.splits)+
next
  case False
  have rate: "bytes_per_second (ws_read_rate w) \<noteq> 0" using assms(3,4) by (simp add: account_def)
  with assms(1) False obtain l p where l: "allowance_loop (ws_read_rate w) readings = Some (l, p)"
    by (auto simp: ws_poll_read_def poll_allowance_def split: option.splits)
  note A = allowance_account [OF l assms(4,5)]
  show ?thesis
  proof (cases p)
    case Pending
    with l assms(1) False rate have "w' = w\<lparr>ws_read_rate := l\<rparr>" "r = Pending"
      by (auto simp: ws_poll_read_def poll_allowance_def)
    with A show ?thesis by simp
  next
    case (Ready allowed)
    obtain s1 q where q: "rd (ws_inner w) (min allowed remaining) = (s1, q)" by fastforce
    have out: "r = q" "ws_read_rate w' = (case q of Ready (Inr bs) \<Rightarrow> consume l (length bs) | _ \<Rightarrow> l)"
      using assms(1) False rate l Ready q
      by (auto simp: ws_poll_read_def poll_allowance_def record_activity_def Let_def
          split: poll.splits sum.splits)
    have "length bs * TOKEN_UNITS_PER_BYTE \<le> available l" if "q = Ready (Inr bs)" for bs
    proof -
      have "length bs \<le> allowed" using assms(2) q that by (fastforce simp: bounded_reader_def)
      moreover have "allowed * TOKEN_UNITS_PER_BYTE \<le> available l" using A Ready by simp
      ultimately show ?thesis by (meson mult_le_mono1 order_trans)
    qed
    then have "account rate cap t0 (spent + length (ready_bytes r)) (ws_read_rate w')"
      using A out account_consume [OF _ _ assms(3)] by (simp split: poll.splits sum.splits)
    moreover have "last_refill (ws_read_rate w') = last_refill l"
      using out by (simp add: consume_def split: poll.splits sum.splits)
    ultimately show ?thesis using A by simp
  qed
qed

lemma ws_reads_account:
  assumes "ws_reads rd w ops = Some (w', rs)" "bounded_reader rd" "0 < rate"
    and "account rate cap t0 spent (ws_read_rate w)"
    and "sorted (last_refill (ws_read_rate w) # clock_readings ops)"
  shows "account rate cap t0 (spent + length (read_bytes rs)) (ws_read_rate w')
    \<and> last_refill (ws_read_rate w') \<in> {last_refill (ws_read_rate w)} \<union> set (clock_readings ops)"
  using assms(1,4,5)
proof (induction ops arbitrary: w spent rs)
  case (Cons op ops)
  obtain remaining readings where op: "op = (remaining, readings)" by fastforce
  from Cons.prems(1) obtain w1 r qs where 1: "ws_poll_read rd w (remaining, readings) = Some (w1, r)"
    and 2: "ws_reads rd w1 ops = Some (w', qs)" and rs: "rs = r # qs"
    by (auto simp: op split: option.splits prod.splits)
  define xs where "xs = map fst readings"
  have cr: "clock_readings (op # ops) = xs @ clock_readings ops"
    by (simp add: clock_readings_def op xs_def)
  have so: "sorted (last_refill (ws_read_rate w) # map fst readings)"
    using Cons.prems(3) by (simp add: cr sorted_append flip: xs_def)
  note A = ws_read_account [OF 1 assms(2,3) Cons.prems(2) so, folded xs_def]
  have "sorted (last_refill (ws_read_rate w1) # clock_readings ops)"
    using A Cons.prems(3) by (auto simp: cr sorted_append)
  from Cons.IH [OF 2 conjunct1 [OF A] this] A show ?case
    by (auto simp: rs cr add.assoc)
qed (simp add: clock_readings_def)

lemma refill_fields:
  "last_refill (refill l now) = now" "bucket_capacity (refill l now) = bucket_capacity l"
  "bytes_per_second (refill l now) = bytes_per_second l"
  by (simp_all add: refill_def Let_def)

lemma refill_enough:
  assumes "TOKEN_UNITS_PER_BYTE \<le> bucket_capacity l"
    and "TOKEN_UNITS_PER_BYTE \<le> available l + bytes_per_second l * (now - last_refill l)"
  shows "TOKEN_UNITS_PER_BYTE \<le> available (refill l now)"
proof -
  have u: "TOKEN_UNITS_PER_BYTE \<le> u128_max" by (simp add: TOKEN_UNITS_PER_BYTE_def u128_max_def)
  define x where "x = bytes_per_second l * (now - last_refill l)"
  have "TOKEN_UNITS_PER_BYTE \<le> available l + min u128_max x"
    using u assms(2) by (auto simp: x_def min_def)
  then show ?thesis
    using u assms(1)
    by (simp add: refill_def Let_def saturating_add_def saturating_mul_def flip: x_def)
qed

lemma wait_enough:
  assumes "0 < bytes_per_second l" "available l < TOKEN_UNITS_PER_BYTE" "wait_nanos l \<le> e"
  shows "TOKEN_UNITS_PER_BYTE \<le> available l + bytes_per_second l * e"
proof -
  let ?m = "TOKEN_UNITS_PER_BYTE - available l" and ?r = "bytes_per_second l"
  have up: "?m \<le> ?r * ((?m + ?r - 1) div ?r)"
  proof -
    have "?m + ?r - 1 = ?r * ((?m + ?r - 1) div ?r) + (?m + ?r - 1) mod ?r" by simp
    moreover have "(?m + ?r - 1) mod ?r < ?r" using assms(1) by (rule mod_less_divisor)
    ultimately show ?thesis using assms(1) by linarith
  qed
  have "?m + ?r - 1 < (?m + 1) * ?r"
  proof -
    have "?m * 1 \<le> ?m * ?r" using assms(1) by (intro mult_le_mono2) simp
    moreover have "(?m + 1) * ?r = ?m * ?r + ?r" by simp
    ultimately show ?thesis using assms(1) by linarith
  qed
  then have "(?m + ?r - 1) div ?r < ?m + 1"
    using assms(1) by (simp add: div_less_iff_less_mult)
  then have "wait_nanos l = max ((?m + ?r - 1) div ?r) 1"
    using assms by (simp add: wait_nanos_def div_ceil_def saturating_sub_def try_from_def Let_def
        TOKEN_UNITS_PER_BYTE_def u64_max_def)
  with assms(3) have "(?m + ?r - 1) div ?r \<le> e" by simp
  then have "?r * ((?m + ?r - 1) div ?r) \<le> ?r * e" by simp
  with up show ?thesis by linarith
qed

section \<open>Properties\<close>

text \<open>C14: over any sequence of reads on a monotonic clock, the bytes a tunnel direction lets through
  never exceed the burst capacity and the configured rate times the elapsed time: in units of a
  billionth of a byte, \<open>bytes \<le> capacity + rate * nanoseconds\<close>.\<close>

theorem websocket_rate_bound:
  assumes "0 < rate" and "bounded_reader rd"
    and "ws_reads rd (web_socket_io_new inner activity rate window t0) ops = Some (w', rs)"
    and "sorted (t0 # clock_readings ops)"
  shows "length (read_bytes rs) * TOKEN_UNITS_PER_BYTE
    \<le> max (saturating_mul u128_max rate window) TOKEN_UNITS_PER_BYTE
       + rate * (last (t0 # clock_readings ops) - t0)"
proof -
  let ?w = "web_socket_io_new inner activity rate window t0"
  let ?cap = "bucket_capacity (limiter_new rate window t0)"
  have acc: "account rate ?cap t0 0 (ws_read_rate ?w)" and t: "last_refill (ws_read_rate ?w) = t0"
    using limiter_new_account by (simp_all add: web_socket_io_new_def limiter_new_def Let_def)
  have so: "sorted (last_refill (ws_read_rate ?w) # clock_readings ops)" using assms(4) t by simp
  note A = ws_reads_account [OF assms(3,2,1) acc so]
  have "last_refill (ws_read_rate w') \<le> last (t0 # clock_readings ops)"
  proof -
    have "x \<le> last xs" if "sorted xs" "x \<in> set xs" for x and xs :: "nat list"
      using that by (induction xs) (auto split: if_splits)
    with assms(4) A t show ?thesis by (metis UnE set_ConsD insert_iff list.set(2) singletonD)
  qed
  then have "rate * (last_refill (ws_read_rate w') - t0) \<le> rate * (last (t0 # clock_readings ops) - t0)"
    by (intro mult_le_mono2 diff_le_mono)
  moreover have "?cap = max (saturating_mul u128_max rate window) TOKEN_UNITS_PER_BYTE"
    using assms(1) by (simp add: limiter_new_def Let_def)
  moreover from A have "length (read_bytes rs) * TOKEN_UNITS_PER_BYTE
      \<le> bucket_capacity (ws_read_rate w') + rate * (last_refill (ws_read_rate w') - t0)"
    and "bucket_capacity (ws_read_rate w') = ?cap"
    by (auto simp: account_def)
  ultimately show ?thesis by linarith
qed

text \<open>waiting for tokens ends: when the timer keeps its deadline and the clock is monotonic, the
  loop of \<open>poll_allowance\<close> returns within two turns, either pending or with at least one byte.\<close>

lemma poll_allowance_returns:
  assumes "TOKEN_UNITS_PER_BYTE \<le> bucket_capacity l" and "available l \<le> bucket_capacity l"
    and "now1 \<le> polled1" and "polled1 \<le> now2"
  shows "\<exists>l' p. poll_allowance l [(now1, polled1), (now2, polled2)] = Some (l', p)
    \<and> (\<forall>n. p = Ready n \<longrightarrow> 0 < n)"
proof (cases "bytes_per_second l = 0")
  case True
  then show ?thesis by (simp add: poll_allowance_def usize_max_def u64_max_def)
next
  case False
  let ?l1 = "refill l now1"
  have pos: "0 < (case try_from usize_max b of None \<Rightarrow> usize_max | Some b \<Rightarrow> b)" if "0 < b" for b
    using that by (simp add: try_from_def usize_max_def u64_max_def)
  have "0 < available (refill (?l1\<lparr>wake := None\<rparr>) now2) div TOKEN_UNITS_PER_BYTE"
    if short: "\<not> 0 < available ?l1 div TOKEN_UNITS_PER_BYTE"
      and late: "\<not> polled1 < now1 + wait_nanos ?l1"
  proof -
    have "available ?l1 < TOKEN_UNITS_PER_BYTE"
      using short by (simp add: TOKEN_UNITS_PER_BYTE_def div_greater_zero_iff)
    moreover have "wait_nanos ?l1 \<le> now2 - now1" using late assms(3,4) by simp
    ultimately have "TOKEN_UNITS_PER_BYTE \<le> available ?l1 + bytes_per_second l * (now2 - now1)"
      using False wait_enough [of ?l1 "now2 - now1"] by (simp add: refill_fields)
    then have "TOKEN_UNITS_PER_BYTE \<le> available (refill (?l1\<lparr>wake := None\<rparr>) now2)"
      using assms(1) by (intro refill_enough) (simp_all add: refill_fields)
    then show ?thesis by (simp add: TOKEN_UNITS_PER_BYTE_def div_greater_zero_iff)
  qed
  with False pos show ?thesis by (auto simp: poll_allowance_def Let_def)
qed

section \<open>Witnesses\<close>

definition example_ops :: "(nat \<times> (instant \<times> instant) list) list" where
  "example_ops = [(8, [(0, 0)]), (8, [(1000000000, 1000000000)])]"

theorem websocket_rate_bound_witness:
  "length (read_bytes [Ready (Inr ''abcd''), Ready (Inr ''ef'')]) * TOKEN_UNITS_PER_BYTE
    \<le> max (saturating_mul u128_max 2 2000000000) TOKEN_UNITS_PER_BYTE
       + 2 * (last (0 # clock_readings example_ops) - 0)"
proof -
  have "map_option snd (ws_reads whole_read (web_socket_io_new ''abcdefgh'' 0 2 2000000000 0) example_ops)
      = Some [Ready (Inr ''abcd''), Ready (Inr ''ef'')]"
    by code_simp
  then obtain w where "ws_reads whole_read (web_socket_io_new ''abcdefgh'' 0 2 2000000000 0) example_ops
      = Some (w, [Ready (Inr ''abcd''), Ready (Inr ''ef'')])" by auto
  from websocket_rate_bound [OF _ whole_read_bounded this] show ?thesis
    by (simp add: example_ops_def clock_readings_def)
qed

theorem poll_allowance_returns_witness:
  "\<exists>l' p. poll_allowance (consume (limiter_new 1 1000000000 0) 1)
      [(0, 1000000000), (1000000000, 1000000000)] = Some (l', p)"
proof -
  have "TOKEN_UNITS_PER_BYTE \<le> bucket_capacity (consume (limiter_new 1 1000000000 0) 1)"
    "available (consume (limiter_new 1 1000000000 0) 1)
       \<le> bucket_capacity (consume (limiter_new 1 1000000000 0) 1)" by code_simp+
  from poll_allowance_returns [OF this, of 0 1000000000 1000000000 1000000000] show ?thesis by auto
qed

end
