(* ===== verification/Websocket_Handshake.thy ===== *)
theory Websocket_Handshake
  imports Proxy_Http Websocket_Io
begin

text \<open>
  The WebSocket handshake of \<open>crates/transport/src/proxy.rs\<close>: validation of the browser's offer, the
  request built for the upstream, validation of its answer and the answer to the browser.
\<close>

section \<open>Definitions\<close>

definition require_single_exact ::
  "'h http_api \<Rightarrow> 'h \<Rightarrow> string \<Rightarrow> bytes \<Rightarrow> bool \<Rightarrow> proxy_failure + unit" where
  "require_single_exact A headers name expected case_insensitive =
     (let vals = hm_get_all A headers name in
      if length vals \<noteq> 1 then Inl (Failure ''required WebSocket header missing'')
      else if \<not> (if case_insensitive then eq_ignore_ascii_case (vals ! 0) expected
                 else vals ! 0 = expected)
      then Inl (Failure ''required WebSocket header invalid'')
      else Inr ())"

definition WEBSOCKET_GUID :: bytes where
  "WEBSOCKET_GUID = ''258EAFA5-E914-47DA-95CA-C5AB0DC85B11''"

definition derive_websocket_accept :: "'h http_api \<Rightarrow> bytes \<Rightarrow> proxy_failure + bytes" where
  "derive_websocket_accept A key =
     ok_or (header_value_from_str A (websocket_digest A (key @ WEBSOCKET_GUID))) InvalidHeaderValue"

fun collect_protocols :: "string list \<Rightarrow> string list \<Rightarrow> proxy_failure + string list" where
  "collect_protocols [] protocols = Inr protocols"
| "collect_protocols (item # items) protocols =
     (let protocol = str_trim item in
      if protocol = [] \<or> \<not> list_all is_token_byte protocol \<or> protocol \<in> set protocols
      then Inl (Failure ''invalid WebSocket protocol'')
      else collect_protocols items (protocols @ [protocol]))"

definition parse_protocols :: "'h http_api \<Rightarrow> 'h \<Rightarrow> proxy_failure + string list" where
  "parse_protocols A headers =
     (let vals = hm_get_all A headers ''sec-websocket-protocol'' in
      if 1 < length vals then Inl (Failure ''ambiguous WebSocket protocols'')
      else
        case vals of
          [] \<Rightarrow> Inr []
        | v # _ \<Rightarrow> rbind (ok_or (header_value_to_str A v) NotText)
                     (\<lambda>s. collect_protocols (split_on (CHR '','') s) []))"

definition valid_extension_value :: "string \<Rightarrow> bool" where
  "valid_extension_value value =
     (list_all is_token_byte value
      \<or> (2 \<le> length value \<and> hd value = CHR 0x22 \<and> last value = CHR 0x22
         \<and> list_all (\<lambda>c. byte c = 9 \<or> (32 \<le> byte c \<and> c \<noteq> CHR 0x22 \<and> c \<noteq> CHR 0x5C))
              (butlast (tl value))))"

fun validate_parameters :: "string list \<Rightarrow> string list \<Rightarrow> proxy_failure + unit" where
  "validate_parameters [] seen = Inr ()"
| "validate_parameters (raw # rest) seen =
     (case split_attribute (str_trim raw) of (name, value) \<Rightarrow>
        if name = [] \<or> \<not> list_all is_token_byte name \<or> to_ascii_lowercase name \<in> set seen
        then Inl (Failure ''invalid WebSocket extension parameter'')
        else if (case value of None \<Rightarrow> False | Some v \<Rightarrow> \<not> valid_extension_value v)
        then Inl (Failure ''invalid WebSocket extension parameter'')
        else validate_parameters rest (to_ascii_lowercase name # seen))"

fun validate_extension_list :: "string list \<Rightarrow> string list \<Rightarrow> proxy_failure + unit" where
  "validate_extension_list [] seen = Inr ()"
| "validate_extension_list (extension # rest) seen =
     (let parts = split_on (CHR '';'') extension; name = str_trim (hd parts) in
      if name = [] \<or> \<not> list_all is_token_byte name \<or> to_ascii_lowercase name \<in> set seen
      then Inl (Failure ''invalid WebSocket extension'')
      else rbind (validate_parameters (tl parts) [])
             (\<lambda>_. validate_extension_list rest (to_ascii_lowercase name # seen)))"

definition validate_extensions :: "'h http_api \<Rightarrow> 'h \<Rightarrow> proxy_failure + unit" where
  "validate_extensions A headers =
     (let vals = hm_get_all A headers ''sec-websocket-extensions'' in
      if 1 < length vals then Inl (Failure ''ambiguous WebSocket extensions'')
      else
        case vals of
          [] \<Rightarrow> Inr ()
        | v # _ \<Rightarrow> rbind (ok_or (header_value_to_str A v) NotText)
                     (\<lambda>s. validate_extension_list (split_on (CHR '','') s) []))"

record web_socket_offer =
  offer_path :: uri
  offer_key :: bytes
  offer_expected_accept :: bytes
  offer_protocols :: "string list"
  offer_application_cookie :: "bytes option"

definition single_key :: "'h http_api \<Rightarrow> 'h \<Rightarrow> proxy_failure + bytes" where
  "single_key A headers =
     (let keys = hm_get_all A headers ''sec-websocket-key'' in
      if length keys \<noteq> 1 then Inl (Failure ''invalid WebSocket key'')
      else
        rbind (ok_or (base64_decode A (keys ! 0)) (Failure ''invalid WebSocket key'')) (\<lambda>decoded.
          if length decoded \<noteq> 16 then Inl (Failure ''invalid WebSocket key'')
          else Inr (keys ! 0)))"

definition validate_websocket_request ::
  "'h http_api \<Rightarrow> ('h, 'b) request \<Rightarrow> string \<Rightarrow> proxy_failure + web_socket_offer" where
  "validate_websocket_request A request expected_origin =
     (let headers = req_headers request in
      if req_method request \<noteq> ''GET'' \<or> req_version request \<noteq> 11
         \<or> hm_contains_key A headers ''content-length''
         \<or> hm_contains_key A headers ''transfer-encoding''
         \<or> hm_contains_key A headers ''trailer''
      then Inl (Failure ''invalid WebSocket request shape'')
      else
        rbind (require_single_exact A headers ''upgrade'' ''websocket'' True) (\<lambda>_.
        rbind (require_single_exact A headers ''sec-websocket-version'' ''13'' False) (\<lambda>_.
        rbind (require_single_exact A headers ''origin'' expected_origin False) (\<lambda>_.
        rbind (single_key A headers) (\<lambda>key.
        rbind (parse_protocols A headers) (\<lambda>protocols.
        rbind (validate_extensions A headers) (\<lambda>_.
        rbind (derive_websocket_accept A key) (\<lambda>expected_accept.
        rbind (origin_form_uri A (req_uri request)) (\<lambda>path.
          Inr \<lparr>offer_path = path, offer_key = key, offer_expected_accept = expected_accept,
               offer_protocols = protocols,
               offer_application_cookie =
                 (case hm_get_all A headers ''cookie'' of [] \<Rightarrow> None | c # _ \<Rightarrow> Some c)\<rparr>)))))))))"

text \<open>The header map of the upstream request, filled in the order of the source.\<close>

definition upstream_websocket_headers ::
  "'h http_api \<Rightarrow> web_socket_offer \<Rightarrow> bytes \<Rightarrow> bytes \<Rightarrow> bytes option \<Rightarrow> bytes \<Rightarrow> 'h" where
  "upstream_websocket_headers A offer host origin protocols protected =
     (let h1 = hm_insert A (hm_empty A) ''host'' host;
          h2 = hm_insert A h1 ''connection'' ''Upgrade'';
          h3 = hm_insert A h2 ''upgrade'' ''websocket'';
          h4 = hm_insert A h3 ''sec-websocket-version'' ''13'';
          h5 = hm_insert A h4 ''sec-websocket-key'' (offer_key offer);
          h6 = hm_insert A h5 ''origin'' origin;
          h7 = (case protocols of
                  None \<Rightarrow> h6 | Some p \<Rightarrow> hm_insert A h6 ''sec-websocket-protocol'' p);
          h8 = (case offer_application_cookie offer of
                  None \<Rightarrow> h7 | Some c \<Rightarrow> hm_insert A h7 ''cookie'' c)
      in hm_insert A h8 PROTECTED_HEADER protected)"

definition build_upstream_websocket_request ::
  "'h http_api \<Rightarrow> web_socket_offer \<Rightarrow> socket_v4 \<Rightarrow> secret \<Rightarrow> proxy_failure + ('h, unit) request" where
  "build_upstream_websocket_request A offer upstream upstream_secret =
     rbind (ok_or (header_value_from_str A (v4_string upstream)) InvalidHeaderValue) (\<lambda>host.
     rbind (ok_or (header_value_from_str A (''http://'' @ v4_string upstream)) InvalidHeaderValue)
       (\<lambda>origin.
     rbind (if offer_protocols offer \<noteq> [] then
              rbind (ok_or (header_value_from_str A (join_with '', '' (offer_protocols offer)))
                       InvalidHeaderValue) (\<lambda>p. Inr (Some p))
            else Inr None) (\<lambda>protocols.
     rbind (ok_or (header_value_from_str A (secret_value upstream_secret)) InvalidHeaderValue)
       (\<lambda>protected.
          Inr \<lparr>req_method = ''GET'', req_uri = offer_path offer, req_version = 11,
               req_headers = upstream_websocket_headers A offer host origin protocols protected,
               req_body = ()\<rparr>))))"

definition validate_websocket_response ::
  "'h http_api \<Rightarrow> ('h, 'c) response \<Rightarrow> web_socket_offer \<Rightarrow> proxy_failure + string option" where
  "validate_websocket_response A response offer =
     (let headers = res_headers response in
      if res_status response \<noteq> 101 \<or> res_version response \<noteq> 11
         \<or> hm_contains_key A headers ''content-length''
         \<or> hm_contains_key A headers ''transfer-encoding''
         \<or> hm_contains_key A headers ''sec-websocket-extensions''
      then Inl (Failure ''invalid upstream WebSocket response'')
      else
        rbind (require_single_exact A headers ''connection'' ''upgrade'' True) (\<lambda>_.
        rbind (require_single_exact A headers ''upgrade'' ''websocket'' True) (\<lambda>_.
        rbind (require_single_exact A headers ''sec-websocket-accept''
                 (offer_expected_accept offer) False) (\<lambda>_.
          let protocols = hm_get_all A headers ''sec-websocket-protocol'' in
          if 1 < length protocols then Inl (Failure ''invalid upstream WebSocket protocol'')
          else
            rbind (case protocols of
                     [] \<Rightarrow> Inr None
                   | p # _ \<Rightarrow> rbind (ok_or (header_value_to_str A p) NotText) (\<lambda>s. Inr (Some s)))
              (\<lambda>selected.
                 if (case selected of None \<Rightarrow> False | Some p \<Rightarrow> p \<notin> set (offer_protocols offer))
                 then Inl (Failure ''unoffered upstream WebSocket protocol'')
                 else Inr selected)))))"

definition downstream_websocket_response ::
  "'h http_api \<Rightarrow> web_socket_offer \<Rightarrow> string option \<Rightarrow> proxy_failure + ('h, unit) response" where
  "downstream_websocket_response A offer selected_protocol =
     (let h1 = hm_insert A (hm_empty A) ''connection'' ''Upgrade'';
          h2 = hm_insert A h1 ''upgrade'' ''websocket'';
          h3 = hm_insert A h2 ''sec-websocket-accept'' (offer_expected_accept offer) in
      rbind (case selected_protocol of
               None \<Rightarrow> Inr h3
             | Some p \<Rightarrow> rbind (ok_or (header_value_from_str A p) InvalidHeaderValue)
                          (\<lambda>v. Inr (hm_insert A h3 ''sec-websocket-protocol'' v)))
        (\<lambda>h. Inr \<lparr>res_status = 101, res_version = 11, res_headers = h, res_body = ()\<rparr>))"

text \<open>
  \<open>wait_until_idle\<close>: the instant at which it returns, from the recorded activity and the closing of
  the activity channel.  A change seen no later than the deadline restarts the wait; \<open>timeout\<close> polls
  the awaited change before its timer.
\<close>

datatype activity_event = Changed instant | SenderClosed instant

fun wait_until_idle :: "duration \<Rightarrow> instant \<Rightarrow> activity_event list \<Rightarrow> instant" where
  "wait_until_idle idle_timeout started [] = started + idle_timeout"
| "wait_until_idle idle_timeout started (Changed t # events) =
     (if t \<le> started + idle_timeout then wait_until_idle idle_timeout t events
      else started + idle_timeout)"
| "wait_until_idle idle_timeout started (SenderClosed t # events) =
     min t (started + idle_timeout)"

section \<open>Lemmas\<close>

lemma require_single_exact_ok:
  "require_single_exact A h n e ci = Inr u \<longleftrightarrow>
     (\<exists>v. hm_get_all A h n = [v] \<and> (if ci then eq_ignore_ascii_case v e else v = e))"
  by (auto simp: require_single_exact_def Let_def length_Suc_conv split: if_splits)

lemma collect_protocols_ok:
  assumes "collect_protocols items ps = Inr out"
  shows "out = ps @ map str_trim items
    \<and> (distinct ps \<longrightarrow> distinct out)
    \<and> (\<forall>p \<in> set (map str_trim items). p \<noteq> [] \<and> list_all is_token_byte p)"
  using assms
proof (induction items arbitrary: ps)
  case (Cons item items)
  then have ok: "str_trim item \<noteq> []" "list_all is_token_byte (str_trim item)"
    "str_trim item \<notin> set ps" and rest: "collect_protocols items (ps @ [str_trim item]) = Inr out"
    by (auto simp: Let_def split: if_splits)
  note IH = Cons.IH [OF rest]
  have "distinct (ps @ [str_trim item])" if "distinct ps" using ok that by simp
  then have "distinct ps \<longrightarrow> distinct out" using IH by blast
  moreover have "out = ps @ map str_trim (item # items)" using IH by simp
  ultimately show ?case using IH ok by simp
qed simp

lemma parse_protocols_ok:
  assumes "parse_protocols A h = Inr ps"
  shows "distinct ps \<and> (\<forall>p \<in> set ps. p \<noteq> [] \<and> list_all is_token_byte p)"
proof (cases "hm_get_all A h ''sec-websocket-protocol''")
  case Nil
  with assms show ?thesis by (simp add: parse_protocols_def)
next
  case (Cons v vs)
  with assms obtain s where "collect_protocols (split_on (CHR '','') s) [] = Inr ps"
    by (auto simp: parse_protocols_def split: if_splits)
  from collect_protocols_ok [OF this] show ?thesis by auto
qed

lemma token_visible: "is_token_byte c \<Longrightarrow> visible_ascii c"
  by (auto simp: is_token_byte_def visible_ascii_def ascii_defs byte_def)

lemma validate_websocket_request_ok:
  assumes "validate_websocket_request A request origin = Inr offer"
  shows "req_method request = ''GET''"
    and "hm_get_all A (req_headers request) ''origin'' = [origin]"
    and "hm_get_all A (req_headers request) ''sec-websocket-key'' = [offer_key offer]"
    and "derive_websocket_accept A (offer_key offer) = Inr (offer_expected_accept offer)"
    and "parse_protocols A (req_headers request) = Inr (offer_protocols offer)"
    and "origin_form_uri A (req_uri request) = Inr (offer_path offer)"
    and "offer_application_cookie offer =
      (case hm_get_all A (req_headers request) ''cookie'' of [] \<Rightarrow> None | c # _ \<Rightarrow> Some c)"
  using assms
  by (auto simp: validate_websocket_request_def single_key_def require_single_exact_ok Let_def
      length_Suc_conv split: if_splits)

context http_laws
begin

lemma get_all_upstream_websocket:
  "hm_get_all A (upstream_websocket_headers A offer host origin protocols protected) n =
    (if n = PROTECTED_HEADER then [protected]
     else if n = ''cookie'' \<and> offer_application_cookie offer \<noteq> None
     then [the (offer_application_cookie offer)]
     else if n = ''sec-websocket-protocol'' \<and> protocols \<noteq> None then [the protocols]
     else if n = ''origin'' then [origin]
     else if n = ''sec-websocket-key'' then [offer_key offer]
     else if n = ''sec-websocket-version'' then [''13'']
     else if n = ''upgrade'' then [''websocket'']
     else if n = ''connection'' then [''Upgrade'']
     else if n = ''host'' then [host]
     else [])"
  by (auto simp: upstream_websocket_headers_def Let_def split: option.splits)

lemma build_upstream_ok:
  assumes "build_upstream_websocket_request A offer upstream s = Inr request"
  shows "req_headers request = upstream_websocket_headers A offer (v4_string upstream)
      (''http://'' @ v4_string upstream)
      (if offer_protocols offer = [] then None else Some (join_with '', '' (offer_protocols offer)))
      (secret_value s)"
    and "req_uri request = offer_path offer" and "req_method request = ''GET''"
  using assms
  by (auto simp: build_upstream_websocket_request_def dest!: from_str_same split: if_splits)

lemma downstream_response_ok:
  assumes "downstream_websocket_response A offer selected = Inr response"
  shows "res_status response = 101"
    and "hm_get_all A (res_headers response) ''sec-websocket-accept'' = [offer_expected_accept offer]"
    and "hm_get_all A (res_headers response) ''sec-websocket-protocol'' =
      (case selected of None \<Rightarrow> [] | Some p \<Rightarrow> [p])"
    and "hm_get_all A (res_headers response) ''set-cookie'' = []"
    and "hm_get_all A (res_headers response) PROTECTED_HEADER = []"
    and "hm_get_all A (res_headers response) BOOTSTRAP_HEADER_NAME = []"
  using assms
  by (auto simp: downstream_websocket_response_def PROTECTED_HEADER_def BOOTSTRAP_HEADER_NAME_def Let_def
      dest!: from_str_same split: option.splits)

end

lemma validate_websocket_response_ok:
  assumes "validate_websocket_response A response offer = Inr selected"
  shows "res_status response = 101"
    and "hm_get_all A (res_headers response) ''sec-websocket-accept'' = [offer_expected_accept offer]"
    and "hm_get_all A (res_headers response) ''sec-websocket-extensions'' = []"
    and "selected = Some p \<Longrightarrow> p \<in> set (offer_protocols offer)"
  using assms
  by (auto simp: validate_websocket_response_def require_single_exact_ok hm_contains_key_def Let_def
      split: if_splits option.splits)

section \<open>Properties\<close>

text \<open>the request opened upstream for an accepted browser offer carries exactly the offered key and
  protocols, the upstream's own host and origin and the upstream secret once; no other header of the
  browser's request reaches the upstream, in particular no extension offer and no cookie but the one
  left after authentication.\<close>

lemma websocket_upstream_request:
  assumes "http_laws A"
    and "validate_websocket_request A request expected_origin = Inr offer"
    and "build_upstream_websocket_request A offer upstream s = Inr upstream_request"
  shows "hm_get_all A (req_headers upstream_request) PROTECTED_HEADER = [secret_value s]
    \<and> hm_get_all A (req_headers upstream_request) ''host'' = [v4_string upstream]
    \<and> hm_get_all A (req_headers upstream_request) ''origin'' = [''http://'' @ v4_string upstream]
    \<and> hm_get_all A (req_headers upstream_request) ''sec-websocket-key''
        = hm_get_all A (req_headers request) ''sec-websocket-key''
    \<and> hm_get_all A (req_headers upstream_request) ''cookie''
        = take 1 (hm_get_all A (req_headers request) ''cookie'')
    \<and> (\<forall>n. n \<notin> {PROTECTED_HEADER, ''host'', ''origin'', ''connection'', ''upgrade'',
                    ''sec-websocket-version'', ''sec-websocket-key'', ''sec-websocket-protocol'',
                    ''cookie''} \<longrightarrow> hm_get_all A (req_headers upstream_request) n = [])"
proof -
  note V = validate_websocket_request_ok [OF assms(2)]
  note R = http_laws.build_upstream_ok [OF assms(1,3)]
  note G = http_laws.get_all_upstream_websocket [OF assms(1)]
  show ?thesis
    unfolding R(1) using V(3,7)
    by (auto simp: G PROTECTED_HEADER_def split: list.splits)
qed

text \<open>when the handshake succeeds, the browser is given the accept value derived from its own key,
  the same value the upstream proved, and a sub-protocol only if it offered it; the upstream
  negotiated no extension.\<close>

lemma websocket_handshake_agrees:
  assumes "http_laws A"
    and "validate_websocket_request A request expected_origin = Inr offer"
    and "validate_websocket_response A upstream_response offer = Inr selected"
    and "downstream_websocket_response A offer selected = Inr response"
  shows "\<exists>key. hm_get_all A (req_headers request) ''sec-websocket-key'' = [key]
    \<and> hm_get_all A (res_headers response) ''sec-websocket-accept''
        = [websocket_digest A (key @ WEBSOCKET_GUID)]
    \<and> hm_get_all A (res_headers upstream_response) ''sec-websocket-accept''
        = [websocket_digest A (key @ WEBSOCKET_GUID)]
    \<and> hm_get_all A (res_headers upstream_response) ''sec-websocket-extensions'' = []
    \<and> set (hm_get_all A (res_headers response) ''sec-websocket-protocol'')
        \<subseteq> set (offer_protocols offer)
    \<and> distinct (offer_protocols offer)"
proof -
  note V = validate_websocket_request_ok [OF assms(2)]
  note W = validate_websocket_response_ok [OF assms(3)]
  note D = http_laws.downstream_response_ok [OF assms(1,4)]
  have "offer_expected_accept offer = websocket_digest A (offer_key offer @ WEBSOCKET_GUID)"
    using V(4) http_laws.from_str_same [OF assms(1)] by (auto simp: derive_websocket_accept_def)
  with V(3) W(2,3,4) D(2,3) parse_protocols_ok [OF V(5)] show ?thesis
    by (auto split: option.splits)
qed

section \<open>Witnesses\<close>

definition example_offer_request :: "(header_list, unit) request" where
  "example_offer_request =
     \<lparr>req_method = ''GET'',
      req_uri = \<lparr>uri_path = ''/w'', uri_query = None, uri_scheme = None, uri_authority = None\<rparr>,
      req_version = 11,
      req_headers = [(''upgrade'', ''WebSocket''), (''sec-websocket-version'', ''13''),
        (''origin'', ''http://a:1''), (''sec-websocket-key'', ''0123456789abcdef''),
        (''sec-websocket-protocol'', ''chat, v2''),
        (''sec-websocket-extensions'', ''permessage-deflate; client_max_window_bits''),
        (''cookie'', ''a=1'')],
      req_body = ()\<rparr>"

definition example_upstream :: socket_v4 where
  "example_upstream = \<lparr>v4_addr = 127 * 2 ^ 24 + 1, v4_port = 8080\<rparr>"

definition example_offer :: web_socket_offer where
  "example_offer =
     \<lparr>offer_path = \<lparr>uri_path = ''/w'', uri_query = None, uri_scheme = None, uri_authority = None\<rparr>,
      offer_key = ''0123456789abcdef'',
      offer_expected_accept = ''0123456789abcdef'' @ WEBSOCKET_GUID,
      offer_protocols = [''chat'', ''v2''], offer_application_cookie = Some ''a=1''\<rparr>"

definition example_switch :: "(header_list, unit) response" where
  "example_switch =
     \<lparr>res_status = 101, res_version = 11,
      res_headers = [(''connection'', ''Upgrade''), (''upgrade'', ''websocket''),
        (''sec-websocket-accept'', ''0123456789abcdef'' @ WEBSOCKET_GUID),
        (''sec-websocket-protocol'', ''v2'')],
      res_body = ()\<rparr>"

lemma example_offer_valid:
  "validate_websocket_request reference_api example_offer_request ''http://a:1'' = Inr example_offer"
  by code_simp

theorem websocket_upstream_request_witness:
  "\<exists>r. build_upstream_websocket_request reference_api example_offer example_upstream example_session
        = Inr r
     \<and> hm_get_all reference_api (req_headers r) PROTECTED_HEADER = [''rp-0a'']
     \<and> hm_get_all reference_api (req_headers r) ''sec-websocket-extensions'' = []"
proof -
  have "is_ok (build_upstream_websocket_request reference_api example_offer example_upstream
      example_session)" by code_simp
  then obtain r where r: "build_upstream_websocket_request reference_api example_offer
      example_upstream example_session = Inr r" by auto
  from websocket_upstream_request [OF reference.http_laws_axioms example_offer_valid r] r
  show ?thesis by (auto simp: PROTECTED_HEADER_def example_session_def)
qed

theorem websocket_handshake_agrees_witness:
  "\<exists>response. downstream_websocket_response reference_api example_offer (Some ''v2'') = Inr response
     \<and> set (hm_get_all reference_api (res_headers response) ''sec-websocket-protocol'')
         \<subseteq> {''chat'', ''v2''}"
proof -
  have s: "validate_websocket_response reference_api example_switch example_offer = Inr (Some ''v2'')"
    and "is_ok (downstream_websocket_response reference_api example_offer (Some ''v2''))"
    by code_simp+
  then obtain response where
    r: "downstream_websocket_response reference_api example_offer (Some ''v2'') = Inr response" by auto
  from websocket_handshake_agrees [OF reference.http_laws_axioms example_offer_valid s r] r
  show ?thesis by (auto simp: example_offer_def)
qed

end
