(* ===== verification/Proxy.thy ===== *)
theory Proxy
  imports Websocket_Handshake
begin

text \<open>
  The running proxy of \<open>crates/transport/src/proxy.rs\<close>: per-launch state, request handling from
  admission to the response, tracked tasks, listeners, start and shutdown.  The upstream connection
  is the argument \<open>E\<close> (connect, handshake, ready, send, each fallible, their timeouts included), the
  decoder chain the argument \<open>C\<close>.  \<open>handle_request\<close> returns, beside the new state and the response,
  the request it sent upstream, if any; the shared state it touches is the one-time bootstrap flag
  (one \<open>compare_exchange\<close>) and the task list (under its mutex), so a sequence of calls is any
  interleaving of concurrent requests at these two atomic steps.
\<close>

section \<open>Tracked tasks\<close>

text \<open>A handle is the number of its task; \<open>fin\<close> says which tasks have finished.\<close>

record tracked_tasks =
  tt_closed :: bool
  tt_handles :: "nat list"
  tt_aborted :: "nat list"

definition tasks_new :: tracked_tasks where
  "tasks_new = \<lparr>tt_closed = False, tt_handles = [], tt_aborted = []\<rparr>"

definition tasks_spawn :: "(nat \<Rightarrow> bool) \<Rightarrow> nat \<Rightarrow> tracked_tasks \<Rightarrow> tracked_tasks \<times> bool" where
  "tasks_spawn fin task ts =
     (let ts1 = ts\<lparr>tt_handles := filter (\<lambda>t. \<not> fin t) (tt_handles ts)\<rparr> in
      if tt_closed ts1 then (ts1, False)
      else (ts1\<lparr>tt_handles := tt_handles ts1 @ [task]\<rparr>, True))"

definition tasks_abort_all :: "tracked_tasks \<Rightarrow> tracked_tasks" where
  "tasks_abort_all ts =
     ts\<lparr>tt_closed := True, tt_aborted := tt_aborted ts @ tt_handles ts\<rparr>"

definition tasks_close_and_take :: "tracked_tasks \<Rightarrow> tracked_tasks \<times> nat list" where
  "tasks_close_and_take ts = (ts\<lparr>tt_closed := True, tt_handles := []\<rparr>, tt_handles ts)"

section \<open>State and environment\<close>

record proxy_state =
  ps_expected_authority :: string
  ps_expected_origin :: string
  ps_address :: proxy_address
  ps_upstream :: socket_v4
  ps_secrets :: transport_secrets
  ps_limits :: transport_limits
  ps_permits :: nat
  ps_bootstrap_consumed :: bool
  ps_tasks :: tracked_tasks

datatype ('c, 'r) proxy_body =
    FullBody bytes
  | EmptyBody
  | GuardedBody "'c response_guard"
  | DecodedBody "'r decoded_guard"

datatype ('h, 'b) upstream_request =
    HttpForward "('h, 'b request_guard) request"
  | WebSocketForward "('h, unit) request"

record ('h, 'b, 'c) upstream_api =
  up_connect :: "io_error + unit"
  up_handshake :: "io_error + unit"
  up_ready :: "io_error + unit"
  up_send :: "('h, 'b request_guard) request \<Rightarrow> io_error + ('h, 'c) response"
  up_send_websocket :: "('h, unit) request \<Rightarrow> io_error + ('h, 'c) response"
  up_finished :: "nat \<Rightarrow> bool"
  up_driver_task :: nat
  up_tunnel_task :: nat

record ('c, 'r) codec_api =
  co_reader :: "'c response_guard \<Rightarrow> 'r"
  co_codec :: "content_coding \<Rightarrow> 'r \<Rightarrow> 'r"

section \<open>Fixed responses and bootstrap\<close>

definition fixed_response :: "'h http_api \<Rightarrow> nat \<Rightarrow> string \<Rightarrow> ('h, ('c, 'r) proxy_body) response" where
  "fixed_response A status msg =
     (let h1 = hm_insert A (hm_empty A) ''content-type'' ''text/plain; charset=utf-8'';
          h2 = hm_insert A h1 ''cache-control'' ''no-store'';
          h3 = hm_insert A h2 ''connection'' ''close''
      in \<lparr>res_status = status, res_version = 11, res_headers = h3, res_body = FullBody msg\<rparr>)"

definition is_bootstrap :: "'h http_api \<Rightarrow> ('h, 'b) request \<Rightarrow> bool" where
  "is_bootstrap A request =
     ((req_method request = ''GET'' \<or> req_method request = ''HEAD'')
      \<and> uri_path (req_uri request) = BOOTSTRAP_PATH
      \<and> uri_query (req_uri request) = None
      \<and> \<not> hm_contains_key A (req_headers request) ''content-length''
      \<and> \<not> hm_contains_key A (req_headers request) ''transfer-encoding'')"

definition references_bootstrap_route :: "'h http_api \<Rightarrow> uri \<Rightarrow> bool" where
  "references_bootstrap_route A u =
     (dropWhile (\<lambda>c. c = CHR ''/'') BOOTSTRAP_PATH
        \<in> set (split_on (CHR ''/'') (utf8_lossy A (percent_decode A (uri_path u)))))"

text \<open>The check on the header's values and the \<open>compare_exchange\<close> on the one-time flag.\<close>

definition consume_bootstrap :: "bytes list \<Rightarrow> proxy_state \<Rightarrow> proxy_state \<times> bool" where
  "consume_bootstrap vals st =
     (if length vals = 1 \<and> secret_matches (ts_bootstrap (ps_secrets st)) (vals ! 0) then
        if ps_bootstrap_consumed st then (st, False)
        else (st\<lparr>ps_bootstrap_consumed := True\<rparr>, True)
      else (st, False))"

definition authenticate_bootstrap ::
  "'h http_api \<Rightarrow> ('h, 'b) request \<Rightarrow> proxy_state \<Rightarrow> proxy_state \<times> bool" where
  "authenticate_bootstrap A request st =
     consume_bootstrap (hm_get_all A (req_headers request) BOOTSTRAP_HEADER_NAME) st"

definition BOOTSTRAP_BODY :: bytes where
  "BOOTSTRAP_BODY =
     ''<!doctype html><html><head><meta charset='' @ [CHR 0x22] @ ''utf-8'' @ [CHR 0x22]
     @ ''><meta name='' @ [CHR 0x22] @ ''viewport'' @ [CHR 0x22] @ '' content='' @ [CHR 0x22]
     @ ''width=device-width'' @ [CHR 0x22]
     @ ''><title>Loading</title></head><body><p>Loading application''
     @ [CHR 0xE2, CHR 0x80, CHR 0xA6] @ ''</p></body></html>''"

definition session_cookie :: "secret \<Rightarrow> string" where
  "session_cookie session =
     SESSION_COOKIE_NAME @ ''='' @ secret_value session @ ''; Path=/; HttpOnly; SameSite=Strict''"

definition bootstrap_response ::
  "'h http_api \<Rightarrow> bool \<Rightarrow> secret \<Rightarrow> ('h, ('c, 'r) proxy_body) response" where
  "bootstrap_response A head_only session =
     (let h1 = hm_insert A (hm_empty A) ''content-type'' ''text/html; charset=utf-8'';
          h2 = hm_insert A h1 ''cache-control'' ''no-store'';
          h3 = hm_insert A h2 ''content-security-policy''
                 (''default-src '' @ [CHR 0x27] @ ''none'' @ [CHR 0x27] @ ''; base-uri ''
                  @ [CHR 0x27] @ ''none'' @ [CHR 0x27] @ ''; form-action '' @ [CHR 0x27]
                  @ ''none'' @ [CHR 0x27] @ ''; frame-ancestors '' @ [CHR 0x27] @ ''none''
                  @ [CHR 0x27]);
          h4 = hm_insert A h3 ''referrer-policy'' ''no-referrer'';
          h5 = hm_insert A h4 ''x-content-type-options'' ''nosniff'';
          h6 = hm_insert A h5 ''connection'' ''close'';
          h7 = (case header_value_from_str A (session_cookie session) of
                  Some cookie \<Rightarrow> hm_insert A h6 ''set-cookie'' cookie
                | None \<Rightarrow> h6)
      in \<lparr>res_status = 200, res_version = 11, res_headers = h7,
          res_body = FullBody (if head_only then [] else BOOTSTRAP_BODY)\<rparr>)"

section \<open>Forwarding\<close>

definition normalize_http_request ::
  "'h http_api \<Rightarrow> ('h, 'b) request \<Rightarrow> raw_admission \<Rightarrow> proxy_state \<Rightarrow>
     proxy_failure + ('h, 'b request_guard) request" where
  "normalize_http_request A request raw st =
     rbind (origin_form_uri A (req_uri request)) (\<lambda>target.
       let h1 = strip_request_headers A (req_headers request) (connection_tokens raw);
           h2 = rewrite_origin A h1 (ps_upstream st) in
       rbind (ok_or (header_value_from_str A (v4_string (ps_upstream st))) InvalidHeaderValue)
         (\<lambda>host.
       rbind (ok_or (header_value_from_str A (secret_value (ts_upstream (ps_secrets st))))
                InvalidHeaderValue) (\<lambda>protected.
         let h3 = hm_insert A h2 ''host'' host;
             h4 = hm_insert A h3 PROTECTED_HEADER protected;
             l = ps_limits st in
         if length (hm_get_all A h4 PROTECTED_HEADER) \<noteq> 1
         then Inl (Failure ''protected upstream header invariant failed'')
         else
           Inr \<lparr>req_method = req_method request, req_uri = target, req_version = 11,
                req_headers = h4,
                req_body = request_guard_new (req_body request) (max_request_body_bytes l)
                  (request_body_idle_timeout l) (request_body_total_timeout l)
                  (min_request_body_bytes_per_second l) (request_body_rate_window l)\<rparr>)))"

definition encoded_body_limit :: "transport_limits \<Rightarrow> content_coding list \<Rightarrow> nat" where
  "encoded_body_limit l codings =
     (if codings = [] then min (max_response_body_bytes l) (max_decoded_response_body_bytes l)
      else max_response_body_bytes l)"

definition response_body_of ::
  "'h http_api \<Rightarrow> ('c, 'r) codec_api \<Rightarrow> transport_limits \<Rightarrow> content_coding list \<Rightarrow>
     response_body_policy \<Rightarrow> 'c \<Rightarrow> 'h \<Rightarrow> 'h \<times> ('c, 'r) proxy_body" where
  "response_body_of A C l codings policy body headers =
     (case policy of
        Streaming declared \<Rightarrow>
          let guarded = response_guard_streaming body declared (encoded_body_limit l codings)
                (response_body_idle_timeout l) (min_response_body_bytes_per_second l)
                (response_body_rate_window l) in
          if codings = [] then (hm_remove A headers ''content-encoding'', GuardedBody guarded)
          else
            (strip_decoded_representation_headers A headers,
             DecodedBody (decode_body (co_codec C) (co_reader C guarded) codings
                            (max_decoded_response_body_bytes l)))
      | Forbidden advertised \<Rightarrow> (headers, GuardedBody (response_guard_forbidden body advertised)))"

definition normalize_http_response ::
  "'h http_api \<Rightarrow> 'u url_api \<Rightarrow> ('c, 'r) codec_api \<Rightarrow> ('h, 'c) response \<Rightarrow> string \<Rightarrow> proxy_state \<Rightarrow>
     proxy_failure + ('h, ('c, 'r) proxy_body) response" where
  "normalize_http_response A U C response request_method st =
     (let l = ps_limits st; headers = res_headers response; status = res_status response in
      if 100 \<le> status \<and> status < 200
      then Inl (Failure ''unexpected informational upstream response'')
      else
        rbind (map_err UpstreamFailure
                 (parse_content_codings A headers (max_response_content_encodings l))) (\<lambda>codings.
        rbind (validate_response_body_head A request_method status headers
                 (encoded_body_limit l codings)) (\<lambda>policy.
        rbind (case policy of
                 Streaming _ \<Rightarrow>
                   if codings \<noteq> [] then validate_decoded_response_transform A status headers
                   else Inr ()
               | Forbidden _ \<Rightarrow> Inr ()) (\<lambda>_.
        rbind (strip_response_headers A headers) (\<lambda>h1.
        let h2 = hm_insert A h1 ''connection'' ''close'' in
        rbind (map_err CookieFailure
                 (normalize_set_cookie_headers A h2 (v4_ip_string (ps_upstream st)))) (\<lambda>h3.
        rbind (rewrite_location A U h3 (ps_upstream st) (ps_address st)) (\<lambda>h4.
          let normalized = response_body_of A C l codings policy (res_body response) h4 in
          Inr \<lparr>res_status = status, res_version = 11, res_headers = fst normalized,
               res_body = snd normalized\<rparr>)))))))"

definition spawn_driver ::
  "('h, 'b, 'c) upstream_api \<Rightarrow> nat \<Rightarrow> proxy_state \<Rightarrow> proxy_state \<times> bool" where
  "spawn_driver E task st =
     (case tasks_spawn (up_finished E) task (ps_tasks st) of
        (ts, accepted) \<Rightarrow> (st\<lparr>ps_tasks := ts\<rparr>, accepted))"

definition forward_http ::
  "'h http_api \<Rightarrow> 'u url_api \<Rightarrow> ('c, 'r) codec_api \<Rightarrow> ('h, 'b, 'c) upstream_api \<Rightarrow>
     ('h, 'b) request \<Rightarrow> raw_admission \<Rightarrow> proxy_state \<Rightarrow>
     proxy_state \<times> ('h, 'b) upstream_request option
       \<times> (proxy_failure + ('h, ('c, 'r) proxy_body) response)" where
  "forward_http A U C E request raw st =
     (case normalize_http_request A request raw st of
        Inl e \<Rightarrow> (st, None, Inl e)
      | Inr upstream_request \<Rightarrow>
          (case rbind (up_connect E) (\<lambda>_. up_handshake E) of
             Inl e \<Rightarrow> (st, None, Inl (UpstreamFailure e))
           | Inr _ \<Rightarrow>
               (case spawn_driver E (up_driver_task E) st of (st1, accepted) \<Rightarrow>
                  if \<not> accepted then (st1, None, Inl (Failure ''proxy is shutting down''))
                  else
                    case up_ready E of
                      Inl e \<Rightarrow> (st1, None, Inl (UpstreamFailure e))
                    | Inr _ \<Rightarrow>
                        (st1, Some (HttpForward upstream_request),
                         rbind (map_err UpstreamFailure (up_send E upstream_request)) (\<lambda>response.
                           normalize_http_response A U C response
                             (req_method upstream_request) st1)))))"

definition forward_websocket ::
  "'h http_api \<Rightarrow> ('h, 'b, 'c) upstream_api \<Rightarrow> ('h, 'b) request \<Rightarrow> proxy_state \<Rightarrow>
     proxy_state \<times> ('h, 'b) upstream_request option
       \<times> (proxy_failure + ('h, ('c, 'r) proxy_body) response)" where
  "forward_websocket A E request st =
     (case rbind (validate_websocket_request A request (ps_expected_origin st)) (\<lambda>offer.
             rbind (build_upstream_websocket_request A offer (ps_upstream st)
                      (ts_upstream (ps_secrets st))) (\<lambda>r. Inr (offer, r))) of
        Inl e \<Rightarrow> (st, None, Inl e)
      | Inr (offer, upstream_request) \<Rightarrow>
          (case rbind (up_connect E) (\<lambda>_. up_handshake E) of
             Inl e \<Rightarrow> (st, None, Inl (UpstreamFailure e))
           | Inr _ \<Rightarrow>
               (case spawn_driver E (up_driver_task E) st of (st1, accepted) \<Rightarrow>
                  if \<not> accepted then (st1, None, Inl (Failure ''proxy is shutting down''))
                  else
                    case up_ready E of
                      Inl e \<Rightarrow> (st1, None, Inl (UpstreamFailure e))
                    | Inr _ \<Rightarrow>
                        (case rbind (map_err UpstreamFailure (up_send_websocket E upstream_request))
                                (\<lambda>response. rbind (validate_websocket_response A response offer)
                                   (downstream_websocket_response A offer)) of
                           Inl e \<Rightarrow> (st1, Some (WebSocketForward upstream_request), Inl e)
                         | Inr answer \<Rightarrow>
                             (case spawn_driver E (up_tunnel_task E) st1 of (st2, tunnelled) \<Rightarrow>
                                if \<not> tunnelled
                                then (st2, Some (WebSocketForward upstream_request),
                                      Inl (Failure ''proxy is shutting down''))
                                else
                                  (st2, Some (WebSocketForward upstream_request),
                                   Inr \<lparr>res_status = res_status answer,
                                        res_version = res_version answer,
                                        res_headers = res_headers answer,
                                        res_body = EmptyBody\<rparr>))))))"

definition answer_or_502 ::
  "'h http_api \<Rightarrow>
   proxy_state \<times> ('h, 'b) upstream_request option
       \<times> (proxy_failure + ('h, ('c, 'r) proxy_body) response) \<Rightarrow>
   proxy_state \<times> ('h, 'b) upstream_request option \<times> ('h, ('c, 'r) proxy_body) response" where
  "answer_or_502 A outcome =
     (case outcome of (st, sent, result) \<Rightarrow>
        (st, sent, case result of Inr r \<Rightarrow> r | Inl _ \<Rightarrow> fixed_response A 502 ''Upstream rejected''))"

definition handle_request ::
  "'h http_api \<Rightarrow> 'u url_api \<Rightarrow> ('c, 'r) codec_api \<Rightarrow> ('h, 'b, 'c) upstream_api \<Rightarrow>
     ('h, 'b) request \<Rightarrow> raw_admission \<Rightarrow> proxy_state \<Rightarrow>
     proxy_state \<times> ('h, 'b) upstream_request option \<times> ('h, ('c, 'r) proxy_body) response" where
  "handle_request A U C E request raw st =
     (if is_bootstrap A request then
        (case authenticate_bootstrap A request st of (st1, authenticated) \<Rightarrow>
           if \<not> authenticated then (st1, None, fixed_response A 401 ''Authentication failed'')
           else (st1, None, bootstrap_response A (req_method request = ''HEAD'')
                              (ts_session (ps_secrets st))))
      else if references_bootstrap_route A (req_uri request)
      then (st, None, fixed_response A 400 ''Request rejected'')
      else if hm_contains_key A (req_headers request) BOOTSTRAP_HEADER_NAME
      then (st, None, fixed_response A 400 ''Request rejected'')
      else if \<not> validate_origin A request (ps_expected_origin st) (websocket_upgrade raw)
      then (st, None, fixed_response A 403 ''Request rejected'')
      else
        case authenticate_and_strip A (req_headers request) (ts_session (ps_secrets st)) of
          Inl _ \<Rightarrow> (st, None, fixed_response A 401 ''Authentication failed'')
        | Inr headers \<Rightarrow>
            let authenticated = request\<lparr>req_headers := headers\<rparr> in
            if websocket_upgrade raw
            then answer_or_502 A (forward_websocket A E authenticated st)
            else answer_or_502 A (forward_http A U C E authenticated raw st))"

section \<open>Observations\<close>

fun forwarded_headers :: "('h, 'b) upstream_request \<Rightarrow> 'h" where
  "forwarded_headers (HttpForward r) = req_headers r"
| "forwarded_headers (WebSocketForward r) = req_headers r"

text \<open>A response that gives the browser a cookie under the reserved session name.\<close>

definition installs_session :: "'h http_api \<Rightarrow> ('h, 'c) response \<Rightarrow> bool" where
  "installs_session A response =
     list_ex (\<lambda>v. is_reserved_name A (segment_name (hd (cookie_segments v))))
       (hm_get_all A (res_headers response) ''set-cookie'')"

text \<open>The headers of a request that may reach the upstream.\<close>

definition forward_safe :: "'h http_api \<Rightarrow> proxy_state \<Rightarrow> 'h \<Rightarrow> bool" where
  "forward_safe A st headers =
     (hm_get_all A headers PROTECTED_HEADER = [secret_value (ts_upstream (ps_secrets st))]
      \<and> hm_get_all A headers ''host'' = [v4_string (ps_upstream st)]
      \<and> hm_get_all A headers BOOTSTRAP_HEADER_NAME = []
      \<and> (\<forall>n. forwarding_header n \<longrightarrow> hm_get_all A headers n = [])
      \<and> set (hm_get_all A headers ''origin'') \<subseteq> {''http://'' @ v4_string (ps_upstream st)}
      \<and> (\<forall>v \<in> set (hm_get_all A headers ''cookie''). \<forall>t \<in> set (cookie_segments v).
           \<not> is_reserved_name A (segment_name t)))"

fun serve_all ::
  "'h http_api \<Rightarrow> 'u url_api \<Rightarrow> ('c, 'r) codec_api \<Rightarrow>
     (('h, 'b, 'c) upstream_api \<times> ('h, 'b) request \<times> raw_admission) list \<Rightarrow> proxy_state \<Rightarrow>
     proxy_state \<times> ('h, ('c, 'r) proxy_body) response list" where
  "serve_all A U C [] st = (st, [])"
| "serve_all A U C ((E, request, raw) # rest) st =
     (case handle_request A U C E request raw st of (st1, _, response) \<Rightarrow>
        case serve_all A U C rest st1 of (st2, responses) \<Rightarrow> (st2, response # responses))"

section \<open>Lemmas\<close>

lemma decimal_digits: "list_all is_ascii_digit (decimal n)"
proof (induction n rule: decimal.induct)
  case (1 n)
  have "n mod 10 \<le> 9" using mod_less_divisor [of 10 n] by linarith
  with 1 show ?case
    by (subst decimal.simps) (auto simp: is_ascii_digit_def list_all_iff)
qed

lemma digit_visible: "is_ascii_digit c \<Longrightarrow> visible_ascii c"
  by (simp add: is_ascii_digit_def visible_ascii_def)

lemma decimal_visible: "list_all visible_ascii (decimal n)"
  using decimal_digits [of n] by (auto simp: list_all_iff digit_visible)

lemma v4_string_visible: "list_all visible_ascii (v4_string u)"
  by (auto simp: v4_string_def v4_ip_string_def decimal_visible visible_ascii_def byte_def
      intro!: join_with_all)

lemmas header_name_defs = PROTECTED_HEADER_def BOOTSTRAP_HEADER_NAME_def

context http_laws
begin

lemma get_all_strip_request:
  "hm_get_all A (strip_request_headers A h ts) n =
     (if n \<in> set request_hop_headers \<or> n \<in> set ts \<or> forwarding_header n then []
      else hm_get_all A h n)"
  by (simp add: strip_request_headers_def Let_def)

lemma get_all_rewrite_origin:
  "hm_get_all A (rewrite_origin A h u) n =
     (if n = ''origin'' \<and> hm_get_all A h ''origin'' \<noteq> [] then [''http://'' @ v4_string u]
      else hm_get_all A h n)"
proof -
  have "list_all visible_ascii (''http://'' @ v4_string u)"
    using v4_string_visible by (simp add: visible_ascii_def byte_def)
  then show ?thesis
    by (auto simp: rewrite_origin_def hm_contains_key_def from_str_visible)
qed

lemma normalize_http_request_ok:
  assumes "normalize_http_request A request raw st = Inr r"
  shows "hm_get_all A (req_headers r) n =
      (if n = PROTECTED_HEADER then [secret_value (ts_upstream (ps_secrets st))]
       else if n = ''host'' then [v4_string (ps_upstream st)]
       else if n \<in> set request_hop_headers \<or> n \<in> set (connection_tokens raw)
               \<or> forwarding_header n then []
       else if n = ''origin'' \<and> hm_get_all A (req_headers request) ''origin'' \<noteq> []
       then [''http://'' @ v4_string (ps_upstream st)]
       else hm_get_all A (req_headers request) n)"
    and "req_method r = req_method request"
proof -
  from assms show "req_method r = req_method request"
    by (auto simp: normalize_http_request_def Let_def split: if_splits)
  from assms obtain host protected where
    "header_value_from_str A (v4_string (ps_upstream st)) = Some host"
    "header_value_from_str A (secret_value (ts_upstream (ps_secrets st))) = Some protected"
    "req_headers r = hm_insert A (hm_insert A (rewrite_origin A (strip_request_headers A
        (req_headers request) (connection_tokens raw)) (ps_upstream st)) ''host'' host)
        PROTECTED_HEADER protected"
    by (auto simp: normalize_http_request_def Let_def split: if_splits)
  then show "hm_get_all A (req_headers r) n =
      (if n = PROTECTED_HEADER then [secret_value (ts_upstream (ps_secrets st))]
       else if n = ''host'' then [v4_string (ps_upstream st)]
       else if n \<in> set request_hop_headers \<or> n \<in> set (connection_tokens raw)
               \<or> forwarding_header n then []
       else if n = ''origin'' \<and> hm_get_all A (req_headers request) ''origin'' \<noteq> []
       then [''http://'' @ v4_string (ps_upstream st)]
       else hm_get_all A (req_headers request) n)"
    using from_str_same by (auto simp: get_all_rewrite_origin get_all_strip_request)
qed

lemma fixed_response_headers:
  "hm_get_all A (res_headers (fixed_response A s m)) n =
     (if n = ''connection'' then [''close''] else if n = ''cache-control'' then [''no-store'']
      else if n = ''content-type'' then [''text/plain; charset=utf-8''] else [])"
  by (simp add: fixed_response_def Let_def)

lemma bootstrap_response_headers:
  "hm_get_all A (res_headers (bootstrap_response A b s)) ''connection'' = [''close'']"
  "hm_get_all A (res_headers (bootstrap_response A b s)) PROTECTED_HEADER = []"
  "hm_get_all A (res_headers (bootstrap_response A b s)) BOOTSTRAP_HEADER_NAME = []"
  by (simp_all add: bootstrap_response_def Let_def header_name_defs split: option.splits)

lemma get_all_strip_response:
  assumes "strip_response_headers A h = Inr h'"
  shows "\<exists>nominated. (\<forall>t \<in> set nominated. \<not> is_protected_connection_target t)
    \<and> (\<forall>n. hm_get_all A h' n =
         (if n \<in> set response_hop_headers \<or> n \<in> set nominated then [] else hm_get_all A h n))"
proof -
  have nom: "\<forall>t \<in> set ts. \<not> is_protected_connection_target t" if "nominated_tokens raws = Inr ts"
    for raws ts
    using that by (induction raws arbitrary: ts) (auto simp: Let_def split: if_splits)
  from assms obtain nominated where
    "(case hm_get_all A h ''connection'' of
                 [] \<Rightarrow> Inr []
               | v # _ \<Rightarrow> rbind (ok_or (header_value_to_str A v) NotText)
                            (\<lambda>s. nominated_tokens (split_on (CHR '','') s))) = Inr nominated"
    and h': "h' = hm_remove_all A (hm_remove_all A h response_hop_headers) nominated"
    by (auto simp: strip_response_headers_def Let_def split: if_splits)
  then have "\<forall>t \<in> set nominated. \<not> is_protected_connection_target t"
    using nom by (auto split: list.splits)
  with h' show ?thesis by (intro exI [of _ nominated]) auto
qed

lemma rewrite_location_other:
  assumes "rewrite_location A U h u a = Inr h'" "n \<noteq> ''location''"
  shows "hm_get_all A h' n = hm_get_all A h n"
  using assms
  by (auto simp: rewrite_location_def Let_def split: if_splits list.splits option.splits)

lemma response_body_of_headers:
  assumes "response_body_of A C l codings policy body h = (h', b)"
  shows "hm_get_all A h' n \<in> {[], hm_get_all A h n}"
    and "n \<notin> set decoded_representation_headers \<Longrightarrow> hm_get_all A h' n = hm_get_all A h n"
  using assms
  by (auto simp: response_body_of_def strip_decoded_representation_headers_def Let_def
      decoded_representation_headers_def split: response_body_policy.splits if_splits)

lemma normalize_http_response_ok:
  assumes "normalize_http_response A U C response m st = Inr r"
  shows "\<not> (100 \<le> res_status r \<and> res_status r < 200)"
    and "hm_get_all A (res_headers r) ''connection'' = [''close'']"
    and "hm_get_all A (res_headers r) PROTECTED_HEADER = []"
    and "hm_get_all A (res_headers r) BOOTSTRAP_HEADER_NAME = []"
    and "\<not> installs_session A r"
proof -
  from assms obtain codings policy h1 h3 h4 h5 b where
    strip: "strip_response_headers A (res_headers response) = Inr h1"
    and cookie: "normalize_set_cookie_headers A (hm_insert A h1 ''connection'' ''close'')
        (v4_ip_string (ps_upstream st)) = Inr h3"
    and loc: "rewrite_location A U h3 (ps_upstream st) (ps_address st) = Inr h4"
    and body: "response_body_of A C (ps_limits st) codings policy (res_body response) h4 = (h5, b)"
    and r: "res_headers r = h5" "res_body r = b" and s: "\<not> (100 \<le> res_status r \<and> res_status r < 200)"
    by (auto simp: normalize_http_response_def Let_def prod_eq_iff split: if_splits)
  show "\<not> (100 \<le> res_status r \<and> res_status r < 200)" by (fact s)
  obtain nominated where g1: "\<And>n. hm_get_all A h1 n =
      (if n \<in> set response_hop_headers \<or> n \<in> set nominated then []
       else hm_get_all A (res_headers response) n)"
    using get_all_strip_response [OF strip] by blast
  note g3 = normalize_headers_ok [OF cookie]
  note g4 = rewrite_location_other [OF loc]
  note g5 = response_body_of_headers [OF body]
  show "hm_get_all A (res_headers r) ''connection'' = [''close'']"
    by (simp add: r g5(2) g4 g3(2) decoded_representation_headers_def)
  show "hm_get_all A (res_headers r) PROTECTED_HEADER = []"
    by (simp add: r g5(2) g4 g3(2) g1 decoded_representation_headers_def response_hop_headers_def
        header_name_defs)
  show "hm_get_all A (res_headers r) BOOTSTRAP_HEADER_NAME = []"
    by (simp add: r g5(2) g4 g3(2) g1 decoded_representation_headers_def response_hop_headers_def
        header_name_defs)
  have sc: "hm_get_all A (res_headers r) ''set-cookie'' = hm_get_all A h3 ''set-cookie''"
    by (simp add: r g5(2) g4 decoded_representation_headers_def)
  have "\<not> is_reserved_name A (segment_name (hd (cookie_segments v')))"
    if "v' \<in> set (hm_get_all A h3 ''set-cookie'')" for v'
  proof -
    from g3(1) that obtain v where "normalize_set_cookie A v (v4_ip_string (ps_upstream st)) = Inr v'"
      by (auto simp: list_all2_conv_all_nth in_set_conv_nth)
    from normalize_set_cookie_ok(1,2) [OF this] show ?thesis by simp
  qed
  then show "\<not> installs_session A r" by (auto simp: installs_session_def list_ex_iff sc)
qed

end

lemma spawn_driver_same [simp]:
  "spawn_driver E t st = (st', b) \<Longrightarrow> ps_bootstrap_consumed st' = ps_bootstrap_consumed st"
  by (auto simp: spawn_driver_def split: prod.splits)

lemma forward_http_cases:
  assumes "forward_http A U C E request raw st = (st', sent, result)"
  shows "ps_bootstrap_consumed st' = ps_bootstrap_consumed st"
    and "sent = Some u \<Longrightarrow>
      \<exists>q. normalize_http_request A request raw st = Inr q \<and> u = HttpForward q"
    and "result = Inr resp \<Longrightarrow>
      \<exists>response m st1. normalize_http_response A U C response m st1 = Inr resp"
  using assms
  by (auto simp: forward_http_def dest!: spawn_driver_same
      split: sum.splits prod.splits if_splits)

lemma forward_websocket_cases:
  assumes "forward_websocket A E request st = (st', sent, result)"
  shows "ps_bootstrap_consumed st' = ps_bootstrap_consumed st"
    and "sent = Some u \<Longrightarrow>
      \<exists>offer q. validate_websocket_request A request (ps_expected_origin st) = Inr offer
        \<and> build_upstream_websocket_request A offer (ps_upstream st) (ts_upstream (ps_secrets st))
            = Inr q \<and> u = WebSocketForward q"
    and "result = Inr resp \<Longrightarrow>
      \<exists>offer selected answer. downstream_websocket_response A offer selected = Inr answer
        \<and> res_status resp = res_status answer \<and> res_headers resp = res_headers answer"
  using assms
  by (auto simp: forward_websocket_def dest!: spawn_driver_same
      split: sum.splits prod.splits if_splits) blast+

lemma handle_request_sent:
  assumes "handle_request A U C E request raw st = (st', Some u, resp)"
  shows "\<not> is_bootstrap A request" "\<not> references_bootstrap_route A (req_uri request)"
    and "hm_get_all A (req_headers request) BOOTSTRAP_HEADER_NAME = []"
    and "validate_origin A request (ps_expected_origin st) (websocket_upgrade raw)"
    and "\<exists>h. authenticate_and_strip A (req_headers request) (ts_session (ps_secrets st)) = Inr h
      \<and> (if websocket_upgrade raw then
           \<exists>offer q. validate_websocket_request A (request\<lparr>req_headers := h\<rparr>) (ps_expected_origin st)
               = Inr offer
             \<and> build_upstream_websocket_request A offer (ps_upstream st)
                 (ts_upstream (ps_secrets st)) = Inr q \<and> u = WebSocketForward q
         else
           \<exists>q. normalize_http_request A (request\<lparr>req_headers := h\<rparr>) raw st = Inr q
             \<and> u = HttpForward q)"
  using assms
  by (auto simp: handle_request_def hm_contains_key_def answer_or_502_def Let_def
      split: if_splits prod.splits sum.splits
      dest: forward_http_cases(2) forward_websocket_cases(2))

definition is_rejection :: "'h http_api \<Rightarrow> ('h, ('c, 'r) proxy_body) response \<Rightarrow> bool" where
  "is_rejection A resp = (\<exists>s m. s \<noteq> 101 \<and> resp = fixed_response A s m)"

lemma is_rejection_fixed [simp]: "s \<noteq> 101 \<Longrightarrow> is_rejection A (fixed_response A s m)"
  by (auto simp: is_rejection_def)

lemma answer_or_502_cases:
  assumes "answer_or_502 A outcome = (st', sent, resp)"
  obtains (rejected) e where "outcome = (st', sent, Inl e)" "is_rejection A resp"
    | (answered) "outcome = (st', sent, Inr resp)"
  using assms by (cases outcome) (auto simp: answer_or_502_def split: sum.splits)

lemma handle_request_response:
  assumes "handle_request A U C E request raw st = (st', sent, resp)"
  shows "(is_rejection A resp \<and> ps_bootstrap_consumed st' = ps_bootstrap_consumed st)
    \<or> (is_bootstrap A request \<and> \<not> ps_bootstrap_consumed st \<and> ps_bootstrap_consumed st'
        \<and> hm_get_all A (req_headers request) BOOTSTRAP_HEADER_NAME
            = [secret_value (ts_bootstrap (ps_secrets st))]
        \<and> (\<exists>b. resp = bootstrap_response A b (ts_session (ps_secrets st))))
    \<or> (ps_bootstrap_consumed st' = ps_bootstrap_consumed st \<and>
        (\<exists>response m st1. normalize_http_response A U C response m st1 = Inr resp))
    \<or> (websocket_upgrade raw \<and> ps_bootstrap_consumed st' = ps_bootstrap_consumed st \<and>
        (\<exists>offer selected answer. downstream_websocket_response A offer selected = Inr answer
          \<and> res_status resp = res_status answer \<and> res_headers resp = res_headers answer))"
proof -
  consider (boot) "is_bootstrap A request"
    | (early) "is_rejection A resp" "st' = st"
    | (ws) h where "websocket_upgrade raw"
        "answer_or_502 A (forward_websocket A E (request\<lparr>req_headers := h\<rparr>) st) = (st', sent, resp)"
    | (http) h where
        "answer_or_502 A (forward_http A U C E (request\<lparr>req_headers := h\<rparr>) raw st) = (st', sent, resp)"
    using assms unfolding handle_request_def Let_def
    by (auto split: if_splits sum.splits)
  then show ?thesis
  proof cases
    case boot
    with assms show ?thesis
      by (auto simp: handle_request_def authenticate_bootstrap_def consume_bootstrap_def Let_def length_Suc_conv
          split: if_splits)
  next
    case early
    then show ?thesis by simp
  next
    case ws
    from ws(2) show ?thesis
    proof (cases rule: answer_or_502_cases)
      case rejected
      from forward_websocket_cases(1) [OF rejected(1)] rejected(2) show ?thesis by simp
    next
      case answered
      note F = forward_websocket_cases [OF answered]
      from F(1) F(3) [OF refl] ws(1) show ?thesis by simp
    qed
  next
    case http
    from http show ?thesis
    proof (cases rule: answer_or_502_cases)
      case rejected
      from forward_http_cases(1) [OF rejected(1)] rejected(2) show ?thesis by simp
    next
      case answered
      note F = forward_http_cases [OF answered]
      from F(1) F(3) [OF refl] show ?thesis by simp
    qed
  qed
qed

context http_laws
begin

lemma downstream_not_installs:
  assumes "downstream_websocket_response A offer selected = Inr answer"
    "res_headers resp = res_headers answer"
  shows "\<not> installs_session A resp"
  using downstream_response_ok(4) [OF assms(1)] assms(2) by (simp add: installs_session_def)

lemma rejection_headers:
  assumes "is_rejection A resp"
  shows "res_status resp \<noteq> 101" "hm_get_all A (res_headers resp) ''connection'' = [''close'']"
    and "hm_get_all A (res_headers resp) PROTECTED_HEADER = []"
    and "hm_get_all A (res_headers resp) BOOTSTRAP_HEADER_NAME = []"
    and "\<not> installs_session A resp"
proof -
  from assms obtain s m where sm: "s \<noteq> 101" "resp = fixed_response A s m"
    by (auto simp: is_rejection_def)
  then show "res_status resp \<noteq> 101" by (simp add: fixed_response_def Let_def)
  from sm show "hm_get_all A (res_headers resp) ''connection'' = [''close'']"
    and "hm_get_all A (res_headers resp) PROTECTED_HEADER = []"
    and "hm_get_all A (res_headers resp) BOOTSTRAP_HEADER_NAME = []"
    and "\<not> installs_session A resp"
    by (simp_all add: fixed_response_headers installs_session_def header_name_defs)
qed

lemma handle_request_session:
  assumes "handle_request A U C E request raw st = (st', sent, resp)"
  shows "(installs_session A resp \<longrightarrow> \<not> ps_bootstrap_consumed st \<and> ps_bootstrap_consumed st'
        \<and> is_bootstrap A request
        \<and> hm_get_all A (req_headers request) BOOTSTRAP_HEADER_NAME
            = [secret_value (ts_bootstrap (ps_secrets st))])
    \<and> (ps_bootstrap_consumed st \<longrightarrow> ps_bootstrap_consumed st')"
  using handle_request_response [OF assms] normalize_http_response_ok(5) downstream_not_installs
    rejection_headers(5)
  by blast

lemma serve_all_bootstrap:
  "serve_all A U C work st = (st', resps) \<Longrightarrow>
     length (filter (installs_session A) resps) + (if ps_bootstrap_consumed st then 1 else 0) \<le> 1"
proof (induction work arbitrary: st resps)
  case (Cons w work)
  obtain E request raw where w: "w = (E, request, raw)" by (cases w) auto
  obtain st1 sent r where h: "handle_request A U C E request raw st = (st1, sent, r)"
    by (metis prod_cases3)
  obtain rs where rest: "serve_all A U C work st1 = (st', rs)" and resps: "resps = r # rs"
    using Cons.prems by (auto simp: w h split: prod.splits)
  from Cons.IH [OF rest] handle_request_session [OF h] show ?case
    by (auto simp: resps split: if_splits)
qed simp

lemma http_forward_safe:
  assumes "authenticate_and_strip A (req_headers request) s = Inr h"
    and "normalize_http_request A (request\<lparr>req_headers := h\<rparr>) raw st = Inr q"
  shows "forward_safe A st (req_headers q)"
proof -
  note N = normalize_http_request_ok(1) [OF assms(2)]
  note cookies = forwarded_cookie_segments [OF assms(1)]
  have "set (hm_get_all A (req_headers q) ''cookie'') \<subseteq> set (hm_get_all A h ''cookie'')"
    by (simp add: N header_name_defs)
  then have "\<forall>v \<in> set (hm_get_all A (req_headers q) ''cookie''). \<forall>t \<in> set (cookie_segments v).
      \<not> is_reserved_name A (segment_name t)"
    using cookies by blast
  moreover have "set (hm_get_all A (req_headers q) ''origin'')
      \<subseteq> {''http://'' @ v4_string (ps_upstream st)}"
    by (simp add: N header_name_defs)
  ultimately show ?thesis
    by (auto simp: forward_safe_def N request_hop_headers_def forwarding_header_def header_name_defs)
qed

lemma websocket_forward_safe:
  assumes "authenticate_and_strip A (req_headers request) s = Inr h"
    and "validate_websocket_request A (request\<lparr>req_headers := h\<rparr>) origin = Inr offer"
    and "build_upstream_websocket_request A offer (ps_upstream st) (ts_upstream (ps_secrets st))
      = Inr q"
  shows "forward_safe A st (req_headers q)"
proof -
  note G = get_all_upstream_websocket
  note cookies = forwarded_cookie_segments [OF assms(1)]
  have "set (hm_get_all A (req_headers q) ''cookie'') \<subseteq> set (hm_get_all A h ''cookie'')"
    using validate_websocket_request_ok(7) [OF assms(2)]
    by (auto simp: build_upstream_ok(1) [OF assms(3)] G header_name_defs split: list.splits)
  then have "\<forall>v \<in> set (hm_get_all A (req_headers q) ''cookie''). \<forall>t \<in> set (cookie_segments v).
      \<not> is_reserved_name A (segment_name t)"
    using cookies by blast
  then show ?thesis
    by (auto simp: forward_safe_def build_upstream_ok(1) [OF assms(3)] G forwarding_header_def
        header_name_defs)
qed

end

section \<open>Properties\<close>

text \<open>C1: nothing is sent upstream for a request unless it is not a bootstrap request or reference,
  its origin is the proxy's own where one is required, and its single cookie holds the session
  secret; what is then sent carries the upstream secret exactly once, the upstream's host and
  origin, no bootstrap or forwarding header and no cookie under the reserved name; a forwarded HTTP
  request has no hop-by-hop header and none nominated by its \<open>Connection\<close> field.\<close>

theorem forwarded_request_authenticated:
  assumes "http_laws A"
    and "handle_request A U C E request raw st = (st', Some u, response)"
  shows "\<not> is_bootstrap A request \<and> \<not> references_bootstrap_route A (req_uri request)
    \<and> validate_origin A request (ps_expected_origin st) (websocket_upgrade raw)
    \<and> (\<exists>ct t. hm_get_all A (req_headers request) ''cookie'' = [ct]
         \<and> session_segments A ct = [t]
         \<and> segment_value t = secret_value (ts_session (ps_secrets st)))
    \<and> forward_safe A st (forwarded_headers u)
    \<and> (\<forall>q. u = HttpForward q \<longrightarrow>
         (\<forall>n. n \<in> set request_hop_headers \<union> set (connection_tokens raw) - {PROTECTED_HEADER, ''host''}
            \<longrightarrow> hm_get_all A (req_headers q) n = []))"
proof -
  note H = handle_request_sent [OF assms(2)]
  from H(5) obtain h where
    auth: "authenticate_and_strip A (req_headers request) (ts_session (ps_secrets st)) = Inr h"
    and u: "(\<exists>offer q. validate_websocket_request A (request\<lparr>req_headers := h\<rparr>) (ps_expected_origin st)
               = Inr offer
             \<and> build_upstream_websocket_request A offer (ps_upstream st)
                 (ts_upstream (ps_secrets st)) = Inr q \<and> u = WebSocketForward q)
       \<or> (\<exists>q. normalize_http_request A (request\<lparr>req_headers := h\<rparr>) raw st = Inr q
             \<and> u = HttpForward q)" by (auto split: if_splits)
  have cookie: "\<exists>ct t. hm_get_all A (req_headers request) ''cookie'' = [ct]
      \<and> session_segments A ct = [t] \<and> segment_value t = secret_value (ts_session (ps_secrets st))"
    by (rule http_laws.authenticate_ok [OF assms(1) auth]) blast
  have safe: "forward_safe A st (forwarded_headers u)"
    using u http_laws.http_forward_safe [OF assms(1) auth]
      http_laws.websocket_forward_safe [OF assms(1) auth] by auto
  have hop: "hm_get_all A (req_headers q) n = []"
    if "u = HttpForward q"
      "n \<in> set request_hop_headers \<union> set (connection_tokens raw) - {PROTECTED_HEADER, ''host''}" for q n
  proof -
    from u that(1) have "normalize_http_request A (request\<lparr>req_headers := h\<rparr>) raw st = Inr q" by auto
    from http_laws.normalize_http_request_ok(1) [OF assms(1) this] that(2) show ?thesis by auto
  qed
  from H(1,2,4) cookie safe hop show ?thesis by blast
qed

text \<open>C2: over any sequence of requests, in any order and from any state, at most one response gives
  the browser a cookie under the reserved session name, none once the bootstrap has been consumed.\<close>

theorem session_cookie_installed_once:
  assumes "http_laws A" and "serve_all A U C requests st = (st', responses)"
  shows "length (filter (installs_session A) responses)
      \<le> (if ps_bootstrap_consumed st then 0 else 1)"
  using http_laws.serve_all_bootstrap [OF assms] by (auto split: if_splits)

text \<open>C3: a response installs the session cookie only for a bootstrap request with exactly one
  bootstrap header equal to the bootstrap secret, and it consumes the bootstrap; a consumed
  bootstrap stays consumed.\<close>

theorem session_cookie_requires_bootstrap:
  assumes "http_laws A" and "handle_request A U C E request raw st = (st', sent, response)"
  shows "(installs_session A response \<longrightarrow>
        is_bootstrap A request \<and> sent = None
        \<and> hm_get_all A (req_headers request) BOOTSTRAP_HEADER_NAME
            = [secret_value (ts_bootstrap (ps_secrets st))]
        \<and> \<not> ps_bootstrap_consumed st \<and> ps_bootstrap_consumed st')
    \<and> (ps_bootstrap_consumed st \<longrightarrow> ps_bootstrap_consumed st')"
  using http_laws.handle_request_session [OF assms] handle_request_sent(1) assms(2)
  by (cases sent) blast+

text \<open>C9: every response but a protocol switch closes its connection, so that one admitted request is
  served per connection; a protocol switch answers only an admitted upgrade; and no response shows
  the browser the protected or the bootstrap header.\<close>

theorem response_closes_connection:
  assumes "http_laws A" and "handle_request A U C E request raw st = (st', sent, response)"
  shows "(res_status response \<noteq> 101 \<longrightarrow>
        hm_get_all A (res_headers response) ''connection'' = [''close''])
    \<and> (res_status response = 101 \<longrightarrow> websocket_upgrade raw)
    \<and> hm_get_all A (res_headers response) PROTECTED_HEADER = []
    \<and> hm_get_all A (res_headers response) BOOTSTRAP_HEADER_NAME = []"
proof -
  note laws = assms(1)
  consider (rejected) "is_rejection A response"
    | (boot) b where "response = bootstrap_response A b (ts_session (ps_secrets st))"
    | (http) r m st1 where "normalize_http_response A U C r m st1 = Inr response"
    | (ws) offer selected answer where "websocket_upgrade raw"
        "downstream_websocket_response A offer selected = Inr answer"
        "res_status response = res_status answer" "res_headers response = res_headers answer"
    using handle_request_response [OF assms(2)] by blast
  then show ?thesis
  proof cases
    case rejected
    from http_laws.rejection_headers [OF laws this] show ?thesis by simp
  next
    case boot
    moreover have "res_status response = 200"
      using boot by (simp add: bootstrap_response_def Let_def)
    ultimately show ?thesis by (simp add: http_laws.bootstrap_response_headers [OF laws])
  next
    case http
    from http_laws.normalize_http_response_ok [OF laws http] show ?thesis by auto
  next
    case ws
    note D = http_laws.downstream_response_ok [OF laws ws(2)]
    from ws(1,3,4) D(1,5,6) show ?thesis by simp
  qed
qed

text \<open>the body given to the browser is bounded before the first byte: without content codings it
  is the upstream body behind a guard of at most both body limits, with codings a decoded guard of
  at most the decoded limit over an encoded guard; a response to \<open>HEAD\<close> or with a status that forbids
  a body carries a guard that lets nothing through.\<close>

lemma normalized_response_body_bounded:
  assumes "normalize_http_response A U C upstream_response request_method st = Inr response"
  shows "(\<exists>g. res_body response = GuardedBody g
        \<and> rs_max_body_bytes g \<le> max_response_body_bytes (ps_limits st)
        \<and> rs_max_body_bytes g \<le> max_decoded_response_body_bytes (ps_limits st)
        \<and> rs_bytes_forwarded g = 0
        \<and> (request_method = ''HEAD'' \<or> res_status response \<in> {204, 205, 304} \<longrightarrow>
             rs_max_body_bytes g = 0))
    \<or> (\<exists>d. res_body response = DecodedBody d
        \<and> dc_max_body_bytes d \<le> max_decoded_response_body_bytes (ps_limits st)
        \<and> dc_bytes_forwarded d = 0
        \<and> request_method \<noteq> ''HEAD'' \<and> res_status response \<notin> {204, 205, 304})"
proof -
  from assms obtain codings policy h4 where
    policy: "validate_response_body_head A request_method (res_status response)
        (res_headers upstream_response) (encoded_body_limit (ps_limits st) codings) = Inr policy"
    and body: "res_body response = snd (response_body_of A C (ps_limits st) codings policy
        (res_body upstream_response) h4)"
    by (auto simp: normalize_http_response_def Let_def split: if_splits)
  show ?thesis
  proof (cases policy)
    case (Streaming declared)
    with policy have s: "request_method \<noteq> ''HEAD''" "res_status response \<notin> {204, 205, 304}"
      by (auto simp: validate_response_body_head_def split: if_splits)
    from Streaming s body show ?thesis
      using capacity_le [of "encoded_body_limit (ps_limits st) codings"]
        capacity_le [of "max_decoded_response_body_bytes (ps_limits st)"]
      by (cases "codings = []")
         (auto simp: response_body_of_def Let_def response_guard_streaming_def decode_body_def
            decoded_guard_new_def encoded_body_limit_def)
  next
    case (Forbidden advertised)
    with body show ?thesis by (simp add: response_body_of_def response_guard_forbidden_def)
  qed
qed

section \<open>Witnesses\<close>

definition example_secrets :: transport_secrets where
  "example_secrets = \<lparr>ts_session = \<lparr>secret_value = ''rp-0a''\<rparr>, ts_upstream = \<lparr>secret_value = ''rp-0b''\<rparr>,
     ts_bootstrap = \<lparr>secret_value = ''rp-0c''\<rparr>\<rparr>"

definition example_state :: proxy_state where
  "example_state =
     \<lparr>ps_expected_authority = ''a:1'', ps_expected_origin = ''http://a:1'',
      ps_address = \<lparr>pa_hostname = ''a'', pa_port = 1\<rparr>, ps_upstream = example_upstream,
      ps_secrets = example_secrets, ps_limits = default_limits, ps_permits = 64,
      ps_bootstrap_consumed = False, ps_tasks = tasks_new\<rparr>"

definition example_urls :: "string url_api" where
  "example_urls =
     \<lparr>url_parse = (\<lambda>s. None), url_scheme = (\<lambda>_. ''http''), url_host_str = (\<lambda>_. None),
      url_port_or_known_default = (\<lambda>_. None), url_set_host = (\<lambda>u _. Some u),
      url_set_port = (\<lambda>u _. Some u), url_as_str = id\<rparr>"

definition example_codecs :: "(unit, unit) codec_api" where
  "example_codecs = \<lparr>co_reader = (\<lambda>_. ()), co_codec = (\<lambda>_ r. r)\<rparr>"

definition example_upstream_response :: "(header_list, unit) response" where
  "example_upstream_response =
     \<lparr>res_status = 200, res_version = 11,
      res_headers = [(''content-length'', ''2''), (''set-cookie'', ''a=1; Path=/'')], res_body = ()\<rparr>"

definition example_env :: "(header_list, unit, unit) upstream_api" where
  "example_env =
     \<lparr>up_connect = Inr (), up_handshake = Inr (), up_ready = Inr (),
      up_send = (\<lambda>_. Inr example_upstream_response),
      up_send_websocket = (\<lambda>_. Inr example_upstream_response),
      up_finished = (\<lambda>_. False), up_driver_task = 1, up_tunnel_task = 2\<rparr>"

definition example_raw :: raw_admission where
  "example_raw = \<lparr>connection_tokens = [''x-hop''], websocket_upgrade = False\<rparr>"

definition example_request :: "(header_list, unit) request" where
  "example_request =
     \<lparr>req_method = ''GET'',
      req_uri = \<lparr>uri_path = ''/'', uri_query = None, uri_scheme = None, uri_authority = None\<rparr>,
      req_version = 11, req_headers = example_cookies, req_body = ()\<rparr>"

definition example_bootstrap :: "(header_list, unit) request" where
  "example_bootstrap =
     \<lparr>req_method = ''GET'',
      req_uri = \<lparr>uri_path = BOOTSTRAP_PATH, uri_query = None, uri_scheme = None,
                 uri_authority = None\<rparr>,
      req_version = 11, req_headers = [(''x-rpackit-bootstrap'', ''rp-0c'')], req_body = ()\<rparr>"

definition example_served where
  "example_served =
     handle_request reference_api example_urls example_codecs example_env example_request example_raw
       example_state"

lemma example_forwarded: "fst (snd example_served) \<noteq> None" by code_simp

lemma example_normalized:
  "is_ok (normalize_http_response reference_api example_urls example_codecs example_upstream_response
     ''GET'' example_state)"
  by code_simp

theorem forwarded_request_authenticated_witness:
  "\<exists>u. fst (snd example_served) = Some u
     \<and> forward_safe reference_api example_state (forwarded_headers u)"
proof -
  obtain st' u r where h: "handle_request reference_api example_urls example_codecs example_env
      example_request example_raw example_state = (st', Some u, r)"
    using example_forwarded unfolding example_served_def by (metis not_None_eq prod.collapse)
  from forwarded_request_authenticated [OF reference.http_laws_axioms h] show ?thesis
    by (auto simp: example_served_def h)
qed

theorem session_cookie_installed_once_witness:
  "length (filter (installs_session reference_api)
     (snd (serve_all reference_api example_urls example_codecs
        [(example_env, example_bootstrap, example_raw), (example_env, example_bootstrap, example_raw)]
        example_state))) \<le> 1"
  using session_cookie_installed_once [OF reference.http_laws_axioms prod.collapse [symmetric],
      of example_urls example_codecs
        "[(example_env, example_bootstrap, example_raw), (example_env, example_bootstrap, example_raw)]"
        example_state]
  by (auto simp: example_state_def)

theorem session_cookie_requires_bootstrap_witness:
  "\<exists>st' sent r. handle_request reference_api example_urls example_codecs example_env
      example_bootstrap example_raw example_state = (st', sent, r) \<and> ps_bootstrap_consumed st'"
proof -
  obtain st' sent r where h: "handle_request reference_api example_urls example_codecs example_env
      example_bootstrap example_raw example_state = (st', sent, r)" by (metis prod_cases3)
  have "installs_session reference_api (snd (snd (handle_request reference_api example_urls
      example_codecs example_env example_bootstrap example_raw example_state)))" by code_simp
  then have "installs_session reference_api r" by (simp only: h snd_conv)
  with session_cookie_requires_bootstrap [OF reference.http_laws_axioms h] h show ?thesis by blast
qed

theorem response_closes_connection_witness:
  "\<exists>st' sent r. example_served = (st', sent, r)
     \<and> hm_get_all reference_api (res_headers r) PROTECTED_HEADER = []"
proof -
  obtain st' sent r where h: "handle_request reference_api example_urls example_codecs example_env
      example_request example_raw example_state = (st', sent, r)" by (metis prod_cases3)
  from response_closes_connection [OF reference.http_laws_axioms h] h show ?thesis
    by (auto simp: example_served_def)
qed

theorem normalized_response_body_bounded_witness:
  "\<exists>r. normalize_http_response reference_api example_urls example_codecs example_upstream_response
      ''GET'' example_state = Inr r
     \<and> ((\<exists>g. res_body r = GuardedBody g) \<or> (\<exists>d. res_body r = DecodedBody d))"
proof -
  obtain r where r: "normalize_http_response reference_api example_urls example_codecs
      example_upstream_response ''GET'' example_state = Inr r" using example_normalized by auto
  from normalized_response_body_bounded [OF r] r show ?thesis by blast
qed

end
