(* ===== verification/Proxy_Lifecycle.thy ===== *)
theory Proxy_Lifecycle
  imports Proxy
begin

text \<open>
  Start, listeners, connection admission and shutdown of the proxy of
  \<open>crates/transport/src/proxy.rs\<close>.  The operating system's socket calls are an argument \<open>os\<close>.  The
  running proxy is a transition system whose steps are the events its tasks can cause in any order;
  its invariants hold in every state reachable from \<open>proxy_start\<close>.
\<close>

section \<open>Binding\<close>

datatype socket_op =
    NewSocket ip_addr
  | SetOnlyV6
  | SetReuseAddress bool
  | SetExclusiveAddressUse
  | SetNonblocking
  | BindTo ip_addr nat
  | ListenBacklog nat
  | LocalPort
  | IntoListener ip_addr

type_synonym 's os_api = "'s \<Rightarrow> socket_op \<Rightarrow> 's \<times> (io_error + nat)"

text \<open>Operations in order; the first error is the result, otherwise the value of the last.\<close>

fun run_ops :: "'s os_api \<Rightarrow> nat \<Rightarrow> 's \<Rightarrow> socket_op list \<Rightarrow> 's \<times> (io_error + nat)" where
  "run_ops os v s [] = (s, Inr v)"
| "run_ops os v s (op # ops) =
     (case os s op of (s', Inl e) \<Rightarrow> (s', Inl e) | (s', Inr w) \<Rightarrow> run_ops os w s' ops)"

definition LOCALHOST_V6 :: ip_addr where
  "LOCALHOST_V6 = V6 1"

definition configure_listener_ownership :: "socket_op list" where
  "configure_listener_ownership = [SetReuseAddress False, SetExclusiveAddressUse]"

definition ipv6_ops :: "socket_op list" where
  "ipv6_ops = [NewSocket LOCALHOST_V6, SetOnlyV6] @ configure_listener_ownership
     @ [SetNonblocking, BindTo LOCALHOST_V6 0, ListenBacklog 128, LocalPort]"

definition ipv4_ops :: "nat \<Rightarrow> socket_op list" where
  "ipv4_ops port = [NewSocket LOCALHOST_V4] @ configure_listener_ownership
     @ [SetNonblocking, BindTo LOCALHOST_V4 port, ListenBacklog 128]"

definition bind_dual_loopback_once :: "'s os_api \<Rightarrow> 's \<Rightarrow> 's \<times> (io_error + nat)" where
  "bind_dual_loopback_once os s =
     (case run_ops os 0 s ipv6_ops of
        (s1, Inl e) \<Rightarrow> (s1, Inl e)
      | (s1, Inr port) \<Rightarrow>
          (case run_ops os 0 s1 (ipv4_ops port @ [IntoListener LOCALHOST_V4, IntoListener LOCALHOST_V6]) of
             (s2, Inl e) \<Rightarrow> (s2, Inl e)
           | (s2, Inr _) \<Rightarrow> (s2, Inr port)))"

fun is_addr_in_use :: "io_error \<Rightarrow> bool" where
  "is_addr_in_use (IoAddrInUse _) = True"
| "is_addr_in_use _ = False"

fun retry_loop ::
  "nat \<Rightarrow> ('s \<Rightarrow> 's \<times> (io_error + 'a)) \<Rightarrow> 's \<Rightarrow> io_error option \<Rightarrow> 's \<times> (io_error + 'a)" where
  "retry_loop 0 operation s last_conflict =
     (s, Inl (case last_conflict of
                Some e \<Rightarrow> e
              | None \<Rightarrow> IoAddrInUse
                  ''compatible dual-loopback port allocation remained contended''))"
| "retry_loop (Suc attempts) operation s last_conflict =
     (case operation s of
        (s', Inr v) \<Rightarrow> (s', Inr v)
      | (s', Inl e) \<Rightarrow>
          if is_addr_in_use e then retry_loop attempts operation s' (Some e) else (s', Inl e))"

definition retry_addr_in_use ::
  "nat \<Rightarrow> ('s \<Rightarrow> 's \<times> (io_error + 'a)) \<Rightarrow> 's \<Rightarrow> 's \<times> (io_error + 'a)" where
  "retry_addr_in_use attempts operation s = retry_loop attempts operation s None"

definition DUAL_LOOPBACK_BIND_ATTEMPTS :: nat where
  "DUAL_LOOPBACK_BIND_ATTEMPTS = 32"

definition bind_dual_loopback :: "'s os_api \<Rightarrow> 's \<Rightarrow> 's \<times> (io_error + nat)" where
  "bind_dual_loopback os s =
     retry_addr_in_use DUAL_LOOPBACK_BIND_ATTEMPTS (bind_dual_loopback_once os) s"

section \<open>Connections\<close>

definition raw_rejection :: "nat \<Rightarrow> bytes" where
  "raw_rejection status =
     ''HTTP/1.1 '' @ (if status = 503 then ''503 Service Unavailable'' else ''400 Bad Request'')
     @ crlf @ ''Connection: close'' @ crlf @ ''Cache-Control: no-store'' @ crlf
     @ ''Content-Type: text/plain; charset=utf-8'' @ crlf @ ''Content-Length: 16'' @ crlf @ crlf
     @ ''Request rejected''"

datatype 's connection_outcome = RawRejected bytes | Serving raw_admission "'s replay_io"

text \<open>\<open>handle_socket\<close> up to the point where the connection is handed to the HTTP server;
  \<open>timed_out\<close> says whether \<open>header_timeout\<close> fired before the head was read.\<close>

definition handle_socket ::
  "'h http_api \<Rightarrow> request_parser \<Rightarrow> 's await_reader \<Rightarrow> bool \<Rightarrow> proxy_state \<Rightarrow> 's \<Rightarrow> 's connection_outcome"
  where
  "handle_socket A parse rd timed_out st socket =
     (if timed_out then RawRejected (raw_rejection 400)
      else
        case read_request_prefix rd (max_header_bytes (ps_limits st)) socket [] of
          (_, Inl _) \<Rightarrow> RawRejected (raw_rejection 400)
        | (socket', Inr pre) \<Rightarrow>
            (case validate A parse pre (ps_expected_authority st) (ps_limits st) of
               Inl _ \<Rightarrow> RawRejected (raw_rejection 400)
             | Inr raw \<Rightarrow> Serving raw (replay_new pre socket')))"

section \<open>Start and shutdown\<close>

definition proxy_start :: "proxy_config \<Rightarrow> io_error + nat \<Rightarrow> proxy_error + proxy_state" where
  "proxy_start config bound =
     (if \<not> limits_is_valid (pc_limits config) then Inl InvalidConfiguration
      else
        case bound of
          Inl e \<Rightarrow> Inl (Bind e)
        | Inr port \<Rightarrow>
            let addr = \<lparr>pa_hostname = pc_hostname config, pa_port = port\<rparr> in
            Inr \<lparr>ps_expected_authority = address_authority addr,
                 ps_expected_origin = address_origin addr, ps_address = addr,
                 ps_upstream = pc_upstream config, ps_secrets = pc_secrets config,
                 ps_limits = pc_limits config, ps_permits = max_connections (pc_limits config),
                 ps_bootstrap_consumed = False, ps_tasks = tasks_new\<rparr>)"

datatype listener_exit = ListenerReturned "io_error + unit" | ListenerPanicked

datatype task_exit = TaskDone | TaskCancelled | TaskPanicked

fun listener_error :: "listener_exit \<Rightarrow> proxy_error option" where
  "listener_error (ListenerReturned (Inr _)) = None"
| "listener_error (ListenerReturned (Inl e)) = Some (Listener e)"
| "listener_error ListenerPanicked = Some (Listener (IoOther ''proxy listener task terminated''))"

fun task_error :: "task_exit \<Rightarrow> proxy_error option" where
  "task_error TaskPanicked = Some (Task (IoOther ''tracked proxy task terminated''))"
| "task_error _ = None"

fun keep_first :: "proxy_error option \<Rightarrow> proxy_error option list \<Rightarrow> proxy_error option" where
  "keep_first first_error [] = first_error"
| "keep_first first_error (e # es) =
     keep_first (case first_error of None \<Rightarrow> e | Some _ \<Rightarrow> first_error) es"

text \<open>\<open>RunningProxy::shutdown\<close>: the task list is closed and every handle aborted before the
  listeners are awaited, then what was spawned meanwhile is taken, aborted and awaited.\<close>

definition proxy_shutdown ::
  "proxy_state \<Rightarrow> listener_exit list \<Rightarrow> (nat \<Rightarrow> task_exit) \<Rightarrow> proxy_state \<times> (proxy_error + unit)" where
  "proxy_shutdown st listeners exits =
     (let ts1 = tasks_abort_all (ps_tasks st);
          err1 = keep_first None (map listener_error listeners);
          taken = tasks_close_and_take ts1;
          ts2 = (fst taken)\<lparr>tt_aborted := tt_aborted (fst taken) @ snd taken\<rparr>;
          err2 = keep_first err1 (map (\<lambda>t. task_error (exits t)) (snd taken))
      in (st\<lparr>ps_tasks := ts2\<rparr>, case err2 of None \<Rightarrow> Inr () | Some e \<Rightarrow> Inl e))"

section \<open>The running proxy\<close>

datatype accept_outcome = PeerIgnored | TurnedAway | ConnectionServed | ConnectionDropped

text \<open>One accepted socket in \<open>run_listener\<close>; the permit goes back at once when the task list is
  closed, because the future that owns it is dropped.\<close>

definition accept_connection ::
  "(nat \<Rightarrow> bool) \<Rightarrow> nat \<Rightarrow> ip_addr \<Rightarrow> proxy_state \<Rightarrow> proxy_state \<times> accept_outcome" where
  "accept_connection fin task peer st =
     (if \<not> is_loopback peer then (st, PeerIgnored)
      else
        case tasks_spawn fin task (ps_tasks st) of (ts, accepted) \<Rightarrow>
          if ps_permits st = 0 then (st\<lparr>ps_tasks := ts\<rparr>, TurnedAway)
          else if accepted
          then (st\<lparr>ps_permits := ps_permits st - 1, ps_tasks := ts\<rparr>, ConnectionServed)
          else (st\<lparr>ps_tasks := ts\<rparr>, ConnectionDropped))"

record proxy_system =
  sy_state :: proxy_state
  sy_active :: "nat list"
  sy_shutdown :: bool

datatype proxy_event =
    Accepted nat ip_addr accept_outcome
  | Finished nat
  | SpawnedByRequest nat bool
  | BootstrapGranted
  | ListenerFailed
  | ShutdownRequested
  | TasksTaken

inductive proxy_step :: "proxy_system \<Rightarrow> proxy_event \<Rightarrow> proxy_system \<Rightarrow> bool" where
  accept: "accept_connection fin task peer (sy_state s) = (st', outcome) \<Longrightarrow> \<not> sy_shutdown s \<Longrightarrow>
    active' = (if outcome = ConnectionServed then task # sy_active s else sy_active s) \<Longrightarrow>
    proxy_step s (Accepted task peer outcome) (s\<lparr>sy_state := st', sy_active := active'\<rparr>)"
| finish: "task \<in> set (sy_active s) \<Longrightarrow>
    proxy_step s (Finished task)
      (s\<lparr>sy_state := (sy_state s)\<lparr>ps_permits := ps_permits (sy_state s) + 1\<rparr>,
         sy_active := remove1 task (sy_active s)\<rparr>)"
| spawn: "tasks_spawn fin task (ps_tasks (sy_state s)) = (ts, accepted) \<Longrightarrow>
    proxy_step s (SpawnedByRequest task accepted) (s\<lparr>sy_state := (sy_state s)\<lparr>ps_tasks := ts\<rparr>\<rparr>)"
| bootstrap: "consume_bootstrap vals (sy_state s) = (st', True) \<Longrightarrow>
    proxy_step s BootstrapGranted (s\<lparr>sy_state := st'\<rparr>)"
| listener_failed:
    "proxy_step s ListenerFailed
      (s\<lparr>sy_state := (sy_state s)\<lparr>ps_tasks := tasks_abort_all (ps_tasks (sy_state s))\<rparr>,
         sy_shutdown := True\<rparr>)"
| shutdown:
    "proxy_step s ShutdownRequested
      (s\<lparr>sy_state := (sy_state s)\<lparr>ps_tasks := tasks_abort_all (ps_tasks (sy_state s))\<rparr>,
         sy_shutdown := True\<rparr>)"
| taken: "tasks_close_and_take (ps_tasks (sy_state s)) = (ts, handles) \<Longrightarrow>
    proxy_step s TasksTaken (s\<lparr>sy_state := (sy_state s)\<lparr>ps_tasks := ts\<rparr>\<rparr>)"

inductive_cases proxy_stepE: "proxy_step s e s'"

inductive proxy_run :: "proxy_system \<Rightarrow> proxy_event list \<Rightarrow> proxy_system \<Rightarrow> bool" where
  run_refl: "proxy_run s [] s"
| run_step: "proxy_run s es s' \<Longrightarrow> proxy_step s' e s'' \<Longrightarrow> proxy_run s (es @ [e]) s''"

definition system_init :: "proxy_state \<Rightarrow> proxy_system" where
  "system_init st = \<lparr>sy_state = st, sy_active = [], sy_shutdown = False\<rparr>"

section \<open>Lemmas\<close>

lemma accept_permits:
  assumes "accept_connection fin task peer st = (st', outcome)"
  shows "ps_permits st = ps_permits st' + (if outcome = ConnectionServed then 1 else 0)"
    and "ps_limits st' = ps_limits st" "ps_bootstrap_consumed st' = ps_bootstrap_consumed st"
    and "outcome \<noteq> PeerIgnored \<longleftrightarrow> is_loopback peer"
    and "tt_closed (ps_tasks st) \<Longrightarrow> outcome \<noteq> ConnectionServed
      \<and> tt_closed (ps_tasks st') \<and> set (tt_handles (ps_tasks st')) \<subseteq> set (tt_handles (ps_tasks st))"
  using assms
  by (auto simp: accept_connection_def tasks_spawn_def Let_def split: if_splits)

lemma length_remove1_Suc: "x \<in> set xs \<Longrightarrow> Suc (length (remove1 x xs)) = length xs"
  by (induction xs) auto

lemma step_permits:
  assumes "proxy_step s e s'"
  shows "ps_permits (sy_state s') + length (sy_active s')
    = ps_permits (sy_state s) + length (sy_active s)"
    and "ps_limits (sy_state s') = ps_limits (sy_state s)"
  using assms
  by (auto elim!: proxy_stepE simp: consume_bootstrap_def Let_def length_remove1_Suc
      dest: accept_permits split: if_splits)

lemma step_closed:
  assumes "proxy_step s e s'" "tt_closed (ps_tasks (sy_state s))"
  shows "tt_closed (ps_tasks (sy_state s'))
    \<and> set (tt_handles (ps_tasks (sy_state s'))) \<subseteq> set (tt_handles (ps_tasks (sy_state s)))
    \<and> set (sy_active s') \<subseteq> set (sy_active s)"
  using assms(1)
proof cases
  case (accept fin task peer st' outcome active')
  from accept_permits(5) [OF accept(3) assms(2)] accept(2,5) show ?thesis by auto
next
  case (finish task)
  then show ?thesis using assms(2) set_remove1_subset [of task "sy_active s"] by simp
qed (use assms(2) in \<open>auto simp: consume_bootstrap_def tasks_spawn_def tasks_abort_all_def
      tasks_close_and_take_def Let_def split: if_splits\<close>)

lemma step_bootstrap:
  assumes "proxy_step s e s'"
  shows "(e = BootstrapGranted \<longrightarrow> \<not> ps_bootstrap_consumed (sy_state s))
    \<and> (ps_bootstrap_consumed (sy_state s') \<longleftrightarrow>
         ps_bootstrap_consumed (sy_state s) \<or> e = BootstrapGranted)"
  using assms
  by (auto elim!: proxy_stepE simp: consume_bootstrap_def Let_def dest: accept_permits(3)
      split: if_splits)

lemma proxy_start_ok:
  assumes "proxy_start config bound = Inr st"
  shows "ps_permits st = max_connections (pc_limits config)" "\<not> ps_bootstrap_consumed st"
    and "limits_is_valid (pc_limits config)"
  using assms by (auto simp: proxy_start_def Let_def split: if_splits sum.splits)

lemma run_invariant:
  assumes "proxy_run s es s'"
  shows "ps_permits (sy_state s') + length (sy_active s')
      = ps_permits (sy_state s) + length (sy_active s)
    \<and> ps_limits (sy_state s') = ps_limits (sy_state s)
    \<and> length (filter (\<lambda>e. e = BootstrapGranted) es) + (if ps_bootstrap_consumed (sy_state s) then 1 else 0)
        = (if ps_bootstrap_consumed (sy_state s') then 1 else 0)
    \<and> (tt_closed (ps_tasks (sy_state s)) \<longrightarrow> tt_closed (ps_tasks (sy_state s'))
         \<and> set (tt_handles (ps_tasks (sy_state s'))) \<subseteq> set (tt_handles (ps_tasks (sy_state s)))
         \<and> set (sy_active s') \<subseteq> set (sy_active s))"
  using assms
proof (induction rule: proxy_run.induct)
  case (run_step s es s' e s'')
  note S = step_permits [OF run_step.hyps(2)] step_bootstrap [OF run_step.hyps(2)]
  have c: "tt_closed (ps_tasks (sy_state s)) \<longrightarrow> tt_closed (ps_tasks (sy_state s''))
         \<and> set (tt_handles (ps_tasks (sy_state s''))) \<subseteq> set (tt_handles (ps_tasks (sy_state s)))
         \<and> set (sy_active s'') \<subseteq> set (sy_active s)"
    using step_closed [OF run_step.hyps(2)] run_step.IH by blast
  show ?case using S run_step.IH c by auto
qed simp

lemma keep_first_Some: "keep_first (Some e) es = Some e"
  by (induction es) auto

lemma keep_first_None: "keep_first None es = None \<longleftrightarrow> list_all (\<lambda>e. e = None) es"
proof (induction es)
  case (Cons e es)
  then show ?case by (cases e) (simp_all add: keep_first_Some)
qed simp

text \<open>The results of running an operation again and again.\<close>

fun op_state :: "('s \<Rightarrow> 's \<times> 'r) \<Rightarrow> 's \<Rightarrow> nat \<Rightarrow> 's" where
  "op_state operation s 0 = s"
| "op_state operation s (Suc k) = op_state operation (fst (operation s)) k"

definition op_result :: "('s \<Rightarrow> 's \<times> 'r) \<Rightarrow> 's \<Rightarrow> nat \<Rightarrow> 'r" where
  "op_result operation s k = snd (operation (op_state operation s k))"

definition op_in_use :: "('s \<Rightarrow> 's \<times> (io_error + 'a)) \<Rightarrow> 's \<Rightarrow> nat \<Rightarrow> bool" where
  "op_in_use operation s k =
     (case op_result operation s k of Inl e \<Rightarrow> is_addr_in_use e | Inr _ \<Rightarrow> False)"

lemma op_result_Suc [simp]: "op_result operation s (Suc k) = op_result operation (fst (operation s)) k"
  by (simp add: op_result_def)

lemma op_in_use_Suc [simp]: "op_in_use operation s (Suc k) = op_in_use operation (fst (operation s)) k"
  by (simp add: op_in_use_def)

lemma retry_loop_result:
  assumes "retry_loop n operation s last_conflict = (s', r)"
  shows "\<exists>k \<le> n. s' = op_state operation s k
    \<and> (\<forall>i. Suc i < k \<longrightarrow> op_in_use operation s i)
    \<and> (if 0 < k \<and> \<not> op_in_use operation s (k - 1) then r = op_result operation s (k - 1)
       else k = n \<and> (\<exists>e. r = Inl e))"
  using assms
proof (induction n arbitrary: s last_conflict)
  case (Suc n)
  obtain s1 q where q: "operation s = (s1, q)" by fastforce
  show ?case
  proof (cases "op_in_use operation s 0")
    case True
    then obtain e where e: "q = Inl e" "is_addr_in_use e"
      using q by (auto simp: op_in_use_def op_result_def split: sum.splits)
    with Suc.prems q have "retry_loop n operation s1 (Some e) = (s', r)" by simp
    from Suc.IH [OF this] obtain k where k: "k \<le> n" "s' = op_state operation s1 k"
      "\<forall>i. Suc i < k \<longrightarrow> op_in_use operation s1 i"
      "if 0 < k \<and> \<not> op_in_use operation s1 (k - 1) then r = op_result operation s1 (k - 1)
       else k = n \<and> (\<exists>e. r = Inl e)" by blast
    have "\<forall>i. Suc i < Suc k \<longrightarrow> op_in_use operation s i"
    proof (intro allI impI)
      fix i assume "Suc i < Suc k"
      then show "op_in_use operation s i" using k(3) True q by (cases i) auto
    qed
    moreover have "if 0 < Suc k \<and> \<not> op_in_use operation s (Suc k - 1)
        then r = op_result operation s (Suc k - 1) else Suc k = Suc n \<and> (\<exists>e. r = Inl e)"
      using k(4) True q by (cases k) auto
    ultimately show ?thesis using k(1,2) q by (intro exI [of _ "Suc k"]) simp
  next
    case False
    then have "s' = s1" "r = q"
      using Suc.prems q by (auto simp: op_in_use_def op_result_def split: sum.splits)
    with False q show ?thesis by (intro exI [of _ 1]) (simp add: op_result_def)
  qed
qed auto

section \<open>Properties\<close>

text \<open>binding is attempted at most \<open>attempts\<close> times; it stops at the first result that is not an
  address conflict and returns that result, and fails only after \<open>attempts\<close> conflicts in a row or on
  another error.\<close>

lemma retry_addr_in_use_bounded:
  assumes "retry_addr_in_use attempts operation s = (s', result)"
  shows "\<exists>k \<le> attempts. s' = op_state operation s k
    \<and> (\<forall>i. Suc i < k \<longrightarrow> op_in_use operation s i)
    \<and> (if 0 < k \<and> \<not> op_in_use operation s (k - 1) then result = op_result operation s (k - 1)
       else k = attempts \<and> (\<exists>e. result = Inl e))"
  using retry_loop_result [OF assms [unfolded retry_addr_in_use_def]] .

text \<open>a connection is handed to the HTTP server only with a head that admission has accepted for
  the proxy's own authority, and on a stream that replays exactly the bytes read, followed by what
  is left on the socket; otherwise it is answered with a fixed rejection.\<close>

lemma handle_socket_serves_admitted:
  assumes "stream_reader rd unread"
  shows "case handle_socket A parse rd timed_out st socket of
      Serving raw replay \<Rightarrow>
        validate A parse (ri_prefix replay) (ps_expected_authority st) (ps_limits st) = Inr raw
        \<and> length (ri_prefix replay) \<le> max_header_bytes (ps_limits st)
        \<and> ri_prefix replay @ unread (ri_inner replay) = unread socket
    | RawRejected answer \<Rightarrow> answer = raw_rejection 400"
proof -
  obtain socket' r where r: "read_request_prefix rd (max_header_bytes (ps_limits st)) socket []
      = (socket', r)" by fastforce
  note P = stream_reader.prefix_result [OF assms r]
  show ?thesis
    using P by (auto simp: handle_socket_def r replay_new_def split: sum.splits)
qed

text \<open>C10: in every state the running proxy can reach from its start, free permits and connections in
  service add up to \<open>max_connections\<close>, so at most that many are served at once, and the one-time
  bootstrap has been granted at most once, exactly when the flag is set.\<close>

theorem running_proxy_bounded:
  assumes "proxy_start config bound = Inr st" and "proxy_run (system_init st) events s"
  shows "ps_permits (sy_state s) + length (sy_active s) = max_connections (pc_limits config)
    \<and> length (filter (\<lambda>e. e = BootstrapGranted) events)
        = (if ps_bootstrap_consumed (sy_state s) then 1 else 0)"
proof -
  note S = proxy_start_ok [OF assms(1)]
  from run_invariant [OF assms(2)] S show ?thesis by (simp add: system_init_def)
qed

text \<open>What the answer of \<open>shutdown\<close> says of the tasks.\<close>

lemma proxy_shutdown_Ok:
  "snd (proxy_shutdown st listeners exits) = Inr () \<longleftrightarrow>
     list_all (\<lambda>l. listener_error l = None) listeners \<and> list_all (\<lambda>t. exits t \<noteq> TaskPanicked) (tt_handles (ps_tasks st))"
proof -
  have te: "task_error e = None \<longleftrightarrow> e \<noteq> TaskPanicked" for e by (cases e) auto
  have kf: "keep_first a es = None \<longleftrightarrow> a = None \<and> list_all (\<lambda>e. e = None) es" for a es
    using keep_first_None keep_first_Some by (cases a) auto
  have ok: "((case err of None \<Rightarrow> Inr () | Some e \<Rightarrow> Inl e) = (Inr () :: proxy_error + unit))
      \<longleftrightarrow> err = None" for err by (cases err) auto
  show ?thesis
    by (simp add: proxy_shutdown_def tasks_abort_all_def tasks_close_and_take_def Let_def kf ok list_all_iff te)
qed

text \<open>C11: once the task list is closed, by a listener failure or a shutdown, no event adds a tracked
  task or a connection in service; and \<open>shutdown\<close> aborts every tracked task, leaves none tracked and
  reports an error exactly when a listener failed or a task panicked.\<close>

theorem shutdown_is_final:
  assumes "proxy_run s events s'" and "tt_closed (ps_tasks (sy_state s))"
  shows "tt_closed (ps_tasks (sy_state s'))
    \<and> set (tt_handles (ps_tasks (sy_state s'))) \<subseteq> set (tt_handles (ps_tasks (sy_state s)))
    \<and> set (sy_active s') \<subseteq> set (sy_active s)
    \<and> (case proxy_shutdown (sy_state s') listeners exits of (st, result) \<Rightarrow>
         tt_closed (ps_tasks st) \<and> tt_handles (ps_tasks st) = []
         \<and> set (tt_handles (ps_tasks (sy_state s'))) \<subseteq> set (tt_aborted (ps_tasks st))
         \<and> (result = Inr () \<longleftrightarrow> list_all (\<lambda>l. listener_error l = None) listeners
              \<and> list_all (\<lambda>t. exits t \<noteq> TaskPanicked) (tt_handles (ps_tasks (sy_state s')))))"
proof -
  have "case proxy_shutdown (sy_state s') listeners exits of (st, result) \<Rightarrow>
         tt_closed (ps_tasks st) \<and> tt_handles (ps_tasks st) = []
         \<and> set (tt_handles (ps_tasks (sy_state s'))) \<subseteq> set (tt_aborted (ps_tasks st))
         \<and> (result = Inr () \<longleftrightarrow> list_all (\<lambda>l. listener_error l = None) listeners
              \<and> list_all (\<lambda>t. exits t \<noteq> TaskPanicked) (tt_handles (ps_tasks (sy_state s'))))"
    using proxy_shutdown_Ok [of "sy_state s'" listeners exits]
    by (simp add: proxy_shutdown_def tasks_abort_all_def tasks_close_and_take_def Let_def)
  with run_invariant [OF assms(1)] assms(2) show ?thesis by blast
qed

section \<open>Witnesses\<close>

definition example_bind :: "(io_error + nat) list \<Rightarrow> (io_error + nat) list \<times> (io_error + nat)" where
  "example_bind rs = (case rs of [] \<Rightarrow> ([], Inl (IoOther ''none'')) | r # rest \<Rightarrow> (rest, r))"

theorem retry_addr_in_use_bounded_witness:
  "\<exists>k \<le> 32. ([] :: (io_error + nat) list) = op_state example_bind [Inl (IoAddrInUse ''x''), Inr 4000] k"
proof -
  have "retry_addr_in_use 32 example_bind [Inl (IoAddrInUse ''x''), Inr 4000] = ([], Inr 4000)"
    by code_simp
  from retry_addr_in_use_bounded [OF this] show ?thesis by blast
qed

theorem handle_socket_serves_admitted_witness:
  "case handle_socket reference_api example_parser segmented_read False
       (example_state\<lparr>ps_limits := default_limits\<rparr>) ([3, 0, 7], example_head) of
      Serving raw replay \<Rightarrow> ri_prefix replay @ snd (ri_inner replay) = example_head
    | RawRejected answer \<Rightarrow> answer = raw_rejection 400"
  using handle_socket_serves_admitted [OF segmented.stream_reader_axioms,
      where A = reference_api and parse = example_parser and timed_out = False
        and st = "example_state\<lparr>ps_limits := default_limits\<rparr>"
        and socket = "([3, 0, 7], example_head)"]
  by (auto split: connection_outcome.splits)

definition example_config :: proxy_config where
  "example_config = \<lparr>pc_upstream = example_upstream, pc_hostname = ''a'', pc_secrets = example_secrets,
     pc_limits = default_limits\<rparr>"

lemma example_start: "\<exists>st. proxy_start example_config (Inr 4000) = Inr st"
  using default_limits_valid by (simp add: proxy_start_def example_config_def Let_def)

theorem running_proxy_bounded_witness:
  "\<exists>st. proxy_start example_config (Inr 4000) = Inr st \<and> ps_permits st = 64"
proof -
  obtain st where st: "proxy_start example_config (Inr 4000) = Inr st" using example_start by blast
  from running_proxy_bounded [OF st run_refl] st show ?thesis
    by (simp add: system_init_def example_config_def default_limits_def)
qed

theorem shutdown_is_final_witness:
  "\<exists>s. proxy_run (system_init (example_state\<lparr>ps_tasks := tasks_abort_all tasks_new\<rparr>))
       [ShutdownRequested] s \<and> tt_closed (ps_tasks (sy_state s)) \<and> sy_active s = []"
proof -
  define s0 where "s0 = system_init (example_state\<lparr>ps_tasks := tasks_abort_all tasks_new\<rparr>)"
  have c: "tt_closed (ps_tasks (sy_state s0))" "sy_active s0 = []"
    by (simp_all add: s0_def system_init_def tasks_abort_all_def)
  obtain s where "proxy_run s0 ([] @ [ShutdownRequested]) s"
    using proxy_run.run_step [OF proxy_run.run_refl proxy_step.shutdown] by blast
  with shutdown_is_final [OF this c(1)] c(2) show ?thesis by (auto simp: s0_def)
qed

end
