(* ===== verification/Desktop_Owner.thy ===== *)
theory Desktop_Owner
  imports Runtime_Launch Proxy_Lifecycle
begin

text \<open>
  \<open>NativeAppOwner\<close> of \<open>crates/windows-lifecycle/src/desktop.rs\<close>: one proxy and one runtime, with the order in
  which they start and stop.  Its methods are actions on the same history of effects as those of the
  runtime owner, so that the order of proxy and runtime effects can be stated; they answer with the
  errors of this layer as values (\<open>tried\<close>).  The proxy is its address, its secrets and the state its listener
  tasks were started with; what its tasks answer when it is shut down is an oracle, through the model
  of \<open>RunningProxy::shutdown\<close>.
\<close>

section \<open>Definitions\<close>

datatype native_app_error =
    AppBundle bundle_error | SecretGeneration | AppProxy proxy_error | AppRuntime lifecycle_error
  | NonLoopbackBrowserHost | LifecycleWorkerTerminated | AppNotRunning | AppStillRunning
  | AppCleanupAfterFailure native_app_error native_app_error

record app_oracle =
  ao_life :: life_oracle
  ao_env :: runtime_env
  ao_files :: bundle_env
  ao_reserved :: "life_op list \<Rightarrow> bool \<times> (16 word) option"
  ao_random :: "bytes option list"
  ao_nonce :: "bytes option"
  ao_bound :: "life_op list \<Rightarrow> io_error + nat"
  ao_resolved :: "life_op list \<Rightarrow> ip_addr list option"
  ao_proxy :: "life_op list \<Rightarrow> proxy_state"
  ao_listeners :: "life_op list \<Rightarrow> listener_exit list"
  ao_exits :: "life_op list \<Rightarrow> nat \<Rightarrow> task_exit"
  ao_worker :: "life_op list \<Rightarrow> bool"

record running_proxy =
  rp_address :: proxy_address
  rp_secrets :: transport_secrets
  rp_state :: proxy_state

record native_owner =
  no_proxy :: "running_proxy option"
  no_runtime :: "runtime_owner option"
  no_host_resolution :: host_resolution

record browser_launch =
  bl_address :: proxy_address
  bl_session :: secret
  bl_bootstrap :: secret

record native_report =
  nr_runtime :: shutdown_report
  nr_proxy_stopped :: bool

subsection \<open>Actions\<close>

type_synonym ('o, 'e, 'a) tried = "('o, 'e + 'a) act"
type_synonym ('o, 'a) app = "('o, native_app_error, 'a) tried"

definition app_ok :: "'a \<Rightarrow> ('o, 'e, 'a) tried" where
  "app_ok x = aret (Inr x)"

definition app_fail :: "'e \<Rightarrow> ('o, 'e, 'a) tried" where
  "app_fail e = aret (Inl e)"

definition app_bind :: "('o, 'e, 'a) tried \<Rightarrow> ('a \<Rightarrow> ('o, 'e, 'b) tried) \<Rightarrow> ('o, 'e, 'b) tried" where
  "app_bind m f = abind m (\<lambda>r. case r of Inl e \<Rightarrow> app_fail e | Inr x \<Rightarrow> f x)"

definition app_lift :: "'e + 'a \<Rightarrow> ('o, 'e, 'a) tried" where
  "app_lift r = aret r"

definition app_cleanup_error :: "native_app_error \<Rightarrow> native_app_error option \<Rightarrow> native_app_error" where
  "app_cleanup_error primary cleanup =
     (case cleanup of Some e \<Rightarrow> AppCleanupAfterFailure primary e | None \<Rightarrow> primary)"

text \<open>\<open>RunningProxy::shutdown\<close> on the tasks of the moment, and dropping a proxy.\<close>

definition proxy_stopped :: "app_oracle \<Rightarrow> ('o, unit) app" where
  "proxy_stopped os =
     ask LStopProxy (\<lambda>h. map_err AppProxy (snd (proxy_shutdown (ao_proxy os h) (ao_listeners os h) (ao_exits os h))))"

text \<open>A runtime operation on the blocking worker; \<open>None\<close> when the worker terminated.  A worker that
  terminates drops the runtime it was given.\<close>

definition on_worker ::
  "app_oracle \<Rightarrow> runtime_owner \<Rightarrow> (runtime_owner, 'a) act \<Rightarrow>
     ('o, (runtime_owner \<times> (lifecycle_error + 'a)) option) act" where
  "on_worker os rt m w =
     (if ao_worker os (snd w) then abind (on_owner rt m) (\<lambda>x. aret (Some x)) w
      else abind (on_owner rt (owner_drop (ao_life os))) (\<lambda>_. aret None) w)"

subsection \<open>Launch\<close>

definition cleanup_proxy_after_failure :: "app_oracle \<Rightarrow> native_app_error \<Rightarrow> ('o, 'a) app" where
  "cleanup_proxy_after_failure os primary =
     abind (proxy_stopped os) (\<lambda>r.
     case r of
       Inr _ \<Rightarrow> app_fail primary
     | Inl e \<Rightarrow> app_fail (app_cleanup_error primary (Some e)))"

text \<open>Starting the runtime behind a bound proxy.\<close>

definition launch_runtime ::
  "app_oracle \<Rightarrow> validated_bundle \<Rightarrow> win_path \<Rightarrow> 16 word \<Rightarrow> transport_secrets \<Rightarrow> lifecycle_limits \<Rightarrow>
     running_proxy \<Rightarrow> host_resolution \<Rightarrow> (unit, native_owner) app" where
  "launch_runtime os bundle session_parent upstream_port secrets limits proxy resolution w =
     (if ao_worker os (snd w) then
        abind (attempt (launch_validated (ao_life os) (ao_env os) bundle session_parent upstream_port secrets limits))
          (\<lambda>r.
          case r of
            Inr rt \<Rightarrow> app_ok \<lparr>no_proxy = Some proxy, no_runtime = Some rt, no_host_resolution = resolution\<rparr>
          | Inl e \<Rightarrow> cleanup_proxy_after_failure os (AppRuntime e)) w
      else cleanup_proxy_after_failure os LifecycleWorkerTerminated w)"

text \<open>\<open>RunningProxy::start\<close>: the limits are looked at before a listener is bound.\<close>

definition proxy_started :: "app_oracle \<Rightarrow> proxy_config \<Rightarrow> ('o, proxy_state) app" where
  "proxy_started os config =
     (if \<not> limits_is_valid (pc_limits config) then app_fail (AppProxy InvalidConfiguration)
      else ask LBindProxy (\<lambda>h. map_err AppProxy (proxy_start config (ao_bound os h))))"

definition native_launch ::
  "app_oracle \<Rightarrow> path \<Rightarrow> win_path \<Rightarrow> lifecycle_limits \<Rightarrow> transport_limits \<Rightarrow> (unit, native_owner) app" where
  "native_launch os bundle_path session_parent lifecycle_limits transport_limits =
     (if \<not> limits_valid lifecycle_limits then app_fail (AppRuntime InvalidLimits)
      else
        app_bind (app_lift (map_err AppBundle (bundle_load (ao_files os) bundle_path))) (\<lambda>bundle.
        abind (ask LReservePort (ao_reserved os)) (\<lambda>(reserved, address).
        app_bind (app_lift (map_err AppRuntime (select_upstream_port reserved address))) (\<lambda>upstream_port.
        app_bind (app_lift (ok_or (secrets_generate (ao_random os)) SecretGeneration)) (\<lambda>secrets.
        let upstream = \<lparr>sa_ip = LOCALHOST_V4, sa_port = unat upstream_port\<rparr> in
        app_bind (app_lift (map_err AppProxy (generate_with_secrets upstream secrets (ao_nonce os)))) (\<lambda>config0.
        let config = with_limits config0 transport_limits in
        app_bind (proxy_started os config) (\<lambda>st.
        let proxy = \<lparr>rp_address = ps_address st, rp_secrets = ps_secrets st, rp_state = st\<rparr> in
        abind (ask LResolveHost (\<lambda>h. resolve_hostname (ao_resolved os h))) (\<lambda>resolution.
        if (case resolution of NonLoopback _ \<Rightarrow> True | _ \<Rightarrow> False)
        then cleanup_proxy_after_failure os NonLoopbackBrowserHost
        else launch_runtime os bundle session_parent upstream_port secrets lifecycle_limits proxy resolution))))))))"

subsection \<open>Methods\<close>

definition native_browser_launch :: "native_owner \<Rightarrow> native_app_error + browser_launch" where
  "native_browser_launch ow =
     rbind (ok_or (no_proxy ow) AppNotRunning) (\<lambda>proxy.
       Inr \<lparr>bl_address = rp_address proxy, bl_session = ts_session (rp_secrets proxy),
            bl_bootstrap = ts_bootstrap (rp_secrets proxy)\<rparr>)"

definition stop_proxy :: "app_oracle \<Rightarrow> (native_owner, unit) app" where
  "stop_proxy os =
     abind (owner no_proxy) (\<lambda>proxy.
     abind (update (\<lambda>ow. ow\<lparr>no_proxy := None\<rparr>)) (\<lambda>_.
       if proxy = None then app_ok () else proxy_stopped os))"

datatype runtime_stop = StopGraceful | StopForced

definition stop_runtime :: "app_oracle \<Rightarrow> runtime_stop \<Rightarrow> (native_owner, shutdown_report) app" where
  "stop_runtime os stop =
     abind (owner no_runtime) (\<lambda>runtime.
     abind (update (\<lambda>ow. ow\<lparr>no_runtime := None\<rparr>)) (\<lambda>_.
     case runtime of
       None \<Rightarrow> app_fail AppNotRunning
     | Some rt \<Rightarrow>
         abind (on_worker os rt (case stop of StopGraceful \<Rightarrow> shutdown (ao_life os)
                                            | StopForced \<Rightarrow> force_shutdown (ao_life os))) (\<lambda>r.
         case r of
           None \<Rightarrow> app_fail LifecycleWorkerTerminated
         | Some (rt1, Inr report) \<Rightarrow>
             abind (on_owner rt1 (owner_drop (ao_life os))) (\<lambda>_. app_ok report)
         | Some (rt1, Inl e) \<Rightarrow>
             abind (update (\<lambda>ow. ow\<lparr>no_runtime := Some rt1\<rparr>)) (\<lambda>_. app_fail (AppRuntime e)))))"

definition finish_shutdown ::
  "native_app_error + shutdown_report \<Rightarrow> native_app_error + unit \<Rightarrow> native_app_error + native_report" where
  "finish_shutdown runtime proxy =
     (case (runtime, proxy) of
        (Inr report, Inr _) \<Rightarrow> Inr \<lparr>nr_runtime = report, nr_proxy_stopped = True\<rparr>
      | (Inl primary, Inr _) \<Rightarrow> Inl primary
      | (Inr _, Inl primary) \<Rightarrow> Inl primary
      | (Inl primary, Inl cleanup) \<Rightarrow> Inl (app_cleanup_error primary (Some cleanup)))"

definition native_shutdown :: "app_oracle \<Rightarrow> (native_owner, native_report) app" where
  "native_shutdown os =
     abind (owner (\<lambda>ow. ow)) (\<lambda>ow.
     if no_runtime ow = None \<and> no_proxy ow = None then app_fail AppNotRunning
     else
       abind (stop_runtime os StopGraceful) (\<lambda>runtime.
       abind (stop_proxy os) (\<lambda>proxy.
         app_lift (finish_shutdown runtime proxy))))"

definition native_force_shutdown :: "app_oracle \<Rightarrow> (native_owner, native_report) app" where
  "native_force_shutdown os =
     abind (owner (\<lambda>ow. ow)) (\<lambda>ow.
     if no_runtime ow = None \<and> no_proxy ow = None then app_fail AppNotRunning
     else
       abind (stop_proxy os) (\<lambda>proxy.
       abind (stop_runtime os StopForced) (\<lambda>runtime.
         app_lift (finish_shutdown runtime proxy))))"

definition native_poll_health :: "app_oracle \<Rightarrow> (native_owner, unit) app" where
  "native_poll_health os =
     abind (owner no_runtime) (\<lambda>runtime.
     case runtime of
       None \<Rightarrow> app_fail AppNotRunning
     | Some rt \<Rightarrow>
         abind (on_owner rt (poll_health (ao_life os))) (\<lambda>(rt1, health).
         abind (update (\<lambda>ow. ow\<lparr>no_runtime := Some rt1\<rparr>)) (\<lambda>_.
         case health of
           Inr _ \<Rightarrow> app_ok ()
         | Inl e \<Rightarrow>
             abind (native_force_shutdown os) (\<lambda>cleanup.
               app_fail (app_cleanup_error (AppRuntime e)
                 (case cleanup of Inl c \<Rightarrow> Some c | Inr _ \<Rightarrow> None))))))"

definition native_retry_cleanup :: "app_oracle \<Rightarrow> (native_owner, unit) app" where
  "native_retry_cleanup os =
     abind (owner (\<lambda>ow. ow)) (\<lambda>ow.
     if no_proxy ow \<noteq> None then app_fail AppStillRunning
     else
       case no_runtime ow of
         None \<Rightarrow> app_fail AppNotRunning
       | Some rt \<Rightarrow>
           abind (on_owner rt (retry_private_cleanup (ao_life os))) (\<lambda>(rt1, r).
           abind (update (\<lambda>ow. ow\<lparr>no_runtime := Some rt1\<rparr>)) (\<lambda>_.
           case r of
             Inl e \<Rightarrow> app_fail (AppRuntime e)
           | Inr _ \<Rightarrow>
               abind (update (\<lambda>ow. ow\<lparr>no_runtime := None\<rparr>)) (\<lambda>_.
               abind (on_owner rt1 (owner_drop (ao_life os))) (\<lambda>_. app_ok ())))))"

definition native_drop :: "app_oracle \<Rightarrow> (native_owner, unit) act" where
  "native_drop os =
     abind (owner (\<lambda>ow. ow)) (\<lambda>ow.
     abind (update (\<lambda>ow. ow\<lparr>no_proxy := None\<rparr>)) (\<lambda>_.
     abind (if no_proxy ow = None then aret () else ask LDropProxy (\<lambda>_. ())) (\<lambda>_.
     abind (update (\<lambda>ow. ow\<lparr>no_runtime := None\<rparr>)) (\<lambda>_.
       case no_runtime ow of
         None \<Rightarrow> aret ()
       | Some rt \<Rightarrow> abind (on_owner rt (owner_drop (ao_life os))) (\<lambda>_. aret ())))))"

subsection \<open>Specifications\<close>

text \<open>While the proxy runs the runtime is ready; a runtime without a proxy is stopping or cleaned.\<close>

definition native_ok :: "native_owner \<Rightarrow> bool" where
  "native_ok ow \<longleftrightarrow>
     (case no_runtime ow of
        None \<Rightarrow> no_proxy ow = None
      | Some rt \<Rightarrow> owner_ok rt \<and> (no_proxy ow \<noteq> None \<longrightarrow> ro_owner_state rt = OwnerReady))"

inductive native_step :: "app_oracle \<Rightarrow> native_owner world \<Rightarrow> native_owner world \<Rightarrow> bool" for os where
  polled: "native_poll_health os w = Some (w1, r) \<Longrightarrow> native_step os w w1"
| shut: "native_shutdown os w = Some (w1, r) \<Longrightarrow> native_step os w w1"
| forced: "native_force_shutdown os w = Some (w1, r) \<Longrightarrow> native_step os w w1"
| retried: "native_retry_cleanup os w = Some (w1, r) \<Longrightarrow> native_step os w w1"

inductive native_steps :: "app_oracle \<Rightarrow> native_owner world \<Rightarrow> native_owner world \<Rightarrow> bool" for os where
  none: "native_steps os w w"
| step: "native_steps os w w1 \<Longrightarrow> native_step os w1 w2 \<Longrightarrow> native_steps os w w2"

text \<open>A proxy as it was started: the generated secrets, the random hostname, and the loopback port it forwards
  to.\<close>

definition proxy_configured ::
  "app_oracle \<Rightarrow> transport_limits \<Rightarrow> 16 word \<Rightarrow> nat \<Rightarrow> running_proxy \<Rightarrow> bool" where
  "proxy_configured os traffic upstream_port bound_port proxy \<longleftrightarrow>
     secrets_generate (ao_random os) = Some (rp_secrets proxy)
   \<and> (\<exists>nonce. ao_nonce os = Some nonce
        \<and> rp_address proxy = \<lparr>pa_hostname = ''rpackit-'' @ hex_encode nonce @ ''.localhost'', pa_port = bound_port\<rparr>)
   \<and> ps_address (rp_state proxy) = rp_address proxy \<and> ps_secrets (rp_state proxy) = rp_secrets proxy
   \<and> ps_limits (rp_state proxy) = traffic
   \<and> ps_upstream (rp_state proxy) = \<lparr>v4_addr = 127 * 2 ^ 24 + 1, v4_port = unat upstream_port\<rparr>"

text \<open>The last effect stopped the proxy, and \<open>RunningProxy::shutdown\<close> answered Ok: every listener had
  returned without an error and no tracked task had panicked.\<close>

definition proxy_ended_cleanly :: "app_oracle \<Rightarrow> life_op list \<Rightarrow> bool" where
  "proxy_ended_cleanly os h \<longleftrightarrow>
     (\<exists>g. h = g @ [LStopProxy])
   \<and> snd (proxy_shutdown (ao_proxy os h) (ao_listeners os h) (ao_exits os h)) = Inr ()
   \<and> list_all (\<lambda>l. listener_error l = None) (ao_listeners os h)
   \<and> list_all (\<lambda>t. ao_exits os h t \<noteq> TaskPanicked) (tt_handles (ps_tasks (ao_proxy os h)))"

text \<open>What a failed launch leaves: no proxy listener was bound, or the proxy was stopped at the very end; and
  the process was released as \<open>launch_released\<close> says.\<close>

definition launch_withdrawn :: "app_oracle \<Rightarrow> life_op list \<Rightarrow> life_op list \<Rightarrow> bool" where
  "launch_withdrawn os h0 h \<longleftrightarrow>
     h = h0 \<or> h = h0 @ [LReservePort]
   \<or> (h = h0 @ [LReservePort, LBindProxy] \<and> (case ao_bound os h of Inl _ \<Rightarrow> True | Inr _ \<Rightarrow> False))
   \<or> (\<exists>k. h = h0 @ [LReservePort, LBindProxy, LResolveHost] @ k @ [LStopProxy]
        \<and> launch_released (ao_life os) (h0 @ [LReservePort, LBindProxy, LResolveHost])
             (h0 @ [LReservePort, LBindProxy, LResolveHost] @ k))"

section \<open>Lemmas\<close>

lemma drop_cleaned:
  assumes "owner_ok rt" and "ro_owner_state rt = OwnerCleaned"
  shows "owner_drop os (rt, h) = Some ((rt, h), Inr ())"
  using assms by (simp add: owner_drop_def abind_def act_defs owner_ok_def holds_no_process_def)

lemma proxy_stopped_run:
  "proxy_stopped os w = Some (w1, r) \<Longrightarrow> w1 = (fst w, snd w @ [LStopProxy]) \<and> (\<exists>x. r = Inr x)"
  by (auto simp: proxy_stopped_def ask_def Let_def)

lemma stop_proxy_run:
  assumes "stop_proxy os w = Some (w1, r)"
  shows "fst w1 = (fst w)\<lparr>no_proxy := None\<rparr> \<and> (\<exists>x. r = Inr x)
    \<and> snd w1 = snd w @ (if no_proxy (fst w) = None then [] else [LStopProxy])"
  using assms by (auto simp: stop_proxy_def abind_def act_defs app_ok_def dest!: proxy_stopped_run split: if_splits)

lemma stop_proxy_Ok:
  assumes "stop_proxy os w = Some (w1, Inr (Inr u))" and "no_proxy (fst w) \<noteq> None"
  shows "proxy_ended_cleanly os (snd w1)"
  using assms
  by (auto simp: stop_proxy_def proxy_stopped_def abind_def act_defs Let_def proxy_ended_cleanly_def map_err_def
      proxy_shutdown_Ok [symmetric] split: sum.splits)

text \<open>Stopping the runtime: it is gone, or it stays with an error.\<close>

lemma stop_runtime_run:
  assumes "stop_runtime os stop w = Some (w1, r)"
  obtains (absent) "no_runtime (fst w) = None" "w1 = w" "r = Inr (Inl AppNotRunning)"
    | (panicked) rt where "no_runtime (fst w) = Some rt" "\<not> ao_worker os (snd w)"
        "fst w1 = (fst w)\<lparr>no_runtime := None\<rparr>" "\<exists>k. snd w1 = snd w @ k" "r = Inr (Inl LifecycleWorkerTerminated)"
    | (reported) rt rt1 h report rd where "no_runtime (fst w) = Some rt"
        "(case stop of StopGraceful \<Rightarrow> shutdown (ao_life os) | StopForced \<Rightarrow> force_shutdown (ao_life os)) (rt, snd w)
           = Some ((rt1, h), Inr report)"
        "owner_drop (ao_life os) (rt1, h) = Some rd" "fst w1 = (fst w)\<lparr>no_runtime := None\<rparr>" "snd w1 = snd (fst rd)"
        "r = Inr (Inr report)"
    | (retained) rt rt1 h e where "no_runtime (fst w) = Some rt"
        "(case stop of StopGraceful \<Rightarrow> shutdown (ao_life os) | StopForced \<Rightarrow> force_shutdown (ao_life os)) (rt, snd w)
           = Some ((rt1, h), Inl e)"
        "w1 = ((fst w)\<lparr>no_runtime := Some rt1\<rparr>, h)" "r = Inr (Inl (AppRuntime e))"
proof (cases "no_runtime (fst w)")
  case None
  then have "(fst w)\<lparr>no_runtime := None\<rparr> = fst w" by (cases "fst w") simp
  with None assms have "w1 = w" "r = Inr (Inl AppNotRunning)"
    by (auto simp: stop_runtime_def abind_def act_defs app_fail_def)
  with None show thesis by (intro absent)
next
  case (Some rt)
  let ?m = "case stop of StopGraceful \<Rightarrow> shutdown (ao_life os) | StopForced \<Rightarrow> force_shutdown (ao_life os)"
  let ?w = "((fst w)\<lparr>no_runtime := None\<rparr>, snd w)"
  obtain x where run: "abind (on_worker os rt ?m) (\<lambda>r.
         case r of
           None \<Rightarrow> app_fail LifecycleWorkerTerminated
         | Some (rt1, Inr report) \<Rightarrow> abind (on_owner rt1 (owner_drop (ao_life os))) (\<lambda>_. app_ok report)
         | Some (rt1, Inl e) \<Rightarrow>
             abind (update (\<lambda>ow. ow\<lparr>no_runtime := Some rt1\<rparr>)) (\<lambda>_. app_fail (AppRuntime e))) ?w = Some (w1, r)"
    using assms Some by (simp add: stop_runtime_def abind_def [of "owner _"] abind_def [of "update _"] owner_def update_def)
  show thesis
  proof (cases "ao_worker os (snd w)")
    case False
    with run obtain rd where d: "owner_drop (ao_life os) (rt, snd w) = Some rd"
        "w1 = (fst ?w, snd (fst rd))" "r = Inr (Inl LifecycleWorkerTerminated)"
      by (auto simp: on_worker_def abind_Some on_owner_Some aret_def app_fail_def)
    obtain w2 r2 where rd: "rd = (w2, r2)" by (cases rd)
    have "\<exists>k. snd w2 = snd w @ k" using drop_closes [of "ao_life os" "(rt, snd w)" w2 r2] d(1) rd by simp
    then show thesis using panicked [OF Some False] d rd by simp
  next
    case True
    with run obtain rt1 h r1 where m: "?m (rt, snd w) = Some ((rt1, h), r1)"
      and rest: "(case r1 of
           Inr report \<Rightarrow> abind (on_owner rt1 (owner_drop (ao_life os))) (\<lambda>_. app_ok report)
         | Inl e \<Rightarrow>
             abind (update (\<lambda>ow. ow\<lparr>no_runtime := Some rt1\<rparr>)) (\<lambda>_. app_fail (AppRuntime e))) (fst ?w, h) = Some (w1, r)"
      by (auto simp: on_worker_def abind_Some on_owner_Some aret_def)
    show thesis
    proof (cases r1)
      case (Inl e)
      then show thesis using retained [OF Some] m rest by (simp add: abind_def update_def app_fail_def aret_def)
    next
      case (Inr report)
      then obtain rd where "owner_drop (ao_life os) (rt1, h) = Some rd" "w1 = (fst ?w, snd (fst rd))" "r = Inr (Inr report)"
        using rest by (auto simp: abind_Some on_owner_Some aret_def app_ok_def)
      then show thesis using reported [OF Some m [unfolded Inr]] by simp
    qed
  qed
qed

text \<open>What stopping the runtime keeps, when its worker does not terminate: a runtime that stays is an owner in
  order, and its Job was not closed before it was empty.\<close>

lemma stop_runtime_ok:
  assumes "stop_runtime os stop w = Some (w1, r)"
    and "\<And>rt. no_runtime (fst w) = Some rt \<Longrightarrow> owner_ok rt"
  shows "(\<exists>x. r = Inr x) \<and> (\<exists>k. snd w1 = snd w @ k) \<and> no_proxy (fst w1) = no_proxy (fst w)
    \<and> (\<forall>rt. no_runtime (fst w1) = Some rt \<longrightarrow> owner_ok rt)
    \<and> (ao_worker os (snd w) \<longrightarrow> closes_empty (ao_life os) (snd w) (snd w1))"
  using assms(1)
proof (cases rule: stop_runtime_run)
  case absent
  then show ?thesis using closes_emptyI [of "[]"] by simp
next
  case (panicked rt)
  then show ?thesis by simp
next
  case (reported rt rt1 h report rd)
  have step: "owner_step (ao_life os) (rt, snd w) (rt1, h)"
    using reported(2) by (cases stop) (auto intro: owner_step.intros)
  have "ro_owner_state rt1 = OwnerCleaned"
    using reported(2) shutdown_outcome [of "ao_life os" "(rt, snd w)" "(rt1, h)" report] by (cases stop) auto
  moreover have "owner_ok rt1" using owner_step_ok [OF step] assms(2) [OF reported(1)] by simp
  ultimately have "snd w1 = h" using drop_cleaned [of rt1 "ao_life os" h] reported(3,5) by simp
  then show ?thesis using owner_step_ok [OF step] assms(2) [OF reported(1)] reported(4,6) by auto
next
  case (retained rt rt1 h e)
  have step: "owner_step (ao_life os) (rt, snd w) (rt1, h)"
    using retained(2) by (cases stop) (auto intro: owner_step.intros)
  then show ?thesis using owner_step_ok [OF step] assms(2) [OF retained(1)] retained(3,4) by auto
qed

subsection \<open>Shutting down\<close>

lemma abind_answers:
  assumes "abind m f w = Some (w1, r)" and "\<And>w2 r2. m w = Some (w2, r2) \<Longrightarrow> \<exists>x. r2 = Inr x"
  obtains w2 x where "m w = Some (w2, Inr x)" "f x w2 = Some (w1, r)"
  using assms(1)
proof (cases rule: abind_cases)
  case (fails e)
  then show thesis using assms(2) by blast
next
  case (runs w2 x)
  then show thesis using that by blast
qed

lemma stop_runtime_answers: "stop_runtime os stop w = Some (w1, r) \<Longrightarrow> \<exists>x. r = Inr x"
  by (erule stop_runtime_run) blast+

lemma stop_proxy_answers: "stop_proxy os w = Some (w1, r) \<Longrightarrow> \<exists>x. r = Inr x"
  using stop_proxy_run by blast

lemma native_shutdown_run:
  assumes "native_shutdown os w = Some (w1, r)"
  obtains (absent) "no_runtime (fst w) = None" "no_proxy (fst w) = None" "w1 = w" "r = Inr (Inl AppNotRunning)"
    | (stops) w2 runtime proxy where "\<not> (no_runtime (fst w) = None \<and> no_proxy (fst w) = None)"
        "stop_runtime os StopGraceful w = Some (w2, Inr runtime)" "stop_proxy os w2 = Some (w1, Inr proxy)"
        "r = Inr (finish_shutdown runtime proxy)"
proof (cases "no_runtime (fst w) = None \<and> no_proxy (fst w) = None")
  case True
  with assms show thesis by (intro absent) (auto simp: native_shutdown_def abind_def act_defs app_fail_def)
next
  case False
  with assms have "abind (stop_runtime os StopGraceful) (\<lambda>runtime.
       abind (stop_proxy os) (\<lambda>proxy. app_lift (finish_shutdown runtime proxy))) w = Some (w1, r)"
    by (simp add: native_shutdown_def abind_def [of "owner _"] owner_def)
  then obtain w2 runtime where "stop_runtime os StopGraceful w = Some (w2, Inr runtime)"
      "abind (stop_proxy os) (\<lambda>proxy. app_lift (finish_shutdown runtime proxy)) w2 = Some (w1, r)"
    by (rule abind_answers) (rule stop_runtime_answers)
  moreover from this(2) obtain w3 proxy where "stop_proxy os w2 = Some (w3, Inr proxy)"
      "app_lift (finish_shutdown runtime proxy) w3 = Some (w1, r)"
    by (rule abind_answers) (rule stop_proxy_answers)
  ultimately show thesis using stops [OF False] by (simp add: app_lift_def aret_def)
qed

lemma native_force_run:
  assumes "native_force_shutdown os w = Some (w1, r)"
  obtains (absent) "no_runtime (fst w) = None" "no_proxy (fst w) = None" "w1 = w" "r = Inr (Inl AppNotRunning)"
    | (stops) w2 runtime proxy where "\<not> (no_runtime (fst w) = None \<and> no_proxy (fst w) = None)"
        "stop_proxy os w = Some (w2, Inr proxy)" "stop_runtime os StopForced w2 = Some (w1, Inr runtime)"
        "r = Inr (finish_shutdown runtime proxy)"
proof (cases "no_runtime (fst w) = None \<and> no_proxy (fst w) = None")
  case True
  with assms show thesis by (intro absent) (auto simp: native_force_shutdown_def abind_def act_defs app_fail_def)
next
  case False
  with assms have "abind (stop_proxy os) (\<lambda>proxy.
       abind (stop_runtime os StopForced) (\<lambda>runtime. app_lift (finish_shutdown runtime proxy))) w = Some (w1, r)"
    by (simp add: native_force_shutdown_def abind_def [of "owner _"] owner_def)
  then obtain w2 proxy where "stop_proxy os w = Some (w2, Inr proxy)"
      "abind (stop_runtime os StopForced) (\<lambda>runtime. app_lift (finish_shutdown runtime proxy)) w2 = Some (w1, r)"
    by (rule abind_answers) (rule stop_proxy_answers)
  moreover from this(2) obtain w3 runtime where "stop_runtime os StopForced w2 = Some (w3, Inr runtime)"
      "app_lift (finish_shutdown runtime proxy) w3 = Some (w1, r)"
    by (rule abind_answers) (rule stop_runtime_answers)
  ultimately show thesis using stops [OF False] by (simp add: app_lift_def aret_def)
qed

text \<open>What every step of the application owner keeps.\<close>

definition native_kept :: "app_oracle \<Rightarrow> native_owner world \<Rightarrow> native_owner world \<Rightarrow> bool" where
  "native_kept os w w1 \<longleftrightarrow>
     (\<exists>k. snd w1 = snd w @ k) \<and> native_ok (fst w1) \<and> (no_proxy (fst w) = None \<longrightarrow> no_proxy (fst w1) = None)
     \<and> (no_runtime (fst w) = None \<longrightarrow> no_runtime (fst w1) = None)
     \<and> ((\<forall>h. ao_worker os h) \<longrightarrow> closes_empty (ao_life os) (snd w) (snd w1))"

lemma native_okD: "native_ok ow \<Longrightarrow> no_runtime ow = Some rt \<Longrightarrow> owner_ok rt"
  by (simp add: native_ok_def)

lemma closes_empty_more:
  assumes "snd w2 = snd w @ k1" and "snd w1 = snd w2 @ k2"
    and "closes_empty os (snd w) (snd w2)" and "closes_empty os (snd w2) (snd w1)"
  shows "closes_empty os (snd w) (snd w1)"
  using assms closes_empty_trans [of os "snd w" k1 k2] by simp

lemma native_shutdown_kept:
  assumes "native_shutdown os w = Some (w1, r)" and ok: "native_ok (fst w)"
  shows "native_kept os w w1 \<and> no_proxy (fst w1) = None"
  using assms(1)
proof (cases rule: native_shutdown_run)
  case absent
  then show ?thesis using ok closes_emptyI [of "[]"] by (simp add: native_kept_def)
next
  case (stops w2 runtime proxy)
  note rt = stop_runtime_ok [OF stops(2) native_okD [OF ok]] and px = stop_proxy_run [OF stops(3)]
  define k2 where "k2 = (if no_proxy (fst w2) = None then [] else [LStopProxy])"
  have k2: "snd w1 = snd w2 @ k2" "closes_empty (ao_life os) (snd w2) (snd w2 @ k2)"
    using px closes_emptyI [of "[]"] closes_emptyI [of "[LStopProxy]"] by (auto simp: k2_def)
  have "no_runtime (fst w1) = no_runtime (fst w2)" "no_proxy (fst w1) = None" using px by auto
  moreover have "no_runtime (fst w) = None \<longrightarrow> no_runtime (fst w2) = None"
    using stops(2) by (auto elim: stop_runtime_run)
  ultimately show ?thesis using rt k2 closes_empty_more [of w2 w _ w1 k2]
    by (auto simp: native_kept_def native_ok_def split: option.splits)
qed

lemma native_force_kept:
  assumes "native_force_shutdown os w = Some (w1, r)" and ok: "\<And>rt. no_runtime (fst w) = Some rt \<Longrightarrow> owner_ok rt"
  shows "native_kept os w w1 \<and> no_proxy (fst w1) = None"
  using assms(1)
proof (cases rule: native_force_run)
  case absent
  then show ?thesis using closes_emptyI [of "[]"] by (simp add: native_kept_def native_ok_def)
next
  case (stops w2 runtime proxy)
  note px = stop_proxy_run [OF stops(2)]
  have same: "no_runtime (fst w2) = no_runtime (fst w)" "no_proxy (fst w2) = None" using px by auto
  note rt = stop_runtime_ok [OF stops(3), unfolded same, OF ok]
  define k2 where "k2 = (if no_proxy (fst w) = None then [] else [LStopProxy])"
  have k2: "snd w2 = snd w @ k2" "closes_empty (ao_life os) (snd w) (snd w2)"
    using px closes_emptyI [of "[]"] closes_emptyI [of "[LStopProxy]"] by (auto simp: k2_def)
  have "no_runtime (fst w) = None \<longrightarrow> no_runtime (fst w1) = None"
    using stops(3) same by (auto elim: stop_runtime_run)
  then show ?thesis using rt k2 same closes_empty_more [of w2 w k2 w1]
    by (auto simp: native_kept_def native_ok_def split: option.splits)
qed

lemma native_force_answers: "native_force_shutdown os w = Some (w1, r) \<Longrightarrow> \<exists>x. r = Inr x"
  by (erule native_force_run) blast+

lemma native_poll_run:
  assumes "native_poll_health os w = Some (w1, r)"
  obtains (absent) "no_runtime (fst w) = None" "w1 = w" "r = Inr (Inl AppNotRunning)"
    | (healthy) rt rt1 h where "no_runtime (fst w) = Some rt" "poll_health (ao_life os) (rt, snd w) = Some ((rt1, h), Inr ())"
        "w1 = ((fst w)\<lparr>no_runtime := Some rt1\<rparr>, h)" "r = Inr (Inr ())"
    | (sick) rt rt1 h e cleanup where "no_runtime (fst w) = Some rt"
        "poll_health (ao_life os) (rt, snd w) = Some ((rt1, h), Inl e)"
        "native_force_shutdown os ((fst w)\<lparr>no_runtime := Some rt1\<rparr>, h) = Some (w1, Inr cleanup)"
        "r = Inr (Inl (app_cleanup_error (AppRuntime e) (case cleanup of Inl c \<Rightarrow> Some c | Inr _ \<Rightarrow> None)))"
proof (cases "no_runtime (fst w)")
  case None
  with assms show thesis by (intro absent) (auto simp: native_poll_health_def abind_def act_defs app_fail_def)
next
  case (Some rt)
  with assms obtain rt1 h health where p: "poll_health (ao_life os) (rt, snd w) = Some ((rt1, h), health)"
    and run: "(case health of Inr _ \<Rightarrow> app_ok ()
         | Inl e \<Rightarrow> abind (native_force_shutdown os) (\<lambda>cleanup.
               app_fail (app_cleanup_error (AppRuntime e) (case cleanup of Inl c \<Rightarrow> Some c | Inr _ \<Rightarrow> None))))
       ((fst w)\<lparr>no_runtime := Some rt1\<rparr>, h) = Some (w1, r)"
    by (auto simp: native_poll_health_def abind_Some on_owner_Some owner_def update_def)
  show thesis
  proof (cases health)
    case (Inr u)
    with p run show thesis by (intro healthy [OF Some]) (auto simp: app_ok_def aret_def)
  next
    case (Inl e)
    from run [unfolded Inl sum.case] obtain w2 cleanup where "native_force_shutdown os ((fst w)\<lparr>no_runtime := Some rt1\<rparr>, h) = Some (w2, Inr cleanup)"
        "app_fail (app_cleanup_error (AppRuntime e) (case cleanup of Inl c \<Rightarrow> Some c | Inr _ \<Rightarrow> None)) w2 = Some (w1, r)"
      by (rule abind_answers) (rule native_force_answers)
    with p Inl show thesis by (intro sick [OF Some]) (auto simp: app_fail_def aret_def)
  qed
qed

lemma native_retry_run:
  assumes "native_retry_cleanup os w = Some (w1, r)"
  obtains (refused) e where "w1 = w" "r = Inr (Inl e)"
    | (failed) rt rt1 h e where "no_proxy (fst w) = None" "no_runtime (fst w) = Some rt"
        "retry_private_cleanup (ao_life os) (rt, snd w) = Some ((rt1, h), Inl e)"
        "w1 = ((fst w)\<lparr>no_runtime := Some rt1\<rparr>, h)" "r = Inr (Inl (AppRuntime e))"
    | (removed) rt rt1 h rd where "no_proxy (fst w) = None" "no_runtime (fst w) = Some rt"
        "retry_private_cleanup (ao_life os) (rt, snd w) = Some ((rt1, h), Inr ())"
        "owner_drop (ao_life os) (rt1, h) = Some rd" "w1 = ((fst w)\<lparr>no_runtime := None\<rparr>, snd (fst rd))" "r = Inr (Inr ())"
proof (cases "no_proxy (fst w) \<noteq> None \<or> no_runtime (fst w) = None")
  case True
  with assms have "w1 = w" "\<exists>e. r = Inr (Inl e)"
    by (auto simp: native_retry_cleanup_def abind_def act_defs app_fail_def split: if_splits)
  then show thesis using refused by blast
next
  case False
  then obtain rt where p: "no_proxy (fst w) = None" "no_runtime (fst w) = Some rt" by auto
  with assms obtain rt1 h x where run: "retry_private_cleanup (ao_life os) (rt, snd w) = Some ((rt1, h), x)"
    and rest: "(case x of
             Inl e \<Rightarrow> app_fail (AppRuntime e)
           | Inr _ \<Rightarrow>
               abind (update (\<lambda>ow. ow\<lparr>no_runtime := None\<rparr>)) (\<lambda>_.
               abind (on_owner rt1 (owner_drop (ao_life os))) (\<lambda>_. app_ok ())))
       ((fst w)\<lparr>no_runtime := Some rt1\<rparr>, h) = Some (w1, r)"
    by (auto simp: native_retry_cleanup_def abind_Some on_owner_Some owner_def update_def)
  show thesis
  proof (cases x)
    case (Inl e)
    with run rest show thesis by (intro failed [OF p]) (auto simp: app_fail_def aret_def)
  next
    case (Inr u)
    with rest obtain rd where "owner_drop (ao_life os) (rt1, h) = Some rd" "w1 = ((fst w)\<lparr>no_runtime := None\<rparr>, snd (fst rd))"
        "r = Inr (Inr ())"
      by (auto simp: abind_Some on_owner_Some update_def app_ok_def aret_def)
    with run Inr show thesis by (intro removed [OF p]) auto
  qed
qed

lemma native_step_kept:
  assumes "native_step os w w1" and ok: "native_ok (fst w)"
  shows "native_kept os w w1"
  using assms(1)
proof cases
  case (shut r)
  then show ?thesis using native_shutdown_kept ok by blast
next
  case (forced r)
  then show ?thesis using native_force_kept native_okD [OF ok] by blast
next
  case (polled r)
  from polled show ?thesis
  proof (cases rule: native_poll_run)
    case absent
    then show ?thesis using ok closes_emptyI [of "[]"] by (simp add: native_kept_def)
  next
    case (healthy rt rt1 h)
    note m = keepsD [OF monitored_health healthy(2)]
    have "owner_ok rt1" using owner_step_ok [OF owner_step.polled [OF healthy(2)]] native_okD [OF ok healthy(1)] by simp
    moreover have "ro_owner_state rt1 = ro_owner_state rt" using monitored_fields(10) [OF m] by simp
    ultimately show ?thesis using monitored_stopping [OF m] ok healthy(1,3)
      by (auto simp: native_kept_def native_ok_def stopping_def)
  next
    case (sick rt rt1 h e cleanup)
    let ?w2 = "((fst w)\<lparr>no_runtime := Some rt1\<rparr>, h)"
    note m = keepsD [OF monitored_health sick(2)]
    have rt1: "owner_ok rt1" using owner_step_ok [OF owner_step.polled [OF sick(2)]] native_okD [OF ok sick(1)] by simp
    have "native_kept os ?w2 w1" using native_force_kept [OF sick(3)] rt1 by simp
    moreover obtain k where "h = snd w @ k" "closes_empty (ao_life os) (snd w) h"
      using monitored_stopping [OF m] by (auto simp: stopping_def)
    ultimately show ?thesis using sick(1) closes_empty_more [of ?w2 w k w1] by (auto simp: native_kept_def)
  qed
next
  case (retried r)
  from retried show ?thesis
  proof (cases rule: native_retry_run)
    case (refused e)
    then show ?thesis using ok closes_emptyI [of "[]"] by (simp add: native_kept_def)
  next
    case (failed rt rt1 h e)
    note st = owner_step_ok [OF owner_step.retried [OF failed(3)]]
    show ?thesis using st native_okD [OF ok failed(2)] failed(1,2,4) by (auto simp: native_kept_def native_ok_def)
  next
    case (removed rt rt1 h rd)
    have ow: "owner_ok rt" using native_okD [OF ok removed(2)] .
    note st = owner_step_ok [OF owner_step.retried [OF removed(3)]]
    have "ro_owner_state rt1 = OwnerCleaned" using retry_run [OF removed(3)] ow by auto
    then have "snd (fst rd) = h" using drop_cleaned [of rt1 "ao_life os" h] st ow removed(4) by simp
    then show ?thesis using st ow removed(1,2,5) by (auto simp: native_kept_def native_ok_def)
  qed
qed

subsection \<open>Job and proxy are held\<close>

text \<open>The Job is held until it is closed, the proxy until it is stopped.\<close>

definition job_open :: "native_owner \<Rightarrow> bool" where
  "job_open ow \<longleftrightarrow> (case no_runtime ow of None \<Rightarrow> False | Some rt \<Rightarrow> ro_process rt \<noteq> None)"

definition app_held :: "native_owner world \<Rightarrow> native_owner world \<Rightarrow> bool" where
  "app_held w w1 \<longleftrightarrow>
     (\<exists>k. snd w1 = snd w @ k \<and> (job_open (fst w) \<longrightarrow> job_open (fst w1) \<or> LCloseJob \<in> set k)
        \<and> (no_proxy (fst w) \<noteq> None \<longrightarrow> no_proxy (fst w1) \<noteq> None \<or> LStopProxy \<in> set k))"

lemma app_held_same: "app_held w w" by (simp add: app_held_def)

lemma app_held_trans: "app_held a b \<Longrightarrow> app_held b c \<Longrightarrow> app_held a c"
  by (fastforce simp: app_held_def)

interpretation app_held: frame app_held
  by unfold_locales (fact app_held_same, fact app_held_trans)

lemma app_held_runtime:
  assumes "no_runtime (fst w) = Some rt" and "job_held (rt, snd w) (rt1, h)"
  shows "app_held w ((fst w)\<lparr>no_runtime := Some rt1\<rparr>, h)"
  using assms by (auto simp: app_held_def job_open_def job_held_def)

lemma app_held_proxy: "stop_proxy os w = Some (w1, r) \<Longrightarrow> app_held w w1"
  using stop_proxy_run [of os w w1 r] by (auto simp: app_held_def job_open_def)

text \<open>Stopping the runtime: also a terminated worker dropped the owner.\<close>

lemma app_held_stop:
  assumes "stop_runtime os stop w = Some (w1, r)"
  shows "app_held w w1"
proof (cases "no_runtime (fst w)")
  case None
  from assms show ?thesis by (cases rule: stop_runtime_run) (use None app_held_same in simp_all)
next
  case (Some rt)
  let ?m = "case stop of StopGraceful \<Rightarrow> shutdown (ao_life os) | StopForced \<Rightarrow> force_shutdown (ao_life os)"
  have dropped: "app_held w w2" if "owner_drop (ao_life os) (rt1, h) = Some (x, y)" "job_held (rt, snd w) (rt1, h)"
      "w2 = ((fst w)\<lparr>no_runtime := None\<rparr>, snd x)" for w2 x y rt1 h
    using drop_closes [OF that(1)] that(2,3) Some by (fastforce simp: app_held_def job_open_def job_held_def)
  show ?thesis
  proof (cases "ao_worker os (snd w)")
    case False
    then obtain x y where "owner_drop (ao_life os) (rt, snd w) = Some (x, y)" "w1 = ((fst w)\<lparr>no_runtime := None\<rparr>, snd x)"
      using assms Some
      by (auto simp: stop_runtime_def abind_Some owner_def update_def on_worker_def on_owner_Some aret_def app_fail_def)
    then show ?thesis using dropped job_held_same by blast
  next
    case True
    have m: "job_held (rt, snd w) (rt1, h)" if "?m (rt, snd w) = Some ((rt1, h), r1)" for rt1 h r1
      using that job_held_shutdowns by (cases stop) (auto dest: keepsD)
    from assms show ?thesis
    proof (cases rule: stop_runtime_run)
      case (reported rt' rt1 h report rd)
      obtain x y where "rd = (x, y)" by (cases rd)
      then show ?thesis using reported Some m [of rt1 h] by (intro dropped [of rt1 h x y]) (auto simp: prod_eq_iff)
    next
      case (retained rt' rt1 h e)
      then show ?thesis using app_held_runtime [OF Some] m [of rt1 h] Some by simp
    qed (use Some True in simp_all)
  qed
qed

lemma app_held_shutdown: "native_shutdown os w = Some (w1, r) \<Longrightarrow> app_held w w1"
  by (erule native_shutdown_run) (auto intro: app_held_same app_held_trans app_held_stop app_held_proxy)

lemma app_held_force: "native_force_shutdown os w = Some (w1, r) \<Longrightarrow> app_held w w1"
  by (erule native_force_run) (auto intro: app_held_same app_held_trans app_held_stop app_held_proxy)

lemma app_held_poll:
  assumes "native_poll_health os w = Some (w1, r)"
  shows "app_held w w1"
proof -
  have p: "job_held (rt, h0) (rt1, h)" if "poll_health os' (rt, h0) = Some ((rt1, h), x)" for os' rt h0 rt1 h x
    using keepsD [OF keeps_job_held [OF monitored_health] that] .
  from assms show ?thesis
  proof (cases rule: native_poll_run)
    case (sick rt rt1 h e cleanup)
    from sick(3) have "app_held ((fst w)\<lparr>no_runtime := Some rt1\<rparr>, h) w1" by (rule app_held_force)
    with app_held_runtime [OF sick(1) p [OF sick(2)]] show ?thesis by (rule app_held_trans)
  qed (use p app_held_runtime app_held_same in auto)
qed

lemma app_held_retry:
  assumes "native_retry_cleanup os w = Some (w1, r)" and ok: "native_ok (fst w)"
  shows "app_held w w1"
  using assms(1)
proof (cases rule: native_retry_run)
  case (refused e)
  then show ?thesis using app_held_same by simp
next
  case (failed rt rt1 h e)
  have "job_held (rt, snd w) (rt1, h)"
    using job_held_step [OF owner_step.retried [OF failed(3)]] native_okD [OF ok failed(2)] by simp
  with failed show ?thesis using app_held_runtime by simp
next
  case (removed rt rt1 h rd)
  have "job_held (rt, snd w) (rt1, h)"
    using job_held_step [OF owner_step.retried [OF removed(3)]] native_okD [OF ok removed(2)] by simp
  moreover obtain x y where "rd = (x, y)" by (cases rd)
  ultimately show ?thesis
    using drop_closes [of "ao_life os" "(rt1, h)" x y] removed
    by (fastforce simp: app_held_def job_open_def job_held_def)
qed

lemma app_held_step: "native_step os w w1 \<Longrightarrow> native_ok (fst w) \<Longrightarrow> app_held w w1"
  by (erule native_step.cases)
    (auto intro: app_held_poll app_held_shutdown app_held_force app_held_retry)

subsection \<open>Launching\<close>

lemma app_bind_cases:
  assumes "app_bind m f w = Some (w1, r)"
  obtains (failed) e where "m w = Some (w1, Inr (Inl e))" "r = Inr (Inl e)"
    | (stuck) e where "m w = Some (w1, Inl e)" "r = Inl e"
    | (runs) w2 x where "m w = Some (w2, Inr (Inr x))" "f x w2 = Some (w1, r)"
  using assms unfolding app_bind_def
proof (cases rule: abind_cases)
  case (fails e)
  then show thesis using stuck by simp
next
  case runs: (runs w2 x)
  show thesis
  proof (cases x)
    case (Inl e)
    with runs show thesis by (intro failed) (auto simp: app_fail_def aret_def)
  next
    case (Inr y)
    with runs show thesis by (intro that(3)) simp_all
  qed
qed

lemma app_bind_lift:
  "app_bind (app_lift x) f w = (case x of Inl e \<Rightarrow> Some (w, Inr (Inl e)) | Inr y \<Rightarrow> f y w)"
  by (simp add: app_bind_def app_lift_def abind_def aret_def app_fail_def split: sum.splits)

lemma cleanup_proxy_run:
  "cleanup_proxy_after_failure os e w = Some (w1, r) \<Longrightarrow> (\<exists>e. r = Inr (Inl e)) \<and> snd w1 = snd w @ [LStopProxy]"
  (is "_ \<Longrightarrow> ?thesis")
proof -
  assume "cleanup_proxy_after_failure os e w = Some (w1, r)"
  then obtain w2 x where m: "proxy_stopped os w = Some (w2, Inr x)"
    and "(case x of Inr _ \<Rightarrow> app_fail e | Inl c \<Rightarrow> app_fail (app_cleanup_error e (Some c))) w2 = Some (w1, r)"
    unfolding cleanup_proxy_after_failure_def by (rule abind_answers) (simp add: proxy_stopped_run)
  then show ?thesis using proxy_stopped_run [OF m] by (cases x) (auto simp: app_fail_def aret_def)
qed

lemma launch_runtime_run:
  assumes "launch_runtime os bundle parent port secrets limits proxy resolution w = Some (w1, r)"
  shows "case r of
      Inl _ \<Rightarrow> False
    | Inr (Inl e) \<Rightarrow> \<exists>k. snd w1 = snd w @ k @ [LStopProxy] \<and> launch_released (ao_life os) (snd w) (snd w @ k)
    | Inr (Inr ow) \<Rightarrow> \<exists>rt. ow = \<lparr>no_proxy = Some proxy, no_runtime = Some rt, no_host_resolution = resolution\<rparr>
        \<and> launch_validated (ao_life os) (ao_env os) bundle parent port secrets limits w = Some (w1, Inr rt)"
proof -
  have stopped: "case r of
      Inl _ \<Rightarrow> False
    | Inr (Inl e) \<Rightarrow> \<exists>k. snd w1 = snd w @ k @ [LStopProxy] \<and> launch_released (ao_life os) (snd w) (snd w @ k)
    | Inr (Inr ow) \<Rightarrow> P ow"
    if "cleanup_proxy_after_failure os e (v, h) = Some (w1, r)" "launch_released (ao_life os) (snd w) h" for e v h P
  proof -
    have "\<exists>k. h = snd w @ k" using that(2) unfolding launch_released_def by (elim disjE exE conjE) auto
    then show ?thesis using cleanup_proxy_run [OF that(1)] that(2) by auto
  qed
  show ?thesis
  proof (cases "ao_worker os (snd w)")
    case False
    then have "cleanup_proxy_after_failure os LifecycleWorkerTerminated (fst w, snd w) = Some (w1, r)"
      using assms by (cases w) (simp add: launch_runtime_def)
    then show ?thesis by (rule stopped) (use released_unlaunched [of "[]" "ao_life os" "snd w"] in simp)
  next
    case True
    with assms obtain w2 x where run: "launch_validated (ao_life os) (ao_env os) bundle parent port secrets limits w = Some (w2, x)"
      and rest: "(case x of
            Inr rt \<Rightarrow> app_ok \<lparr>no_proxy = Some proxy, no_runtime = Some rt, no_host_resolution = resolution\<rparr>
          | Inl e \<Rightarrow> cleanup_proxy_after_failure os (AppRuntime e)) w2 = Some (w1, r)"
      by (auto simp: launch_runtime_def abind_Some attempt_def split: option.splits)
    show ?thesis
    proof (cases x)
      case (Inl e)
      with rest have "cleanup_proxy_after_failure os (AppRuntime e) (fst w2, snd w2) = Some (w1, r)" by (cases w2) simp
      then show ?thesis by (rule stopped) (use Inl launch_outcome [OF run] in simp)
    next
      case (Inr rt)
      with run rest show ?thesis by (auto simp: app_ok_def aret_def)
    qed
  qed
qed

lemma abind_ask: "abind (ask op f) g w = g (f (snd w @ [op])) (fst w, snd w @ [op])"
  by (simp add: abind_def ask_def Let_def)

lemma app_bind_ask:
  "app_bind (ask op f) g w = (case f (snd w @ [op]) of Inl e \<Rightarrow> app_fail e | Inr x \<Rightarrow> g x) (fst w, snd w @ [op])"
  by (simp add: app_bind_def abind_ask)

text \<open>The steps before the proxy is bound: they fail without an effect but the reserved port.\<close>

lemma proxy_started_cases:
  assumes "app_bind (proxy_started os config) f w = Some (w1, r)"
  obtains (invalid) e where "w1 = w" "r = Inr (Inl e)"
    | (unbound) e where "snd w1 = snd w @ [LBindProxy]" "ao_bound os (snd w @ [LBindProxy]) = Inl e" "\<exists>e. r = Inr (Inl e)"
    | (started) port st where "limits_is_valid (pc_limits config)" "ao_bound os (snd w @ [LBindProxy]) = Inr port"
        "proxy_start config (Inr port) = Inr st" "f st (fst w, snd w @ [LBindProxy]) = Some (w1, r)"
        "ps_address st = \<lparr>pa_hostname = pc_hostname config, pa_port = port\<rparr>" "ps_secrets st = pc_secrets config"
        "ps_upstream st = pc_upstream config" "ps_limits st = pc_limits config"
proof (cases "limits_is_valid (pc_limits config)")
  case False
  with assms show thesis
    by (intro invalid [of "AppProxy InvalidConfiguration"])
      (auto simp: proxy_started_def app_bind_def abind_def app_fail_def aret_def)
next
  case True
  let ?h = "snd w @ [LBindProxy]"
  have run: "(case map_err AppProxy (proxy_start config (ao_bound os ?h)) of Inl e \<Rightarrow> app_fail e | Inr x \<Rightarrow> f x) (fst w, ?h)
      = Some (w1, r)"
    using assms True by (simp add: proxy_started_def app_bind_def abind_ask)
  show thesis
  proof (cases "ao_bound os ?h")
    case (Inl e)
    with run True show thesis
      by (intro unbound [of e]) (auto simp: proxy_start_def map_err_def app_fail_def aret_def)
  next
    case (Inr port)
    with run True show thesis
      by (intro started [of port "case proxy_start config (Inr port) of Inr st \<Rightarrow> st"])
        (auto simp: proxy_start_def map_err_def Let_def)
  qed
qed

lemma launch_started:
  assumes "native_launch os path parent ll traffic w = Some (w1, r)"
  obtains (early) e where "r = Inr (Inl e)" "launch_withdrawn os (snd w) (snd w1)"
    | (bound_up) port proxy_port resources resolution proxy h where
        "limits_valid ll" "limits_is_valid traffic" "bundle_load (ao_files os) path = Inr resources"
        "h = snd w @ [LReservePort, LBindProxy, LResolveHost]"
        "resolution = resolve_hostname (ao_resolved os h)"
        "ao_bound os (snd w @ [LReservePort, LBindProxy]) = Inr proxy_port"
        "proxy_configured os traffic port proxy_port proxy"
        "(if (case resolution of NonLoopback _ \<Rightarrow> True | _ \<Rightarrow> False)
          then cleanup_proxy_after_failure os NonLoopbackBrowserHost
          else launch_runtime os resources parent port (rp_secrets proxy) ll proxy resolution) (fst w, h) = Some (w1, r)"
        "select_upstream_port (fst (ao_reserved os (snd w @ [LReservePort]))) (snd (ao_reserved os (snd w @ [LReservePort])))
          = Inr port"
proof -
  let ?h1 = "snd w @ [LReservePort]"
  have early1: thesis if "r = Inr (Inl e)" "snd w1 \<in> {snd w, ?h1}" for e
    using that by (intro early [of e]) (auto simp: launch_withdrawn_def)
  note run = assms [unfolded native_launch_def Let_def abind_ask [of LReservePort] app_bind_lift]
  show thesis
  proof (cases "limits_valid ll")
    case False
    with run show thesis by (auto simp: app_fail_def aret_def intro: early1)
  next
    case limits: True
    show thesis
    proof (cases "bundle_load (ao_files os) path")
      case (Inl e)
      with run limits show thesis by (auto simp: app_bind_lift map_err_def intro: early1)
    next
      case resources: (Inr resources)
      obtain reserved address where reserved: "ao_reserved os ?h1 = (reserved, address)" by fastforce
      show thesis
      proof (cases "select_upstream_port reserved address")
        case (Inl e)
        with run limits resources reserved show thesis by (auto simp: app_bind_lift abind_ask [of LReservePort] map_err_def intro: early1)
      next
        case port: (Inr port)
        show thesis
        proof (cases "secrets_generate (ao_random os)")
          case None
          with run limits resources reserved port show thesis
            by (auto simp: app_bind_lift abind_ask [of LReservePort] map_err_def ok_or_def intro: early1)
        next
          case secrets: (Some secrets)
          let ?config = "generate_with_secrets \<lparr>sa_ip = LOCALHOST_V4, sa_port = unat port\<rparr> secrets (ao_nonce os)"
          show thesis
          proof (cases ?config)
            case (Inl e)
            with run limits resources reserved port secrets show thesis
              by (auto simp: app_bind_lift abind_ask [of LReservePort] map_err_def ok_or_def intro: early1)
          next
            case config: (Inr config)
            then have cs: "pc_secrets config = secrets" "pc_upstream config = \<lparr>v4_addr = 127 * 2 ^ 24 + 1, v4_port = unat port\<rparr>"
              "\<exists>nonce. ao_nonce os = Some nonce \<and> pc_hostname config = ''rpackit-'' @ hex_encode nonce @ ''.localhost''"
              by (auto simp: generate_with_secrets_def upstream_v4_def rbind_def ok_or_def split: sum.splits option.splits if_splits)
            let ?rest = "\<lambda>st. abind (ask LResolveHost (\<lambda>h. resolve_hostname (ao_resolved os h))) (\<lambda>resolution.
                if (case resolution of NonLoopback _ \<Rightarrow> True | _ \<Rightarrow> False)
                then cleanup_proxy_after_failure os NonLoopbackBrowserHost
                else launch_runtime os resources parent port secrets ll
                  \<lparr>rp_address = ps_address st, rp_secrets = ps_secrets st, rp_state = st\<rparr> resolution)"
            have "app_bind (proxy_started os (with_limits config traffic)) ?rest (fst w, ?h1) = Some (w1, r)"
              using run limits resources reserved port secrets config
              by (simp add: app_bind_lift abind_ask [of LReservePort] map_err_def ok_or_def)
            then show thesis
            proof (cases rule: proxy_started_cases)
              case (invalid e)
              then show thesis by (intro early1) simp_all
            next
              case (unbound e)
              then show thesis by (auto simp: launch_withdrawn_def intro: early)
            next
              case (started proxy_port st)
              let ?proxy = "\<lparr>rp_address = ps_address st, rp_secrets = ps_secrets st, rp_state = st\<rparr>"
              have "proxy_configured os traffic port proxy_port ?proxy"
                using started(5-8) cs secrets by (auto simp: proxy_configured_def with_limits_def)
              then show thesis
                using started limits resources cs port reserved
                by (intro bound_up [where proxy_port = proxy_port and proxy = ?proxy and port = port and resources = resources])
                  (simp_all add: with_limits_def abind_ask cong: if_cong)
            qed
          qed
        qed
      qed
    qed
  qed
qed


text \<open>A launch that was not cut back before the proxy: the runtime was launched behind it, or the proxy was stopped.\<close>

lemma native_launch_run:
  assumes "native_launch os path parent ll traffic w = Some (w1, r)"
  obtains (withdrawn) e where "r = Inr (Inl e)" "launch_withdrawn os (snd w) (snd w1)"
    | (launched) ow rt proxy port resources where "r = Inr (Inr ow)" "limits_valid ll" "limits_is_valid traffic"
        "bundle_load (ao_files os) path = Inr resources" "no_proxy ow = Some proxy" "no_runtime ow = Some rt"
        "no_host_resolution ow = resolve_hostname (ao_resolved os (snd w @ [LReservePort, LBindProxy, LResolveHost]))"
        "\<forall>answers. no_host_resolution ow \<noteq> NonLoopback answers"
        "ao_bound os (snd w @ [LReservePort, LBindProxy]) = Inr (pa_port (rp_address proxy))"
        "launch_validated (ao_life os) (ao_env os) resources parent port (rp_secrets proxy) ll
           (fst w, snd w @ [LReservePort, LBindProxy, LResolveHost]) = Some (w1, Inr rt)"
        "proxy_configured os traffic port (pa_port (rp_address proxy)) proxy"
        "select_upstream_port (fst (ao_reserved os (snd w @ [LReservePort]))) (snd (ao_reserved os (snd w @ [LReservePort])))
          = Inr port"
  using assms
proof (cases rule: launch_started)
  case (early e)
  then show thesis by (rule withdrawn)
next
  case (bound_up port proxy_port resources resolution proxy h)
  have proxy_port: "pa_port (rp_address proxy) = proxy_port" using bound_up(7) by (auto simp: proxy_configured_def)
  have cut: "launch_withdrawn os (snd w) (snd w1)"
    if "snd w1 = h @ k @ [LStopProxy]" "launch_released (ao_life os) h (h @ k)" for k
    using that unfolding launch_withdrawn_def bound_up(4) by auto
  show thesis
  proof (cases "case resolution of NonLoopback _ \<Rightarrow> True | _ \<Rightarrow> False")
    case True
    with bound_up(8) have "cleanup_proxy_after_failure os NonLoopbackBrowserHost (fst w, h) = Some (w1, r)" by simp
    from cleanup_proxy_run [OF this] obtain e where "r = Inr (Inl e)" "snd w1 = h @ [LStopProxy]" by auto
    then show thesis
      by (intro withdrawn [of e] cut [of "[]"]) (use released_unlaunched [of "[]" "ao_life os" h] in simp_all)
  next
    case False
    with bound_up(8) have "launch_runtime os resources parent port (rp_secrets proxy) ll proxy resolution (fst w, h) = Some (w1, r)" by simp
    note run = launch_runtime_run [OF this]
    show thesis
    proof (cases r)
      case (Inl e)
      with run show thesis by simp
    next
      case outer: (Inr x)
      show thesis
      proof (cases x)
        case (Inl e)
        with run outer cut show thesis by (intro withdrawn [of e]) auto
      next
        case (Inr ow)
        with run outer obtain rt where rt: "ow = \<lparr>no_proxy = Some proxy, no_runtime = Some rt, no_host_resolution = resolution\<rparr>"
            "launch_validated (ao_life os) (ao_env os) resources parent port (rp_secrets proxy) ll (fst w, h) = Some (w1, Inr rt)" by auto
        show thesis
          by (rule launched [of ow resources proxy rt port])
            (use outer Inr rt bound_up(1-7,9) proxy_port False in \<open>auto split: host_resolution.splits\<close>)
      qed
    qed
  qed
qed

subsection \<open>Sequences of operations\<close>

lemma native_kept_trans: "native_kept os a b \<Longrightarrow> native_kept os b c \<Longrightarrow> native_kept os a c"
  using closes_empty_more [of b a _ c] by (fastforce simp: native_kept_def)

lemma native_steps_kept: "native_steps os w w1 \<Longrightarrow> native_ok (fst w) \<Longrightarrow> native_kept os w w1"
proof (induction rule: native_steps.induct)
  case (none w)
  then show ?case using closes_emptyI [of "[]"] by (simp add: native_kept_def)
next
  case (step w w1 w2)
  then have "native_kept os w w1" by simp
  moreover have "native_kept os w1 w2" using step calculation by (intro native_step_kept) (simp_all add: native_kept_def)
  ultimately show ?case by (rule native_kept_trans)
qed

lemma app_held_steps: "native_steps os w w1 \<Longrightarrow> native_ok (fst w) \<Longrightarrow> app_held w w1"
proof (induction rule: native_steps.induct)
  case (none w)
  show ?case by (rule app_held_same)
next
  case (step w w1 w2)
  then have "native_ok (fst w1)" using native_steps_kept [of os w w1] by (simp add: native_kept_def)
  with step app_held_step [of os w1 w2] show ?case using app_held_trans by blast
qed

lemma finish_shutdown_Ok:
  assumes "Inr (Inr report) = (Inr (finish_shutdown runtime proxy) :: lifecycle_error + _)"
  obtains rr u where "runtime = Inr rr" "report = \<lparr>nr_runtime = rr, nr_proxy_stopped = True\<rparr>" "proxy = Inr u"
  using assms by (auto simp: finish_shutdown_def split: sum.splits)

lemma stop_runtime_report:
  assumes "stop_runtime os stop w = Some (w1, Inr (Inr report))"
    and "\<And>rt. no_runtime (fst w) = Some rt \<Longrightarrow> owner_ok rt"
  shows "\<exists>rt rt1 k. no_runtime (fst w) = Some rt \<and> no_runtime (fst w1) = None \<and> no_proxy (fst w1) = no_proxy (fst w)
    \<and> (case stop of StopGraceful \<Rightarrow> shutdown (ao_life os) | StopForced \<Rightarrow> force_shutdown (ao_life os)) (rt, snd w)
        = Some ((rt1, snd w @ k), Inr report)
    \<and> snd w1 = snd w @ k \<and> report_true (ao_life os) (rt1, snd w @ k) report
    \<and> ro_owner_state rt1 = OwnerCleaned \<and> session_gone (ao_life os) rt (snd w @ k)"
  using assms(1)
proof (cases rule: stop_runtime_run)
  case (reported rt rt1 h report1 rd)
  have "owner_step (ao_life os) (rt, snd w) (rt1, h)"
    using reported(2) by (cases stop) (auto intro: owner_step.intros)
  note step = owner_step_ok [OF this] assms(2) [OF reported(1)]
  have "shutdown (ao_life os) (rt, snd w) = Some ((rt1, h), Inr report1)
      \<or> force_shutdown (ao_life os) (rt, snd w) = Some ((rt1, h), Inr report1)"
    using reported(2) by (cases stop) auto
  note out = shutdown_outcome [OF this]
  then have "snd w1 = h" using drop_cleaned [of rt1 "ao_life os" h] step reported(3,5) by simp
  then show ?thesis using step out reported by auto
qed simp_all

text \<open>A runtime that is kept although it was cleaned stays for ever: every operation on it is refused.\<close>

lemma cleaned_shutdown_refused:
  assumes "ro_owner_state rt = OwnerCleaned"
    and "(case stop of StopGraceful \<Rightarrow> shutdown os | StopForced \<Rightarrow> force_shutdown os) (rt, h) = Some (w1, r)"
  shows "w1 = (rt, h) \<and> r = Inl OwnerAlreadyCleaned"
  using assms shutdown_run [of os "(rt, h)" w1 r] force_shutdown_run [of os "(rt, h)" w1 r] by (cases stop) auto

lemma cleaned_stop_refused:
  assumes "stop_runtime os stop w = Some (w1, r)" and "no_runtime (fst w) = Some rt" and "ro_owner_state rt = OwnerCleaned"
    and "\<forall>h. ao_worker os h"
  shows "no_runtime (fst w1) = Some rt \<and> r = Inr (Inl (AppRuntime OwnerAlreadyCleaned))"
  using assms(1)
proof (cases rule: stop_runtime_run)
  case (reported rt' rt1 h report rd)
  then show ?thesis using cleaned_shutdown_refused [OF _ reported(2)] assms by simp
next
  case (retained rt' rt1 h e)
  then show ?thesis using cleaned_shutdown_refused [OF _ retained(2)] assms by simp
qed (use assms in auto)

lemma cleaned_runtime_stays:
  assumes "native_step os w w1" and "no_runtime (fst w) = Some rt" and "ro_owner_state rt = OwnerCleaned"
    and "\<forall>h. ao_worker os h"
  shows "no_runtime (fst w1) = Some rt"
  using assms(1)
proof cases
  case (shut r)
  then show ?thesis using assms(2)
    by (cases rule: native_shutdown_run) (auto dest!: cleaned_stop_refused [OF _ assms(2-4)] stop_proxy_run)
next
  case (forced r)
  then show ?thesis
    by (cases rule: native_force_run)
      (use assms in \<open>auto dest!: stop_proxy_run dest: cleaned_stop_refused [OF _ _ assms(3,4)]\<close>)
next
  case (polled r)
  then show ?thesis
  proof (cases rule: native_poll_run)
    case (sick rt' rt1 h e cleanup)
    then have same: "(rt1, h) = (rt, snd w)" using assms by (auto simp: poll_health_def abind_def act_defs)
    from sick(3) show ?thesis
      by (cases rule: native_force_run)
        (use assms same in \<open>auto dest!: stop_proxy_run dest: cleaned_stop_refused [OF _ _ assms(3,4)]\<close>)
  qed (use assms in \<open>auto simp: poll_health_def abind_def act_defs\<close>)
next
  case (retried r)
  then show ?thesis
    by (cases rule: native_retry_run)
      (use assms in \<open>auto simp: retry_private_cleanup_def abind_def act_defs\<close>)
qed

text \<open>A report of the owner.\<close>

lemma native_report_outcome:
  assumes "native_ok (fst w)"
    and "native_shutdown os w = Some (w1, Inr (Inr report)) \<and> forced = False
       \<or> native_force_shutdown os w = Some (w1, Inr (Inr report)) \<and> forced = True"
  shows "nr_proxy_stopped report \<and> no_proxy (fst w1) = None \<and> no_runtime (fst w1) = None
    \<and> (\<exists>rt rt1 k. let stop = (if no_proxy (fst w) = None then [] else [LStopProxy]); h = (if forced then snd w @ stop else snd w) in
         no_runtime (fst w) = Some rt
       \<and> (if forced then force_shutdown (ao_life os) else shutdown (ao_life os)) (rt, h)
           = Some ((rt1, h @ k), Inr (nr_runtime report))
       \<and> snd w1 = (if forced then h @ k else h @ k @ stop)
       \<and> report_true (ao_life os) (rt1, h @ k) (nr_runtime report)
       \<and> (no_proxy (fst w) \<noteq> None \<longrightarrow> proxy_ended_cleanly os (if forced then h else snd w1))
       \<and> ro_owner_state rt1 = OwnerCleaned \<and> session_gone (ao_life os) rt (h @ k))"
  using assms(2)
proof
  assume "native_shutdown os w = Some (w1, Inr (Inr report)) \<and> forced = False"
  then have run: "native_shutdown os w = Some (w1, Inr (Inr report))" and f: "\<not> forced" by simp_all
  from run show ?thesis
  proof (cases rule: native_shutdown_run)
    case (stops w2 runtime proxy)
    from stops(4) obtain rr u where r: "runtime = Inr rr" "report = \<lparr>nr_runtime = rr, nr_proxy_stopped = True\<rparr>" "proxy = Inr u"
      by (rule finish_shutdown_Ok)
    obtain rt rt1 k where k: "no_runtime (fst w) = Some rt" "no_runtime (fst w2) = None" "no_proxy (fst w2) = no_proxy (fst w)"
        "shutdown (ao_life os) (rt, snd w) = Some ((rt1, snd w @ k), Inr rr)" "snd w2 = snd w @ k"
        "report_true (ao_life os) (rt1, snd w @ k) rr" "ro_owner_state rt1 = OwnerCleaned"
        "session_gone (ao_life os) rt (snd w @ k)"
      using stop_runtime_report [OF stops(2) [unfolded r(1)] native_okD [OF assms(1)]] by auto
    have "no_proxy (fst w) \<noteq> None \<longrightarrow> proxy_ended_cleanly os (snd w1)"
      using stop_proxy_Ok [OF stops(3) [unfolded r(3)]] k(3) by simp
    with f r stop_proxy_run [OF stops(3)] k show ?thesis
      by (simp add: Let_def)
  qed simp
next
  assume "native_force_shutdown os w = Some (w1, Inr (Inr report)) \<and> forced = True"
  then have run: "native_force_shutdown os w = Some (w1, Inr (Inr report))" and f: "forced" by simp_all
  from run show ?thesis
  proof (cases rule: native_force_run)
    case (stops w2 runtime proxy)
    from stops(4) obtain rr u where r: "runtime = Inr rr" "report = \<lparr>nr_runtime = rr, nr_proxy_stopped = True\<rparr>" "proxy = Inr u"
      by (rule finish_shutdown_Ok)
    note px = stop_proxy_run [OF stops(2)]
    then have ok: "owner_ok rt" if "no_runtime (fst w2) = Some rt" for rt using that native_okD [OF assms(1)] by simp
    obtain rt rt1 k where k: "no_runtime (fst w2) = Some rt" "no_runtime (fst w1) = None" "no_proxy (fst w1) = no_proxy (fst w2)"
        "force_shutdown (ao_life os) (rt, snd w2) = Some ((rt1, snd w2 @ k), Inr rr)" "snd w1 = snd w2 @ k"
        "report_true (ao_life os) (rt1, snd w2 @ k) rr" "ro_owner_state rt1 = OwnerCleaned"
        "session_gone (ao_life os) rt (snd w2 @ k)"
      using stop_runtime_report [OF stops(3) [unfolded r(1)] ok] by auto
    have "no_proxy (fst w) \<noteq> None \<longrightarrow> proxy_ended_cleanly os (snd w @ [LStopProxy])"
      using stop_proxy_Ok [OF stops(2) [unfolded r(3)]] px by auto
    with f r px k show ?thesis
      by (simp add: Let_def)
  qed simp
qed

section \<open>Properties\<close>

text \<open>C24: Launching the application gives a proxy with a verified runtime behind it, or nothing.  On success the
  resources and both sets of limits were valid; the proxy runs with the generated secrets, the given
  limits and the random hostname on the port that was bound before the process existed, and it forwards to
  the loopback port that was reserved, which is the port of the runtime; the hostname did not resolve outside
  of loopback; and the runtime is ready and verified with the upstream secret of this proxy, as the
  history shows.  A launch that fails never bound a listener, or the last thing it did was to stop the
  proxy, after the process was released.\<close>

theorem native_launch_verified:
  assumes "native_launch os path parent ll traffic w = Some (w1, r)"
  shows "case r of
      Inl _ \<Rightarrow> False
    | Inr (Inl e) \<Rightarrow> launch_withdrawn os (snd w) (snd w1)
    | Inr (Inr ow) \<Rightarrow>
        (\<exists>proxy rt runtime. no_proxy ow = Some proxy \<and> no_runtime ow = Some rt \<and> ro_runtime rt = Some runtime
           \<and> native_ok ow \<and> ro_owner_state rt = OwnerReady
           \<and> limits_valid ll \<and> limits_is_valid traffic \<and> ro_limits rt = ll
           \<and> bundle_load (ao_files os) path = Inr (ro_bundle rt)
           \<and> ro_upstream_secret rt = Some (ts_upstream (rp_secrets proxy))
           \<and> ao_bound os (snd w @ [LReservePort, LBindProxy]) = Inr (pa_port (rp_address proxy))
           \<and> proxy_configured os traffic (ro_upstream_port rt) (pa_port (rp_address proxy)) proxy
           \<and> ps_upstream (rp_state proxy) = \<lparr>v4_addr = 127 * 2 ^ 24 + 1, v4_port = unat (ro_upstream_port rt)\<rparr>
           \<and> select_upstream_port (fst (ao_reserved os (snd w @ [LReservePort])))
               (snd (ao_reserved os (snd w @ [LReservePort]))) = Inr (ro_upstream_port rt)
           \<and> (case no_host_resolution ow of NonLoopback _ \<Rightarrow> False | _ \<Rightarrow> True)
           \<and> launch_prepared (ao_life os) (ao_env os) parent (ts_upstream (rp_secrets proxy))
               (snd w @ [LReservePort, LBindProxy, LResolveHost]) rt
           \<and> ready_evidence (ao_life os) (ro_upstream_port rt) (ts_upstream (rp_secrets proxy)) runtime (snd w1))"
  using assms
proof (cases rule: native_launch_run)
  case (withdrawn e)
  then show ?thesis by simp
next
  case (launched ow rt proxy port resources)
  note l = launch_outcome [OF launched(10), unfolded sum.case snd_conv]
  then obtain runtime where "ro_runtime rt = Some runtime"
      "ready_evidence (ao_life os) port (ts_upstream (rp_secrets proxy)) runtime (snd w1)" by blast
  moreover have "ps_upstream (rp_state proxy) = \<lparr>v4_addr = 127 * 2 ^ 24 + 1, v4_port = unat port\<rparr>"
    using launched(11) by (simp add: proxy_configured_def)
  ultimately show ?thesis using l launched by (auto simp: native_ok_def split: host_resolution.splits)
qed

text \<open>C25: What the application owner keeps.  Over any sequence of health polls, shutdowns, forced shutdowns and
  retries: while the proxy runs the runtime is ready, and a runtime that stays is an owner in order; a stopped
  proxy and a released runtime never come back; effects are only added; and a proxy that is gone was
  stopped.  Provided that no worker thread terminates, the Job is never closed without having been seen
  empty: when every wait for it failed or timed out, it is still open and held by the retained runtime.
  A comment in \<open>finish_cleanup\<close> says that the process owner is dropped also after a query error; the
  code returns before it.  (A worker that terminates drops its runtime, and with it the Job.)\<close>

theorem native_owner_invariant:
  assumes "native_ok (fst w)" and "native_steps os w w1"
  shows "native_ok (fst w1) \<and> (no_proxy (fst w) = None \<longrightarrow> no_proxy (fst w1) = None)
    \<and> (no_runtime (fst w) = None \<longrightarrow> no_runtime (fst w1) = None)
    \<and> (\<exists>k. snd w1 = snd w @ k \<and> (no_proxy (fst w) \<noteq> None \<longrightarrow> no_proxy (fst w1) \<noteq> None \<or> LStopProxy \<in> set k)
         \<and> ((\<forall>h. ao_worker os h) \<longrightarrow> \<not> job_seen_empty (ao_life os) (snd w) (snd w1) \<longrightarrow>
              LCloseJob \<notin> set k
            \<and> (\<forall>rt. no_runtime (fst w) = Some rt \<longrightarrow> ro_process rt \<noteq> None \<longrightarrow>
                 (\<exists>rt1. no_runtime (fst w1) = Some rt1 \<and> ro_process rt1 \<noteq> None))))
    \<and> ((\<forall>h. ao_worker os h) \<longrightarrow> closes_empty (ao_life os) (snd w) (snd w1))"
proof -
  have kept: "native_kept os w w1" using native_steps_kept [OF assms(2,1)] .
  obtain k where k: "snd w1 = snd w @ k" "job_open (fst w) \<longrightarrow> job_open (fst w1) \<or> LCloseJob \<in> set k"
      "no_proxy (fst w) \<noteq> None \<longrightarrow> no_proxy (fst w1) \<noteq> None \<or> LStopProxy \<in> set k"
    using app_held_steps [OF assms(2,1)] by (auto simp: app_held_def)
  have closed: "LCloseJob \<notin> set k" if "\<forall>h. ao_worker os h" "\<not> job_seen_empty (ao_life os) (snd w) (snd w1)"
    using closes_emptyD [of "ao_life os" "snd w" k] kept that k(1) by (simp add: native_kept_def)
  then have "\<exists>rt1. no_runtime (fst w1) = Some rt1 \<and> ro_process rt1 \<noteq> None"
    if "\<forall>h. ao_worker os h" "\<not> job_seen_empty (ao_life os) (snd w) (snd w1)" "no_runtime (fst w) = Some rt"
      "ro_process rt \<noteq> None" for rt
    using k(2) that by (auto simp: job_open_def split: option.splits)
  with closed kept k(1,3) show ?thesis unfolding native_kept_def by blast
qed

text \<open>C26: The report of the application owner is the truth.  When \<open>shutdown\<close> or \<open>force_shutdown\<close> returns a report,
  proxy and runtime are both gone; the shutdown of a proxy that was running had answered Ok, that is every
  listener had returned without an error and no task had panicked; and the runtime report is true of a
  cleaned owner.  The graceful shutdown stops the proxy last, the forced one stops it first.\<close>

theorem native_report_truthful:
  assumes "native_ok (fst w)"
    and "native_shutdown os w = Some (w1, Inr (Inr report)) \<and> forced = False
       \<or> native_force_shutdown os w = Some (w1, Inr (Inr report)) \<and> forced = True"
  shows "nr_proxy_stopped report \<and> no_proxy (fst w1) = None \<and> no_runtime (fst w1) = None
    \<and> (\<exists>rt rt1 k. let stop = (if no_proxy (fst w) = None then [] else [LStopProxy]); h = (if forced then snd w @ stop else snd w) in
         no_runtime (fst w) = Some rt
       \<and> (if forced then force_shutdown (ao_life os) else shutdown (ao_life os)) (rt, h)
           = Some ((rt1, h @ k), Inr (nr_runtime report))
       \<and> snd w1 = (if forced then h @ k else h @ k @ stop)
       \<and> report_true (ao_life os) (rt1, h @ k) (nr_runtime report)
       \<and> (no_proxy (fst w) \<noteq> None \<longrightarrow> proxy_ended_cleanly os (if forced then h else snd w1))
       \<and> ro_owner_state rt1 = OwnerCleaned \<and> session_gone (ao_life os) rt (h @ k))"
  using assms by (rule native_report_outcome)

section \<open>Witnesses\<close>

definition example_resolved :: "ip_addr list" where
  "example_resolved = [V4 (0x08080808)]"

definition example_app :: app_oracle where
  "example_app =
     \<lparr>ao_life = example_life, ao_env = example_runtime_env, ao_files = example_bundle_env,
      ao_reserved = (\<lambda>h. (True, Some 3838)), ao_random = replicate 3 (Some (replicate 32 (CHR 0x07))),
      ao_nonce = Some (replicate 16 (CHR 0x09)), ao_bound = (\<lambda>h. Inr 4000),
      ao_resolved = (\<lambda>h. Some example_resolved),
      ao_proxy = (\<lambda>h. example_state), ao_listeners = (\<lambda>h. [ListenerReturned (Inr ())]),
      ao_exits = (\<lambda>h i. TaskDone), ao_worker = (\<lambda>h. True)\<rparr>"

definition example_application :: native_owner where
  "example_application =
     \<lparr>no_proxy = Some \<lparr>rp_address = \<lparr>pa_hostname = ''rpackit-0.localhost'', pa_port = 4000\<rparr>, rp_secrets = example_secrets,
        rp_state = example_state\<rparr>,
      no_runtime = Some example_ready, no_host_resolution = Unavailable\<rparr>"
lemma example_application_ok: "native_ok example_application"
  by (simp add: native_ok_def example_application_def owner_ok_def holds_all_def example_ready_def example_owner_def)

lemma example_app_life: "ao_life example_app = example_life" "ao_worker example_app h"
  by (simp_all add: example_app_def)

lemma example_stops:
  "\<exists>w1 report. native_force_shutdown example_app (example_application, []) = Some (w1, Inr (Inr report))"
proof -
  let ?stopped = "(example_application\<lparr>no_proxy := None\<rparr>, [LStopProxy])"
  have "snd (proxy_shutdown example_state [ListenerReturned (Inr ())] (\<lambda>i. TaskDone)) = Inr ()"
    by code_simp
  then have proxy: "stop_proxy example_app (example_application, []) = Some (?stopped, Inr (Inr ()))"
    by (simp add: stop_proxy_def proxy_stopped_def abind_def act_defs Let_def example_application_def example_app_def map_err_def)
  obtain w1 report where run: "force_shutdown example_life (example_ready, [LStopProxy]) = Some (w1, Inr report)"
    using example_forced by blast
  obtain rt h where w1: "w1 = (rt, h)" by (cases w1)
  have step: "owner_step example_life (example_ready, [LStopProxy]) w1" using run by (rule owner_step.forced)
  have "owner_ok (fst w1)" "ro_owner_state (fst w1) = OwnerCleaned"
    using owner_step_ok [OF step] example_application_ok shutdown_outcome [of example_life "(example_ready, [LStopProxy])" w1 report] run
    by (simp_all add: native_ok_def example_application_def)
  then have "owner_drop example_life (rt, h) = Some ((rt, h), Inr ())" using drop_cleaned w1 by simp
  then have "stop_runtime example_app StopForced ?stopped = Some ((fst ?stopped\<lparr>no_runtime := None\<rparr>, h), Inr (Inr report))"
    using run w1
    by (simp add: stop_runtime_def abind_def act_defs on_worker_def on_owner_def example_app_life app_ok_def example_application_def)
  then show ?thesis
    using proxy
    by (simp add: native_force_shutdown_def abind_def act_defs finish_shutdown_def app_lift_def) (simp add: example_application_def)
qed

lemma native_owner_invariant_witness:
  "\<exists>w1. native_steps example_app (example_application, []) w1 \<and> native_ok (fst w1) \<and> closes_empty example_life [] (snd w1)"
proof -
  obtain w1 report where "native_force_shutdown example_app (example_application, []) = Some (w1, Inr (Inr report))"
    using example_stops by blast
  then have "native_steps example_app (example_application, []) w1"
    by (rule native_steps.step [OF native_steps.none native_step.forced])
  moreover from native_owner_invariant [OF _ this] have "native_ok (fst w1)" "closes_empty example_life [] (snd w1)"
    using example_application_ok by (simp_all add: example_app_life)
  ultimately show ?thesis by blast
qed

lemma native_report_truthful_witness:
  "\<exists>w1 report. native_force_shutdown example_app (example_application, []) = Some (w1, Inr (Inr report))
     \<and> proxy_ended_cleanly example_app [LStopProxy] \<and> no_proxy (fst w1) = None \<and> no_runtime (fst w1) = None"
proof -
  obtain w1 report where "native_force_shutdown example_app (example_application, []) = Some (w1, Inr (Inr report))"
    using example_stops by blast
  with native_report_truthful [of "(example_application, [])" example_app w1 report True] example_application_ok
  show ?thesis by (auto simp: Let_def example_application_def)
qed

text \<open>A launch whose hostname resolves to a foreign address: the proxy is stopped and no process was created.\<close>

lemma native_launch_verified_witness:
  "\<exists>h. native_launch example_app [''C:'', ''bundle''] example_parent default_lifecycle_limits default_limits ((), [])
         = Some (((), h), Inr (Inl NonLoopbackBrowserHost))
     \<and> launch_withdrawn example_app [] h \<and> last h = LStopProxy"
proof -
  let ?h = "[LReservePort, LBindProxy, LResolveHost, LStopProxy]"
  have parts: "limits_valid default_lifecycle_limits" "limits_is_valid default_limits"
      "select_upstream_port True (Some 3838) = Inr 3838"
      "case secrets_generate (ao_random example_app) of Some s \<Rightarrow> True | None \<Rightarrow> False"
      "case resolve_hostname (Some example_resolved) of NonLoopback _ \<Rightarrow> True | _ \<Rightarrow> False"
      "snd (proxy_shutdown example_state [ListenerReturned (Inr ())] (\<lambda>i. TaskDone)) = Inr ()"
    by code_simp+
  obtain s where s: "secrets_generate (ao_random example_app) = Some s"
    using parts(4) by (auto split: option.splits)
  have port: "unat (3838 :: 16 word) = 3838" by simp
  have run: "native_launch example_app [''C:'', ''bundle''] example_parent default_lifecycle_limits default_limits ((), [])
      = Some (((), ?h), Inr (Inl NonLoopbackBrowserHost))"
    using parts s example_bundle_loads
    by (simp add: native_launch_def Let_def app_bind_lift abind_ask app_bind_ask map_err_def ok_or_def generate_with_secrets_def
        upstream_v4_def rbind_def proxy_started_def with_limits_def proxy_start_def cleanup_proxy_after_failure_def
        proxy_stopped_def app_fail_def aret_def example_app_def)
  then show ?thesis
    using native_launch_verified [of example_app "[''C:'', ''bundle'']" example_parent default_lifecycle_limits default_limits
        "((), [])" "((), ?h)"] by simp
qed

end
