(* ===== verification/Webview_Policy.thy ===== *)
theory Webview_Policy
  imports Complex_Main Resource_Bundle
begin

text \<open>
  The checks before a WebView exists: \<open>crates/windows-webview/src/policy.rs\<close>, and the limits, the window
  settings and the errors of \<open>crates/windows-webview/src/lib.rs\<close>.  Environment, registry, executable
  path and the installed WebView2 version are what the system answers; the registry answers per hv, view, key
  and value name.  A duration is a number of nanoseconds.
\<close>

section \<open>Definitions\<close>

datatype webview_error =
    WvInvalidLimits | WvInvalidWindowConfig | WvInvalidApplicationIdentity | WvExecutableIdentity
  | WvEnvironmentOverride | WvRegistryInspection | WvRegistryOverride | WvRuntimeUnavailable
  | WvRuntimeUnsupported | WvApplicationIdentityMismatch | WvProfileParentUnavailable
  | WvUnsafeProfileParent | WvProfileCreation | WvUnsafeProfilePath | WvProfileCleanupWorker
  | WvProfileCleanup | WvInvalidProxyOrigin | WvWindowDispatch | WvWindowChannel | WvWindowCreation
  | WvNativeGuardScheduling | WvNativeGuardTimeout | WvNativeGuardChannel | WvNativeGuardFailure
  | WvBootstrapScheduling | WvBootstrapTimeout | WvBootstrapChannel | WvBootstrapFailure
  | WvStartupTimeout | WvStartupChannel | WvCookieVerification | WvRootNavigation | WvWindowShow
  | WvWindowHide | WvCleanup | WvOwnerNotRunning | WvOwnerStillRunning
  | WvCleanupAfterFailure webview_error webview_error

subsection \<open>Limits and window settings\<close>

definition MAX_STARTUP_TIMEOUT :: nat where "MAX_STARTUP_TIMEOUT = 120 * 10 ^ 9"
definition MAX_NATIVE_OPERATION_TIMEOUT :: nat where "MAX_NATIVE_OPERATION_TIMEOUT = 30 * 10 ^ 9"
definition MAX_PROFILE_CLEANUP_TIMEOUT :: nat where "MAX_PROFILE_CLEANUP_TIMEOUT = 60 * 10 ^ 9"
definition MAX_WEBVIEW_POLL_INTERVAL :: nat where "MAX_WEBVIEW_POLL_INTERVAL = 10 ^ 9"

record webview_limits =
  wl_startup_timeout :: nat
  wl_native_operation_timeout :: nat
  wl_profile_cleanup_timeout :: nat
  wl_poll_interval :: nat

definition default_webview_limits :: webview_limits where
  "default_webview_limits =
     \<lparr>wl_startup_timeout = 30 * 10 ^ 9, wl_native_operation_timeout = 5 * 10 ^ 9,
      wl_profile_cleanup_timeout = 10 * 10 ^ 9, wl_poll_interval = 50 * 10 ^ 6\<rparr>"

definition webview_limits_validate :: "webview_limits \<Rightarrow> webview_error + webview_limits" where
  "webview_limits_validate l =
     (if wl_startup_timeout l = 0 \<or> wl_startup_timeout l > MAX_STARTUP_TIMEOUT
       \<or> wl_native_operation_timeout l = 0 \<or> wl_native_operation_timeout l > MAX_NATIVE_OPERATION_TIMEOUT
       \<or> wl_profile_cleanup_timeout l = 0 \<or> wl_profile_cleanup_timeout l > MAX_PROFILE_CLEANUP_TIMEOUT
       \<or> wl_poll_interval l = 0 \<or> wl_poll_interval l > MAX_WEBVIEW_POLL_INTERVAL
      then Inl WvInvalidLimits else Inr l)"

text \<open>A floating-point number: every finite one is a rational number.\<close>

datatype float64 = Finite rat | NotFinite

fun is_finite :: "float64 \<Rightarrow> bool" where
  "is_finite (Finite x) = True"
| "is_finite NotFinite = False"

fun in_range :: "rat \<Rightarrow> rat \<Rightarrow> float64 \<Rightarrow> bool" where
  "in_range lo hi (Finite x) = (lo \<le> x \<and> x \<le> hi)"
| "in_range lo hi NotFinite = False"

record window_config =
  wc_title :: string
  wc_width :: float64
  wc_height :: float64
  wc_show_after_ready :: bool

definition default_window_config :: window_config where
  "default_window_config =
     \<lparr>wc_title = ''rpackit'', wc_width = Finite 1024, wc_height = Finite 768, wc_show_after_ready = True\<rparr>"

definition window_config_validate :: "window_config \<Rightarrow> webview_error + unit" where
  "window_config_validate c =
     (if wc_title c = [] \<or> length (wc_title c) > 128 \<or> has_control (wc_title c)
       \<or> \<not> is_finite (wc_width c) \<or> \<not> is_finite (wc_height c)
       \<or> \<not> in_range 320 7680 (wc_width c) \<or> \<not> in_range 240 4320 (wc_height c)
      then Inl WvInvalidWindowConfig else Inr ())"

subsection \<open>Version\<close>

definition MINIMUM_WEBVIEW2_VERSION :: "nat list" where
  "MINIMUM_WEBVIEW2_VERSION = [149, 0, 4022, 98]"

text \<open>The loop over the four slots; what is left of the components is returned.\<close>

fun parse_slots :: "nat \<Rightarrow> string list \<Rightarrow> (nat list \<times> string list) option" where
  "parse_slots 0 components = Some ([], components)"
| "parse_slots (Suc n) components =
     (case components of
        [] \<Rightarrow> None
      | component # components \<Rightarrow>
          if component = [] \<or> \<not> list_all is_ascii_digit component then None
          else
            (case parse_unsigned u32_max component of
               None \<Rightarrow> None
             | Some slot \<Rightarrow>
                 (case parse_slots n components of
                    None \<Rightarrow> None
                  | Some (slots, rest) \<Rightarrow> Some (slot # slots, rest))))"

definition parse_version :: "string \<Rightarrow> nat list option" where
  "parse_version version =
     (case parse_slots 4 (split_on CHR ''.'' version) of
        None \<Rightarrow> None
      | Some (parsed, rest) \<Rightarrow> if rest \<noteq> [] then None else Some parsed)"

text \<open>The order of arrays of equal length.\<close>

fun slots_le :: "nat list \<Rightarrow> nat list \<Rightarrow> bool" where
  "slots_le (a # as) (b # bs) = (a < b \<or> (a = b \<and> slots_le as bs))"
| "slots_le _ _ = True"

definition version_is_supported :: "string \<Rightarrow> bool" where
  "version_is_supported version =
     (case parse_version version of None \<Rightarrow> False | Some actual \<Rightarrow> slots_le MINIMUM_WEBVIEW2_VERSION actual)"

subsection \<open>Identity and overrides\<close>

definition FORBIDDEN_WEBVIEW_ENVIRONMENT_VARIABLES :: "string list" where
  "FORBIDDEN_WEBVIEW_ENVIRONMENT_VARIABLES =
     [''WEBVIEW2_ADDITIONAL_BROWSER_ARGUMENTS'', ''WEBVIEW2_BROWSER_EXECUTABLE_FOLDER'',
      ''WEBVIEW2_USER_DATA_FOLDER'', ''WEBVIEW2_CHANNEL_SEARCH_KIND'', ''WEBVIEW2_RELEASE_CHANNELS'',
      ''WEBVIEW2_RELEASE_CHANNEL_PREFERENCE'', ''WEBVIEW2_WAIT_FOR_SCRIPT_DEBUGGER'',
      ''WEBVIEW2_PIPE_FOR_SCRIPT_DEBUGGER'']"

definition POLICY_ROOT :: string where
  "POLICY_ROOT =
     join_with [CHR 0x5C] [''Software'', ''Policies'', ''Microsoft'', ''Edge'', ''WebView2'', []]"

definition WEBVIEW2_OVERRIDE_POLICY_KEYS :: "string list" where
  "WEBVIEW2_OVERRIDE_POLICY_KEYS =
     map ((@) POLICY_ROOT)
       [''BrowserExecutableFolder'', ''ChannelSearchKind'', ''ReleaseChannels'',
        ''AdditionalBrowserArguments'', ''UserDataFolder'', ''ReleaseChannelPreference'']"

definition application_id_is_valid :: "string \<Rightarrow> bool" where
  "application_id_is_valid application_id \<longleftrightarrow>
     application_id \<noteq> [] \<and> length application_id \<le> 128
   \<and> list_all (\<lambda>b. is_ascii_alphanumeric b \<or> b = CHR ''.'' \<or> b = CHR ''-'' \<or> b = CHR ''_'') application_id"

definition environment_overrides_absent :: "(string \<Rightarrow> bool) \<Rightarrow> bool" where
  "environment_overrides_absent is_present = (\<not> list_ex is_present FORBIDDEN_WEBVIEW_ENVIRONMENT_VARIABLES)"

definition push_unique :: "string list \<Rightarrow> string \<Rightarrow> string list" where
  "push_unique items v = (if \<not> list_ex (\<lambda>item. eq_ignore_ascii_case item v) items then items @ [v] else items)"

text \<open>\<open>Path::file_stem\<close> of a file name, and \<open>OsStr::to_str\<close>.\<close>

definition file_stem :: "bytes \<Rightarrow> bytes" where
  "file_stem name =
     (if name = ''..'' \<or> CHR ''.'' \<notin> set name then name
      else
        let before = rev (tl (dropWhile (\<lambda>c. c \<noteq> CHR ''.'') (rev name))) in
        if before = [] then name else before)"

definition to_str :: "bytes \<Rightarrow> string option" where
  "to_str name = (if utf8_valid name then Some name else None)"

text \<open>The executable is given by its file name, when its path has one.\<close>

definition registry_app_ids :: "string \<Rightarrow> bytes option \<Rightarrow> string list" where
  "registry_app_ids application_id executable =
     (let ids0 = [application_id];
          ids1 = (case Option.bind executable to_str of Some file_name \<Rightarrow> push_unique ids0 file_name | None \<Rightarrow> ids0);
          ids2 = (case Option.bind (map_option file_stem executable) to_str of
                    Some stem \<Rightarrow> push_unique ids1 stem | None \<Rightarrow> ids1)
      in push_unique ids2 ''*'')"

subsection \<open>Registry\<close>

datatype hive = LocalMachine | CurrentUser

datatype registry_view = View64 | View32

record registry =
  rg_open :: "hive \<Rightarrow> registry_view \<Rightarrow> string \<Rightarrow> fs_error + unit"
  rg_value :: "hive \<Rightarrow> registry_view \<Rightarrow> string \<Rightarrow> string \<Rightarrow> fs_error + unit"

definition registry_value_exists ::
  "registry \<Rightarrow> hive \<Rightarrow> registry_view \<Rightarrow> string \<Rightarrow> string \<Rightarrow> fs_error + bool" where
  "registry_value_exists rg hv view subkey value_name =
     (case rg_open rg hv view subkey of
        Inl FsNotFound \<Rightarrow> Inr False
      | Inl e \<Rightarrow> Inl e
      | Inr _ \<Rightarrow>
          (case rg_value rg hv view subkey value_name of
             Inr _ \<Rightarrow> Inr True
           | Inl FsNotFound \<Rightarrow> Inr False
           | Inl e \<Rightarrow> Inl e))"

text \<open>The nested loops, as one loop over the combinations in their order.\<close>

fun scan_overrides :: "registry \<Rightarrow> (hive \<times> registry_view \<times> string \<times> string) list \<Rightarrow> fs_error + bool" where
  "scan_overrides rg [] = Inr True"
| "scan_overrides rg ((hv, view, subkey, app_id) # places) =
     rbind (registry_value_exists rg hv view subkey app_id) (\<lambda>found.
       if found then Inr False else scan_overrides rg places)"

definition override_places :: "string list \<Rightarrow> (hive \<times> registry_view \<times> string \<times> string) list" where
  "override_places app_ids =
     concat (map (\<lambda>hv. concat (map (\<lambda>view. concat (map (\<lambda>subkey. map (\<lambda>app_id. (hv, view, subkey, app_id)) app_ids)
       WEBVIEW2_OVERRIDE_POLICY_KEYS)) [View64, View32])) [LocalMachine, CurrentUser])"

definition registry_overrides_absent :: "registry \<Rightarrow> string \<Rightarrow> bytes option \<Rightarrow> fs_error + bool" where
  "registry_overrides_absent rg application_id executable =
     scan_overrides rg (override_places (registry_app_ids application_id executable))"

subsection \<open>Preflight\<close>

text \<open>What the system answers: the executable may be unknown, and its path may have no file name.\<close>

record policy_env =
  pv_is_present :: "string \<Rightarrow> bool"
  pv_current_exe :: "bytes option option"
  pv_registry :: registry
  pv_version :: "string option"

definition policy_verify :: "policy_env \<Rightarrow> string \<Rightarrow> webview_error + string" where
  "policy_verify env application_id =
     (if \<not> application_id_is_valid application_id then Inl WvInvalidApplicationIdentity
      else if \<not> environment_overrides_absent (pv_is_present env) then Inl WvEnvironmentOverride
      else
        rbind (ok_or (pv_current_exe env) WvExecutableIdentity) (\<lambda>executable.
        rbind (map_err (\<lambda>_. WvRegistryInspection)
                 (registry_overrides_absent (pv_registry env) application_id executable)) (\<lambda>absent.
        if \<not> absent then Inl WvRegistryOverride
        else
          rbind (ok_or (pv_version env) WvRuntimeUnavailable) (\<lambda>actual.
          if \<not> version_is_supported actual then Inl WvRuntimeUnsupported else Inr actual))))"

record preflight =
  pf_application_id :: string
  pf_actual_version :: string

definition preflight_verify :: "policy_env \<Rightarrow> string \<Rightarrow> webview_error + preflight" where
  "preflight_verify env application_id =
     rbind (policy_verify env application_id) (\<lambda>actual_version.
       Inr \<lparr>pf_application_id = application_id, pf_actual_version = actual_version\<rparr>)"

subsection \<open>Specification\<close>

text \<open>No policy value of the application, of its executable or of every application exists; registry names
  are compared without regard to case.\<close>

definition override_names :: "string \<Rightarrow> bytes option \<Rightarrow> string set" where
  "override_names application_id executable =
     {application_id, ''*''}
   \<union> (case executable of
        None \<Rightarrow> {}
      | Some name \<Rightarrow> {n \<in> {name, file_stem name}. utf8_valid n})"

definition value_absent :: "registry \<Rightarrow> hive \<Rightarrow> registry_view \<Rightarrow> string \<Rightarrow> string \<Rightarrow> bool" where
  "value_absent rg hv view subkey name \<longleftrightarrow>
     rg_open rg hv view subkey = Inl FsNotFound
   \<or> (rg_open rg hv view subkey = Inr () \<and> rg_value rg hv view subkey name = Inl FsNotFound)"

definition case_insensitive :: "registry \<Rightarrow> bool" where
  "case_insensitive rg \<longleftrightarrow>
     (\<forall>hv view subkey a b. eq_ignore_ascii_case a b \<longrightarrow> rg_value rg hv view subkey a = rg_value rg hv view subkey b)"

text \<open>A version: four decimal numbers of 32 bits with dots between them, read as the digits of one number.\<close>

definition version_number :: "nat list \<Rightarrow> nat" where
  "version_number slots = foldl (\<lambda>n slot. n * 2 ^ 32 + slot) 0 slots"

definition version_slot :: "string \<Rightarrow> bool" where
  "version_slot c \<longleftrightarrow> c \<noteq> [] \<and> list_all is_ascii_digit c \<and> digits_value 0 c \<le> u32_max"

definition version_at_least :: "nat list \<Rightarrow> string \<Rightarrow> bool" where
  "version_at_least minimum version \<longleftrightarrow>
     (let cs = split_on CHR ''.'' version in
      length cs = 4 \<and> list_all version_slot cs \<and> version_number minimum \<le> version_number (map (digits_value 0) cs))"

section \<open>Lemmas\<close>

subsection \<open>Versions\<close>

lemma digits_parse: "version_slot c \<Longrightarrow> parse_unsigned u32_max c = Some (digits_value 0 c)"
  by (cases c) (auto simp: version_slot_def parse_unsigned_def is_ascii_digit_def byte_def)

lemma parse_slots_Some:
  "parse_slots n cs = Some (slots, rest) \<longleftrightarrow>
     n \<le> length cs \<and> list_all version_slot (take n cs) \<and> slots = map (digits_value 0) (take n cs) \<and> rest = drop n cs"
proof (induction n arbitrary: cs slots)
  case (Suc n)
  show ?case
  proof (cases cs)
    case (Cons c cs')
    show ?thesis
    proof (cases "version_slot c")
      case True
      then have "c \<noteq> []" "list_all is_ascii_digit c" by (simp_all add: version_slot_def)
      then have "parse_slots (Suc n) cs = (case parse_slots n cs' of
          None \<Rightarrow> None | Some (slots, rest) \<Rightarrow> Some (digits_value 0 c # slots, rest))"
        using Cons digits_parse [OF True] by simp
      with Suc [of cs'] True Cons show ?thesis by (cases "parse_slots n cs'") auto
    next
      case False
      then have "parse_slots (Suc n) cs = None"
        using Cons by (auto simp: version_slot_def parse_unsigned_def is_ascii_digit_def byte_def split: list.splits if_splits)
      with False Cons show ?thesis by simp
    qed
  qed simp
qed auto

lemma parse_slots_None: "parse_slots n cs = None \<longleftrightarrow> \<not> (n \<le> length cs \<and> list_all version_slot (take n cs))"
proof (cases "parse_slots n cs")
  case None
  then show ?thesis using parse_slots_Some [of n cs "map (digits_value 0) (take n cs)" "drop n cs"] by simp
next
  case (Some p)
  then show ?thesis using parse_slots_Some [of n cs "fst p" "snd p"] by simp
qed

lemma parse_version_Some:
  "parse_version v = Some slots \<longleftrightarrow>
     length (split_on CHR ''.'' v) = 4 \<and> list_all version_slot (split_on CHR ''.'' v)
   \<and> slots = map (digits_value 0) (split_on CHR ''.'' v)"
proof (cases "parse_slots 4 (split_on CHR ''.'' v)")
  case None
  then have "\<not> (4 \<le> length (split_on CHR ''.'' v) \<and> list_all version_slot (take 4 (split_on CHR ''.'' v)))"
    by (simp only: parse_slots_None simp_thms)
  with None show ?thesis by (auto simp: parse_version_def)
next
  case (Some p)
  then show ?thesis
    using parse_slots_Some [of 4 "split_on CHR ''.'' v" "fst p" "snd p"] by (cases p) (auto simp: parse_version_def)
qed

lemma version_number_Cons: "version_number (a # as) = a * (2 ^ 32) ^ length as + version_number as"
proof -
  have "foldl (\<lambda>n slot. n * 2 ^ 32 + slot) m as = m * (2 ^ 32) ^ length as + foldl (\<lambda>n slot. n * 2 ^ 32 + slot) 0 as" for m :: nat
  proof (induction as arbitrary: m)
    case (Cons a as)
    from Cons [of "m * 2 ^ 32 + a"] Cons [of a] show ?case by (simp add: algebra_simps)
  qed simp
  from this [of a] show ?thesis by (simp add: version_number_def)
qed

lemma version_number_less: "list_all (\<lambda>x. x \<le> u32_max) as \<Longrightarrow> version_number as < (2 ^ 32) ^ length as"
proof (induction as)
  case (Cons a as)
  then have "a + 1 \<le> 2 ^ 32" by (simp add: u32_max_def)
  then have "(a + 1) * (2 ^ 32) ^ length as \<le> 2 ^ 32 * (2 ^ 32) ^ length as" by (rule mult_right_mono) simp
  then have "a * (2 ^ 32) ^ length as + (2 ^ 32) ^ length as \<le> (2 ^ 32) ^ length (a # as)" by (simp add: add.commute)
  moreover have "version_number as < (2 ^ 32) ^ length as" using Cons by simp
  ultimately show ?case unfolding version_number_Cons by linarith
qed (simp add: version_number_def)

lemma slots_le_number:
  assumes "length as = length bs" "list_all (\<lambda>x. x \<le> u32_max) as" "list_all (\<lambda>x. x \<le> u32_max) bs"
  shows "slots_le as bs \<longleftrightarrow> version_number as \<le> version_number bs"
  using assms
proof (induction as bs rule: list_induct2)
  case (Cons a as b bs)
  let ?B = "(2 ^ 32) ^ length bs :: nat"
  have less: "version_number as < ?B" "version_number bs < ?B"
    using version_number_less [of as] version_number_less [of bs] Cons by simp_all
  have far: "x * ?B + u < y * ?B + v" if "x < y" "u < ?B" for x y u v :: nat
  proof -
    have "(x + 1) * ?B \<le> y * ?B" using that(1) by (intro mult_right_mono) simp_all
    with that(2) show ?thesis by (simp add: add.commute)
  qed
  consider "a < b" | "b < a" | "a = b" by linarith
  then show ?case
  proof cases
    case 1
    with far [OF 1 less(1)] Cons show ?thesis by (simp add: version_number_Cons less_imp_le)
  next
    case 2
    have "\<not> version_number (a # as) \<le> version_number (b # bs)"
      using far [OF 2 less(2), of "version_number as"] Cons.hyps unfolding version_number_Cons not_le by simp
    with 2 show ?thesis by simp
  next
    case 3
    with Cons show ?thesis by (simp add: version_number_Cons)
  qed
qed simp

lemma version_supported_iff: "version_is_supported v \<longleftrightarrow> version_at_least MINIMUM_WEBVIEW2_VERSION v"
proof -
  let ?cs = "split_on CHR ''.'' v"
  have "slots_le MINIMUM_WEBVIEW2_VERSION (map (digits_value 0) ?cs)
      \<longleftrightarrow> version_number MINIMUM_WEBVIEW2_VERSION \<le> version_number (map (digits_value 0) ?cs)"
    if "length ?cs = 4" "list_all version_slot ?cs"
    using that by (intro slots_le_number)
      (auto simp: MINIMUM_WEBVIEW2_VERSION_def u32_max_def list_all_iff version_slot_def)
  then show ?thesis
    by (auto simp: version_is_supported_def version_at_least_def Let_def parse_version_Some split: option.splits)
      (metis option.distinct(1) parse_version_Some)
qed

subsection \<open>Overrides\<close>

lemma value_exists_False: "registry_value_exists rg hv view subkey n = Inr False \<longleftrightarrow> value_absent rg hv view subkey n"
  by (auto simp: registry_value_exists_def value_absent_def split: sum.splits fs_error.splits)

lemma scan_True:
  "scan_overrides rg places = Inr True \<longleftrightarrow> (\<forall>(hv, view, subkey, n) \<in> set places. value_absent rg hv view subkey n)"
  by (induction rg places rule: scan_overrides.induct) (auto simp flip: value_exists_False)

lemma set_override_places:
  "set (override_places ids) = UNIV \<times> UNIV \<times> set WEBVIEW2_OVERRIDE_POLICY_KEYS \<times> set ids"
proof -
  have "(hv, view, k, n) \<in> set (override_places ids) \<longleftrightarrow> k \<in> set WEBVIEW2_OVERRIDE_POLICY_KEYS \<and> n \<in> set ids"
    for hv view k n
    by (cases hv; cases view) (auto simp: override_places_def)
  then show ?thesis by auto
qed

lemma eq_ignore_case_same: "eq_ignore_ascii_case a a"
  by (simp add: eq_ignore_ascii_case_def)

definition covered :: "string list \<Rightarrow> string \<Rightarrow> bool" where
  "covered ids n \<longleftrightarrow> (\<exists>i \<in> set ids. eq_ignore_ascii_case i n)"

lemma covered_push [simp]: "covered (push_unique ids v) n \<longleftrightarrow> covered ids n \<or> eq_ignore_ascii_case v n"
  by (auto simp: covered_def push_unique_def list_ex_iff eq_ignore_ascii_case_def)

lemma set_push: "n \<in> set (push_unique ids v) \<Longrightarrow> n = v \<or> n \<in> set ids"
  by (auto simp: push_unique_def split: if_splits)

text \<open>The identifiers are the names, up to case.\<close>

lemma app_ids_names:
  "n \<in> set (registry_app_ids application_id executable) \<Longrightarrow> n \<in> override_names application_id executable"
  "covered (registry_app_ids application_id executable) n
     \<longleftrightarrow> (\<exists>m \<in> override_names application_id executable. eq_ignore_ascii_case m n)"
proof -
  let ?file = "Option.bind executable to_str" and ?stem = "Option.bind (map_option file_stem executable) to_str"
  have names: "override_names application_id executable = {application_id, ''*''} \<union> set_option ?file \<union> set_option ?stem"
    by (cases executable) (auto simp: override_names_def to_str_def)
  show "n \<in> override_names application_id executable" if "n \<in> set (registry_app_ids application_id executable)"
    using that unfolding names registry_app_ids_def Let_def
    by (cases ?file; cases ?stem) (auto dest!: set_push)
  have one: "covered [application_id] n \<longleftrightarrow> eq_ignore_ascii_case application_id n" by (simp add: covered_def)
  show "covered (registry_app_ids application_id executable) n
     \<longleftrightarrow> (\<exists>m \<in> override_names application_id executable. eq_ignore_ascii_case m n)"
    unfolding names registry_app_ids_def Let_def
    by (cases ?file; cases ?stem) (auto simp: one)
qed

lemma overrides_absent_iff:
  assumes "case_insensitive rg"
  shows "registry_overrides_absent rg application_id executable = Inr True \<longleftrightarrow>
    (\<forall>hv view. \<forall>subkey \<in> set WEBVIEW2_OVERRIDE_POLICY_KEYS. \<forall>n \<in> override_names application_id executable.
       value_absent rg hv view subkey n)"
proof -
  have same: "value_absent rg hv view subkey i \<longleftrightarrow> value_absent rg hv view subkey n"
    if "eq_ignore_ascii_case i n" for hv view subkey i n
    using that assms by (simp add: value_absent_def case_insensitive_def)
  show ?thesis
  proof
    assume "registry_overrides_absent rg application_id executable = Inr True"
    then have ids: "value_absent rg hv view subkey i"
      if "subkey \<in> set WEBVIEW2_OVERRIDE_POLICY_KEYS" "i \<in> set (registry_app_ids application_id executable)" for hv view subkey i
      using that unfolding registry_overrides_absent_def scan_True set_override_places by blast
    show "\<forall>hv view. \<forall>subkey \<in> set WEBVIEW2_OVERRIDE_POLICY_KEYS. \<forall>n \<in> override_names application_id executable.
       value_absent rg hv view subkey n"
    proof (intro allI ballI)
      fix hv view subkey n
      assume k: "subkey \<in> set WEBVIEW2_OVERRIDE_POLICY_KEYS" and "n \<in> override_names application_id executable"
      then have "covered (registry_app_ids application_id executable) n"
        unfolding app_ids_names using eq_ignore_case_same by blast
      then obtain i where "i \<in> set (registry_app_ids application_id executable)" "eq_ignore_ascii_case i n"
        by (auto simp: covered_def)
      with ids [OF k] same show "value_absent rg hv view subkey n" by blast
    qed
  next
    assume "\<forall>hv view. \<forall>subkey \<in> set WEBVIEW2_OVERRIDE_POLICY_KEYS. \<forall>n \<in> override_names application_id executable.
       value_absent rg hv view subkey n"
    then show "registry_overrides_absent rg application_id executable = Inr True"
      using app_ids_names(1) unfolding registry_overrides_absent_def scan_True set_override_places by blast
  qed
qed

section \<open>Properties\<close>

text \<open>C35: The preflight accepts exactly an unmodified WebView2 of a reviewed version.  It succeeds exactly when the
  application identifier is well formed, none of the eight override variables is in the environment, the
  executable is known, no override value for the application, its executable or all applications exists under
  either root in either view of the registry, and the installed version is four 32-bit numbers that,
  read as one number, are not below the reviewed minimum; it returns that version and that identifier.
  Registry value names are looked up without regard to case.\<close>

theorem preflight_accepts_iff:
  assumes "case_insensitive (pv_registry env)"
  shows "preflight_verify env application_id = Inr p \<longleftrightarrow>
      application_id_is_valid application_id
    \<and> (\<forall>n \<in> set FORBIDDEN_WEBVIEW_ENVIRONMENT_VARIABLES. \<not> pv_is_present env n)
    \<and> (case pv_current_exe env of
         None \<Rightarrow> False
       | Some executable \<Rightarrow>
           \<forall>hv view. \<forall>subkey \<in> set WEBVIEW2_OVERRIDE_POLICY_KEYS. \<forall>n \<in> override_names application_id executable.
             value_absent (pv_registry env) hv view subkey n)
    \<and> pv_version env = Some (pf_actual_version p)
    \<and> version_at_least MINIMUM_WEBVIEW2_VERSION (pf_actual_version p)
    \<and> pf_application_id p = application_id"
proof (cases "pv_current_exe env")
  case None
  then show ?thesis by (auto simp: preflight_verify_def policy_verify_def ok_or_def rbind_def split: if_splits)
next
  case (Some executable)
  have absent: "map_err f (registry_overrides_absent (pv_registry env) application_id executable) = Inr b
      \<longleftrightarrow> registry_overrides_absent (pv_registry env) application_id executable = Inr b" for f b
    by (auto simp: map_err_def split: sum.splits)
  have "preflight_verify env application_id = Inr p \<longleftrightarrow>
      application_id_is_valid application_id \<and> environment_overrides_absent (pv_is_present env)
    \<and> registry_overrides_absent (pv_registry env) application_id executable = Inr True
    \<and> pv_version env = Some (pf_actual_version p) \<and> version_is_supported (pf_actual_version p)
    \<and> pf_application_id p = application_id"
    using Some by (cases p) (auto simp: preflight_verify_def policy_verify_def ok_or_def absent split: option.splits)
  then show ?thesis
    unfolding overrides_absent_iff [OF assms] version_supported_iff Some
    by (simp add: environment_overrides_absent_def list_ex_iff)
qed

section \<open>Witnesses\<close>

definition example_registry :: registry where
  "example_registry =
     \<lparr>rg_open = (\<lambda>hv view subkey. if view = View32 then Inl FsNotFound else Inr ()),
      rg_value = (\<lambda>hv view subkey n. Inl FsNotFound)\<rparr>"

definition example_policy_env :: policy_env where
  "example_policy_env =
     \<lparr>pv_is_present = (\<lambda>n. n = ''PATH''), pv_current_exe = Some (Some ''rpackit-windows-shell.exe''),
      pv_registry = example_registry, pv_version = Some ''149.0.4022.98''\<rparr>"

lemma preflight_accepts_iff_witness:
  "preflight_verify example_policy_env ''dev.rpackit.shell''
     = Inr \<lparr>pf_application_id = ''dev.rpackit.shell'', pf_actual_version = ''149.0.4022.98''\<rparr>
   \<and> preflight_verify (example_policy_env\<lparr>pv_version := Some ''149.0.4022.97''\<rparr>) ''dev.rpackit.shell''
     = Inl WvRuntimeUnsupported
   \<and> version_at_least MINIMUM_WEBVIEW2_VERSION ''149.0.4022.98''"
proof -
  have "case_insensitive (pv_registry example_policy_env)"
    by (simp add: case_insensitive_def example_policy_env_def example_registry_def)
  note iff = preflight_accepts_iff [OF this, of "''dev.rpackit.shell''"
      "\<lparr>pf_application_id = ''dev.rpackit.shell'', pf_actual_version = ''149.0.4022.98''\<rparr>"]
  have "preflight_verify example_policy_env ''dev.rpackit.shell''
     = Inr \<lparr>pf_application_id = ''dev.rpackit.shell'', pf_actual_version = ''149.0.4022.98''\<rparr>"
    "preflight_verify (example_policy_env\<lparr>pv_version := Some ''149.0.4022.97''\<rparr>) ''dev.rpackit.shell''
     = Inl WvRuntimeUnsupported"
    by code_simp+
  with iff show ?thesis by simp
qed

end
