(* ===== verification/Webview_Profile.thy ===== *)
theory Webview_Profile
  imports Webview_Policy Call_History
begin

text \<open>
  \<open>crates/windows-webview/src/profile.rs\<close>: the profile directory of one launch, and its removal in exact scope.
  Every call to the file system is a \<open>profile_op\<close>, answered by an oracle over the history of the calls, so that
  the directory may change between any two of them.  The bounded retry of the removal is an action of
  the WebView owner (\<open>Webview_Owner\<close>).
\<close>

section \<open>Definitions\<close>

datatype profile_op =
    PfCanonicalize path | PfMetadata path | PfTempdir path | PfTryExists path | PfRemoveDirAll path

datatype io_kind = KindNotFound | KindPermissionDenied | KindOther

record profile_oracle =
  pr_canonicalize :: "profile_op list \<Rightarrow> io_kind + path"
  pr_metadata :: "profile_op list \<Rightarrow> io_kind + metadata"
  pr_tempdir :: "profile_op list \<Rightarrow> io_kind + path"
  pr_exists :: "profile_op list \<Rightarrow> io_kind + bool"
  pr_removed :: "profile_op list \<Rightarrow> io_kind + unit"

text \<open>A call and its answer, which is looked at and not returned when it is an error.\<close>

definition fs_call :: "profile_op \<Rightarrow> (profile_op list \<Rightarrow> 'a) \<Rightarrow> (profile_op, 'e, 'a) run" where
  "fs_call op answer = nbind (nrun op) (\<lambda>_. nread answer)"

definition PROFILE_PREFIX :: string where "PROFILE_PREFIX = ''rpackit-webview-''"
definition REPARSE_POINT_ATTRIBUTE :: "32 word" where "REPARSE_POINT_ATTRIBUTE = 0x400"

record scoped_profile =
  sp_parent :: path
  sp_path :: "path option"

definition is_reparse_point :: "metadata \<Rightarrow> bool" where
  "is_reparse_point md = (and (md_file_attributes md) REPARSE_POINT_ATTRIBUTE \<noteq> 0)"

definition path_file_name :: "path \<Rightarrow> string option" where
  "path_file_name p = (if length p \<le> 1 \<or> last p = ''..'' then None else Some (last p))"

text \<open>The part of \<open>profile_path_is_allowed\<close> that looks only at the path.\<close>

definition profile_name_is_allowed :: "path \<Rightarrow> path \<Rightarrow> bool" where
  "profile_name_is_allowed parent p =
     (if path_parent p \<noteq> Some parent then False
      else
        case Option.bind (path_file_name p) to_str of
          None \<Rightarrow> False
        | Some name \<Rightarrow>
            prefix PROFILE_PREFIX name \<and> length name > length PROFILE_PREFIX
          \<and> list_all (\<lambda>b. is_ascii_alphanumeric b \<or> b = CHR ''-'') name)"

definition profile_path_is_allowed :: "profile_oracle \<Rightarrow> path \<Rightarrow> path \<Rightarrow> (profile_op, 'e, bool) run" where
  "profile_path_is_allowed os parent p =
     (if \<not> profile_name_is_allowed parent p then nret False
      else
        nbind (fs_call (PfMetadata p) (pr_metadata os)) (\<lambda>metadata.
        case metadata of
          Inl _ \<Rightarrow> nret False
        | Inr md \<Rightarrow> nret (md_is_dir md \<and> \<not> is_reparse_point md)))"

definition profile_create :: "profile_oracle \<Rightarrow> path \<Rightarrow> (profile_op, webview_error, scoped_profile) run" where
  "profile_create os parent0 =
     nbind (fs_call (PfCanonicalize parent0) (pr_canonicalize os)) (\<lambda>canonical.
     nbind (nlift (map_err (\<lambda>_. WvProfileParentUnavailable) canonical)) (\<lambda>parent.
     nbind (fs_call (PfMetadata parent) (pr_metadata os)) (\<lambda>metadata0.
     nbind (nlift (map_err (\<lambda>_. WvProfileParentUnavailable) metadata0)) (\<lambda>metadata.
     if \<not> md_is_dir metadata \<or> is_reparse_point metadata then nfail WvUnsafeProfileParent
     else
       nbind (fs_call (PfTempdir parent) (pr_tempdir os)) (\<lambda>created.
       nbind (nlift (map_err (\<lambda>_. WvProfileCreation) created)) (\<lambda>p.
       nbind (profile_path_is_allowed os parent p) (\<lambda>allowed.
       if \<not> allowed then nbind (nrun (PfRemoveDirAll p)) (\<lambda>_. nfail WvUnsafeProfilePath)
       else nret \<lparr>sp_parent = parent, sp_path = Some p\<rparr>)))))))"

definition profile_path :: "scoped_profile \<Rightarrow> webview_error + path" where
  "profile_path profile = ok_or (sp_path profile) WvOwnerNotRunning"

definition is_removed :: "scoped_profile \<Rightarrow> bool" where
  "is_removed profile = (sp_path profile = None)"

definition remove_profile_once :: "profile_oracle \<Rightarrow> path \<Rightarrow> path \<Rightarrow> (profile_op, io_kind, unit) run" where
  "remove_profile_once os parent p =
     nbind (fs_call (PfTryExists p) (pr_exists os)) (\<lambda>there.
     nbind (nlift there) (\<lambda>exists.
     if \<not> exists then nret ()
     else
       nbind (profile_path_is_allowed os parent p) (\<lambda>allowed.
       if \<not> allowed then nfail KindPermissionDenied
       else
         nbind (fs_call (PfRemoveDirAll p) (pr_removed os)) (\<lambda>removed.
         case removed of
           Inr _ \<Rightarrow> nret ()
         | Inl KindNotFound \<Rightarrow> nret ()
         | Inl e \<Rightarrow> nfail e))))"

subsection \<open>Specifications\<close>

text \<open>A profile directory of \<open>parent\<close>: a direct child of it, named by the prefix and random text.\<close>

definition profile_child :: "path \<Rightarrow> path \<Rightarrow> bool" where
  "profile_child parent p \<longleftrightarrow>
     (\<exists>random. p = parent @ [PROFILE_PREFIX @ random] \<and> parent \<noteq> [] \<and> random \<noteq> []
        \<and> list_all (\<lambda>b. is_ascii_alphanumeric b \<or> b = CHR ''-'') random)"

definition plain_directory :: "io_kind + metadata \<Rightarrow> bool" where
  "plain_directory answer = (case answer of Inl _ \<Rightarrow> False | Inr md \<Rightarrow> md_is_dir md \<and> \<not> is_reparse_point md)"

section \<open>Lemmas\<close>

lemma fs_call_run [simp]: "fs_call op answer h = (h @ [op], Inr (answer (h @ [op])))"
  by (simp add: fs_call_def run_defs)

lemma profile_name_child:
  assumes "profile_name_is_allowed parent p" shows "profile_child parent p"
proof -
  from assms have l: "length p > 1" and parent: "parent = butlast p"
    by (auto simp: profile_name_is_allowed_def path_parent_def split: if_splits)
  from assms obtain random where r: "last p = PROFILE_PREFIX @ random" "random \<noteq> []"
      "list_all (\<lambda>b. is_ascii_alphanumeric b \<or> b = CHR ''-'') (last p)"
    by (auto simp: profile_name_is_allowed_def path_file_name_def to_str_def prefix_def split: if_splits option.splits)
  moreover have "p = parent @ [last p]" "parent \<noteq> []"
    using l parent by (cases p rule: rev_cases; auto)+
  ultimately show ?thesis unfolding profile_child_def by (metis list_all_append)
qed

lemma allowed_run:
  "profile_path_is_allowed os parent p h =
     (if profile_name_is_allowed parent p
      then (h @ [PfMetadata p], Inr (plain_directory (pr_metadata os (h @ [PfMetadata p]))))
      else (h, Inr False))"
  by (auto simp: profile_path_is_allowed_def nbind_def nret_def plain_directory_def split: sum.splits)

lemma remove_once_cases:
  assumes "remove_profile_once os parent p h = (h1, r)"
  obtains (unknown) e where "h1 = h @ [PfTryExists p]" "r = Inl e"
    | (absent) "h1 = h @ [PfTryExists p]" "pr_exists os h1 = Inr False" "r = Inr ()"
    | (refused) "h1 = h @ [PfTryExists p] \<or> h1 = h @ [PfTryExists p, PfMetadata p]" "r = Inl KindPermissionDenied"
    | (tried) "h1 = h @ [PfTryExists p, PfMetadata p, PfRemoveDirAll p]" "profile_child parent p"
        "plain_directory (pr_metadata os (h @ [PfTryExists p, PfMetadata p]))"
        "r = (case pr_removed os h1 of Inl KindNotFound \<Rightarrow> Inr () | answer \<Rightarrow> answer)"
proof (cases "pr_exists os (h @ [PfTryExists p])")
  case (Inl e)
  with assms show thesis by (intro unknown) (auto simp: remove_profile_once_def nbind_def nlift_def)
next
  case there: (Inr there)
  show thesis
  proof (cases there)
    case False
    with there assms show thesis by (intro absent) (auto simp: remove_profile_once_def nbind_def nlift_def nret_def)
  next
    case True
    show thesis
    proof (cases "profile_name_is_allowed parent p \<and> plain_directory (pr_metadata os (h @ [PfTryExists p, PfMetadata p]))")
      case False
      with there True assms show thesis
        by (intro refused) (auto simp: remove_profile_once_def nbind_def nlift_def nfail_def allowed_run split: if_splits)
    next
      case allowed: True
      with there True assms show thesis
        by (intro tried profile_name_child)
          (auto simp: remove_profile_once_def nbind_def nlift_def nfail_def nret_def allowed_run
            split: sum.splits io_kind.splits)
    qed
  qed
qed

text \<open>What a creation answers.\<close>

lemma profile_create_outcome:
  assumes "profile_create os parent0 h = (h1, r)"
  shows "case r of
      Inr profile \<Rightarrow>
        (\<exists>parent p. profile = \<lparr>sp_parent = parent, sp_path = Some p\<rparr> \<and> profile_child parent p
         \<and> h1 = h @ [PfCanonicalize parent0, PfMetadata parent, PfTempdir parent, PfMetadata p]
         \<and> pr_canonicalize os (h @ [PfCanonicalize parent0]) = Inr parent
         \<and> plain_directory (pr_metadata os (h @ [PfCanonicalize parent0, PfMetadata parent]))
         \<and> pr_tempdir os (h @ [PfCanonicalize parent0, PfMetadata parent, PfTempdir parent]) = Inr p
         \<and> plain_directory (pr_metadata os h1))
    | Inl _ \<Rightarrow>
        (\<forall>parent p k. h1 = h @ [PfCanonicalize parent0, PfMetadata parent, PfTempdir parent] @ k
           \<and> pr_tempdir os (h @ [PfCanonicalize parent0, PfMetadata parent, PfTempdir parent]) = Inr p
           \<longrightarrow> k \<noteq> [] \<and> last k = PfRemoveDirAll p)"
proof (cases "pr_canonicalize os (h @ [PfCanonicalize parent0])")
  case (Inl e)
  with assms show ?thesis by (auto simp: profile_create_def nbind_def nlift_def map_err_def)
next
  case parent: (Inr parent)
  let ?h2 = "h @ [PfCanonicalize parent0, PfMetadata parent]"
  show ?thesis
  proof (cases "plain_directory (pr_metadata os ?h2)")
    case False
    with assms parent have "h1 = ?h2" "\<exists>e. r = Inl e"
      by (auto simp: profile_create_def nbind_def nlift_def nfail_def map_err_def plain_directory_def split: sum.splits)
    then show ?thesis by auto
  next
    case plain: True
    then obtain md where md: "pr_metadata os ?h2 = Inr md" "md_is_dir md" "\<not> is_reparse_point md"
      by (auto simp: plain_directory_def split: sum.splits)
    let ?h3 = "?h2 @ [PfTempdir parent]"
    show ?thesis
    proof (cases "pr_tempdir os ?h3")
      case (Inl e)
      with assms parent md have "h1 = ?h3" "\<exists>e. r = Inl e"
        by (auto simp: profile_create_def nbind_def nlift_def nfail_def map_err_def)
      with Inl show ?thesis by auto
    next
      case made: (Inr p)
      have run: "(h1, r) = nbind (profile_path_is_allowed os parent p) (\<lambda>allowed.
         if \<not> allowed then nbind (nrun (PfRemoveDirAll p)) (\<lambda>_. nfail WvUnsafeProfilePath)
         else nret \<lparr>sp_parent = parent, sp_path = Some p\<rparr>) ?h3"
        using assms parent md made by (simp add: profile_create_def nbind_def nlift_def map_err_def)
      show ?thesis
      proof (cases "profile_name_is_allowed parent p \<and> plain_directory (pr_metadata os (?h3 @ [PfMetadata p]))")
        case True
        with run parent plain made show ?thesis
          by (auto simp: nbind_def nret_def allowed_run intro: profile_name_child)
      next
        case False
        with run obtain k where "h1 = ?h3 @ k @ [PfRemoveDirAll p]" "r = Inl WvUnsafeProfilePath"
          by (auto simp: nbind_def nrun_def nfail_def allowed_run split: if_splits)
        with made show ?thesis by auto
      qed
    qed
  qed
qed

section \<open>Properties\<close>

text \<open>A profile is created in exact scope or not at all.  A created profile is a direct child of the canonical
  parent, named by the prefix and random text, and had been seen as a directory that is no reparse
  point, as had its parent; a creation that fails after the directory was made removes it again.\<close>

lemma profile_create_scoped:
  assumes "profile_create os parent0 h = (h1, r)"
  shows "case r of
      Inr profile \<Rightarrow>
        (\<exists>parent p. profile = \<lparr>sp_parent = parent, sp_path = Some p\<rparr> \<and> profile_child parent p
         \<and> h1 = h @ [PfCanonicalize parent0, PfMetadata parent, PfTempdir parent, PfMetadata p]
         \<and> pr_canonicalize os (h @ [PfCanonicalize parent0]) = Inr parent
         \<and> plain_directory (pr_metadata os (h @ [PfCanonicalize parent0, PfMetadata parent]))
         \<and> pr_tempdir os (h @ [PfCanonicalize parent0, PfMetadata parent, PfTempdir parent]) = Inr p
         \<and> plain_directory (pr_metadata os h1))
    | Inl _ \<Rightarrow>
        (\<forall>parent p k. h1 = h @ [PfCanonicalize parent0, PfMetadata parent, PfTempdir parent] @ k
           \<and> pr_tempdir os (h @ [PfCanonicalize parent0, PfMetadata parent, PfTempdir parent]) = Inr p
           \<longrightarrow> k \<noteq> [] \<and> last k = PfRemoveDirAll p)"
  using assms by (rule profile_create_outcome)

text \<open>C34: Nothing but the profile is removed.  An attempt to remove a profile asks the file system to remove at
  most one directory: the given path, which then is a direct child of the given parent, named as a
  profile, and has just been seen as a directory that is no reparse point.  It answers success only
  when the path did not exist, was removed, or had disappeared.\<close>

theorem profile_removal_scoped:
  assumes "remove_profile_once os parent p h = (h1, r)"
  shows "\<exists>k. h1 = h @ k
    \<and> (\<forall>q. PfRemoveDirAll q \<in> set k \<longrightarrow>
         q = p \<and> profile_child parent p \<and> k = [PfTryExists p, PfMetadata p, PfRemoveDirAll p]
       \<and> plain_directory (pr_metadata os (h @ [PfTryExists p, PfMetadata p])))
    \<and> (r = Inr () \<longrightarrow>
         (k = [PfTryExists p] \<and> pr_exists os h1 = Inr False)
       \<or> (last k = PfRemoveDirAll p \<and> pr_removed os h1 \<in> {Inr (), Inl KindNotFound}))"
  using assms
proof (cases rule: remove_once_cases)
  case refused
  then show ?thesis by auto
next
  case tried
  then show ?thesis by (auto split: sum.splits io_kind.splits)
qed auto

section \<open>Witnesses\<close>

definition example_directory :: metadata where
  "example_directory =
     \<lparr>md_is_symlink = False, md_is_file = False, md_is_dir = True, md_file_attributes = 0x10, md_len = 0\<rparr>"

definition example_profile_path :: path where
  "example_profile_path = [''C:'', ''profiles'', ''rpackit-webview-a1B2c3'']"

definition example_profile_oracle :: profile_oracle where
  "example_profile_oracle =
     \<lparr>pr_canonicalize = (\<lambda>h. Inr [''C:'', ''profiles'']), pr_metadata = (\<lambda>h. Inr example_directory),
      pr_tempdir = (\<lambda>h. Inr example_profile_path), pr_exists = (\<lambda>h. Inr True), pr_removed = (\<lambda>h. Inr ())\<rparr>"

lemma profile_create_scoped_witness:
  "\<exists>h1. profile_create example_profile_oracle [''C:'', ''profiles''] []
      = (h1, Inr \<lparr>sp_parent = [''C:'', ''profiles''], sp_path = Some example_profile_path\<rparr>)
    \<and> profile_child [''C:'', ''profiles''] example_profile_path"
proof -
  have "snd (profile_create example_profile_oracle [''C:'', ''profiles''] [])
      = Inr \<lparr>sp_parent = [''C:'', ''profiles''], sp_path = Some example_profile_path\<rparr>"
    by code_simp
  then obtain h1 where run: "profile_create example_profile_oracle [''C:'', ''profiles''] []
      = (h1, Inr \<lparr>sp_parent = [''C:'', ''profiles''], sp_path = Some example_profile_path\<rparr>)"
    by (cases "profile_create example_profile_oracle [''C:'', ''profiles''] []") auto
  with profile_create_scoped [OF run] show ?thesis by auto
qed

lemma profile_removal_scoped_witness:
  "\<exists>k. remove_profile_once example_profile_oracle [''C:'', ''profiles''] example_profile_path [] = (k, Inr ())
    \<and> PfRemoveDirAll example_profile_path \<in> set k \<and> profile_child [''C:'', ''profiles''] example_profile_path"
proof -
  have "remove_profile_once example_profile_oracle [''C:'', ''profiles''] example_profile_path []
      = ([PfTryExists example_profile_path, PfMetadata example_profile_path, PfRemoveDirAll example_profile_path], Inr ())"
    by code_simp
  with profile_removal_scoped [OF this] show ?thesis by auto
qed

end
