(* ===== verification/Webview_Bootstrap.thy ===== *)
theory Webview_Bootstrap
  imports Webview_Policy Cookie
begin

text \<open>
  The bootstrap of the WebView in \<open>crates/windows-webview/src/lib.rs\<close> and the origin checks of \<open>native.rs\<close>: the
  navigation filter, the page-load handler, the thread that verifies the session cookie, and the
  signal that ends the startup.  Handler and thread run concurrently; each has a program counter, and
  one action is one atomic access to what they share.  A URL of the \<open>url\<close> crate is the record of
  its parts; two URLs are equal when their texts are.
\<close>

section \<open>Definitions\<close>

subsection \<open>Origins\<close>

record webview_url =
  wu_text :: string
  wu_scheme :: string
  wu_host :: "string option"
  wu_port :: "nat option"
  wu_username :: string
  wu_password :: "string option"
  wu_path :: string
  wu_query :: "string option"
  wu_fragment :: "string option"

definition url_eq :: "webview_url \<Rightarrow> webview_url \<Rightarrow> bool" where
  "url_eq a b = (wu_text a = wu_text b)"

definition same_origin :: "webview_url \<Rightarrow> webview_url \<Rightarrow> bool" where
  "same_origin url expected \<longleftrightarrow>
     wu_scheme url = wu_scheme expected \<and> wu_host url = wu_host expected \<and> wu_port url = wu_port expected
   \<and> wu_username url = [] \<and> wu_password url = None"

definition is_bundled_placeholder :: "webview_url \<Rightarrow> bool" where
  "is_bundled_placeholder url \<longleftrightarrow>
     (let bundled_origin =
        (wu_scheme url = ''tauri'' \<and> wu_host url = Some ''localhost'' \<and> wu_port url = None)
      \<or> (wu_scheme url = ''http'' \<and> wu_host url = Some ''tauri.localhost'' \<and> wu_port url = None)
      in bundled_origin \<and> wu_path url = ''/index.html'' \<and> wu_query url = None \<and> wu_fragment url = None
       \<and> wu_username url = [] \<and> wu_password url = None)"

definition document_origin_is_allowed :: "webview_url \<Rightarrow> webview_url \<Rightarrow> bool" where
  "document_origin_is_allowed url allowed_proxy_origin \<longleftrightarrow>
     same_origin url allowed_proxy_origin \<or> is_bundled_placeholder url \<or> wu_text url = ''about:blank''"

text \<open>The handler of resource requests: whether the request is answered 403.  The URL is \<open>None\<close> when it does not parse.\<close>

definition document_is_forbidden :: "webview_url \<Rightarrow> bool \<Rightarrow> webview_url option \<Rightarrow> bool" where
  "document_is_forbidden allowed_proxy_origin is_document url =
     (if \<not> is_document then False
      else
        case url of
          None \<Rightarrow> False
        | Some u \<Rightarrow>
            \<not> (document_origin_is_allowed u allowed_proxy_origin \<or> (wu_scheme u \<noteq> ''http'' \<and> wu_scheme u \<noteq> ''https'')))"

subsection \<open>The session cookie\<close>

datatype same_site = SameSiteStrict | SameSiteLax | SameSiteNone

datatype expiration = ExpiresSession | ExpiresAt int

record browser_cookie =
  ck_name :: string
  ck_value :: string
  ck_http_only :: "bool option"
  ck_same_site :: "same_site option"
  ck_path :: "string option"
  ck_max_age :: "int option"
  ck_expires :: "expiration option"
  ck_secure :: "bool option"

definition session_cookie_is_exact :: "browser_cookie list \<Rightarrow> secret \<Rightarrow> bool" where
  "session_cookie_is_exact cookies session \<longleftrightarrow>
     (case filter (\<lambda>c. ck_name c = SESSION_COOKIE_NAME) cookies of
        [c] \<Rightarrow>
          ck_http_only c = Some True \<and> ck_same_site c = Some SameSiteStrict \<and> ck_path c = Some ''/''
        \<and> ck_max_age c = None \<and> (ck_expires c = None \<or> ck_expires c = Some ExpiresSession)
        \<and> ck_secure c \<noteq> Some True \<and> secret_matches session (ck_value c)
      | _ \<Rightarrow> False)"

subsection \<open>The shared state\<close>

datatype startup_failure = StartupCookie | StartupNavigation | StartupShow

fun startup_error :: "startup_failure \<Rightarrow> webview_error" where
  "startup_error StartupCookie = WvCookieVerification"
| "startup_error StartupNavigation = WvRootNavigation"
| "startup_error StartupShow = WvWindowShow"

text \<open>Where the checking thread and the page-load handler are.\<close>

datatype check_pc = CheckNotSpawned | CheckCookies | CheckNavigate | CheckSignal startup_failure | CheckDone

datatype page_pc = PageIdle | PageShow | PageSignal "startup_failure + unit"

record bootstrap =
  bt_state :: nat
  bt_sent :: "(startup_failure + unit) option"
  bt_check :: check_pc
  bt_page :: page_pc

definition bootstrap_new :: bootstrap where
  "bootstrap_new = \<lparr>bt_state = 0, bt_sent = None, bt_check = CheckNotSpawned, bt_page = PageIdle\<rparr>"

record bootstrap_config =
  bc_root :: webview_url
  bc_bootstrap :: webview_url
  bc_session :: secret
  bc_show_after_ready :: bool

text \<open>The sender is taken by the first signal; a later one finds it gone.\<close>

definition signal_startup :: "startup_failure + unit \<Rightarrow> bootstrap \<Rightarrow> bootstrap" where
  "signal_startup result st = (case bt_sent st of None \<Rightarrow> st\<lparr>bt_sent := Some result\<rparr> | Some _ \<Rightarrow> st)"

subsection \<open>Handlers\<close>

definition on_navigation :: "bootstrap_config \<Rightarrow> bootstrap \<Rightarrow> webview_url \<Rightarrow> bool" where
  "on_navigation cfg st url \<longleftrightarrow>
     (let proxy_origin = same_origin url (bc_root cfg);
          native_fallback = bt_state st = 0 \<and> is_bundled_placeholder url
      in (proxy_origin \<or> native_fallback) \<and> wu_username url = [] \<and> wu_password url = None)"

definition on_page_load :: "bootstrap_config \<Rightarrow> bool \<Rightarrow> webview_url \<Rightarrow> bootstrap \<Rightarrow> bootstrap" where
  "on_page_load cfg finished url st =
     (if \<not> finished then st
      else if url_eq url (bc_bootstrap cfg) \<and> bt_state st = 0
      then st\<lparr>bt_state := 1, bt_check := CheckCookies\<rparr>
      else if bt_state st = 2 \<and> same_origin url (bc_root cfg) \<and> \<not> url_eq url (bc_bootstrap cfg)
      then st\<lparr>bt_state := 3, bt_page := if bc_show_after_ready cfg then PageShow else PageSignal (Inr ())\<rparr>
      else st)"

definition show_window :: "bool \<Rightarrow> bootstrap \<Rightarrow> bootstrap" where
  "show_window shown st =
     (if \<not> shown then st\<lparr>bt_state := 4, bt_page := PageSignal (Inl StartupShow)\<rparr>
      else st\<lparr>bt_page := PageSignal (Inr ())\<rparr>)"

definition check_cookies :: "bootstrap_config \<Rightarrow> browser_cookie list option \<Rightarrow> bootstrap \<Rightarrow> bootstrap" where
  "check_cookies cfg cookies st =
     (let cookie_ready = (case cookies of Some cs \<Rightarrow> session_cookie_is_exact cs (bc_session cfg) | None \<Rightarrow> False) in
      if \<not> cookie_ready then st\<lparr>bt_state := 4, bt_check := CheckSignal StartupCookie\<rparr>
      else st\<lparr>bt_state := 2, bt_check := CheckNavigate\<rparr>)"

definition navigate_root :: "bool \<Rightarrow> bootstrap \<Rightarrow> bootstrap" where
  "navigate_root accepted st =
     (if \<not> accepted then st\<lparr>bt_state := 4, bt_check := CheckSignal StartupNavigation\<rparr>
      else st\<lparr>bt_check := CheckDone\<rparr>)"

subsection \<open>Interleavings\<close>

datatype bootstrap_action =
    ActPage bool webview_url | ActShow bool | ActPageSignal
  | ActCookies "browser_cookie list option" | ActNavigate bool | ActCheckSignal

fun bootstrap_act :: "bootstrap_config \<Rightarrow> bootstrap_action \<Rightarrow> bootstrap \<Rightarrow> bootstrap option" where
  "bootstrap_act cfg (ActPage finished url) st =
     (if bt_page st = PageIdle then Some (on_page_load cfg finished url st) else None)"
| "bootstrap_act cfg (ActShow shown) st = (if bt_page st = PageShow then Some (show_window shown st) else None)"
| "bootstrap_act cfg ActPageSignal st =
     (case bt_page st of PageSignal r \<Rightarrow> Some ((signal_startup r st)\<lparr>bt_page := PageIdle\<rparr>) | _ \<Rightarrow> None)"
| "bootstrap_act cfg (ActCookies cookies) st =
     (if bt_check st = CheckCookies then Some (check_cookies cfg cookies st) else None)"
| "bootstrap_act cfg (ActNavigate accepted) st =
     (if bt_check st = CheckNavigate then Some (navigate_root accepted st) else None)"
| "bootstrap_act cfg ActCheckSignal st =
     (case bt_check st of CheckSignal e \<Rightarrow> Some ((signal_startup (Inl e) st)\<lparr>bt_check := CheckDone\<rparr>) | _ \<Rightarrow> None)"

fun bootstrap_run :: "bootstrap_config \<Rightarrow> bootstrap_action list \<Rightarrow> bootstrap \<Rightarrow> bootstrap option" where
  "bootstrap_run cfg [] st = Some st"
| "bootstrap_run cfg (a # as) st = Option.bind (bootstrap_act cfg a st) (bootstrap_run cfg as)"

subsection \<open>Specifications\<close>

text \<open>The bootstrap document finished, and later its cookie was found to be exact; and then a document of the
  application finished, and was shown if it is to be shown.\<close>

definition cookie_verified :: "bootstrap_config \<Rightarrow> bootstrap_action list \<Rightarrow> bool" where
  "cookie_verified cfg as \<longleftrightarrow>
     (\<exists>a url b cookies c. as = a @ [ActPage True url] @ b @ [ActCookies (Some cookies)] @ c
        \<and> url_eq url (bc_bootstrap cfg) \<and> session_cookie_is_exact cookies (bc_session cfg))"

definition document_finished :: "bootstrap_config \<Rightarrow> bootstrap_action list \<Rightarrow> bool" where
  "document_finished cfg as \<longleftrightarrow>
     (\<exists>a url b. as = a @ [ActPage True url] @ b \<and> cookie_verified cfg a
        \<and> same_origin url (bc_root cfg) \<and> \<not> url_eq url (bc_bootstrap cfg))"

definition document_shown :: "bootstrap_config \<Rightarrow> bootstrap_action list \<Rightarrow> bool" where
  "document_shown cfg as \<longleftrightarrow>
     (if bc_show_after_ready cfg then \<exists>a b. as = a @ [ActShow True] @ b \<and> document_finished cfg a
      else document_finished cfg as)"

section \<open>Lemmas\<close>

lemma bootstrap_run_append:
  "bootstrap_run cfg (as @ bs) st = Option.bind (bootstrap_run cfg as st) (bootstrap_run cfg bs)"
  by (induction as arbitrary: st) (auto split: bind_splits)

lemma verified_mono: "cookie_verified cfg as \<Longrightarrow> cookie_verified cfg (as @ bs)"
  unfolding cookie_verified_def by fastforce

lemma finished_mono: "document_finished cfg as \<Longrightarrow> document_finished cfg (as @ bs)"
  unfolding document_finished_def by fastforce

lemma shown_mono: "document_shown cfg as \<Longrightarrow> document_shown cfg (as @ bs)"
  unfolding document_shown_def by (auto simp: finished_mono) (metis append.assoc append_Cons)

definition page_finished :: "bootstrap_config \<Rightarrow> bootstrap_action list \<Rightarrow> bool" where
  "page_finished cfg as \<longleftrightarrow> (\<exists>a url b. as = a @ [ActPage True url] @ b \<and> url_eq url (bc_bootstrap cfg))"

lemma page_mono: "page_finished cfg as \<Longrightarrow> page_finished cfg (as @ bs)"
  unfolding page_finished_def by fastforce

text \<open>What is known of the past in every state.\<close>

definition bootstrap_inv :: "bootstrap_config \<Rightarrow> bootstrap_action list \<Rightarrow> bootstrap \<Rightarrow> bool" where
  "bootstrap_inv cfg as st \<longleftrightarrow>
     bt_state st \<le> 4
   \<and> (bt_check st = CheckNotSpawned \<longleftrightarrow> bt_state st = 0)
   \<and> (bt_state st = 0 \<longrightarrow> bt_page st = PageIdle \<and> bt_sent st = None)
   \<and> (bt_check st = CheckCookies \<longrightarrow> bt_state st = 1 \<and> bt_page st = PageIdle \<and> page_finished cfg as)
   \<and> (bt_state st = 2 \<longrightarrow> cookie_verified cfg as)
   \<and> (bt_page st = PageShow \<longrightarrow> bc_show_after_ready cfg \<and> document_finished cfg as)
   \<and> (bt_page st = PageSignal (Inr ()) \<longrightarrow> document_shown cfg as)
   \<and> (bt_sent st = Some (Inr ()) \<longrightarrow> document_shown cfg as)"

lemma bootstrap_inv_mono: "bootstrap_inv cfg as st \<Longrightarrow> bootstrap_inv cfg (as @ bs) st"
  unfolding bootstrap_inv_def by (simp add: page_mono verified_mono finished_mono shown_mono)

lemma bootstrap_inv_step:
  assumes "bootstrap_act cfg act st = Some st1" and "bootstrap_inv cfg as st"
  shows "bootstrap_inv cfg (as @ [act]) st1"
proof -
  have inv: "bootstrap_inv cfg (as @ [act]) st" using assms(2) by (rule bootstrap_inv_mono)
  show ?thesis
  proof (cases act)
    case (ActPage finished url)
    then have idle: "bt_page st = PageIdle" and st1: "st1 = on_page_load cfg finished url st"
      using assms(1) by (simp_all split: if_splits)
    consider (start) "finished" "url_eq url (bc_bootstrap cfg)" "bt_state st = 0"
        "st1 = st\<lparr>bt_state := 1, bt_check := CheckCookies\<rparr>"
      | (ready) "finished" "\<not> url_eq url (bc_bootstrap cfg)" "bt_state st = 2" "same_origin url (bc_root cfg)"
        "st1 = st\<lparr>bt_state := 3, bt_page := if bc_show_after_ready cfg then PageShow else PageSignal (Inr ())\<rparr>"
      | (ignored) "st1 = st"
      using st1 by (auto simp: on_page_load_def split: if_splits)
    then show ?thesis
    proof cases
      case start
      then have "page_finished cfg (as @ [act])"
        unfolding page_finished_def ActPage by (intro exI [of _ as] exI [of _ url] exI [of _ "[]"]) simp
      with start inv show ?thesis by (simp add: bootstrap_inv_def)
    next
      case ready
      then have "cookie_verified cfg as" using assms(2) by (simp add: bootstrap_inv_def)
      with ready have "document_finished cfg (as @ [act])"
        unfolding document_finished_def ActPage by (intro exI [of _ as] exI [of _ url] exI [of _ "[]"]) simp
      with ready have "\<not> bc_show_after_ready cfg \<longrightarrow> document_shown cfg (as @ [act])" by (simp add: document_shown_def)
      with \<open>document_finished cfg (as @ [act])\<close> ready inv show ?thesis by (simp add: bootstrap_inv_def)
    next
      case ignored
      with inv show ?thesis by simp
    qed
  next
    case (ActShow shown)
    then have pc: "bt_page st = PageShow" and st1: "st1 = show_window shown st"
      using assms(1) by (simp_all split: if_splits)
    have "document_shown cfg (as @ [act])" if "shown"
      using that assms(2) pc unfolding document_shown_def bootstrap_inv_def ActShow
      by (simp add: exI [of _ as])
    with inv pc show ?thesis by (simp add: st1 show_window_def bootstrap_inv_def)
  next
    case ActPageSignal
    then obtain r where pc: "bt_page st = PageSignal r" and st1: "st1 = (signal_startup r st)\<lparr>bt_page := PageIdle\<rparr>"
      using assms(1) by (auto split: page_pc.splits)
    with inv show ?thesis by (auto simp: signal_startup_def bootstrap_inv_def split: option.splits)
  next
    case (ActCookies cookies)
    then have pc: "bt_check st = CheckCookies" and st1: "st1 = check_cookies cfg cookies st"
      using assms(1) by (simp_all split: if_splits)
    from pc assms(2) obtain a url b where "as = a @ [ActPage True url] @ b" "url_eq url (bc_bootstrap cfg)"
      by (auto simp: bootstrap_inv_def page_finished_def)
    then have ver: "cookie_verified cfg (as @ [act])" if "cookies = Some cs" "session_cookie_is_exact cs (bc_session cfg)" for cs
      unfolding cookie_verified_def using ActCookies that
      by (intro exI [of _ a] exI [of _ url] exI [of _ b] exI [of _ cs] exI [of _ "[]"]) simp
    show ?thesis
    proof (cases "case cookies of Some cs \<Rightarrow> session_cookie_is_exact cs (bc_session cfg) | None \<Rightarrow> False")
      case True
      then have "cookie_verified cfg (as @ [act])" using ver by (simp split: option.splits)
      with inv pc True show ?thesis by (simp add: st1 check_cookies_def bootstrap_inv_def)
    next
      case False
      with inv pc show ?thesis by (simp add: st1 check_cookies_def bootstrap_inv_def)
    qed
  next
    case (ActNavigate accepted)
    then have pc: "bt_check st = CheckNavigate" and st1: "st1 = navigate_root accepted st"
      using assms(1) by (simp_all split: if_splits)
    with inv show ?thesis by (simp add: navigate_root_def bootstrap_inv_def)
  next
    case ActCheckSignal
    then obtain e where pc: "bt_check st = CheckSignal e" and st1: "st1 = (signal_startup (Inl e) st)\<lparr>bt_check := CheckDone\<rparr>"
      using assms(1) by (auto split: check_pc.splits)
    with inv show ?thesis by (simp add: signal_startup_def bootstrap_inv_def split: option.splits)
  qed
qed

lemma bootstrap_run_inv:
  "bootstrap_run cfg as st = Some st1 \<Longrightarrow> bootstrap_inv cfg past st \<Longrightarrow> bootstrap_inv cfg (past @ as) st1"
proof (induction as arbitrary: st past)
  case (Cons a as)
  then obtain st2 where "bootstrap_act cfg a st = Some st2" "bootstrap_run cfg as st2 = Some st1"
    by (auto split: bind_splits)
  with Cons.IH [of st2 "past @ [a]"] bootstrap_inv_step [of cfg a st st2 past] Cons.prems show ?case by simp
qed simp

lemma bootstrap_new_inv: "bootstrap_inv cfg [] bootstrap_new"
  by (simp add: bootstrap_inv_def bootstrap_new_def)

text \<open>The state never returns to zero, and the first signal stays.\<close>

lemma bootstrap_act_latched:
  assumes "bootstrap_act cfg act st = Some st1"
  shows "(bt_state st \<noteq> 0 \<longrightarrow> bt_state st1 \<noteq> 0) \<and> (bt_sent st \<noteq> None \<longrightarrow> bt_sent st1 = bt_sent st)"
  using assms
  by (cases act)
    (auto simp: on_page_load_def show_window_def signal_startup_def check_cookies_def navigate_root_def Let_def
      split: if_splits option.splits page_pc.splits check_pc.splits)

lemma bootstrap_run_latched:
  "bootstrap_run cfg as st = Some st1 \<Longrightarrow>
     (bt_state st \<noteq> 0 \<longrightarrow> bt_state st1 \<noteq> 0) \<and> (bt_sent st \<noteq> None \<longrightarrow> bt_sent st1 = bt_sent st)"
proof (induction as arbitrary: st)
  case (Cons a as)
  then obtain st2 where "bootstrap_act cfg a st = Some st2" "bootstrap_run cfg as st2 = Some st1"
    by (auto split: bind_splits)
  with Cons.IH bootstrap_act_latched show ?case by fastforce
qed simp

text \<open>A signalled success.\<close>

lemma bootstrap_ready_outcome:
  assumes "bootstrap_run cfg as bootstrap_new = Some st" and "bt_sent st = Some (Inr ())"
  shows "document_shown cfg as \<and> document_finished cfg as \<and> cookie_verified cfg as"
proof -
  have shown: "document_shown cfg as"
    using bootstrap_run_inv [OF assms(1) bootstrap_new_inv] assms(2) by (simp add: bootstrap_inv_def)
  then have finished: "document_finished cfg as"
    unfolding document_shown_def by (auto split: if_splits simp: finished_mono)
  then have "cookie_verified cfg as"
    unfolding document_finished_def by (auto simp: verified_mono)
  with shown finished show ?thesis by blast
qed

section \<open>Properties\<close>

text \<open>C30: The startup is reported as ready only after the bootstrap.  However page-load events, the checking thread and
  failures of the native calls interleave: when success was signalled, the bootstrap document had
  finished, later the browser held exactly one session cookie with the session secret and the
  host-only attributes, later another document of the proxy's origin finished, and it was shown when
  the configuration asks for it.\<close>

theorem bootstrap_ready_verified:
  assumes "bootstrap_run cfg as bootstrap_new = Some st" and "bt_sent st = Some (Inr ())"
  shows "document_shown cfg as \<and> document_finished cfg as \<and> cookie_verified cfg as"
  using assms by (rule bootstrap_ready_outcome)

text \<open>C31: After the bootstrap document the WebView is confined to the proxy.  From the moment it finished, whatever
  happens, the navigation filter accepts exactly the URLs of the proxy's origin without
  credentials, and the first signal of the startup is never replaced.  Before, nothing was signalled,
  and only the placeholder of the application itself is accepted besides.\<close>

theorem bootstrap_confined:
  assumes "bootstrap_run cfg as bootstrap_new = Some st" and "bootstrap_run cfg (as @ bs) bootstrap_new = Some st1"
  shows "(bt_state st \<noteq> 0 \<longrightarrow> (\<forall>url. on_navigation cfg st1 url \<longleftrightarrow> same_origin url (bc_root cfg)))
    \<and> (bt_sent st \<noteq> None \<longrightarrow> bt_sent st1 = bt_sent st)
    \<and> (bt_state st = 0 \<longrightarrow> bt_sent st = None
         \<and> (\<forall>url. on_navigation cfg st url \<longrightarrow> same_origin url (bc_root cfg) \<or> is_bundled_placeholder url))"
proof -
  have run: "bootstrap_run cfg bs st = Some st1"
    using assms by (simp add: bootstrap_run_append)
  have early: "bt_state st = 0 \<longrightarrow> bt_sent st = None"
    using bootstrap_run_inv [OF assms(1) bootstrap_new_inv] by (simp add: bootstrap_inv_def)
  have late: "on_navigation cfg st1 url \<longleftrightarrow> same_origin url (bc_root cfg)" if "bt_state st1 \<noteq> 0" for url
    using that unfolding on_navigation_def Let_def same_origin_def by blast
  have before: "on_navigation cfg st url \<longrightarrow> same_origin url (bc_root cfg) \<or> is_bundled_placeholder url" for url
    unfolding on_navigation_def Let_def by blast
  show ?thesis using bootstrap_run_latched [OF run] early late before by blast
qed

section \<open>Witnesses\<close>

definition proxy_url :: "string \<Rightarrow> webview_url" where
  "proxy_url p =
     \<lparr>wu_text = ''http://rpackit-0.localhost:4000'' @ p, wu_scheme = ''http'', wu_host = Some ''rpackit-0.localhost'',
      wu_port = Some 4000, wu_username = [], wu_password = None, wu_path = p, wu_query = None, wu_fragment = None\<rparr>"

definition example_bootstrap :: bootstrap_config where
  "example_bootstrap =
     \<lparr>bc_root = proxy_url ''/'', bc_bootstrap = proxy_url ''/.rpackit/bootstrap'',
      bc_session = \<lparr>secret_value = ''abc''\<rparr>, bc_show_after_ready = True\<rparr>"

definition example_cookie :: browser_cookie where
  "example_cookie =
     \<lparr>ck_name = SESSION_COOKIE_NAME, ck_value = ''abc'', ck_http_only = Some True, ck_same_site = Some SameSiteStrict,
      ck_path = Some ''/'', ck_max_age = None, ck_expires = None, ck_secure = Some False\<rparr>"

definition example_startup :: "bootstrap_action list" where
  "example_startup =
     [ActPage False (proxy_url ''/.rpackit/bootstrap''), ActPage True (proxy_url ''/.rpackit/bootstrap''),
      ActCookies (Some [example_cookie]), ActNavigate True, ActPage True (proxy_url ''/''), ActShow True, ActPageSignal]"

lemma example_startup_runs:
  "case bootstrap_run example_bootstrap example_startup bootstrap_new of
     Some st \<Rightarrow> bt_sent st = Some (Inr ()) \<and> bt_state st = 3 | None \<Rightarrow> False"
  by code_simp

lemma bootstrap_ready_verified_witness: "cookie_verified example_bootstrap example_startup"
  using example_startup_runs bootstrap_ready_verified [of example_bootstrap example_startup]
  by (auto split: option.splits)

lemma bootstrap_confined_witness:
  "\<exists>st. bootstrap_run example_bootstrap example_startup bootstrap_new = Some st
     \<and> (\<forall>url. on_navigation example_bootstrap st url \<longleftrightarrow> same_origin url (bc_root example_bootstrap))"
proof -
  obtain st where run: "bootstrap_run example_bootstrap example_startup bootstrap_new = Some st" "bt_state st = 3"
    using example_startup_runs by (auto split: option.splits)
  with bootstrap_confined [of example_bootstrap example_startup st "[]" st] show ?thesis by simp
qed

end
