(* ===== verification/Webview_Owner.thy ===== *)
theory Webview_Owner
  imports Desktop_Owner Webview_Profile Webview_Bootstrap
begin

text \<open>
  \<open>SecureWebviewOwner\<close> of \<open>crates/windows-webview/src/lib.rs\<close> with the native calls of \<open>native.rs\<close> and the bounded
  removal of \<open>profile.rs\<close>: launch, hiding, shutdown, retry and drop as actions on the shared history of
  effects.  The browser is an oracle over the history; during the startup it chooses the interleaving of
  page loads, cookie check and navigation that \<open>Webview_Bootstrap\<close> runs.
\<close>

section \<open>Definitions\<close>

subsection \<open>The browser\<close>

text \<open>What is read back of the settings, and whether every call succeeded.\<close>

record hardening =
  hd_settings_calls :: bool
  hd_devtools :: bool
  hd_context_menus :: bool
  hd_status_bar :: bool
  hd_accelerators :: bool
  hd_handler_calls :: bool

datatype 'a native_answer = NotScheduled | NativeTimedOut | NativeChannelClosed | NativeRan 'a

record view_oracle =
  vo_life :: life_oracle
  vo_identifier :: string
  vo_url_parse :: "string \<Rightarrow> webview_url option"
  vo_profile :: "life_op list \<Rightarrow> profile_oracle"
  vo_worker :: "life_op list \<Rightarrow> bool"
  vo_dispatched :: "life_op list \<Rightarrow> bool"
  vo_created :: "life_op list \<Rightarrow> bool option"
  vo_guards :: "life_op list \<Rightarrow> hardening native_answer"
  vo_bootstrap :: "life_op list \<Rightarrow> bool native_answer"
  vo_startup :: "life_op list \<Rightarrow> bootstrap_action list"
  vo_sender_dropped :: "life_op list \<Rightarrow> bool"
  vo_hidden :: "life_op list \<Rightarrow> bool"
  vo_cookies :: "life_op list \<Rightarrow> browser_cookie list option"
  vo_deleted :: "life_op list \<Rightarrow> bool"
  vo_cleared :: "life_op list \<Rightarrow> bool"
  vo_destroyed :: "life_op list \<Rightarrow> bool"

record webview_owner =
  vw_window :: bool
  vw_root :: webview_url
  vw_profile :: scoped_profile
  vw_limits :: webview_limits
  vw_runtime_version :: string

record webview_report =
  vr_session_cookie_absent :: bool
  vr_browsing_data_clear_queued :: bool
  vr_window_destroyed :: bool
  vr_profile_removed :: bool

type_synonym ('o, 'a) view = "('o, webview_error, 'a) tried"

text \<open>Running an action of a part, whose failures are values.\<close>

definition on_part :: "'p \<Rightarrow> ('p, 'a) act \<Rightarrow> ('o, 'p \<times> 'a) act" where
  "on_part part m w =
     (case m (part, snd w) of
        None \<Rightarrow> None
      | Some (w1, r) \<Rightarrow>
          (case r of Inl e \<Rightarrow> Some ((fst w, snd w1), Inl e) | Inr x \<Rightarrow> Some ((fst w, snd w1), Inr (fst w1, x))))"

definition view_cleanup_error :: "webview_error \<Rightarrow> webview_error option \<Rightarrow> webview_error" where
  "view_cleanup_error primary cleanup =
     (case cleanup of Some e \<Rightarrow> WvCleanupAfterFailure primary e | None \<Rightarrow> primary)"

subsection \<open>The profile\<close>

definition remove_once :: "view_oracle \<Rightarrow> path \<Rightarrow> path \<Rightarrow> ('o, (io_kind + unit) option) act" where
  "remove_once os parent p =
     ask (LView (VRemoveProfile p)) (\<lambda>h.
       if vo_worker os h then Some (snd (remove_profile_once (vo_profile os h) parent p [])) else None)"

definition remove_turn ::
  "view_oracle \<Rightarrow> path \<Rightarrow> nat \<Rightarrow> nat \<Rightarrow> (scoped_profile, (webview_error + unit) option) act" where
  "remove_turn os p deadline poll_interval =
     abind (owner sp_parent) (\<lambda>parent.
     abind (remove_once os parent p) (\<lambda>attempt.
     case attempt of
       None \<Rightarrow> aret (Some (Inl WvProfileCleanupWorker))
     | Some (Inr _) \<Rightarrow> abind (update (\<lambda>s. s\<lparr>sp_path := None\<rparr>)) (\<lambda>_. aret (Some (Inr ())))
     | Some (Inl KindPermissionDenied) \<Rightarrow> aret (Some (Inl WvUnsafeProfilePath))
     | Some (Inl _) \<Rightarrow>
         abind (now (vo_life os)) (\<lambda>t.
         if deadline \<le> t then aret (Some (Inl WvProfileCleanup))
         else abind (ask (LSleep poll_interval) (\<lambda>_. ())) (\<lambda>_. aret None))))"

definition remove_bounded :: "view_oracle \<Rightarrow> nat \<Rightarrow> nat \<Rightarrow> (scoped_profile, unit) view" where
  "remove_bounded os timeout poll_interval =
     abind (owner sp_path) (\<lambda>path.
     case path of
       None \<Rightarrow> app_ok ()
     | Some p \<Rightarrow>
         abind (now (vo_life os)) (\<lambda>t.
           loop_act (remove_turn os p (t + timeout) poll_interval)))"

text \<open>\<open>remove_now\<close> when a profile is dropped: one attempt, whose result is ignored.\<close>

definition drop_profile :: "view_oracle \<Rightarrow> scoped_profile \<Rightarrow> ('o, unit) act" where
  "drop_profile os profile =
     (case sp_path profile of
        None \<Rightarrow> aret ()
      | Some p \<Rightarrow>
          ask (LView (VDropProfile p)) (\<lambda>h. case snd (remove_profile_once (vo_profile os h) (sp_parent profile) p []) of _ \<Rightarrow> ()))"

subsection \<open>Native calls\<close>

definition guards_installed :: "hardening \<Rightarrow> bool" where
  "guards_installed settings \<longleftrightarrow>
     hd_settings_calls settings
   \<and> \<not> (hd_devtools settings \<or> hd_context_menus settings \<or> hd_status_bar settings \<or> hd_accelerators settings)
   \<and> hd_handler_calls settings"

definition install_guards :: "view_oracle \<Rightarrow> nat \<Rightarrow> ('o, unit) view" where
  "install_guards os operation_timeout =
     abind (ask (LView (VInstallGuards operation_timeout)) (vo_guards os)) (\<lambda>answer.
     case answer of
       NotScheduled \<Rightarrow> app_fail WvNativeGuardScheduling
     | NativeTimedOut \<Rightarrow> app_fail WvNativeGuardTimeout
     | NativeChannelClosed \<Rightarrow> app_fail WvNativeGuardChannel
     | NativeRan settings \<Rightarrow> if guards_installed settings then app_ok () else app_fail WvNativeGuardFailure)"

definition bootstrap_headers :: "secret \<Rightarrow> string" where
  "bootstrap_headers bootstrap = BOOTSTRAP_HEADER_NAME @ '': '' @ secret_value bootstrap @ crlf"

definition navigate_with_bootstrap :: "view_oracle \<Rightarrow> webview_url \<Rightarrow> secret \<Rightarrow> nat \<Rightarrow> ('o, unit) view" where
  "navigate_with_bootstrap os url bootstrap operation_timeout =
     abind (ask (LView (VNavigateBootstrap (wu_text url) (bootstrap_headers bootstrap) operation_timeout)) (vo_bootstrap os))
       (\<lambda>answer.
     case answer of
       NotScheduled \<Rightarrow> app_fail WvBootstrapScheduling
     | NativeTimedOut \<Rightarrow> app_fail WvBootstrapTimeout
     | NativeChannelClosed \<Rightarrow> app_fail WvBootstrapChannel
     | NativeRan navigated \<Rightarrow> if navigated then app_ok () else app_fail WvBootstrapFailure)"

text \<open>Waiting for the signal of the startup: what happened until the timeout is an interleaving of handler and
  thread.\<close>

definition await_ready :: "view_oracle \<Rightarrow> bootstrap_config \<Rightarrow> nat \<Rightarrow> ('o, unit) view" where
  "await_ready os cfg startup_timeout =
     ask (LView (VAwaitReady startup_timeout)) (\<lambda>h.
       case Option.bind (bootstrap_run cfg (vo_startup os h) bootstrap_new) bt_sent of
         Some result \<Rightarrow> map_err startup_error result
       | None \<Rightarrow> if vo_sender_dropped os h then Inl WvStartupChannel else Inl WvStartupTimeout)"

subsection \<open>Shutdown\<close>

definition cookie_deletion :: "browser_cookie \<Rightarrow> life_op" where
  "cookie_deletion cookie = LView (VDeleteCookie (ck_name cookie) (ck_value cookie) (ck_path cookie))"

fun delete_cookies :: "view_oracle \<Rightarrow> browser_cookie list \<Rightarrow> ('o, bool) act" where
  "delete_cookies os [] = aret True"
| "delete_cookies os (cookie # cookies) =
     (if ck_name cookie \<noteq> SESSION_COOKIE_NAME then delete_cookies os cookies
      else
        abind (ask (cookie_deletion cookie) (vo_deleted os)) (\<lambda>deleted.
          if \<not> deleted then aret False else delete_cookies os cookies))"

definition no_session_cookie :: "browser_cookie list \<Rightarrow> bool" where
  "no_session_cookie cookies = (\<not> list_ex (\<lambda>c. ck_name c = SESSION_COOKIE_NAME) cookies)"

text \<open>Both answer \<open>None\<close> for an error of a browser call.\<close>

fun await_cookie_absence :: "view_oracle \<Rightarrow> nat \<Rightarrow> nat \<Rightarrow> ('o, bool option) act" where
  "await_cookie_absence os poll_interval 0 = aret (Some False)"
| "await_cookie_absence os poll_interval (Suc n) =
     abind (ask (LView VCookies) (vo_cookies os)) (\<lambda>remaining.
     case remaining of
       None \<Rightarrow> aret None
     | Some cookies \<Rightarrow>
         if no_session_cookie cookies then aret (Some True)
         else abind (ask (LSleep poll_interval) (\<lambda>_. ())) (\<lambda>_. await_cookie_absence os poll_interval n))"

definition delete_session_cookie :: "view_oracle \<Rightarrow> nat \<Rightarrow> ('o, bool option) act" where
  "delete_session_cookie os poll_interval =
     abind (ask (LView VCookies) (vo_cookies os)) (\<lambda>found.
     case found of
       None \<Rightarrow> aret None
     | Some cookies \<Rightarrow>
         abind (delete_cookies os cookies) (\<lambda>deleted.
         if \<not> deleted then aret None else await_cookie_absence os poll_interval 20))"

definition close_window :: "view_oracle \<Rightarrow> (webview_owner, bool \<times> bool \<times> bool) act" where
  "close_window os =
     abind (update (\<lambda>ow. ow\<lparr>vw_window := False\<rparr>)) (\<lambda>_.
     abind (owner vw_limits) (\<lambda>l.
     abind (delete_session_cookie os (wl_poll_interval l)) (\<lambda>absent.
     abind (ask (LView VClearData) (vo_cleared os)) (\<lambda>cleared.
     abind (ask (LView VDestroy) (vo_destroyed os)) (\<lambda>destroyed.
       aret (absent = Some True, cleared, destroyed))))))"

definition remove_profile :: "view_oracle \<Rightarrow> (webview_owner, unit) view" where
  "remove_profile os =
     abind (owner (\<lambda>ow. ow)) (\<lambda>ow.
     abind (on_part (vw_profile ow)
              (remove_bounded os (wl_profile_cleanup_timeout (vw_limits ow)) (wl_poll_interval (vw_limits ow))))
       (\<lambda>(profile, removal).
     abind (update (\<lambda>ow. ow\<lparr>vw_profile := profile\<rparr>)) (\<lambda>_. app_lift removal)))"

definition view_shutdown :: "view_oracle \<Rightarrow> (webview_owner, webview_report) view" where
  "view_shutdown os =
     abind (owner (\<lambda>ow. ow)) (\<lambda>ow.
     if \<not> vw_window ow \<and> is_removed (vw_profile ow) then app_fail WvOwnerNotRunning
     else
       abind (if vw_window ow then close_window os else aret (False, False, False)) (\<lambda>(absent, cleared, destroyed).
       abind (ask (LSleep 250000000) (\<lambda>_. ())) (\<lambda>_.
       abind (remove_profile os) (\<lambda>removal.
       let report = \<lparr>vr_session_cookie_absent = absent, vr_browsing_data_clear_queued = cleared,
                     vr_window_destroyed = destroyed, vr_profile_removed = is_ok removal\<rparr> in
       if vr_session_cookie_absent report \<and> vr_browsing_data_clear_queued report
        \<and> vr_window_destroyed report \<and> vr_profile_removed report
       then app_ok report else app_fail WvCleanup))))"

definition view_retry_cleanup :: "view_oracle \<Rightarrow> (webview_owner, unit) view" where
  "view_retry_cleanup os =
     abind (owner (\<lambda>ow. ow)) (\<lambda>ow.
     if vw_window ow then app_fail WvOwnerStillRunning
     else if is_removed (vw_profile ow) then app_fail WvOwnerNotRunning
     else remove_profile os)"

definition view_hide :: "view_oracle \<Rightarrow> (webview_owner, unit) view" where
  "view_hide os =
     abind (owner vw_window) (\<lambda>window.
     if \<not> window then app_fail WvOwnerNotRunning
     else ask (LView VHide) (\<lambda>h. if vo_hidden os h then Inr () else Inl WvWindowHide))"

text \<open>Dropping the owner: the window is hidden and destroyed, then the profile is dropped.\<close>

definition view_drop :: "view_oracle \<Rightarrow> (webview_owner, unit) act" where
  "view_drop os =
     abind (owner (\<lambda>ow. ow)) (\<lambda>ow.
     abind (if vw_window ow
            then abind (update (\<lambda>ow. ow\<lparr>vw_window := False\<rparr>)) (\<lambda>_.
                 abind (ask (LView VHide) (vo_hidden os)) (\<lambda>_.
                 abind (ask (LView VDestroy) (vo_destroyed os)) (\<lambda>_. aret ())))
            else aret ()) (\<lambda>_.
       drop_profile os (vw_profile ow)))"

subsection \<open>Launch\<close>

text \<open>What follows the creation of the window: hardening, bootstrap and readiness, or the cleanup of all of it.\<close>

definition view_startup :: "view_oracle \<Rightarrow> bootstrap_config \<Rightarrow> secret \<Rightarrow> (webview_owner, unit) view" where
  "view_startup os cfg bootstrap =
     abind (owner vw_limits) (\<lambda>l.
     app_bind (install_guards os (wl_native_operation_timeout l)) (\<lambda>_.
     app_bind (navigate_with_bootstrap os (bc_bootstrap cfg) bootstrap (wl_native_operation_timeout l)) (\<lambda>_.
       await_ready os cfg (wl_startup_timeout l))))"

definition view_start_owner ::
  "view_oracle \<Rightarrow> bootstrap_config \<Rightarrow> secret \<Rightarrow> webview_owner \<Rightarrow> (unit, webview_owner) view" where
  "view_start_owner os cfg bootstrap ow =
     abind (on_part ow (view_startup os cfg bootstrap)) (\<lambda>(ow1, startup).
     case startup of
       Inr _ \<Rightarrow> app_ok ow1
     | Inl primary \<Rightarrow>
         abind (on_part ow1 (view_shutdown os)) (\<lambda>(ow2, cleanup).
         abind (on_part ow2 (view_drop os)) (\<lambda>_.
           app_fail (view_cleanup_error primary (case cleanup of Inl e \<Rightarrow> Some e | Inr _ \<Rightarrow> None)))))"

text \<open>A failure before the window exists drops the profile.\<close>

definition fail_with_profile :: "view_oracle \<Rightarrow> scoped_profile \<Rightarrow> webview_error \<Rightarrow> (unit, 'a) view" where
  "fail_with_profile os profile e = abind (drop_profile os profile) (\<lambda>_. app_fail e)"

definition view_launch ::
  "view_oracle \<Rightarrow> browser_launch \<Rightarrow> path \<Rightarrow> preflight \<Rightarrow> window_config \<Rightarrow> webview_limits \<Rightarrow>
     (unit, webview_owner) view" where
  "view_launch os browser profile_parent preflight config limits0 =
     app_bind (app_lift (webview_limits_validate limits0)) (\<lambda>limits.
     app_bind (app_lift (window_config_validate config)) (\<lambda>_.
     if vo_identifier os \<noteq> pf_application_id preflight then app_fail WvApplicationIdentityMismatch
     else
       app_bind (ask (LView (VCreateProfile profile_parent))
                   (\<lambda>h. snd (profile_create (vo_profile os h) profile_parent []))) (\<lambda>profile.
       case (vo_url_parse os (address_bootstrap_url (bl_address browser)),
             vo_url_parse os (address_root_url (bl_address browser))) of
         (Some bootstrap_url, Some root_url) \<Rightarrow>
           let cfg = \<lparr>bc_root = root_url, bc_bootstrap = bootstrap_url, bc_session = bl_session browser,
                      bc_show_after_ready = wc_show_after_ready config\<rparr> in
           abind (ask (LView VDispatchWindow) (vo_dispatched os)) (\<lambda>dispatched.
           if \<not> dispatched then fail_with_profile os profile WvWindowDispatch
           else
             abind (ask (LView VAwaitWindow) (vo_created os)) (\<lambda>window.
             case window of
               None \<Rightarrow> fail_with_profile os profile WvWindowChannel
             | Some False \<Rightarrow> fail_with_profile os profile WvWindowCreation
             | Some True \<Rightarrow>
                 view_start_owner os cfg (bl_bootstrap browser)
                   \<lparr>vw_window = True, vw_root = root_url, vw_profile = profile, vw_limits = limits,
                    vw_runtime_version = pf_actual_version preflight\<rparr>))
       | _ \<Rightarrow> fail_with_profile os profile WvInvalidProxyOrigin)))"

section \<open>Specifications\<close>

text \<open>A profile was created by a call of \<open>profile_create\<close> at some moment.\<close>

definition profile_created :: "view_oracle \<Rightarrow> path \<Rightarrow> life_op list \<Rightarrow> scoped_profile \<Rightarrow> bool" where
  "profile_created os parent h profile \<longleftrightarrow> snd (profile_create (vo_profile os h) parent []) = Inr profile"

text \<open>The profile was found removed by the last effect of \<open>h\<close>.\<close>

definition profile_gone :: "view_oracle \<Rightarrow> scoped_profile \<Rightarrow> life_op list \<Rightarrow> bool" where
  "profile_gone os profile h \<longleftrightarrow>
     (case sp_path profile of
        None \<Rightarrow> True
      | Some p \<Rightarrow> h \<noteq> [] \<and> last h = LView (VRemoveProfile p)
          \<and> snd (remove_profile_once (vo_profile os h) (sp_parent profile) p []) = Inr ())"

section \<open>Lemmas\<close>

subsection \<open>Removing the profile\<close>

definition removing :: "path \<Rightarrow> scoped_profile world \<Rightarrow> scoped_profile world \<Rightarrow> bool" where
  "removing p w w1 \<longleftrightarrow> fst w1 = fst w
     \<and> (\<exists>k. snd w1 = snd w @ k \<and> (\<forall>op \<in> set k. op = LNow \<or> op = LView (VRemoveProfile p) \<or> (\<exists>d. op = LSleep d)))"

lemma removing_same: "removing p w w" by (simp add: removing_def)

lemma removing_trans: "removing p a b \<Longrightarrow> removing p b c \<Longrightarrow> removing p a c"
  by (fastforce simp: removing_def)

interpretation removing: frame "removing p" for p
  by unfold_locales (fact removing_same, fact removing_trans)

lemma remove_turn_run:
  assumes "remove_turn os p deadline poll w = Some (w1, r)"
  defines "h \<equiv> snd w @ [LView (VRemoveProfile p)]"
  defines "answer \<equiv> snd (remove_profile_once (vo_profile os h) (sp_parent (fst w)) p [])"
  shows "r = Inr (Some (Inr ())) \<and> vo_worker os h \<and> answer = Inr () \<and> w1 = ((fst w)\<lparr>sp_path := None\<rparr>, h)
    \<or> (\<exists>e. r = Inr (Some (Inl e))) \<and> fst w1 = fst w \<and> (snd w1 = h \<or> snd w1 = h @ [LNow])
    \<or> r = Inr None \<and> w1 = (fst w, h @ [LNow, LSleep poll]) \<and> wo_now (vo_life os) (h @ [LNow]) < deadline"
proof (cases "vo_worker os h")
  case False
  with assms(1) show ?thesis by (auto simp: remove_turn_def remove_once_def abind_def act_defs Let_def h_def)
next
  case True
  show ?thesis
  proof (cases answer)
    case (Inr u)
    with True assms(1) show ?thesis
      by (auto simp: remove_turn_def remove_once_def abind_def act_defs Let_def h_def answer_def)
  next
    case (Inl e)
    with True assms(1) show ?thesis
      by (cases e) (auto simp: remove_turn_def remove_once_def abind_def act_defs Let_def h_def answer_def split: if_splits)
  qed
qed

lemma remove_turn_round: "remove_turn os p deadline poll w = Some (w1, Inr None) \<Longrightarrow> removing p w w1"
  using remove_turn_run [of os p deadline poll w w1 "Inr None"] by (auto simp: removing_def)

lemma remove_bounded_run:
  assumes "remove_bounded os timeout poll w = Some (w1, r)"
  obtains (removed) "r = Inr (Inr ())" "fst w1 = (fst w)\<lparr>sp_path := None\<rparr>" "\<exists>k. snd w1 = snd w @ k"
      "profile_gone os (fst w) (snd w1)"
    | (kept) e p where "r = Inr (Inl e)" "sp_path (fst w) = Some p" "fst w1 = fst w" "\<exists>k. snd w1 = snd w @ k"
      "LView (VRemoveProfile p) \<in> set (drop (length (snd w)) (snd w1))"
proof (cases "sp_path (fst w)")
  case None
  then have "(fst w)\<lparr>sp_path := None\<rparr> = fst w" by (cases "fst w") simp
  with None assms show thesis
    by (intro removed) (auto simp: remove_bounded_def abind_def act_defs app_ok_def profile_gone_def)
next
  case (Some p)
  let ?body = "remove_turn os p (wo_now (vo_life os) (snd w @ [LNow]) + timeout) poll"
  have "loop_act ?body (fst w, snd w @ [LNow]) = Some (w1, r)"
    using assms Some by (simp add: remove_bounded_def abind_def act_defs Let_def)
  moreover have "removing p w2 w3" if "?body w2 = Some (w3, Inr None)" for w2 w3 using that by (rule remove_turn_round)
  ultimately have "\<exists>w0. removing p (fst w, snd w @ [LNow]) w0
      \<and> (case r of Inl e \<Rightarrow> ?body w0 = Some (w1, Inl e) | Inr x \<Rightarrow> ?body w0 = Some (w1, Inr (Some x)))"
    by (intro removing.loop_turn)
  then obtain w0 where w0: "removing p (fst w, snd w @ [LNow]) w0"
    and last: "case r of Inl e \<Rightarrow> ?body w0 = Some (w1, Inl e) | Inr x \<Rightarrow> ?body w0 = Some (w1, Inr (Some x))" by blast
  from w0 obtain k where k: "fst w0 = fst w" "snd w0 = snd w @ LNow # k" by (auto simp: removing_def)
  have gone: "profile_gone os (fst w) (h @ [LView (VRemoveProfile p)])"
    if "snd (remove_profile_once (vo_profile os (h @ [LView (VRemoveProfile p)])) (sp_parent (fst w)) p []) = Inr ()" for h
    using that Some by (simp add: profile_gone_def)
  show thesis
  proof (cases r)
    case (Inl e)
    with last remove_turn_run [of os p _ poll w0 w1 "Inl e"] show thesis by auto
  next
    case (Inr x)
    with last have "?body w0 = Some (w1, Inr (Some x))" by simp
    from remove_turn_run [OF this] show thesis
    proof (elim disjE conjE exE)
      assume "Inr (Some x) = (Inr (Some (Inr ())) :: lifecycle_error + (webview_error + unit) option)"
        "snd (remove_profile_once (vo_profile os (snd w0 @ [LView (VRemoveProfile p)])) (sp_parent (fst w0)) p []) = Inr ()"
        "w1 = ((fst w0)\<lparr>sp_path := None\<rparr>, snd w0 @ [LView (VRemoveProfile p)])"
      then show thesis using Inr k gone [of "snd w0"] by (intro removed) auto
    next
      fix e assume "Inr (Some x) = (Inr (Some (Inl e)) :: lifecycle_error + (webview_error + unit) option)" "fst w1 = fst w0"
        "snd w1 = snd w0 @ [LView (VRemoveProfile p)]"
      then show thesis using Inr k Some by (intro kept [of e p]) auto
    next
      fix e assume "Inr (Some x) = (Inr (Some (Inl e)) :: lifecycle_error + (webview_error + unit) option)" "fst w1 = fst w0"
        "snd w1 = (snd w0 @ [LView (VRemoveProfile p)]) @ [LNow]"
      then show thesis using Inr k Some by (intro kept [of e p]) auto
    qed simp_all
  qed
qed

lemma remove_bounded_returns:
  assumes "time_passes (vo_life os)" and "0 < poll"
  shows "returns (remove_bounded os timeout poll)"
proof -
  have loop: "loop_act (remove_turn os p d poll) w \<noteq> None" for p d w
  proof (rule loop_returns [where I = "\<lambda>_. True" and R = "measure (\<lambda>w. d - wo_now (vo_life os) (snd w))"])
    show "remove_turn os p d poll w \<noteq> None" for w
      by (rule returnsD) (auto simp: remove_turn_def remove_once_def intro!: returns_intros split: option.splits sum.splits io_kind.splits)
    fix w w1 assume "remove_turn os p d poll w = Some (w1, Inr None)"
    from remove_turn_run [OF this] have w1: "snd w1 = (snd w @ [LView (VRemoveProfile p), LNow]) @ [LSleep poll]"
      and early: "wo_now (vo_life os) (snd w @ [LView (VRemoveProfile p), LNow]) < d" by auto
    have mono: "wo_now (vo_life os) q \<le> wo_now (vo_life os) (q @ k)"
      and sleep: "wo_now (vo_life os) q + e \<le> wo_now (vo_life os) (q @ LSleep e # k)" for q k e
      using assms(1) by (auto simp: time_passes_def)
    have "wo_now (vo_life os) (snd w) \<le> wo_now (vo_life os) (snd w @ [LView (VRemoveProfile p), LNow])" by (rule mono)
    moreover have "wo_now (vo_life os) (snd w @ [LView (VRemoveProfile p), LNow]) + poll \<le> wo_now (vo_life os) (snd w1)"
      unfolding w1 by (rule sleep)
    ultimately show "True \<and> (w1, w) \<in> measure (\<lambda>w. d - wo_now (vo_life os) (snd w))"
      using early assms(2) by simp
  qed simp_all
  show ?thesis
    unfolding remove_bounded_def
    by (intro returns_intros) (auto simp: app_ok_def returns_def [of "loop_act _"] loop intro!: returns_intros split: option.splits)
qed

subsection \<open>Shutting down\<close>

lemma on_part_Some:
  "on_part part m w = Some (w1, r) \<longleftrightarrow>
     (\<exists>w2 r2. m (part, snd w) = Some (w2, r2) \<and> w1 = (fst w, snd w2)
        \<and> r = (case r2 of Inl e \<Rightarrow> Inl e | Inr x \<Rightarrow> Inr (fst w2, x)))"
  by (auto simp: on_part_def split: option.splits sum.splits)

lemma on_part_Inr:
  assumes "on_part part m w = Some (w1, Inr y)"
  obtains w2 z where "m (part, snd w) = Some (w2, Inr z)" "w1 = (fst w, snd w2)" "y = (fst w2, z)"
proof -
  from assms obtain w2 r2 where m: "m (part, snd w) = Some (w2, r2)" "w1 = (fst w, snd w2)"
      "Inr y = (case r2 of Inl e \<Rightarrow> Inl e | Inr x \<Rightarrow> Inr (fst w2, x))"
    unfolding on_part_Some by blast
  then show thesis using that [of w2] by (cases r2) simp_all
qed

lemma on_part_answers:
  assumes "on_part part m w = Some (w1, r)" and "\<And>w2 r2. m (part, snd w) = Some (w2, r2) \<Longrightarrow> \<exists>x. r2 = Inr x"
  shows "\<exists>x. r = Inr x"
proof -
  from assms(1) obtain w2 r2 where m: "m (part, snd w) = Some (w2, r2)"
      "r = (case r2 of Inl e \<Rightarrow> Inl e | Inr x \<Rightarrow> Inr (fst w2, x))"
    unfolding on_part_Some by blast
  with assms(2) [OF m(1)] show ?thesis by auto
qed

text \<open>The deletions of exactly the session cookies of a look, in order, each of which was seen to succeed.\<close>

definition session_deletions :: "browser_cookie list \<Rightarrow> life_op list" where
  "session_deletions cookies = map cookie_deletion (filter (\<lambda>c. ck_name c = SESSION_COOKIE_NAME) cookies)"

fun all_deleted :: "view_oracle \<Rightarrow> life_op list \<Rightarrow> life_op list \<Rightarrow> bool" where
  "all_deleted os h [] = True"
| "all_deleted os h (op # ops) = (vo_deleted os (h @ [op]) \<and> all_deleted os (h @ [op]) ops)"

text \<open>At most \<open>n\<close> looks, with a sleep after each that still saw a session cookie or none of the above; the last one
  saw no session cookie, or failed, or all are used up.\<close>

definition absence_looks :: "view_oracle \<Rightarrow> nat \<Rightarrow> nat \<Rightarrow> life_op list \<Rightarrow> life_op list \<Rightarrow> bool \<Rightarrow> bool" where
  "absence_looks os poll n h k absent \<longleftrightarrow>
     (\<exists>m \<le> n. let turns = concat (replicate m [LView VCookies, LSleep poll]) in
         (if absent
          then m < n \<and> k = turns @ [LView VCookies]
             \<and> (\<exists>cookies. vo_cookies os (h @ k) = Some cookies \<and> no_session_cookie cookies)
          else m < n \<and> k = turns @ [LView VCookies] \<and> vo_cookies os (h @ k) = None \<or> m = n \<and> k = turns))"

text \<open>What removing the session cookie does after \<open>h\<close>: one look; the deletion of exactly the session cookies seen,
  up to the first that fails; and when none failed, up to 20 looks for their absence.\<close>

definition cookie_cleanup :: "view_oracle \<Rightarrow> nat \<Rightarrow> life_op list \<Rightarrow> life_op list \<Rightarrow> bool \<Rightarrow> bool" where
  "cookie_cleanup os poll h k absent \<longleftrightarrow>
     (let look = h @ [LView VCookies] in
      case vo_cookies os look of
        None \<Rightarrow> k = [LView VCookies] \<and> \<not> absent
      | Some cookies \<Rightarrow>
          let deletions = session_deletions cookies in
            (\<exists>n < length deletions. k = LView VCookies # take (Suc n) deletions
               \<and> all_deleted os look (take n deletions) \<and> \<not> vo_deleted os (h @ k) \<and> \<not> absent)
          \<or> (\<exists>looks. k = LView VCookies # deletions @ looks \<and> all_deleted os look deletions
               \<and> absence_looks os poll 20 (look @ deletions) looks absent))"

lemma cookie_cleanup_absent:
  "cookie_cleanup os poll h k True \<Longrightarrow> \<exists>cookies. vo_cookies os (h @ k) = Some cookies \<and> no_session_cookie cookies"
  by (auto simp: cookie_cleanup_def absence_looks_def Let_def split: option.splits)

definition deletions_made ::
  "view_oracle \<Rightarrow> life_op list \<Rightarrow> life_op list \<Rightarrow> life_op list \<Rightarrow> bool \<Rightarrow> bool" where
  "deletions_made os h deletions k deleted \<longleftrightarrow>
     (if deleted then k = deletions \<and> all_deleted os h k
      else \<exists>n < length deletions. k = take (Suc n) deletions
          \<and> all_deleted os h (take n deletions) \<and> \<not> vo_deleted os (h @ k))"

lemma deletions_made_Nil [simp]: "deletions_made os h [] [] True"
  by (simp add: deletions_made_def)

lemma deletions_made_fails: "\<not> vo_deleted os (h @ [d]) \<Longrightarrow> deletions_made os h (d # ds) [d] False"
  by (auto simp: deletions_made_def intro!: exI [of _ 0])

lemma deletions_made_Cons:
  assumes "vo_deleted os (h @ [d])" and "deletions_made os (h @ [d]) ds k deleted"
  shows "deletions_made os h (d # ds) (d # k) deleted"
proof (cases deleted)
  case False
  with assms(2) obtain n where "n < length ds" "k = take (Suc n) ds" "all_deleted os (h @ [d]) (take n ds)"
    "\<not> vo_deleted os ((h @ [d]) @ k)" by (auto simp: deletions_made_def)
  with False assms(1) show ?thesis by (auto simp: deletions_made_def intro!: exI [of _ "Suc n"])
qed (use assms in \<open>auto simp: deletions_made_def\<close>)

lemma delete_cookies_run:
  assumes "delete_cookies os cookies w = Some (w1, r)"
  shows "fst w1 = fst w \<and> (\<exists>k deleted. snd w1 = snd w @ k \<and> r = Inr deleted
    \<and> deletions_made os (snd w) (session_deletions cookies) k deleted)"
  using assms
proof (induction os cookies arbitrary: w rule: delete_cookies.induct)
  case (1 os)
  then have "w1 = w" "r = Inr True" by (simp_all add: aret_def)
  then show ?case by (intro conjI exI [of _ "[]"] exI [of _ True]) (simp_all add: session_deletions_def)
next
  case (2 os cookie cookies)
  let ?h = "snd w @ [cookie_deletion cookie]"
  show ?case
  proof (cases "ck_name cookie = SESSION_COOKIE_NAME")
    case False
    then have "session_deletions (cookie # cookies) = session_deletions cookies" by (simp add: session_deletions_def)
    with 2(1) [OF False, of w] 2(3) False show ?thesis by auto
  next
    case True
    then have ds: "session_deletions (cookie # cookies) = cookie_deletion cookie # session_deletions cookies"
      by (simp add: session_deletions_def)
    show ?thesis
    proof (cases "vo_deleted os ?h")
      case False
      with 2(3) True have "w1 = (fst w, ?h)" "r = Inr False" by (auto simp: abind_def act_defs Let_def)
      then show ?thesis using deletions_made_fails [OF False] ds by auto
    next
      case ok: True
      with 2(3) True have "delete_cookies os cookies (fst w, ?h) = Some (w1, r)"
        by (simp add: abind_def act_defs Let_def)
      from 2(2) [of True, OF _ _ this] True obtain k deleted where k: "fst w1 = fst w" "snd w1 = ?h @ k" "r = Inr deleted"
        "deletions_made os ?h (session_deletions cookies) k deleted" by auto
      from deletions_made_Cons [OF ok k(4)] k show ?thesis unfolding ds by auto
    qed
  qed
qed

lemma absence_looks_turn:
  assumes "absence_looks os poll n (h @ [LView VCookies, LSleep poll]) k absent"
  shows "absence_looks os poll (Suc n) h ([LView VCookies, LSleep poll] @ k) absent"
proof -
  from assms obtain m where "m \<le> n" and m: "let turns = concat (replicate m [LView VCookies, LSleep poll]) in
       (if absent
        then m < n \<and> k = turns @ [LView VCookies]
           \<and> (\<exists>cookies. vo_cookies os ((h @ [LView VCookies, LSleep poll]) @ k) = Some cookies \<and> no_session_cookie cookies)
        else m < n \<and> k = turns @ [LView VCookies] \<and> vo_cookies os ((h @ [LView VCookies, LSleep poll]) @ k) = None
          \<or> m = n \<and> k = turns)"
    unfolding absence_looks_def by blast
  then show ?thesis
    unfolding absence_looks_def by (intro exI [of _ "Suc m"]) (auto simp: Let_def split: if_splits)
qed

lemma await_cookie_absence_run:
  assumes "await_cookie_absence os poll n w = Some (w1, r)"
  shows "fst w1 = fst w \<and> (\<exists>k x. snd w1 = snd w @ k \<and> r = Inr x \<and> absence_looks os poll n (snd w) k (x = Some True))"
  using assms
proof (induction os poll n arbitrary: w rule: await_cookie_absence.induct)
  case (1 os poll)
  then show ?case by (auto simp: aret_def absence_looks_def)
next
  case (2 os poll n)
  let ?h = "snd w @ [LView VCookies]"
  show ?case
  proof (cases "vo_cookies os ?h")
    case None
    with 2(2) show ?thesis
      by (auto simp: abind_def act_defs Let_def absence_looks_def intro!: exI [of _ 0])
  next
    case (Some cookies)
    show ?thesis
    proof (cases "no_session_cookie cookies")
      case True
      with 2(2) Some show ?thesis
        by (auto simp: abind_def act_defs Let_def absence_looks_def intro!: exI [of _ 0])
    next
      case False
      with 2(2) Some have "await_cookie_absence os poll n (fst w, snd w @ [LView VCookies, LSleep poll]) = Some (w1, r)"
        by (simp add: abind_def act_defs Let_def)
      from 2(1) [OF False this] obtain k x where "fst w1 = fst w" "snd w1 = snd w @ [LView VCookies, LSleep poll] @ k" "r = Inr x"
          "absence_looks os poll n (snd w @ [LView VCookies, LSleep poll]) k (x = Some True)" by auto
      with absence_looks_turn [of os poll n "snd w" k] show ?thesis by blast
    qed
  qed
qed

lemma delete_session_cookie_run:
  assumes "delete_session_cookie os poll w = Some (w1, r)"
  shows "fst w1 = fst w \<and> (\<exists>k x. snd w1 = snd w @ k \<and> r = Inr x \<and> cookie_cleanup os poll (snd w) k (x = Some True))"
proof (cases "vo_cookies os (snd w @ [LView VCookies])")
  case None
  with assms show ?thesis by (auto simp: delete_session_cookie_def abind_def act_defs Let_def cookie_cleanup_def)
next
  case (Some cookies)
  let ?look = "snd w @ [LView VCookies]"
  have "abind (delete_cookies os cookies) (\<lambda>deleted.
      if \<not> deleted then aret None else await_cookie_absence os poll 20) (fst w, ?look) = Some (w1, r)"
    using assms Some by (simp add: delete_session_cookie_def abind_def [of "ask _ _"] ask_def Let_def)
  then obtain w2 deleted where d: "delete_cookies os cookies (fst w, ?look) = Some (w2, Inr deleted)"
    and run: "(if \<not> deleted then aret None else await_cookie_absence os poll 20) w2 = Some (w1, r)"
    by (rule abind_answers) (use delete_cookies_run in blast)
  from delete_cookies_run [OF d] obtain k where w2: "fst w2 = fst w" "snd w2 = ?look @ k"
    and k: "deletions_made os ?look (session_deletions cookies) k deleted" by auto
  show ?thesis
  proof (cases deleted)
    case False
    with run w2 have "w1 = w2" "r = Inr None" by (auto simp: aret_def)
    with False w2 k Some show ?thesis
      by (intro conjI exI [of _ "LView VCookies # k"] exI [of _ None]) (auto simp: cookie_cleanup_def deletions_made_def Let_def)
  next
    case True
    with run await_cookie_absence_run [of os poll 20 w2 w1 r] obtain j x where "fst w1 = fst w2" "snd w1 = snd w2 @ j" "r = Inr x"
      "absence_looks os poll 20 (snd w2) j (x = Some True)" by auto
    with True w2 k Some show ?thesis
      by (intro conjI exI [of _ "LView VCookies # k @ j"] exI [of _ x]) (auto simp: cookie_cleanup_def deletions_made_def Let_def)
  qed
qed

lemma close_window_run:
  assumes "close_window os w = Some (w1, r)"
  shows "\<exists>k absent. let h = snd w @ k in
      fst w1 = (fst w)\<lparr>vw_window := False\<rparr> \<and> snd w1 = h @ [LView VClearData, LView VDestroy]
    \<and> r = Inr (absent, vo_cleared os (h @ [LView VClearData]), vo_destroyed os (snd w1))
    \<and> cookie_cleanup os (wl_poll_interval (vw_limits (fst w))) (snd w) k absent"
proof -
  let ?w = "((fst w)\<lparr>vw_window := False\<rparr>, snd w)"
  have "abind (delete_session_cookie os (wl_poll_interval (vw_limits (fst w)))) (\<lambda>absent.
     abind (ask (LView VClearData) (vo_cleared os)) (\<lambda>cleared.
     abind (ask (LView VDestroy) (vo_destroyed os)) (\<lambda>destroyed.
       aret (absent = Some True, cleared, destroyed)))) ?w = Some (w1, r)"
    using assms by (simp add: close_window_def abind_def [of "update _"] abind_def [of "owner _"] update_def owner_def)
  then obtain w2 absent where d: "delete_session_cookie os (wl_poll_interval (vw_limits (fst w))) ?w = Some (w2, Inr absent)"
    and run: "abind (ask (LView VClearData) (vo_cleared os)) (\<lambda>cleared.
     abind (ask (LView VDestroy) (vo_destroyed os)) (\<lambda>destroyed.
       aret (absent = Some True, cleared, destroyed))) w2 = Some (w1, r)"
    by (rule abind_answers) (use delete_session_cookie_run in blast)
  from delete_session_cookie_run [OF d] obtain k where k: "snd w2 = snd w @ k" "fst w2 = fst ?w"
      "cookie_cleanup os (wl_poll_interval (vw_limits (fst w))) (snd w) k (absent = Some True)" by auto
  with run show ?thesis
    by (intro exI [of _ k] exI [of _ "absent = Some True"]) (auto simp: abind_def act_defs Let_def)
qed

lemma remove_profile_run:
  assumes "remove_profile os w = Some (w1, r)"
  obtains (removed) "r = Inr (Inr ())" "fst w1 = (fst w)\<lparr>vw_profile := (vw_profile (fst w))\<lparr>sp_path := None\<rparr>\<rparr>"
      "\<exists>k. snd w1 = snd w @ k" "profile_gone os (vw_profile (fst w)) (snd w1)"
    | (kept) e p where "r = Inr (Inl e)" "sp_path (vw_profile (fst w)) = Some p" "fst w1 = fst w"
      "\<exists>k. snd w1 = snd w @ k \<and> LView (VRemoveProfile p) \<in> set k"
proof -
  let ?l = "vw_limits (fst w)"
  from assms obtain w2 r2 where m: "remove_bounded os (wl_profile_cleanup_timeout ?l) (wl_poll_interval ?l)
        (vw_profile (fst w), snd w) = Some (w2, r2)"
    and rest: "(case r2 of Inl e \<Rightarrow> Some ((fst w, snd w2), Inl e)
      | Inr x \<Rightarrow> Some (((fst w)\<lparr>vw_profile := fst w2\<rparr>, snd w2), Inr x)) = Some (w1, r)"
    by (auto simp: remove_profile_def abind_def owner_def update_def app_lift_def aret_def on_part_def
        split: option.splits sum.splits)
  from m show thesis
  proof (cases rule: remove_bounded_run)
    case removed
    with rest show thesis by (intro that(1)) auto
  next
    case (kept e p)
    have "(fst w)\<lparr>vw_profile := vw_profile (fst w)\<rparr> = fst w" by (cases "fst w") simp
    with rest kept show thesis by (intro that(2) [of e p]) auto
  qed
qed

text \<open>A shutdown: nothing was left, or every step is made and reported.\<close>

lemma view_shutdown_run:
  assumes "view_shutdown os w = Some (w1, r)"
  obtains (absent) "\<not> vw_window (fst w)" "is_removed (vw_profile (fst w))" "w1 = w" "r = Inr (Inl WvOwnerNotRunning)"
    | (closed) ow2 h2 absent cleared destroyed removal where
        "vw_window (fst w) \<or> \<not> is_removed (vw_profile (fst w))"
        "(if vw_window (fst w) then close_window os else aret (False, False, False)) w
           = Some ((ow2, h2), Inr (absent, cleared, destroyed))"
        "remove_profile os (ow2, h2 @ [LSleep 250000000]) = Some (w1, Inr removal)"
        "r = Inr (if absent \<and> cleared \<and> destroyed \<and> is_ok removal
               then Inr \<lparr>vr_session_cookie_absent = True, vr_browsing_data_clear_queued = True,
                         vr_window_destroyed = True, vr_profile_removed = True\<rparr>
               else Inl WvCleanup)"
proof (cases "\<not> vw_window (fst w) \<and> is_removed (vw_profile (fst w))")
  case True
  with assms show thesis by (intro absent) (auto simp: view_shutdown_def abind_def act_defs app_fail_def)
next
  case False
  let ?close = "if vw_window (fst w) then close_window os else aret (False, False, False)"
  let ?report = "\<lambda>(absent, cleared, destroyed) removal.
      \<lparr>vr_session_cookie_absent = absent, vr_browsing_data_clear_queued = cleared,
       vr_window_destroyed = destroyed, vr_profile_removed = is_ok removal\<rparr>"
  let ?rest = "\<lambda>(absent, cleared, destroyed).
       abind (ask (LSleep 250000000) (\<lambda>_. ())) (\<lambda>_.
       abind (remove_profile os) (\<lambda>removal.
       let report = ?report (absent, cleared, destroyed) removal in
       if vr_session_cookie_absent report \<and> vr_browsing_data_clear_queued report
        \<and> vr_window_destroyed report \<and> vr_profile_removed report
       then app_ok report else app_fail WvCleanup))"
  have "abind ?close ?rest w = Some (w1, r)"
    using assms False by (simp add: view_shutdown_def abind_def [of "owner _"] owner_def split_def)
  then obtain w2 x where c: "?close w = Some (w2, Inr x)" and run: "?rest x w2 = Some (w1, r)"
    by (rule abind_answers) (auto simp: aret_def split: if_splits dest!: close_window_run [unfolded Let_def])
  obtain a c d where x: "x = (a, c, d)" by (cases x)
  from run x have "abind (remove_profile os) (\<lambda>removal.
       let report = ?report (a, c, d) removal in
       if vr_session_cookie_absent report \<and> vr_browsing_data_clear_queued report
        \<and> vr_window_destroyed report \<and> vr_profile_removed report
       then app_ok report else app_fail WvCleanup) (fst w2, snd w2 @ [LSleep 250000000]) = Some (w1, r)"
    by (simp add: abind_ask)
  then obtain w3 removal where rm: "remove_profile os (fst w2, snd w2 @ [LSleep 250000000]) = Some (w3, Inr removal)"
    and last: "(let report = ?report (a, c, d) removal in
       if vr_session_cookie_absent report \<and> vr_browsing_data_clear_queued report
        \<and> vr_window_destroyed report \<and> vr_profile_removed report
       then app_ok report else app_fail WvCleanup) w3 = Some (w1, r)"
    by (rule abind_answers) (auto elim: remove_profile_run)
  from last have w3: "w3 = w1"
    and r: "r = Inr (if a \<and> c \<and> d \<and> is_ok removal
               then Inr \<lparr>vr_session_cookie_absent = True, vr_browsing_data_clear_queued = True,
                         vr_window_destroyed = True, vr_profile_removed = True\<rparr>
               else Inl WvCleanup)"
    by (auto simp: app_ok_def app_fail_def aret_def Let_def split: if_splits)
  show thesis
    by (rule closed [OF _ _ _ r, of "fst w2" "snd w2"]) (use False c x rm w3 in auto)
qed

lemma view_shutdown_outcome:
  assumes "view_shutdown os w = Some (w1, r)"
  shows "case r of
      Inl _ \<Rightarrow> False
    | Inr (Inr report) \<Rightarrow>
        report = \<lparr>vr_session_cookie_absent = True, vr_browsing_data_clear_queued = True,
                  vr_window_destroyed = True, vr_profile_removed = True\<rparr>
      \<and> vw_window (fst w) \<and> \<not> vw_window (fst w1) \<and> is_removed (vw_profile (fst w1))
      \<and> (\<exists>k k2 cookies. let h = snd w @ k in
           snd w1 = h @ [LView VClearData, LView VDestroy] @ k2
         \<and> cookie_cleanup os (wl_poll_interval (vw_limits (fst w))) (snd w) k True
         \<and> vo_cookies os h = Some cookies \<and> no_session_cookie cookies
         \<and> vo_cleared os (h @ [LView VClearData]) \<and> vo_destroyed os (h @ [LView VClearData, LView VDestroy]))
      \<and> profile_gone os (vw_profile (fst w)) (snd w1)
    | Inr (Inl e) \<Rightarrow>
        e = WvOwnerNotRunning \<and> w1 = w \<and> \<not> vw_window (fst w) \<and> is_removed (vw_profile (fst w))
      \<or> e = WvCleanup \<and> \<not> vw_window (fst w1)
        \<and> (\<exists>k. snd w1 = snd w @ k
            \<and> (vw_window (fst w) \<longrightarrow>
                 (\<exists>k0 k2 absent. k = k0 @ [LView VClearData, LView VDestroy] @ k2
                   \<and> cookie_cleanup os (wl_poll_interval (vw_limits (fst w))) (snd w) k0 absent
                   \<and> \<not> (absent \<and> vo_cleared os (snd w @ k0 @ [LView VClearData])
                        \<and> vo_destroyed os (snd w @ k0 @ [LView VClearData, LView VDestroy])
                        \<and> is_removed (vw_profile (fst w1)))))
            \<and> (\<forall>p. sp_path (vw_profile (fst w)) = Some p \<longrightarrow> LView (VRemoveProfile p) \<in> set k))
        \<and> (vw_profile (fst w1) = vw_profile (fst w) \<or> is_removed (vw_profile (fst w1)) \<and> profile_gone os (vw_profile (fst w)) (snd w1))"
  using assms
proof (cases rule: view_shutdown_run)
  case absent
  then show ?thesis by simp
next
  case (closed ow2 h2 absent cleared destroyed removal)
  have ow2: "\<not> vw_window ow2 \<and> vw_profile ow2 = vw_profile (fst w) \<and> (\<exists>k. h2 = snd w @ k)"
  proof (cases "vw_window (fst w)")
    case True
    with closed(2) close_window_run [of os w "(ow2, h2)"] show ?thesis by (auto simp: Let_def)
  next
    case False
    with closed(2) show ?thesis by (auto simp: aret_def)
  qed
  then obtain k where k: "h2 = snd w @ k" by blast
  have win: "\<exists>k0. k = k0 @ [LView VClearData, LView VDestroy]
      \<and> cookie_cleanup os (wl_poll_interval (vw_limits (fst w))) (snd w) k0 absent
      \<and> cleared = vo_cleared os (snd w @ k0 @ [LView VClearData])
      \<and> destroyed = vo_destroyed os (snd w @ k0 @ [LView VClearData, LView VDestroy])" if "vw_window (fst w)"
    using closed(2) close_window_run [of os w "(ow2, h2)"] that k by (auto simp: Let_def)
  have failed: "vw_window (fst w) \<longrightarrow>
      (\<exists>k0 k3 absent. k @ k2 = k0 @ [LView VClearData, LView VDestroy] @ k3
        \<and> cookie_cleanup os (wl_poll_interval (vw_limits (fst w))) (snd w) k0 absent
        \<and> \<not> (absent \<and> vo_cleared os (snd w @ k0 @ [LView VClearData])
             \<and> vo_destroyed os (snd w @ k0 @ [LView VClearData, LView VDestroy]) \<and> is_removed (vw_profile (fst w1))))"
    if "\<not> (absent \<and> cleared \<and> destroyed \<and> is_removed (vw_profile (fst w1)))" for k2
  proof
    assume "vw_window (fst w)"
    from win [OF this] obtain k0 where "k = k0 @ [LView VClearData, LView VDestroy]"
      "cookie_cleanup os (wl_poll_interval (vw_limits (fst w))) (snd w) k0 absent"
      "cleared = vo_cleared os (snd w @ k0 @ [LView VClearData])"
      "destroyed = vo_destroyed os (snd w @ k0 @ [LView VClearData, LView VDestroy])" by blast
    with that show "\<exists>k0 k3 absent. k @ k2 = k0 @ [LView VClearData, LView VDestroy] @ k3
        \<and> cookie_cleanup os (wl_poll_interval (vw_limits (fst w))) (snd w) k0 absent
        \<and> \<not> (absent \<and> vo_cleared os (snd w @ k0 @ [LView VClearData])
             \<and> vo_destroyed os (snd w @ k0 @ [LView VClearData, LView VDestroy]) \<and> is_removed (vw_profile (fst w1)))"
      by (intro exI [of _ k0] exI [of _ k2] exI [of _ absent]) simp
  qed
  from closed(3) show ?thesis
  proof (cases rule: remove_profile_run)
    case removed
    then obtain k2 where k2: "snd w1 = h2 @ LSleep 250000000 # k2" by auto
    have w1: "\<not> vw_window (fst w1)" "is_removed (vw_profile (fst w1))"
      "profile_gone os (vw_profile (fst w)) (snd w1)" using removed ow2 by (auto simp: is_removed_def)
    show ?thesis
    proof (cases "absent \<and> cleared \<and> destroyed")
      case True
      with closed(2) have open_win: "vw_window (fst w)" by (auto simp: aret_def split: if_splits)
      from win [OF this] True obtain k0 where k0: "k = k0 @ [LView VClearData, LView VDestroy]"
        "cookie_cleanup os (wl_poll_interval (vw_limits (fst w))) (snd w) k0 True"
        "vo_cleared os (snd w @ k0 @ [LView VClearData])"
        "vo_destroyed os (snd w @ k0 @ [LView VClearData, LView VDestroy])" by auto
      from cookie_cleanup_absent [OF k0(2)] obtain cookies where
        "vo_cookies os (snd w @ k0) = Some cookies" "no_session_cookie cookies" by blast
      then have "\<exists>k k2 cookies. let h = snd w @ k in
           snd w1 = h @ [LView VClearData, LView VDestroy] @ k2
         \<and> cookie_cleanup os (wl_poll_interval (vw_limits (fst w))) (snd w) k True
         \<and> vo_cookies os h = Some cookies \<and> no_session_cookie cookies
         \<and> vo_cleared os (h @ [LView VClearData]) \<and> vo_destroyed os (h @ [LView VClearData, LView VDestroy])"
        using k0 k k2 unfolding Let_def
        by (intro exI [of _ k0] exI [of _ "LSleep 250000000 # k2"] exI [of _ cookies]) simp
      with closed(4) True removed(1) w1 open_win show ?thesis by (simp add: is_ok_def)
    next
      case False
      have gone: "LView (VRemoveProfile p) \<in> set (k @ LSleep 250000000 # k2)" if "sp_path (vw_profile (fst w)) = Some p" for p
      proof -
        have "last (snd w1) = LView (VRemoveProfile p)" using w1(3) that by (simp add: profile_gone_def)
        then have "k2 \<noteq> [] \<and> last k2 = LView (VRemoveProfile p)" using k2 by (auto split: if_splits)
        then show ?thesis using last_in_set [of k2] by auto
      qed
      have "snd w1 = snd w @ (k @ LSleep 250000000 # k2)" using k k2 by simp
      with False closed(4) w1 gone failed [of "LSleep 250000000 # k2"] show ?thesis by simp blast
    qed
  next
    case (kept e p)
    then obtain k2 where k2: "snd w1 = h2 @ LSleep 250000000 # k2" "LView (VRemoveProfile p) \<in> set k2" by auto
    have "snd w1 = snd w @ (k @ LSleep 250000000 # k2)" using k k2 by simp
    moreover have "\<not> is_removed (vw_profile (fst w1))" using kept ow2 by (simp add: is_removed_def)
    moreover have "LView (VRemoveProfile q) \<in> set (k @ LSleep 250000000 # k2)"
      if "sp_path (vw_profile (fst w)) = Some q" for q using that kept ow2 k2 by simp
    ultimately show ?thesis using failed [of "LSleep 250000000 # k2"] closed(4) kept(1,3) ow2
      by (simp add: is_ok_def)
  qed
qed

lemma view_shutdown_answers: "view_shutdown os w = Some (w1, r) \<Longrightarrow> \<exists>x. r = Inr x"
  using view_shutdown_outcome [of os w w1 r] by (cases r) simp_all

text \<open>A shutdown of an owner with a window destroys the window and tries to remove the profile, whatever fails.\<close>

definition view_released :: "webview_owner \<Rightarrow> life_op list \<Rightarrow> bool" where
  "view_released ow k \<longleftrightarrow>
     LView VDestroy \<in> set k \<and> (\<forall>p. sp_path (vw_profile ow) = Some p \<longrightarrow> LView (VRemoveProfile p) \<in> set k)"

lemma view_shutdown_closes:
  assumes "view_shutdown os w = Some (w1, r)" and "vw_window (fst w)"
  shows "\<exists>k. snd w1 = snd w @ k \<and> view_released (fst w) k"
proof -
  from view_shutdown_answers [OF assms(1)] obtain x where r: "r = Inr x" ..
  note run = assms(1) [unfolded r]
  show ?thesis
  proof (cases x)
    case (Inl e)
    with view_shutdown_outcome [OF run] assms(2) show ?thesis by (auto simp: view_released_def)
  next
    case (Inr report)
    with view_shutdown_outcome [OF run] obtain k k2 where h: "snd w1 = (snd w @ k) @ [LView VClearData, LView VDestroy] @ k2"
      and gone: "profile_gone os (vw_profile (fst w)) (snd w1)"
      by (auto simp: Let_def)
    have "LView (VRemoveProfile p) \<in> set k2" if "sp_path (vw_profile (fst w)) = Some p"
      for p
    proof -
      have "last (snd w1) = LView (VRemoveProfile p)" using gone that by (simp add: profile_gone_def)
      then have "k2 \<noteq> [] \<and> last k2 = LView (VRemoveProfile p)" using h by (auto split: if_splits)
      then show ?thesis using last_in_set [of k2] by auto
    qed
    with h show ?thesis
      by (intro exI [of _ "k @ [LView VClearData, LView VDestroy] @ k2"]) (auto simp: view_released_def)
  qed
qed

subsection \<open>Launching\<close>

text \<open>What a failed launch leaves: no profile, or one whose removal was tried; and no window that was not destroyed.\<close>

definition view_withdrawn :: "view_oracle \<Rightarrow> path \<Rightarrow> life_op list \<Rightarrow> life_op list \<Rightarrow> bool" where
  "view_withdrawn os parent h0 h \<longleftrightarrow>
     h = h0
   \<or> (h = h0 @ [LView (VCreateProfile parent)] \<and> (case snd (profile_create (vo_profile os h) parent []) of Inl _ \<Rightarrow> True | Inr _ \<Rightarrow> False))
   \<or> (\<exists>profile p k. profile_created os parent (h0 @ [LView (VCreateProfile parent)]) profile \<and> sp_path profile = Some p
        \<and> h = h0 @ [LView (VCreateProfile parent)] @ k
        \<and> (LView (VRemoveProfile p) \<in> set k \<or> LView (VDropProfile p) \<in> set k)
        \<and> (LView VAwaitWindow \<in> set k
             \<and> vo_created os (h0 @ [LView (VCreateProfile parent), LView VDispatchWindow, LView VAwaitWindow]) = Some True
           \<longrightarrow> LView VDestroy \<in> set k))"

lemma install_guards_run:
  assumes "install_guards os timeout w = Some (w1, r)"
  shows "w1 = (fst w, snd w @ [LView (VInstallGuards timeout)]) \<and> (\<exists>x. r = Inr x)
    \<and> (r = Inr (Inr ()) \<longrightarrow> (\<exists>settings. vo_guards os (snd w1) = NativeRan settings \<and> guards_installed settings))"
  using assms
  by (auto simp: install_guards_def abind_ask app_ok_def app_fail_def aret_def split: native_answer.splits if_splits)

lemma navigate_run:
  assumes "navigate_with_bootstrap os url bootstrap timeout w = Some (w1, r)"
  shows "w1 = (fst w, snd w @ [LView (VNavigateBootstrap (wu_text url) (bootstrap_headers bootstrap) timeout)]) \<and> (\<exists>x. r = Inr x)
    \<and> (r = Inr (Inr ()) \<longrightarrow> vo_bootstrap os (snd w1) = NativeRan True)"
  using assms
  by (auto simp: navigate_with_bootstrap_def abind_ask app_ok_def app_fail_def aret_def split: native_answer.splits if_splits)

lemma await_ready_run:
  assumes "await_ready os cfg timeout w = Some (w1, r)"
  shows "w1 = (fst w, snd w @ [LView (VAwaitReady timeout)]) \<and> (\<exists>x. r = Inr x)
    \<and> (r = Inr (Inr ()) \<longrightarrow> document_shown cfg (vo_startup os (snd w1)) \<and> cookie_verified cfg (vo_startup os (snd w1)))"
proof -
  let ?as = "vo_startup os (snd w @ [LView (VAwaitReady timeout)])"
  have "document_shown cfg ?as \<and> cookie_verified cfg ?as"
    if "Option.bind (bootstrap_run cfg ?as bootstrap_new) bt_sent = Some (Inr ())"
  proof -
    from that obtain st where "bootstrap_run cfg ?as bootstrap_new = Some st" "bt_sent st = Some (Inr ())"
      by (cases "bootstrap_run cfg ?as bootstrap_new") auto
    from bootstrap_ready_outcome [OF this] show ?thesis by blast
  qed
  then show ?thesis
    using assms by (auto simp: await_ready_def ask_def Let_def map_err_def split: option.splits sum.splits if_splits)
qed

text \<open>Hardened before the bootstrap credential is sent, and ready after it.\<close>

lemma view_startup_run:
  assumes "view_startup os cfg bootstrap w = Some (w1, r)"
  defines "l \<equiv> vw_limits (fst w)"
  defines "h1 \<equiv> snd w @ [LView (VInstallGuards (wl_native_operation_timeout l))]"
  defines "h2 \<equiv> h1 @ [LView (VNavigateBootstrap (wu_text (bc_bootstrap cfg)) (bootstrap_headers bootstrap)
      (wl_native_operation_timeout l))]"
  shows "fst w1 = fst w \<and> (\<exists>k. snd w1 = snd w @ k) \<and> (\<exists>x. r = Inr x)
    \<and> (r = Inr (Inr ()) \<longrightarrow>
         snd w1 = h2 @ [LView (VAwaitReady (wl_startup_timeout l))]
       \<and> (\<exists>settings. vo_guards os h1 = NativeRan settings \<and> guards_installed settings)
       \<and> vo_bootstrap os h2 = NativeRan True
       \<and> document_shown cfg (vo_startup os (snd w1)) \<and> cookie_verified cfg (vo_startup os (snd w1)))"
proof -
  have "app_bind (install_guards os (wl_native_operation_timeout l)) (\<lambda>_.
     app_bind (navigate_with_bootstrap os (bc_bootstrap cfg) bootstrap (wl_native_operation_timeout l)) (\<lambda>_.
       await_ready os cfg (wl_startup_timeout l))) w = Some (w1, r)"
    using assms(1) by (simp add: view_startup_def abind_def owner_def l_def)
  then show ?thesis
  proof (cases rule: app_bind_cases)
    case (failed e)
    with install_guards_run [OF failed(1)] show ?thesis by simp
  next
    case (stuck e)
    with install_guards_run [OF stuck(1)] show ?thesis by simp
  next
    case (runs w2 u)
    note g = install_guards_run [OF runs(1)]
    from runs(2) show ?thesis
    proof (cases rule: app_bind_cases)
      case (failed e)
      with g navigate_run [OF failed(1)] show ?thesis by simp
    next
      case (stuck e)
      with navigate_run [OF stuck(1)] show ?thesis by simp
    next
      case n: (runs w3 u3)
      with g navigate_run [OF n(1)] await_ready_run [OF n(2)] show ?thesis by (auto simp: h1_def h2_def)
    qed
  qed
qed

lemma drop_profile_run:
  "drop_profile os profile w = Some (w1, r) \<Longrightarrow> r = Inr ()
     \<and> w1 = (fst w, snd w @ (case sp_path profile of None \<Rightarrow> [] | Some p \<Rightarrow> [LView (VDropProfile p)]))"
  by (cases w) (auto simp: drop_profile_def ask_def aret_def Let_def split: option.splits)

lemma fail_with_profile_run:
  assumes "fail_with_profile os profile e w = Some (w1, r)"
  shows "r = Inr (Inl e) \<and> snd w1 = snd w @ (case sp_path profile of None \<Rightarrow> [] | Some p \<Rightarrow> [LView (VDropProfile p)])"
proof -
  from assms obtain w2 u where d: "drop_profile os profile w = Some (w2, Inr u)" and "app_fail e w2 = Some (w1, r)"
    unfolding fail_with_profile_def by (rule abind_answers) (use drop_profile_run in blast)
  with drop_profile_run [OF d] show ?thesis by (auto simp: app_fail_def aret_def)
qed

lemma view_drop_run:
  assumes "view_drop os w = Some (w1, r)"
  shows "r = Inr () \<and> (\<exists>k. snd w1 = snd w @ k \<and> (vw_window (fst w) \<longrightarrow> LView VDestroy \<in> set k)
    \<and> (\<forall>p. sp_path (vw_profile (fst w)) = Some p \<longrightarrow> LView (VDropProfile p) \<in> set k))"
proof -
  obtain v k where "drop_profile os (vw_profile (fst w)) (v, snd w @ k) = Some (w1, r)"
    and k: "vw_window (fst w) \<longrightarrow> LView VDestroy \<in> set k"
    using assms by (cases w) (auto simp: view_drop_def abind_def act_defs Let_def split: if_splits intro: that [of _ "[]"]
      that [of _ "[LView VHide, LView VDestroy]"])
  then show ?thesis using drop_profile_run [of os "vw_profile (fst w)" "(v, snd w @ k)" w1 r] by auto
qed

lemma view_start_owner_run:
  assumes "view_start_owner os cfg bootstrap ow w = Some (w1, r)" and p: "sp_path (vw_profile ow) = Some p" "vw_window ow"
  defines "l \<equiv> vw_limits ow"
  defines "h1 \<equiv> snd w @ [LView (VInstallGuards (wl_native_operation_timeout l))]"
  defines "h2 \<equiv> h1 @ [LView (VNavigateBootstrap (wu_text (bc_bootstrap cfg)) (bootstrap_headers bootstrap)
      (wl_native_operation_timeout l))]"
  shows "case r of
      Inl _ \<Rightarrow> False
    | Inr (Inl e) \<Rightarrow> \<exists>k. snd w1 = snd w @ k \<and> LView VDestroy \<in> set k \<and> LView (VRemoveProfile p) \<in> set k
    | Inr (Inr ow1) \<Rightarrow> ow1 = ow
       \<and> snd w1 = h2 @ [LView (VAwaitReady (wl_startup_timeout l))]
       \<and> (\<exists>settings. vo_guards os h1 = NativeRan settings \<and> guards_installed settings)
       \<and> vo_bootstrap os h2 = NativeRan True
       \<and> document_shown cfg (vo_startup os (snd w1)) \<and> cookie_verified cfg (vo_startup os (snd w1))"
proof -
  from assms(1) obtain w2 x where s: "on_part ow (view_startup os cfg bootstrap) w = Some (w2, Inr x)"
    and run: "(\<lambda>(ow1, startup).
     case startup of
       Inr _ \<Rightarrow> app_ok ow1
     | Inl primary \<Rightarrow>
         abind (on_part ow1 (view_shutdown os)) (\<lambda>(ow2, cleanup).
         abind (on_part ow2 (view_drop os)) (\<lambda>_.
           app_fail (view_cleanup_error primary (case cleanup of Inl e \<Rightarrow> Some e | Inr _ \<Rightarrow> None))))) x w2 = Some (w1, r)"
    unfolding view_start_owner_def by (rule abind_answers) (erule on_part_answers, use view_startup_run in blast)
  from s obtain w3 y where y: "view_startup os cfg bootstrap (ow, snd w) = Some (w3, Inr y)" "w2 = (fst w, snd w3)" "x = (fst w3, y)"
    by (rule on_part_Inr)
  note st = view_startup_run [OF y(1), unfolded fst_conv snd_conv]
  show ?thesis
  proof (cases y)
    case (Inr u)
    with run y st show ?thesis by (auto simp: app_ok_def aret_def l_def h1_def h2_def)
  next
    case (Inl primary)
    from st obtain k where k: "fst w3 = ow" "snd w3 = snd w @ k" by auto
    from run y Inl have "abind (on_part ow (view_shutdown os)) (\<lambda>(ow2, cleanup).
         abind (on_part ow2 (view_drop os)) (\<lambda>_.
           app_fail (view_cleanup_error primary (case cleanup of Inl e \<Rightarrow> Some e | Inr _ \<Rightarrow> None)))) w2 = Some (w1, r)"
      by (simp add: k)
    then obtain w4 z where c: "on_part ow (view_shutdown os) w2 = Some (w4, Inr z)"
      and rest: "(\<lambda>(ow2, cleanup).
         abind (on_part ow2 (view_drop os)) (\<lambda>_.
           app_fail (view_cleanup_error primary (case cleanup of Inl e \<Rightarrow> Some e | Inr _ \<Rightarrow> None)))) z w4 = Some (w1, r)"
      by (rule abind_answers) (erule on_part_answers, rule view_shutdown_answers)
    from c obtain w5 cleanup where cl: "view_shutdown os (ow, snd w2) = Some (w5, Inr cleanup)" "w4 = (fst w2, snd w5)" "z = (fst w5, cleanup)"
      by (rule on_part_Inr)
    have closed: "\<exists>k. snd w5 = snd w2 @ k \<and> LView VDestroy \<in> set k \<and> LView (VRemoveProfile p) \<in> set k"
      using view_shutdown_closes [OF cl(1)] p by (auto simp: view_released_def)
    from rest cl obtain w6 u where d: "on_part (fst w5) (view_drop os) w4 = Some (w6, Inr u)"
      and "app_fail (view_cleanup_error primary (case cleanup of Inl e \<Rightarrow> Some e | Inr _ \<Rightarrow> None)) w6 = Some (w1, r)"
      by simp (rule abind_answers, assumption, erule on_part_answers, use view_drop_run in blast)
    moreover from d obtain k3 where "snd w6 = snd w4 @ k3" by (auto simp: on_part_Some dest!: view_drop_run)
    ultimately show ?thesis using closed k y(2) cl(2) by (auto simp: app_fail_def aret_def)
  qed
qed

lemma close_window_returns: "returns (close_window os)"
proof -
  have "returns (delete_cookies os cookies)" for cookies
  proof (induction cookies)
    case (Cons c cookies)
    then show ?case
      by (cases "ck_name c = SESSION_COOKIE_NAME") (simp_all add: returns_abind returns_ask returns_pure)
  qed (simp add: returns_pure)
  moreover have "returns (await_cookie_absence os poll n)" for poll n
  proof (induction n)
    case (Suc n)
    then show ?case by (auto intro!: returns_abind returns_ask returns_pure split: option.splits)
  qed (simp add: returns_pure)
  ultimately show ?thesis
    unfolding close_window_def delete_session_cookie_def
    by (intro returns_intros) (auto intro!: returns_intros split: option.splits)
qed

text \<open>A launch succeeds with everything in place or withdraws.\<close>

lemma view_launch_outcome:
  assumes "view_launch os browser parent preflight config limits w = Some (w1, r)"
  shows "case r of
      Inl _ \<Rightarrow> False
    | Inr (Inl e) \<Rightarrow> view_withdrawn os parent (snd w) (snd w1)
    | Inr (Inr ow) \<Rightarrow>
        is_ok (webview_limits_validate limits) \<and> is_ok (window_config_validate config)
      \<and> vo_identifier os = pf_application_id preflight \<and> vw_runtime_version ow = pf_actual_version preflight
      \<and> vw_window ow \<and> vw_limits ow = limits
      \<and> (\<exists>bootstrap_url p settings.
           let h0 = snd w @ map LView [VCreateProfile parent, VDispatchWindow, VAwaitWindow];
               h1 = h0 @ [LView (VInstallGuards (wl_native_operation_timeout limits))];
               h2 = h1 @ [LView (VNavigateBootstrap (wu_text bootstrap_url) (bootstrap_headers (bl_bootstrap browser))
                        (wl_native_operation_timeout limits))];
               cfg = \<lparr>bc_root = vw_root ow, bc_bootstrap = bootstrap_url, bc_session = bl_session browser,
                      bc_show_after_ready = wc_show_after_ready config\<rparr> in
             snd w1 = h2 @ [LView (VAwaitReady (wl_startup_timeout limits))]
           \<and> profile_created os parent (snd w @ [LView (VCreateProfile parent)]) (vw_profile ow)
           \<and> sp_path (vw_profile ow) = Some p \<and> profile_child (sp_parent (vw_profile ow)) p
           \<and> vo_url_parse os (address_bootstrap_url (bl_address browser)) = Some bootstrap_url
           \<and> vo_url_parse os (address_root_url (bl_address browser)) = Some (vw_root ow)
           \<and> vo_guards os h1 = NativeRan settings \<and> guards_installed settings
           \<and> document_shown cfg (vo_startup os (snd w1)) \<and> cookie_verified cfg (vo_startup os (snd w1)))"
proof -
  let ?h = "snd w @ [LView (VCreateProfile parent)]"
  have lim: "\<And>l. webview_limits_validate limits = Inr l \<Longrightarrow> l = limits"
    by (auto simp: webview_limits_validate_def split: if_splits)
  show ?thesis
  proof (cases "is_ok (webview_limits_validate limits) \<and> is_ok (window_config_validate config)
      \<and> vo_identifier os = pf_application_id preflight")
    case False
    with assms have "w1 = w" "\<exists>e. r = Inr (Inl e)"
      by (auto simp: view_launch_def app_bind_lift is_ok_def app_fail_def aret_def split: sum.splits if_splits)
    then show ?thesis by (auto simp: view_withdrawn_def)
  next
    case valid: True
    then obtain u where v: "webview_limits_validate limits = Inr limits" "window_config_validate config = Inr u"
      using lim by (auto simp: is_ok_def split: sum.splits)
    note run = assms [unfolded view_launch_def app_bind_lift v sum.case]
    show ?thesis
    proof (cases "snd (profile_create (vo_profile os ?h) parent [])")
      case (Inl e)
      with run valid have "snd w1 = ?h" "r = Inr (Inl e)"
        by (auto simp: app_bind_ask app_fail_def aret_def)
      with Inl show ?thesis by (simp add: view_withdrawn_def)
    next
      case (Inr profile)
      obtain ph where "profile_create (vo_profile os ?h) parent [] = (ph, Inr profile)"
        using Inr by (cases "profile_create (vo_profile os ?h) parent []") auto
      from profile_create_outcome [OF this] obtain p where p: "sp_path profile = Some p" "profile_child (sp_parent profile) p"
        by auto
      have made: "profile_created os parent ?h profile" using Inr by (simp add: profile_created_def)
      let ?h3 = "?h @ [LView VDispatchWindow, LView VAwaitWindow]"
      have dropped: "view_withdrawn os parent (snd w) (snd w1)"
        if "snd w1 = ?h @ k @ [LView (VDropProfile p)]"
          "LView VAwaitWindow \<in> set k \<longrightarrow> vo_created os ?h3 \<noteq> Some True" for k
        unfolding view_withdrawn_def using made p(1) that
        by (intro disjI2 exI [of _ profile] exI [of _ p] exI [of _ "k @ [LView (VDropProfile p)]"]) auto
      have early: ?thesis if "fail_with_profile os profile e (v, ?h @ k) = Some (w1, r)"
          "LView VAwaitWindow \<in> set k \<longrightarrow> vo_created os ?h3 \<noteq> Some True" for e v k
        using fail_with_profile_run [OF that(1)] dropped [of k] that(2) p(1) by simp
      have body: "(case (vo_url_parse os (address_bootstrap_url (bl_address browser)),
             vo_url_parse os (address_root_url (bl_address browser))) of
         (Some bootstrap_url, Some root_url) \<Rightarrow>
           let cfg = \<lparr>bc_root = root_url, bc_bootstrap = bootstrap_url, bc_session = bl_session browser,
                      bc_show_after_ready = wc_show_after_ready config\<rparr> in
           abind (ask (LView VDispatchWindow) (vo_dispatched os)) (\<lambda>dispatched.
           if \<not> dispatched then fail_with_profile os profile WvWindowDispatch
           else
             abind (ask (LView VAwaitWindow) (vo_created os)) (\<lambda>window.
             case window of
               None \<Rightarrow> fail_with_profile os profile WvWindowChannel
             | Some False \<Rightarrow> fail_with_profile os profile WvWindowCreation
             | Some True \<Rightarrow>
                 view_start_owner os cfg (bl_bootstrap browser)
                   \<lparr>vw_window = True, vw_root = root_url, vw_profile = profile, vw_limits = limits,
                    vw_runtime_version = pf_actual_version preflight\<rparr>))
       | _ \<Rightarrow> fail_with_profile os profile WvInvalidProxyOrigin) (fst w, ?h) = Some (w1, r)"
        using run valid Inr by (simp add: app_bind_ask)
      show ?thesis
      proof (cases "vo_url_parse os (address_bootstrap_url (bl_address browser)) = None
          \<or> vo_url_parse os (address_root_url (bl_address browser)) = None")
        case True
        with body have "fail_with_profile os profile WvInvalidProxyOrigin (fst w, ?h @ []) = Some (w1, r)"
          by (auto split: option.splits)
        then show ?thesis by (rule early) simp
      next
        case False
        then obtain bootstrap_url root_url where urls:
            "vo_url_parse os (address_bootstrap_url (bl_address browser)) = Some bootstrap_url"
            "vo_url_parse os (address_root_url (bl_address browser)) = Some root_url" by auto
        define cfg where "cfg = \<lparr>bc_root = root_url, bc_bootstrap = bootstrap_url, bc_session = bl_session browser,
            bc_show_after_ready = wc_show_after_ready config\<rparr>"
        show ?thesis
        proof (cases "vo_dispatched os (?h @ [LView VDispatchWindow]) \<and> vo_created os ?h3 = Some True")
          case False
          then show ?thesis
            using body urls
            by (auto simp: abind_ask Let_def split: if_splits option.splits bool.splits
                intro: early [of _ _ "[LView VDispatchWindow]"] early [of _ _ "[LView VDispatchWindow, LView VAwaitWindow]"])
        next
          case True
          define ow where "ow = \<lparr>vw_window = True, vw_root = root_url, vw_profile = profile, vw_limits = limits,
                    vw_runtime_version = pf_actual_version preflight\<rparr>"
          have start: "view_start_owner os cfg (bl_bootstrap browser) ow (fst w, ?h3) = Some (w1, r)"
            using body urls True by (simp add: abind_ask Let_def cfg_def ow_def)
          have fields: "sp_path (vw_profile ow) = Some p" "vw_window ow" using p by (simp_all add: ow_def)
          note st = view_start_owner_run [OF start fields]
          show ?thesis
          proof (cases r)
            case (Inl e) with st show ?thesis by simp
          next
            case outer: (Inr x)
            show ?thesis
            proof (cases x)
              case (Inl e)
              with st outer obtain k where k: "snd w1 = ?h3 @ k" "LView VDestroy \<in> set k" "LView (VRemoveProfile p) \<in> set k" by auto
              have "view_withdrawn os parent (snd w) (snd w1)"
                unfolding view_withdrawn_def using made p(1) k
                by (intro disjI2 exI [of _ profile] exI [of _ p] exI [of _ "[LView VDispatchWindow, LView VAwaitWindow] @ k"]) auto
              with outer Inl show ?thesis by simp
            next
              case (Inr ow1)
              with st outer have "ow1 = ow" by simp
              with st outer Inr v valid p made urls show ?thesis
                by (auto simp: ow_def cfg_def Let_def)
            qed
          qed
        qed
      qed
    qed
  qed
qed

section \<open>Properties\<close>

text \<open>C29: Launching the WebView gives a hardened, bootstrapped window or withdraws.  On success limits, window
  settings and application identity were valid, the profile was created in exact scope, the guards were
  installed before the bootstrap credential was sent, and it was sent once, to the bootstrap URL of
  the proxy; then the session cookie was verified and a document of the application shown.  On
  failure the profile, if one was created, was tried to be removed, and a created window was destroyed.\<close>

theorem webview_launch_verified:
  assumes "view_launch os browser parent preflight config limits w = Some (w1, r)"
  shows "case r of
      Inl _ \<Rightarrow> False
    | Inr (Inl e) \<Rightarrow> view_withdrawn os parent (snd w) (snd w1)
    | Inr (Inr ow) \<Rightarrow>
        is_ok (webview_limits_validate limits) \<and> is_ok (window_config_validate config)
      \<and> vo_identifier os = pf_application_id preflight \<and> vw_runtime_version ow = pf_actual_version preflight
      \<and> vw_window ow \<and> vw_limits ow = limits
      \<and> (\<exists>bootstrap_url p settings.
           let h0 = snd w @ map LView [VCreateProfile parent, VDispatchWindow, VAwaitWindow];
               h1 = h0 @ [LView (VInstallGuards (wl_native_operation_timeout limits))];
               h2 = h1 @ [LView (VNavigateBootstrap (wu_text bootstrap_url) (bootstrap_headers (bl_bootstrap browser))
                        (wl_native_operation_timeout limits))];
               cfg = \<lparr>bc_root = vw_root ow, bc_bootstrap = bootstrap_url, bc_session = bl_session browser,
                      bc_show_after_ready = wc_show_after_ready config\<rparr> in
             snd w1 = h2 @ [LView (VAwaitReady (wl_startup_timeout limits))]
           \<and> profile_created os parent (snd w @ [LView (VCreateProfile parent)]) (vw_profile ow)
           \<and> sp_path (vw_profile ow) = Some p \<and> profile_child (sp_parent (vw_profile ow)) p
           \<and> vo_url_parse os (address_bootstrap_url (bl_address browser)) = Some bootstrap_url
           \<and> vo_url_parse os (address_root_url (bl_address browser)) = Some (vw_root ow)
           \<and> vo_guards os h1 = NativeRan settings \<and> guards_installed settings
           \<and> document_shown cfg (vo_startup os (snd w1)) \<and> cookie_verified cfg (vo_startup os (snd w1)))"
  using assms by (rule view_launch_outcome)

text \<open>C32: The shutdown of the WebView reports the truth and skips nothing.  With an open window it looks at the
  cookies, deletes exactly the session cookies it saw, in order and up to the first that fails, waits with up to
  20 more looks for their absence, clears the browsing data, destroys the window, and then removes the profile.  It
  reports success only when every deletion succeeded, the last look found no session cookie, the data
  was cleared, the window destroyed and the profile removed, and then the owner holds nothing.  When anything failed
  it still cleared, destroyed and tried to remove, and it fails only when something did; an owner
  that held nothing does nothing.\<close>

theorem webview_shutdown_truthful:
  assumes "view_shutdown os w = Some (w1, r)"
  shows "case r of
      Inl _ \<Rightarrow> False
    | Inr (Inr report) \<Rightarrow>
        report = \<lparr>vr_session_cookie_absent = True, vr_browsing_data_clear_queued = True,
                  vr_window_destroyed = True, vr_profile_removed = True\<rparr>
      \<and> vw_window (fst w) \<and> \<not> vw_window (fst w1) \<and> is_removed (vw_profile (fst w1))
      \<and> (\<exists>k k2 cookies. let h = snd w @ k in
           snd w1 = h @ [LView VClearData, LView VDestroy] @ k2
         \<and> cookie_cleanup os (wl_poll_interval (vw_limits (fst w))) (snd w) k True
         \<and> vo_cookies os h = Some cookies \<and> no_session_cookie cookies
         \<and> vo_cleared os (h @ [LView VClearData]) \<and> vo_destroyed os (h @ [LView VClearData, LView VDestroy]))
      \<and> profile_gone os (vw_profile (fst w)) (snd w1)
    | Inr (Inl e) \<Rightarrow>
        e = WvOwnerNotRunning \<and> w1 = w \<and> \<not> vw_window (fst w) \<and> is_removed (vw_profile (fst w))
      \<or> e = WvCleanup \<and> \<not> vw_window (fst w1)
        \<and> (\<exists>k. snd w1 = snd w @ k
            \<and> (vw_window (fst w) \<longrightarrow>
                 (\<exists>k0 k2 absent. k = k0 @ [LView VClearData, LView VDestroy] @ k2
                   \<and> cookie_cleanup os (wl_poll_interval (vw_limits (fst w))) (snd w) k0 absent
                   \<and> \<not> (absent \<and> vo_cleared os (snd w @ k0 @ [LView VClearData])
                        \<and> vo_destroyed os (snd w @ k0 @ [LView VClearData, LView VDestroy])
                        \<and> is_removed (vw_profile (fst w1)))))
            \<and> (\<forall>p. sp_path (vw_profile (fst w)) = Some p \<longrightarrow> LView (VRemoveProfile p) \<in> set k))
        \<and> (vw_profile (fst w1) = vw_profile (fst w) \<or> is_removed (vw_profile (fst w1)) \<and> profile_gone os (vw_profile (fst w)) (snd w1))"
  using assms by (rule view_shutdown_outcome)

text \<open>C33: The operations of the WebView owner return.  When the clock does not go back and sleeps last as long as
  asked for, shutdown, retry of the profile removal, hiding and drop of an owner with valid limits return,
  whatever browser and file system answer.\<close>

theorem webview_operations_return:
  assumes "time_passes (vo_life os)" and "is_ok (webview_limits_validate (vw_limits (fst w)))"
  shows "(\<exists>w1 r. view_shutdown os w = Some (w1, r)) \<and> (\<exists>w1 r. view_retry_cleanup os w = Some (w1, r))
    \<and> (\<exists>w1 r. view_hide os w = Some (w1, r)) \<and> (\<exists>w1 r. view_drop os w = Some (w1, r))"
proof -
  have poll: "0 < wl_poll_interval (vw_limits (fst w))"
    using assms(2) by (auto simp: is_ok_def webview_limits_validate_def split: if_splits)
  have removes: "remove_profile os v \<noteq> None" if "vw_limits (fst v) = vw_limits (fst w)" for v
  proof -
    have "remove_bounded os t (wl_poll_interval (vw_limits (fst v))) z \<noteq> None" for t z
      using returnsD [OF remove_bounded_returns [OF assms(1)]] poll that by auto
    then show ?thesis
      by (auto simp: remove_profile_def abind_def owner_def update_def app_lift_def aret_def on_part_def
          split: option.splits sum.splits)
  qed
  have closes: "(if vw_window (fst w) then close_window os else aret (False, False, False)) w \<noteq> None"
    using returnsD [OF close_window_returns] by (simp add: aret_def)
  have sh: "view_shutdown os w \<noteq> None"
  proof (cases "\<not> vw_window (fst w) \<and> is_removed (vw_profile (fst w))")
    case True
    then show ?thesis by (simp add: view_shutdown_def abind_def act_defs app_fail_def)
  next
    case False
    from closes obtain v h x where c: "(if vw_window (fst w) then close_window os else aret (False, False, False)) w = Some ((v, h), x)"
      by (metis not_None_eq surj_pair)
    then have l: "vw_limits v = vw_limits (fst w)"
      by (auto simp: aret_def Let_def split: if_splits dest!: close_window_run)
    have "remove_profile os (v, h @ [LSleep 250000000]) \<noteq> None" using removes l by simp
    then show ?thesis using False c
      by (auto simp: view_shutdown_def abind_def act_defs Let_def app_ok_def app_fail_def split: sum.splits option.splits)
  qed
  moreover have "view_retry_cleanup os w \<noteq> None"
    using removes [of w] by (simp add: view_retry_cleanup_def abind_def act_defs app_fail_def)
  moreover have "view_hide os w \<noteq> None" "view_drop os w \<noteq> None"
    by (simp_all add: view_hide_def view_drop_def drop_profile_def abind_def act_defs app_fail_def Let_def split: option.splits)
  ultimately show ?thesis by (intro conjI runs_Some)
qed

section \<open>Witnesses\<close>

definition example_browser :: browser_launch where
  "example_browser =
     \<lparr>bl_address = \<lparr>pa_hostname = ''rpackit-0.localhost'', pa_port = 4000\<rparr>,
      bl_session = \<lparr>secret_value = ''abc''\<rparr>, bl_bootstrap = \<lparr>secret_value = ''xyz''\<rparr>\<rparr>"

definition example_preflight :: preflight where
  "example_preflight = \<lparr>pf_application_id = ''dev.rpackit.shell'', pf_actual_version = ''149.0.4022.98''\<rparr>"

text \<open>A browser in which everything works, and which parses the URLs of this proxy.\<close>

definition example_url :: "browser_launch \<Rightarrow> string \<Rightarrow> webview_url" where
  "example_url browser t = (proxy_url ''/'')\<lparr>wu_text := t, wu_host := Some (pa_hostname (bl_address browser))\<rparr>"

definition example_view :: "browser_launch \<Rightarrow> view_oracle" where
  "example_view browser =
     \<lparr>vo_life = example_life, vo_identifier = ''dev.rpackit.shell'',
      vo_url_parse = (\<lambda>t. Some (example_url browser t)),
      vo_profile = (\<lambda>h. example_profile_oracle), vo_worker = (\<lambda>h. True), vo_dispatched = (\<lambda>h. True),
      vo_created = (\<lambda>h. Some True),
      vo_guards = (\<lambda>h. NativeRan \<lparr>hd_settings_calls = True, hd_devtools = False, hd_context_menus = False,
        hd_status_bar = False, hd_accelerators = False, hd_handler_calls = True\<rparr>),
      vo_bootstrap = (\<lambda>h. NativeRan True),
      vo_startup = (\<lambda>h. [ActPage True (example_url browser (address_bootstrap_url (bl_address browser))),
        ActCookies (Some [example_cookie\<lparr>ck_value := secret_value (bl_session browser)\<rparr>]), ActNavigate True,
        ActPage True (example_url browser (address_root_url (bl_address browser))), ActShow True, ActPageSignal]),
      vo_sender_dropped = (\<lambda>h. False), vo_hidden = (\<lambda>h. True),
      vo_cookies = (\<lambda>h. Some []), vo_deleted = (\<lambda>h. True), vo_cleared = (\<lambda>h. True), vo_destroyed = (\<lambda>h. True)\<rparr>"

definition example_window :: "browser_launch \<Rightarrow> webview_owner" where
  "example_window browser =
     \<lparr>vw_window = True, vw_root = example_url browser (address_root_url (bl_address browser)),
      vw_profile = \<lparr>sp_parent = [''C:'', ''profiles''], sp_path = Some example_profile_path\<rparr>,
      vw_limits = default_webview_limits, vw_runtime_version = ''149.0.4022.98''\<rparr>"

definition example_view_config :: "browser_launch \<Rightarrow> bootstrap_config" where
  "example_view_config browser =
     \<lparr>bc_root = example_url browser (address_root_url (bl_address browser)),
      bc_bootstrap = example_url browser (address_bootstrap_url (bl_address browser)),
      bc_session = bl_session browser, bc_show_after_ready = True\<rparr>"

lemma example_view_opens:
  assumes "case bootstrap_run (example_view_config browser) (vo_startup (example_view browser) []) bootstrap_new of
      Some st \<Rightarrow> bt_sent st = Some (Inr ()) | None \<Rightarrow> False"
  shows "\<exists>k. view_launch (example_view browser) browser [''C:'', ''profiles''] example_preflight default_window_config
         default_webview_limits w = Some ((fst w, snd w @ k), Inr (Inr (example_window browser))) \<and> length k = 6"
proof -
  have valid: "webview_limits_validate default_webview_limits = Inr default_webview_limits"
      "window_config_validate default_window_config = Inr ()"
    and created: "snd (profile_create example_profile_oracle [''C:'', ''profiles''] [])
      = Inr \<lparr>sp_parent = [''C:'', ''profiles''], sp_path = Some example_profile_path\<rparr>"
    by code_simp+
  let ?os = "example_view browser" and ?cfg = "example_view_config browser" and ?ow = "example_window browser"
  let ?h = "snd w @ map LView [VCreateProfile [''C:'', ''profiles''], VDispatchWindow, VAwaitWindow]"
  have ready: "Option.bind (bootstrap_run ?cfg (vo_startup ?os h) bootstrap_new) bt_sent = Some (Inr ())" for h
  proof -
    have "vo_startup ?os h = vo_startup ?os []" by (simp add: example_view_def)
    then show ?thesis using assms by (cases "bootstrap_run ?cfg (vo_startup ?os []) bootstrap_new") simp_all
  qed
  have answers: "vo_dispatched ?os h" "vo_created ?os h = Some True" "vo_bootstrap ?os h = NativeRan True"
      "\<exists>settings. vo_guards ?os h = NativeRan settings \<and> guards_installed settings"
      "vo_profile ?os h = example_profile_oracle" "vo_identifier ?os = pf_application_id example_preflight" for h
    by (simp_all add: example_view_def example_preflight_def guards_installed_def)
  have urls: "vo_url_parse ?os (address_bootstrap_url (bl_address browser)) = Some (bc_bootstrap ?cfg)"
      "vo_url_parse ?os (address_root_url (bl_address browser)) = Some (vw_root ?ow)"
    by (simp_all add: example_view_def example_view_config_def example_window_def)
  have guards: "install_guards ?os t u = Some ((fst u, snd u @ [LView (VInstallGuards t)]), Inr (Inr ()))" for t and u :: "webview_owner world"
    using answers(4) [of "snd u @ [LView (VInstallGuards t)]"]
    by (auto simp: install_guards_def abind_ask app_ok_def aret_def)
  have navigates: "navigate_with_bootstrap ?os url b t u = Some ((fst u,
      snd u @ [LView (VNavigateBootstrap (wu_text url) (bootstrap_headers b) t)]), Inr (Inr ()))" for url b t and u :: "webview_owner world"
    by (simp add: navigate_with_bootstrap_def abind_ask answers app_ok_def aret_def)
  have waits: "await_ready ?os ?cfg t u = Some ((fst u, snd u @ [LView (VAwaitReady t)]), Inr (Inr ()))" for t and u :: "webview_owner world"
    by (simp add: await_ready_def ask_def Let_def ready map_err_def)
  have "\<exists>k. view_start_owner ?os ?cfg (bl_bootstrap browser) ?ow u = Some ((fst u, snd u @ k), Inr (Inr ?ow)) \<and> length k = 3" for u
    by (simp add: view_start_owner_def on_part_def view_startup_def abind_def owner_def app_bind_def guards navigates waits
        app_ok_def aret_def)
  then obtain k where start: "view_start_owner ?os ?cfg (bl_bootstrap browser) ?ow (fst w, ?h) = Some ((fst w, ?h @ k), Inr (Inr ?ow))"
      "length k = 3"
    by (metis fst_conv snd_conv)
  have same: "\<lparr>bc_root = vw_root ?ow, bc_bootstrap = bc_bootstrap ?cfg, bc_session = bl_session browser,
      bc_show_after_ready = wc_show_after_ready default_window_config\<rparr> = ?cfg"
      "\<lparr>vw_window = True, vw_root = vw_root ?ow,
        vw_profile = \<lparr>sp_parent = [''C:'', ''profiles''], sp_path = Some example_profile_path\<rparr>,
        vw_limits = default_webview_limits, vw_runtime_version = pf_actual_version example_preflight\<rparr> = ?ow"
    by (simp_all add: example_view_config_def default_window_config_def example_window_def example_preflight_def)
  have "view_launch ?os browser [''C:'', ''profiles''] example_preflight default_window_config
         default_webview_limits w = Some ((fst w, ?h @ k), Inr (Inr ?ow))"
    using start
    by (simp add: view_launch_def app_bind_lift valid app_bind_ask abind_ask answers created urls same Let_def)
  then show ?thesis using start(2) by auto
qed

lemma webview_launch_verified_witness:
  "\<exists>h. view_launch (example_view example_browser) example_browser [''C:'', ''profiles''] example_preflight default_window_config
         default_webview_limits ((), []) = Some (((), h), Inr (Inr (example_window example_browser)))
     \<and> length h = 6 \<and> profile_child [''C:'', ''profiles''] example_profile_path"
proof -
  have "case bootstrap_run (example_view_config example_browser) (vo_startup (example_view example_browser) []) bootstrap_new of
      Some st \<Rightarrow> bt_sent st = Some (Inr ()) | None \<Rightarrow> False"
    by code_simp
  from example_view_opens [OF this, of "((), [])"] obtain h where
    run: "view_launch (example_view example_browser) example_browser [''C:'', ''profiles''] example_preflight default_window_config
         default_webview_limits ((), []) = Some (((), h), Inr (Inr (example_window example_browser)))" "length h = 6" by auto
  with webview_launch_verified [OF run(1)] show ?thesis by (auto simp: example_window_def Let_def)
qed

lemma example_view_closes:
  "\<exists>w1 report. view_shutdown (example_view browser) (example_window browser, h0) = Some (w1, Inr (Inr report))"
proof -
  have once: "snd (remove_profile_once example_profile_oracle [''C:'', ''profiles''] example_profile_path []) = Inr ()"
    by code_simp
  have turn: "loop_act (remove_turn (example_view browser) example_profile_path d poll)
      (\<lparr>sp_parent = [''C:'', ''profiles''], sp_path = Some example_profile_path\<rparr>, h)
    = Some ((\<lparr>sp_parent = [''C:'', ''profiles''], sp_path = None\<rparr>, h @ [LView (VRemoveProfile example_profile_path)]), Inr (Inr ()))"
    for d poll h
    using once by (intro loop_once) (simp add: remove_turn_def remove_once_def abind_def act_defs Let_def example_view_def)
  have cookies: "delete_session_cookie (example_view browser) poll w = Some ((fst w, snd w @ [LView VCookies, LView VCookies]), Inr (Some True))" for poll w
    by (simp add: delete_session_cookie_def abind_ask aret_def abind_def eval_nat_numeral no_session_cookie_def ask_def example_view_def)
  have answers: "vo_cleared (example_view browser) h" "vo_destroyed (example_view browser) h" for h
    by (simp_all add: example_view_def)
  show ?thesis
    by (simp add: view_shutdown_def close_window_def remove_profile_def remove_bounded_def on_part_def abind_def act_defs Let_def
        app_lift_def app_ok_def is_ok_def example_window_def turn cookies answers)
qed

lemma webview_shutdown_truthful_witness:
  "\<exists>w1 report. view_shutdown (example_view example_browser) (example_window example_browser, []) = Some (w1, Inr (Inr report))
     \<and> vr_profile_removed report \<and> is_removed (vw_profile (fst w1))"
proof -
  obtain w1 report where run: "view_shutdown (example_view example_browser) (example_window example_browser, []) = Some (w1, Inr (Inr report))"
    using example_view_closes by blast
  with webview_shutdown_truthful [OF run] show ?thesis by auto
qed

lemma webview_operations_return_witness:
  "\<exists>w1 r. view_shutdown (example_view example_browser) (example_window example_browser, []) = Some (w1, r)"
proof -
  have "time_passes (vo_life (example_view example_browser))" using example_time(1) by (simp add: example_view_def)
  moreover have "is_ok (webview_limits_validate (vw_limits (fst (example_window example_browser, []))))" by code_simp
  ultimately show ?thesis using webview_operations_return by blast
qed

end
