(* ===== verification/Desktop_Release.thy ===== *)
theory Desktop_Release
  imports Desktop_Owner
begin

text \<open>
  What dropping the application owner does with the two things that outlive a function call: the Job with the R
  processes, and the proxy.  Together with \<open>app_held\<close>, the relation that every operation keeps, used for the
  runs of the shell.
\<close>

section \<open>Release\<close>

text \<open>Dropping an application releases what it still holds.\<close>

definition proxy_ended :: "life_op list \<Rightarrow> bool" where
  "proxy_ended k \<longleftrightarrow> LStopProxy \<in> set k \<or> LDropProxy \<in> set k"

definition app_released :: "native_owner \<Rightarrow> life_op list \<Rightarrow> bool" where
  "app_released ow k \<longleftrightarrow> (job_open ow \<longrightarrow> LCloseJob \<in> set k) \<and> (no_proxy ow \<noteq> None \<longrightarrow> proxy_ended k)"

lemma native_drop_releases:
  assumes "native_drop os w = Some (w1, r)"
  shows "(\<exists>x. r = Inr x) \<and> (\<exists>k. snd w1 = snd w @ k \<and> app_released (fst w) k)"
proof -
  define d where "d = (if no_proxy (fst w) = None then [] else [LDropProxy])"
  show ?thesis
  proof (cases "no_runtime (fst w)")
    case None
    then have "r = Inr ()" "snd w1 = snd w @ d"
      using assms by (auto simp: native_drop_def abind_def act_defs Let_def d_def split: if_splits)
    then show ?thesis using None by (auto simp: app_released_def job_open_def proxy_ended_def d_def)
  next
    case (Some rt)
    with assms obtain x y where drop: "owner_drop (ao_life os) (rt, snd w @ d) = Some (x, y)" "snd w1 = snd x" "r = Inr ()"
      by (auto simp: native_drop_def abind_Some owner_def update_def ask_def Let_def aret_def on_owner_Some d_def split: if_splits)
    from drop_closes [OF drop(1)] obtain k where k: "snd x = snd w @ d @ k" "ro_process rt \<noteq> None \<longrightarrow> LCloseJob \<in> set k" by auto
    then show ?thesis using drop(2,3) Some
      by (auto simp: app_released_def job_open_def proxy_ended_def d_def intro!: exI [of _ "d @ k"])
  qed
qed

lemma app_held_released:
  assumes "app_held w w1" and "snd w2 = snd w1 @ k @ k2" and "app_released (fst w1) k2"
  shows "\<exists>k. snd w2 = snd w @ k \<and> app_released (fst w) k"
  using assms by (fastforce simp: app_held_def app_released_def proxy_ended_def)

lemma app_released_more: "app_released ow k \<Longrightarrow> set k \<subseteq> set k1 \<Longrightarrow> app_released ow k1"
  by (auto simp: app_released_def proxy_ended_def)

end
