(* ===== verification/Windows_Shell.thy ===== *)
theory Windows_Shell
  imports Webview_Owner Desktop_Release
begin

text \<open>
  The application: \<open>apps/windows-shell/src/windows_app.rs\<close>.  Command-line options, packaged directories, the
  run of the shell around the two owners, the signals of the event loop, and the evidence it
  writes.  The run is an action on the history that proxy, process and browser share, so that the order of
  their effects can be stated.  How the text of a path is split into components is a function of the environment.
\<close>

section \<open>Definitions\<close>

definition APPLICATION_ID :: string where "APPLICATION_ID = ''dev.rpackit.shell''"
definition HEALTH_POLL_INTERVAL :: nat where "HEALTH_POLL_INTERVAL = 250000000"
definition MAX_EVIDENCE_BYTES :: nat where "MAX_EVIDENCE_BYTES = 64 * 1024"
definition MAIN_WINDOW_LABEL :: string where "MAIN_WINDOW_LABEL = ''main''"

datatype launch_mode = Packaged | ExplicitPaths path path path

record parsed_options =
  po_launch :: launch_mode
  po_evidence :: "path option"
  po_close_after_ready :: bool

record shell_options =
  so_bundle :: path
  so_session_parent :: path
  so_profile_parent :: path
  so_close_after_ready :: bool

datatype shell_signal = SignalGraceful | SignalForced

datatype shell_failure =
    ShellPreflight | ShellPackagedPaths | ShellNativeStartup | ShellBrowserMaterial | ShellWebviewStartup
  | ShellRuntimeHealth | ShellShutdown

fun failure_stage :: "shell_failure \<Rightarrow> string" where
  "failure_stage ShellPreflight = ''webview_preflight''"
| "failure_stage ShellPackagedPaths = ''packaged_paths''"
| "failure_stage ShellNativeStartup = ''native_startup''"
| "failure_stage ShellBrowserMaterial = ''browser_material''"
| "failure_stage ShellWebviewStartup = ''webview_startup''"
| "failure_stage ShellRuntimeHealth = ''runtime_health''"
| "failure_stage ShellShutdown = ''shutdown''"

record shell_success =
  ss_webview2_version :: string
  ss_native :: native_report
  ss_webview :: webview_report
  ss_forced :: bool

subsection \<open>Evidence\<close>

record shell_evidence =
  ev_schema_version :: nat
  ev_success :: bool
  ev_failure_stage :: "string option"
  ev_webview2_version :: "string option"
  ev_forced_shutdown :: bool
  ev_graceful_runtime_shutdown :: bool
  ev_proxy_stopped :: bool
  ev_job_empty :: bool
  ev_private_session_removed :: bool
  ev_session_cookie_absent :: bool
  ev_browsing_data_clear_queued :: bool
  ev_window_destroyed :: bool
  ev_profile_removed :: bool

definition evidence_success :: "shell_success \<Rightarrow> shell_evidence" where
  "evidence_success v =
     \<lparr>ev_schema_version = 1, ev_success = True, ev_failure_stage = None,
      ev_webview2_version = Some (ss_webview2_version v), ev_forced_shutdown = ss_forced v,
      ev_graceful_runtime_shutdown = (sr_kind (nr_runtime (ss_native v)) = Graceful),
      ev_proxy_stopped = nr_proxy_stopped (ss_native v), ev_job_empty = sr_job_empty (nr_runtime (ss_native v)),
      ev_private_session_removed = sr_session_removed (nr_runtime (ss_native v)),
      ev_session_cookie_absent = vr_session_cookie_absent (ss_webview v),
      ev_browsing_data_clear_queued = vr_browsing_data_clear_queued (ss_webview v),
      ev_window_destroyed = vr_window_destroyed (ss_webview v), ev_profile_removed = vr_profile_removed (ss_webview v)\<rparr>"

definition evidence_failure :: "shell_failure \<Rightarrow> shell_evidence" where
  "evidence_failure failure =
     \<lparr>ev_schema_version = 1, ev_success = False, ev_failure_stage = Some (failure_stage failure),
      ev_webview2_version = None, ev_forced_shutdown = False, ev_graceful_runtime_shutdown = False,
      ev_proxy_stopped = False, ev_job_empty = False, ev_private_session_removed = False,
      ev_session_cookie_absent = False, ev_browsing_data_clear_queued = False, ev_window_destroyed = False,
      ev_profile_removed = False\<rparr>"

text \<open>What the calls of \<open>write_evidence\<close> answer; \<open>serde_json\<close> is a parameter.\<close>

record evidence_file =
  ef_json :: "shell_evidence \<Rightarrow> bytes option"
  ef_created :: bool
  ef_write_all :: "bytes \<Rightarrow> bool"
  ef_synced :: bool

definition write_evidence :: "evidence_file \<Rightarrow> shell_evidence \<Rightarrow> unit + unit" where
  "write_evidence ef evidence =
     rbind (ok_or (ef_json ef evidence) ()) (\<lambda>json.
     rbind (reject_if (length json > MAX_EVIDENCE_BYTES) ()) (\<lambda>_.
     rbind (reject_if (\<not> ef_created ef) ()) (\<lambda>_.
     rbind (reject_if (\<not> ef_write_all ef json) ()) (\<lambda>_.
     rbind (reject_if (\<not> ef_write_all ef [CHR 0x0A]) ()) (\<lambda>_.
       reject_if (\<not> ef_synced ef) ())))))"

text \<open>The end of the task that runs the shell: the exit code.\<close>

definition shell_exit :: "evidence_file option \<Rightarrow> shell_failure + shell_success \<Rightarrow> nat \<times> shell_evidence" where
  "shell_exit evidence_path outcome =
     (let (exit_code, evidence) =
        (case outcome of Inr success \<Rightarrow> (0, evidence_success success) | Inl failure \<Rightarrow> (1, evidence_failure failure))
      in case evidence_path of
           Some ef \<Rightarrow> if write_evidence ef evidence \<noteq> Inr () then (1, evidence) else (exit_code, evidence)
         | None \<Rightarrow> (exit_code, evidence))"

subsection \<open>Options\<close>

record shell_files =
  sf_components :: "string \<Rightarrow> path"
  sf_is_dir :: "path \<Rightarrow> bool"
  sf_try_exists :: "path \<Rightarrow> io_kind + bool"

record option_slots =
  os_bundle :: "path option"
  os_session_parent :: "path option"
  os_profile_parent :: "path option"
  os_evidence :: "path option"
  os_close_after_ready :: bool

definition set_path_option :: "shell_files \<Rightarrow> path option \<Rightarrow> string option \<Rightarrow> path option option" where
  "set_path_option fs slot v =
     (if slot \<noteq> None then None
      else let slot1 = map_option (sf_components fs) v in if slot1 = None then None else Some slot1)"

definition first :: "'a list \<Rightarrow> 'a option" where
  "first xs = (case xs of [] \<Rightarrow> None | x # _ \<Rightarrow> Some x)"

function parse_loop :: "shell_files \<Rightarrow> option_slots \<Rightarrow> string list \<Rightarrow> option_slots option" where
  "parse_loop fs s [] = Some s"
| "parse_loop fs s (argument # arguments) =
     (if argument = ''--bundle'' then
        (case set_path_option fs (os_bundle s) (first arguments) of
           None \<Rightarrow> None | Some slot \<Rightarrow> parse_loop fs (s\<lparr>os_bundle := slot\<rparr>) (tl arguments))
      else if argument = ''--session-parent'' then
        (case set_path_option fs (os_session_parent s) (first arguments) of
           None \<Rightarrow> None | Some slot \<Rightarrow> parse_loop fs (s\<lparr>os_session_parent := slot\<rparr>) (tl arguments))
      else if argument = ''--profile-parent'' then
        (case set_path_option fs (os_profile_parent s) (first arguments) of
           None \<Rightarrow> None | Some slot \<Rightarrow> parse_loop fs (s\<lparr>os_profile_parent := slot\<rparr>) (tl arguments))
      else if argument = ''--evidence'' then
        (case set_path_option fs (os_evidence s) (first arguments) of
           None \<Rightarrow> None | Some slot \<Rightarrow> parse_loop fs (s\<lparr>os_evidence := slot\<rparr>) (tl arguments))
      else if argument = ''--close-after-ready'' then
        (if os_close_after_ready s then None else parse_loop fs (s\<lparr>os_close_after_ready := True\<rparr>) arguments)
      else None)"
  by pat_completeness auto

termination
  by (relation "measure (\<lambda>(fs, s, arguments). length arguments)") auto

definition validate_options :: "shell_files \<Rightarrow> parsed_options \<Rightarrow> unit + unit" where
  "validate_options fs options =
     (if po_close_after_ready options \<noteq> (po_evidence options \<noteq> None) then Inl ()
      else if (case po_launch options of
                 ExplicitPaths bundle session_parent profile_parent \<Rightarrow>
                   \<not> sf_is_dir fs bundle \<or> \<not> sf_is_dir fs session_parent \<or> \<not> sf_is_dir fs profile_parent
               | Packaged \<Rightarrow> False) then Inl ()
      else
        case po_evidence options of
          None \<Rightarrow> Inr ()
        | Some evidence \<Rightarrow>
            (case sf_try_exists fs evidence of
               Inl _ \<Rightarrow> Inl ()
             | Inr exists \<Rightarrow>
                 if exists \<or> \<not> (case path_parent evidence of Some p \<Rightarrow> sf_is_dir fs p | None \<Rightarrow> False)
                   \<or> path_file_name evidence = Some []
                 then Inl () else Inr ()))"

definition parse_options :: "shell_files \<Rightarrow> string list \<Rightarrow> unit + parsed_options" where
  "parse_options fs arguments =
     (case parse_loop fs \<lparr>os_bundle = None, os_session_parent = None, os_profile_parent = None, os_evidence = None,
                         os_close_after_ready = False\<rparr> arguments of
        None \<Rightarrow> Inl ()
      | Some s \<Rightarrow>
          rbind (case (os_bundle s, os_session_parent s, os_profile_parent s) of
                   (None, None, None) \<Rightarrow> Inr Packaged
                 | (Some bundle, Some session_parent, Some profile_parent) \<Rightarrow>
                     Inr (ExplicitPaths bundle session_parent profile_parent)
                 | _ \<Rightarrow> Inl ()) (\<lambda>launch.
          let options = \<lparr>po_launch = launch, po_evidence = os_evidence s, po_close_after_ready = os_close_after_ready s\<rparr> in
          rbind (validate_options fs options) (\<lambda>_. Inr options)))"

subsection \<open>Packaged directories\<close>

datatype dir_op = DirCreate path | DirMetadata path

datatype dir_answer = DirMade | DirExisted | DirFailed

record dir_oracle =
  do_created :: "dir_op list \<Rightarrow> dir_answer"
  do_metadata :: "dir_op list \<Rightarrow> io_kind + metadata"
  do_resource_dir :: "path option"
  do_app_local_data_dir :: "path option"
  do_is_dir :: "path \<Rightarrow> bool"

definition ensure_directory :: "dir_oracle \<Rightarrow> path \<Rightarrow> (dir_op, shell_failure, unit) run" where
  "ensure_directory os p =
     nbind (nrun (DirCreate p)) (\<lambda>_.
     nbind (nread (do_created os)) (\<lambda>created.
     if created = DirFailed then nfail ShellPackagedPaths
     else
       nbind (nrun (DirMetadata p)) (\<lambda>_.
       nbind (nread (do_metadata os)) (\<lambda>answer.
       nbind (nlift (map_err (\<lambda>_. ShellPackagedPaths) answer)) (\<lambda>metadata.
         if \<not> md_is_dir metadata \<or> is_reparse_point metadata then nfail ShellPackagedPaths else nret ())))))"

definition resolve_options :: "dir_oracle \<Rightarrow> parsed_options \<Rightarrow> (dir_op, shell_failure, shell_options) run" where
  "resolve_options os options =
     (case po_launch options of
        ExplicitPaths bundle session_parent profile_parent \<Rightarrow>
          nret \<lparr>so_bundle = bundle, so_session_parent = session_parent, so_profile_parent = profile_parent,
                so_close_after_ready = po_close_after_ready options\<rparr>
      | Packaged \<Rightarrow>
          nbind (nlift (ok_or (do_resource_dir os) ShellPackagedPaths)) (\<lambda>bundle.
          nbind (nlift (ok_or (do_app_local_data_dir os) ShellPackagedPaths)) (\<lambda>app_data.
          nbind (ensure_directory os app_data) (\<lambda>_.
          let session_parent = path_join app_data ''sessions'';
              profile_parent = path_join app_data ''profiles'' in
          nbind (ensure_directory os session_parent) (\<lambda>_.
          nbind (ensure_directory os profile_parent) (\<lambda>_.
          if \<not> do_is_dir os (path_join bundle ''resources'') then nfail ShellPackagedPaths
          else
            nret \<lparr>so_bundle = bundle, so_session_parent = session_parent, so_profile_parent = profile_parent,
                  so_close_after_ready = po_close_after_ready options\<rparr>))))))"

subsection \<open>Signals\<close>

record shell_flags =
  fl_cleanup_started :: bool
  fl_allow_exit :: bool
  fl_signals :: "shell_signal list"

definition request_cleanup :: "shell_signal \<Rightarrow> shell_flags \<Rightarrow> shell_flags" where
  "request_cleanup signal fl =
     (if \<not> fl_cleanup_started fl then fl\<lparr>fl_cleanup_started := True, fl_signals := fl_signals fl @ [signal]\<rparr> else fl)"

datatype window_event = CloseRequested | WindowDestroyed | OtherWindowEvent

text \<open>The handlers; they answer whether closing or exiting was prevented.\<close>

definition on_window_event :: "string \<Rightarrow> window_event \<Rightarrow> shell_flags \<Rightarrow> shell_flags \<times> bool" where
  "on_window_event label event fl =
     (if label \<noteq> MAIN_WINDOW_LABEL \<or> fl_allow_exit fl then (fl, False)
      else
        case event of
          CloseRequested \<Rightarrow> (request_cleanup SignalGraceful fl, True)
        | WindowDestroyed \<Rightarrow> (request_cleanup SignalForced fl, False)
        | OtherWindowEvent \<Rightarrow> (fl, False))"

definition on_exit_requested :: "shell_flags \<Rightarrow> shell_flags \<times> bool" where
  "on_exit_requested fl = (if \<not> fl_allow_exit fl then (request_cleanup SignalGraceful fl, True) else (fl, False))"

subsection \<open>The run\<close>

datatype shell_event = SignalReceived shell_signal | ChannelClosed | HealthTimer

record shell_env =
  se_policy :: policy_env
  se_app :: app_oracle
  se_view :: view_oracle
  se_events :: "life_op list \<Rightarrow> shell_event"
  se_win_path :: "path \<Rightarrow> win_path"

text \<open>The owners go out of scope: the WebView first.\<close>

definition drop_owners :: "shell_env \<Rightarrow> native_owner \<Rightarrow> webview_owner \<Rightarrow> ('o, unit) act" where
  "drop_owners env native webview =
     abind (on_part webview (view_drop (se_view env))) (\<lambda>_.
     abind (on_part native (native_drop (se_app env))) (\<lambda>_. aret ()))"

definition shutdown_owners ::
  "shell_env \<Rightarrow> native_owner \<Rightarrow> webview_owner \<Rightarrow> string \<Rightarrow> bool \<Rightarrow> ('o, shell_failure, shell_success) tried" where
  "shutdown_owners env native webview webview2_version forced =
     abind (on_part webview (view_hide (se_view env))) (\<lambda>(webview1, _).
     abind (on_part native (if forced then native_force_shutdown (se_app env) else native_shutdown (se_app env)))
       (\<lambda>(native1, native_report).
     abind (on_part webview1 (view_shutdown (se_view env))) (\<lambda>(webview2, webview_report).
     abind (drop_owners env native1 webview2) (\<lambda>_.
       case (native_report, webview_report) of
         (Inr n, Inr v) \<Rightarrow>
           app_ok \<lparr>ss_webview2_version = webview2_version, ss_native = n, ss_webview = v, ss_forced = forced\<rparr>
       | _ \<Rightarrow> app_fail ShellShutdown))))"

definition shell_turn ::
  "shell_env \<Rightarrow> string \<Rightarrow> (native_owner \<times> webview_owner, (shell_failure + shell_success) option) act" where
  "shell_turn env webview2_version =
     abind (ask (LSelect HEALTH_POLL_INTERVAL) (se_events env)) (\<lambda>event.
     abind (owner (\<lambda>s. s)) (\<lambda>(native, webview).
     case event of
       SignalReceived signal \<Rightarrow>
         abind (shutdown_owners env native webview webview2_version (signal = SignalForced)) (\<lambda>r. aret (Some r))
     | ChannelClosed \<Rightarrow>
         abind (shutdown_owners env native webview webview2_version True) (\<lambda>r. aret (Some r))
     | HealthTimer \<Rightarrow>
         abind (on_part native (native_poll_health (se_app env))) (\<lambda>(native1, health).
         case health of
           Inr _ \<Rightarrow> abind (update (\<lambda>_. (native1, webview))) (\<lambda>_. aret None)
         | Inl _ \<Rightarrow>
             abind (on_part webview (view_hide (se_view env))) (\<lambda>(webview1, _).
             abind (on_part webview1 (view_shutdown (se_view env))) (\<lambda>(webview2, _).
             abind (drop_owners env native1 webview2) (\<lambda>_. aret (Some (Inl ShellRuntimeHealth))))))))"

definition shell_loop ::
  "shell_env \<Rightarrow> native_owner \<Rightarrow> webview_owner \<Rightarrow> string \<Rightarrow> ('o, shell_failure, shell_success) tried" where
  "shell_loop env native webview webview2_version =
     abind (on_part (native, webview) (loop_act (shell_turn env webview2_version))) (\<lambda>(_, r). app_lift r)"

definition run_shell :: "shell_env \<Rightarrow> shell_options \<Rightarrow> (unit, shell_failure, shell_success) tried" where
  "run_shell env options =
     app_bind (app_lift (map_err (\<lambda>_. ShellPreflight) (preflight_verify (se_policy env) APPLICATION_ID))) (\<lambda>preflight.
     abind (native_launch (se_app env) (so_bundle options) (se_win_path env (so_session_parent options))
              default_lifecycle_limits default_limits) (\<lambda>launched.
     case launched of
       Inl _ \<Rightarrow> app_fail ShellNativeStartup
     | Inr native \<Rightarrow>
         (case native_browser_launch native of
            Inl _ \<Rightarrow> abind (on_part native (native_drop (se_app env))) (\<lambda>_. app_fail ShellBrowserMaterial)
          | Inr browser \<Rightarrow>
              abind (view_launch (se_view env) browser (so_profile_parent options) preflight default_window_config
                       default_webview_limits) (\<lambda>opened.
              case opened of
                Inl _ \<Rightarrow>
                  abind (on_part native (native_force_shutdown (se_app env))) (\<lambda>(native1, _).
                  abind (on_part native1 (native_drop (se_app env))) (\<lambda>_. app_fail ShellWebviewStartup))
              | Inr webview \<Rightarrow>
                  if so_close_after_ready options
                  then shutdown_owners env native webview (vw_runtime_version webview) False
                  else shell_loop env native webview (vw_runtime_version webview)))))"

section \<open>Lemmas\<close>

subsection \<open>Hiding, dropping and shutting down\<close>

lemma view_hide_run:
  assumes "view_hide os w = Some (w1, r)" and "vw_window (fst w)"
  shows "w1 = (fst w, snd w @ [LView VHide]) \<and> (\<exists>x. r = Inr x)"
  using assms by (auto simp: view_hide_def abind_def owner_def ask_def Let_def)

lemma native_shutdown_answers:
  "(if forced then native_force_shutdown os else native_shutdown os) w = Some (w1, r) \<Longrightarrow> \<exists>x. r = Inr x"
  using native_force_answers by (cases forced) (auto elim: native_shutdown_run)

lemma app_held_stops:
  "(if forced then native_force_shutdown os else native_shutdown os) w = Some (w1, r) \<Longrightarrow> app_held w w1"
  by (cases forced) (auto intro: app_held_force app_held_shutdown)

lemma drop_owners_run:
  assumes "drop_owners env native webview w = Some (w1, r)"
  obtains k w2 k2 where "r = Inr ()" "fst w1 = fst w" "snd w1 = snd w @ k @ k2" "app_released native k2"
    "view_drop (se_view env) (webview, snd w) = Some (w2, Inr ())" "snd w2 = snd w @ k"
    "\<exists>w3. native_drop (se_app env) (native, snd w2) = Some (w3, Inr ()) \<and> snd w1 = snd w3"
proof -
  from assms obtain w2 x where v: "on_part webview (view_drop (se_view env)) w = Some (w2, Inr x)"
    and rest: "abind (on_part native (native_drop (se_app env))) (\<lambda>_. aret ()) w2 = Some (w1, r)"
    unfolding drop_owners_def by (rule abind_answers) (erule on_part_answers, use view_drop_run in blast)
  from rest obtain w3 y where n: "on_part native (native_drop (se_app env)) w2 = Some (w3, Inr y)"
    and last: "w1 = w3" "r = Inr ()"
    by (rule abind_answers) (erule on_part_answers, use native_drop_releases in blast, simp add: aret_def)
  from v obtain v2 z where v2: "view_drop (se_view env) (webview, snd w) = Some (v2, Inr z)" "w2 = (fst w, snd v2)" by (rule on_part_Inr)
  from n obtain n3 u where n3: "native_drop (se_app env) (native, snd w2) = Some (n3, Inr u)" "w3 = (fst w2, snd n3)" by (rule on_part_Inr)
  from view_drop_run [OF v2(1)] obtain k where k: "snd v2 = snd w @ k" by auto
  from native_drop_releases [OF n3(1)] obtain k2 where "snd n3 = snd w2 @ k2" "app_released native k2" by auto
  with k v2 n3 last show thesis by (intro that [of k k2 v2]) auto
qed

text \<open>The steps of \<open>shutdown_owners\<close>.\<close>

lemma shutdown_owners_run:
  assumes "shutdown_owners env native webview version forced w = Some (w1, r)" and "vw_window webview"
  obtains n1 h1 nr v2 h2 vr where
    "(if forced then native_force_shutdown (se_app env) else native_shutdown (se_app env)) (native, snd w @ [LView VHide])
       = Some ((n1, h1), Inr nr)"
    "view_shutdown (se_view env) (webview, h1) = Some ((v2, h2), Inr vr)"
    "drop_owners env n1 v2 (fst w, h2) = Some (w1, Inr ())"
    "r = Inr (case (nr, vr) of
           (Inr n, Inr v) \<Rightarrow> Inr \<lparr>ss_webview2_version = version, ss_native = n, ss_webview = v, ss_forced = forced\<rparr>
         | _ \<Rightarrow> Inl ShellShutdown)"
proof -
  let ?stop = "if forced then native_force_shutdown (se_app env) else native_shutdown (se_app env)"
  let ?last = "\<lambda>(nr, vr). case (nr, vr) of
         (Inr n, Inr v) \<Rightarrow>
           app_ok \<lparr>ss_webview2_version = version, ss_native = n, ss_webview = v, ss_forced = forced\<rparr>
       | _ \<Rightarrow> app_fail ShellShutdown"
  from assms(1) obtain w2 x where hide: "on_part webview (view_hide (se_view env)) w = Some (w2, Inr x)"
    and run: "(\<lambda>(webview1, _).
     abind (on_part native ?stop) (\<lambda>(native1, native_report).
     abind (on_part webview1 (view_shutdown (se_view env))) (\<lambda>(webview2, webview_report).
     abind (drop_owners env native1 webview2) (\<lambda>_. ?last (native_report, webview_report))))) x w2 = Some (w1, r)"
    unfolding shutdown_owners_def prod.case
    by (rule abind_answers) (erule on_part_answers, use view_hide_run assms(2) in fastforce)
  from hide obtain v0 z where "view_hide (se_view env) (webview, snd w) = Some (v0, Inr z)" "w2 = (fst w, snd v0)" "x = (fst v0, z)"
    by (rule on_part_Inr)
  with view_hide_run [of "se_view env" "(webview, snd w)" v0 "Inr z"] assms(2)
  have w2: "w2 = (fst w, snd w @ [LView VHide])" "fst x = webview" by auto
  from run w2 have "abind (on_part native ?stop) (\<lambda>(native1, native_report).
     abind (on_part webview (view_shutdown (se_view env))) (\<lambda>(webview2, webview_report).
     abind (drop_owners env native1 webview2) (\<lambda>_. ?last (native_report, webview_report))))
       (fst w, snd w @ [LView VHide]) = Some (w1, r)"
    by (simp add: split_def)
  then obtain w3 y where stop: "on_part native ?stop (fst w, snd w @ [LView VHide]) = Some (w3, Inr y)"
    and run3: "abind (on_part webview (view_shutdown (se_view env))) (\<lambda>(webview2, webview_report).
     abind (drop_owners env (fst y) webview2) (\<lambda>_. ?last (snd y, webview_report))) w3 = Some (w1, r)"
    by (rule abind_answers) (erule on_part_answers, erule native_shutdown_answers, simp add: split_def)
  from run3 obtain w4 z where shut: "on_part webview (view_shutdown (se_view env)) w3 = Some (w4, Inr z)"
    and run4: "abind (drop_owners env (fst y) (fst z)) (\<lambda>_. ?last (snd y, snd z)) w4 = Some (w1, r)"
    by (rule abind_answers) (erule on_part_answers, erule view_shutdown_answers, simp add: split_def)
  from run4 obtain w5 u where drop: "drop_owners env (fst y) (fst z) w4 = Some (w5, Inr u)"
    and last: "?last (snd y, snd z) w5 = Some (w1, r)"
    by (rule abind_answers) (erule drop_owners_run, blast)
  from stop obtain a where a: "?stop (native, snd w @ [LView VHide]) = Some (a, Inr (snd y))" "w3 = (fst w, snd a)" "fst y = fst a"
    by (rule on_part_Inr) auto
  from shut obtain b where b: "view_shutdown (se_view env) (webview, snd w3) = Some (b, Inr (snd z))" "w4 = (fst w3, snd b)" "fst z = fst b"
    by (rule on_part_Inr) auto
  from last have "w5 = w1" "r = Inr (case (snd y, snd z) of
           (Inr n, Inr v) \<Rightarrow> Inr \<lparr>ss_webview2_version = version, ss_native = n, ss_webview = v, ss_forced = forced\<rparr>
         | _ \<Rightarrow> Inl ShellShutdown)"
    by (auto simp: app_ok_def app_fail_def aret_def split: sum.splits)
  then show thesis
    using a b drop by (intro that [of "fst a" "snd a" "snd y" "fst b" "snd b" "snd z"]) auto
qed

text \<open>A shutdown of both owners releases everything, whatever it returns.\<close>

definition owners_released :: "native_owner \<Rightarrow> webview_owner \<Rightarrow> life_op list \<Rightarrow> bool" where
  "owners_released native webview k \<longleftrightarrow> app_released native k \<and> view_released webview k"

lemma view_released_more: "view_released ow k \<Longrightarrow> set k \<subseteq> set k1 \<Longrightarrow> view_released ow k1"
  by (auto simp: view_released_def)

text \<open>An application that was held up to now, a shutdown of the WebView and then the drop of both.\<close>

lemma closing_releases:
  assumes held: "app_held (native, h0) (n1, h1)"
    and shut: "view_shutdown os (webview, h1 @ k0) = Some ((v2, h2), Inr vr)" "vw_window webview"
    and drop: "drop_owners env n1 v2 (ow, h2) = Some (w1, r)"
  shows "\<exists>k. snd w1 = h0 @ k \<and> owners_released native webview k"
proof -
  from drop obtain k k2 where d: "snd w1 = h2 @ k @ k2" "app_released n1 k2" by (rule drop_owners_run) auto
  from view_shutdown_closes [OF shut(1)] shut(2) obtain kv where kv: "h2 = h1 @ k0 @ kv" "view_released webview kv" by auto
  from held obtain kh where kh: "h1 = h0 @ kh"
      "(job_open native \<longrightarrow> job_open n1 \<or> LCloseJob \<in> set kh)"
      "no_proxy native \<noteq> None \<longrightarrow> no_proxy n1 \<noteq> None \<or> LStopProxy \<in> set kh" by (auto simp: app_held_def)
  have "app_released native (kh @ k0 @ kv @ k @ k2)"
    using d(2) kh by (auto simp: app_released_def proxy_ended_def)
  moreover have "view_released webview (kh @ k0 @ kv @ k @ k2)" using kv(2) by (rule view_released_more) auto
  ultimately show ?thesis using d kv kh by (intro exI [of _ "kh @ k0 @ kv @ k @ k2"]) (simp add: owners_released_def)
qed

lemma shutdown_owners_releases:
  assumes "shutdown_owners env native webview version forced w = Some (w1, r)" and "vw_window webview"
  shows "(\<exists>x. r = Inr x) \<and> (\<exists>k. snd w1 = snd w @ k \<and> owners_released native webview k)"
  using assms
proof (cases rule: shutdown_owners_run)
  case (1 n1 h1 nr v2 h2 vr)
  have "app_held (native, snd w @ [LView VHide]) (n1, h1)" using app_held_stops [OF 1(1)] .
  moreover have "view_shutdown (se_view env) (webview, h1 @ []) = Some ((v2, h2), Inr vr)" using 1(2) by simp
  ultimately obtain k where "snd w1 = (snd w @ [LView VHide]) @ k" "owners_released native webview k"
    using closing_releases [OF _ _ assms(2) 1(3)] by blast
  then show ?thesis using 1(4)
    by (auto simp: owners_released_def intro!: exI [of _ "LView VHide # k"]
        elim: app_released_more [of _ k] view_released_more [of _ k])
qed

subsection \<open>The event loop\<close>

lemma native_poll_answers: "native_poll_health os w = Some (w1, r) \<Longrightarrow> \<exists>x. r = Inr x"
  by (erule native_poll_run) blast+

lemma shell_turn_run:
  assumes "shell_turn env version ((native, webview), h0) = Some (w1, r)" and "vw_window webview"
  defines "h \<equiv> h0 @ [LSelect HEALTH_POLL_INTERVAL]"
  obtains (ends) x forced where "r = Inr (Some x)" "forced \<longleftrightarrow> se_events env h \<noteq> SignalReceived SignalGraceful"
      "shutdown_owners env native webview version forced ((native, webview), h) = Some (w1, Inr x)"
    | (healthy) n1 h1 where "r = Inr None" "native_poll_health (se_app env) (native, h) = Some ((n1, h1), Inr (Inr ()))"
        "w1 = ((n1, webview), h1)"
    | (sick) n1 h1 e v2 h2 vr where "r = Inr (Some (Inl ShellRuntimeHealth))"
        "native_poll_health (se_app env) (native, h) = Some ((n1, h1), Inr (Inl e))"
        "view_shutdown (se_view env) (webview, h1 @ [LView VHide]) = Some ((v2, h2), Inr vr)"
        "drop_owners env n1 v2 ((native, webview), h2) = Some (w1, Inr ())"
proof -
  note run = assms(1) [unfolded shell_turn_def abind_ask snd_conv fst_conv, folded h_def]
  have shut: thesis
    if "abind (shutdown_owners env native webview version f) (\<lambda>x. aret (Some x)) ((native, webview), h) = Some (w1, r)"
      and f: "f \<longleftrightarrow> se_events env h \<noteq> SignalReceived SignalGraceful" for f
  proof -
    from that(1) obtain w2 x where "shutdown_owners env native webview version f ((native, webview), h) = Some (w2, Inr x)"
        "aret (Some x) w2 = Some (w1, r)"
      by (rule abind_answers) (use shutdown_owners_releases assms(2) in blast)
    then show thesis using ends [of x f] f by (auto simp: aret_def)
  qed
  show thesis
  proof (cases "se_events env h")
    case (SignalReceived s)
    with run shut [of "s = SignalForced"] show thesis by (cases s) (simp_all add: abind_def [of "owner _"] owner_def)
  next
    case ChannelClosed
    with run shut [of True] show thesis by (simp add: abind_def [of "owner _"] owner_def)
  next
    case HealthTimer
    let ?close = "\<lambda>n1 health. case health of
           Inr _ \<Rightarrow> abind (update (\<lambda>_. (n1, webview))) (\<lambda>_. aret None)
         | Inl _ \<Rightarrow>
             abind (on_part webview (view_hide (se_view env))) (\<lambda>(webview1, _).
             abind (on_part webview1 (view_shutdown (se_view env))) (\<lambda>(webview2, _).
             abind (drop_owners env n1 webview2) (\<lambda>_. aret (Some (Inl ShellRuntimeHealth)))))"
    have "abind (on_part native (native_poll_health (se_app env))) (\<lambda>(n1, health). ?close n1 health) ((native, webview), h)
        = Some (w1, r)"
      using run HealthTimer by (simp add: abind_def [of "owner _"] owner_def)
    then obtain w2 y where p: "on_part native (native_poll_health (se_app env)) ((native, webview), h) = Some (w2, Inr y)"
      and close: "(\<lambda>(n1, health). ?close n1 health) y w2 = Some (w1, r)"
      by (rule abind_answers) (erule on_part_answers, erule native_poll_answers)
    obtain n1 health where y: "y = (n1, health)" by (cases y)
    have rest: "?close n1 health w2 = Some (w1, r)" using close unfolding y prod.case .
    from p obtain a where a: "native_poll_health (se_app env) (native, h) = Some (a, Inr health)"
        "w2 = ((native, webview), snd a)" "n1 = fst a"
      by (rule on_part_Inr) (simp add: y)
    show thesis
    proof (cases health)
      case (Inr u)
      with rest a show thesis
        by (intro healthy [of "fst a" "snd a"]) (auto simp: abind_def update_def aret_def)
    next
      case (Inl e)
      with rest a have "abind (on_part webview (view_hide (se_view env))) (\<lambda>(webview1, _).
             abind (on_part webview1 (view_shutdown (se_view env))) (\<lambda>(webview2, _).
             abind (drop_owners env (fst a) webview2) (\<lambda>_. aret (Some (Inl ShellRuntimeHealth))))) w2 = Some (w1, r)"
        by simp
      then obtain w3 z where hide: "on_part webview (view_hide (se_view env)) w2 = Some (w3, Inr z)"
        and run3: "abind (on_part (fst z) (view_shutdown (se_view env))) (\<lambda>(webview2, _).
             abind (drop_owners env (fst a) webview2) (\<lambda>_. aret (Some (Inl ShellRuntimeHealth)))) w3 = Some (w1, r)"
        by (rule abind_answers) (erule on_part_answers, use view_hide_run assms(2) in fastforce, simp add: split_def)
      from hide obtain b where b: "view_hide (se_view env) (webview, snd w2) = Some (b, Inr (snd z))" "w3 = (fst w2, snd b)" "fst z = fst b"
        by (rule on_part_Inr) auto
      with view_hide_run [OF b(1)] assms(2) a have w3: "w3 = ((native, webview), snd a @ [LView VHide])" "fst z = webview" by auto
      from run3 w3 obtain w4 q where shut4: "on_part webview (view_shutdown (se_view env)) w3 = Some (w4, Inr q)"
        and run4: "abind (drop_owners env (fst a) (fst q)) (\<lambda>_. aret (Some (Inl ShellRuntimeHealth))) w4 = Some (w1, r)"
        by simp (rule abind_answers, assumption, erule on_part_answers, erule view_shutdown_answers, simp add: split_def)
      from shut4 obtain c where c: "view_shutdown (se_view env) (webview, snd w3) = Some (c, Inr (snd q))" "w4 = (fst w3, snd c)" "fst q = fst c"
        by (rule on_part_Inr) auto
      from run4 obtain w5 u where drop: "drop_owners env (fst a) (fst q) w4 = Some (w5, Inr u)"
        and last: "w5 = w1" "r = Inr (Some (Inl ShellRuntimeHealth))"
        by (rule abind_answers) (erule drop_owners_run, blast, simp add: aret_def)
      show thesis
        by (rule sick [of "fst a" "snd a" e "fst c" "snd c" "snd q"]) (use a Inl c w3 drop last in auto)
    qed
  qed
qed

text \<open>The proxy, and the Job and session of a runtime that is there, are those of \<open>a\<close>.\<close>

definition same_app :: "native_owner \<Rightarrow> native_owner \<Rightarrow> bool" where
  "same_app a b \<longleftrightarrow> no_proxy b = no_proxy a
     \<and> (\<forall>rt1. no_runtime b = Some rt1 \<longrightarrow>
          (\<exists>rt. no_runtime a = Some rt \<and> ro_process rt1 = ro_process rt \<and> ro_session rt1 = ro_session rt))"

lemma same_app_refl: "same_app a a" by (simp add: same_app_def)

lemma same_app_trans: "same_app a b \<Longrightarrow> same_app b c \<Longrightarrow> same_app a c"
  by (fastforce simp: same_app_def)

lemma healthy_same_app:
  assumes "native_poll_health os (native, h) = Some ((n1, h1), Inr (Inr ()))"
  shows "same_app native n1"
  using assms
proof (cases rule: native_poll_run)
  case (healthy rt rt1 h2)
  from monitored_fields(5,6) [OF keepsD [OF monitored_health healthy(2)]] healthy show ?thesis
    by (simp add: same_app_def)
qed simp_all

text \<open>What the turns of the loop keep until the last one.\<close>

definition shell_runs :: "(native_owner \<times> webview_owner) world \<Rightarrow> (native_owner \<times> webview_owner) world \<Rightarrow> bool" where
  "shell_runs w w1 \<longleftrightarrow> vw_window (snd (fst w)) \<longrightarrow>
     snd (fst w1) = snd (fst w) \<and> app_held (fst (fst w), snd w) (fst (fst w1), snd w1)
   \<and> (native_ok (fst (fst w)) \<longrightarrow> native_ok (fst (fst w1))) \<and> same_app (fst (fst w)) (fst (fst w1))"

interpretation shell_runs: frame shell_runs
proof unfold_locales
  show "shell_runs w w" for w by (simp add: shell_runs_def app_held_same same_app_refl)
  show "shell_runs a b \<Longrightarrow> shell_runs b c \<Longrightarrow> shell_runs a c" for a b c
    using app_held_trans same_app_trans by (fastforce simp: shell_runs_def)
qed

lemma app_held_more: "app_held (native, h) (native, h @ k)"
  by (simp add: app_held_def)

lemma shell_turn_round:
  assumes "shell_turn env version w = Some (w1, Inr None)"
  shows "shell_runs w w1"
  unfolding shell_runs_def
proof
  assume win: "vw_window (snd (fst w))"
  obtain native webview h0 where w: "w = ((native, webview), h0)" by (metis surj_pair)
  from assms [unfolded w] win [unfolded w fst_conv snd_conv] show "snd (fst w1) = snd (fst w)
    \<and> app_held (fst (fst w), snd w) (fst (fst w1), snd w1) \<and> (native_ok (fst (fst w)) \<longrightarrow> native_ok (fst (fst w1)))
    \<and> same_app (fst (fst w)) (fst (fst w1))"
  proof (cases rule: shell_turn_run)
    case (healthy n1 h1)
    have "native_step (se_app env) (native, h0 @ [LSelect HEALTH_POLL_INTERVAL]) (n1, h1)"
      using healthy(2) by (rule native_step.polled)
    from native_step_kept [OF this] have "native_ok native \<longrightarrow> native_ok n1" by (simp add: native_kept_def)
    moreover have "app_held (native, h0) (n1, h1)"
      using app_held_more app_held_poll [OF healthy(2)] by (rule app_held_trans)
    ultimately show ?thesis using healthy_same_app [OF healthy(2)] healthy(3) w by simp
  qed simp_all
qed

lemma shell_loop_run:
  assumes "shell_loop env native webview version w = Some (w1, r)" and "vw_window webview"
  obtains (turned) native0 h0 w2 x where "app_held (native, snd w) (native0, h0)" "native_ok native \<longrightarrow> native_ok native0"
    "shell_turn env version ((native0, webview), h0) = Some (w2, Inr (Some x))" "snd w1 = snd w2" "r = Inr x"
    "same_app native native0"
proof -
  let ?loop = "loop_act (shell_turn env version)"
  have last: thesis if loop: "?loop ((native, webview), snd w) = Some (w2, r2)"
      and ends: "\<And>x. r2 = Inr x \<Longrightarrow> snd w1 = snd w2 \<and> r = Inr x" for w2 r2
  proof -
    have "\<exists>w0. shell_runs ((native, webview), snd w) w0
        \<and> (case r2 of Inl e \<Rightarrow> shell_turn env version w0 = Some (w2, Inl e)
           | Inr x \<Rightarrow> shell_turn env version w0 = Some (w2, Inr (Some x)))"
      by (rule shell_runs.loop_turn [OF _ loop]) (rule shell_turn_round)
    then obtain w0 where w0: "shell_runs ((native, webview), snd w) w0"
      and turn: "case r2 of Inl e \<Rightarrow> shell_turn env version w0 = Some (w2, Inl e)
                 | Inr x \<Rightarrow> shell_turn env version w0 = Some (w2, Inr (Some x))" by blast
    obtain native0 h0 where n0: "w0 = ((native0, webview), h0)" "app_held (native, snd w) (native0, h0)"
        "native_ok native \<longrightarrow> native_ok native0" "same_app native native0"
      using w0 assms(2) by (cases w0; cases "fst w0") (auto simp: shell_runs_def)
    show thesis
    proof (cases r2)
      case (Inl e)
      with turn n0 have "shell_turn env version ((native0, webview), h0) = Some (w2, Inl e)" by simp
      then show thesis using assms(2) by (cases rule: shell_turn_run) simp_all
    next
      case (Inr x)
      with turn n0 ends show thesis by (intro turned [of native0 h0 w2 x]) auto
    qed
  qed
  from assms(1) obtain w3 r3 where outer: "on_part (native, webview) ?loop w = Some (w3, r3)"
    by (auto simp: shell_loop_def abind_def split: option.splits)
  then obtain w2 r2 where loop: "?loop ((native, webview), snd w) = Some (w2, r2)"
      "w3 = (fst w, snd w2)" "r3 = (case r2 of Inl e \<Rightarrow> Inl e | Inr x \<Rightarrow> Inr (fst w2, x))"
    unfolding on_part_Some by blast
  show thesis
    by (rule last [OF loop(1)]) (use assms(1) outer loop in \<open>auto simp: shell_loop_def abind_def app_lift_def aret_def\<close>)
qed

lemma shell_loop_releases:
  assumes "shell_loop env native webview version w = Some (w1, r)" and win: "vw_window webview"
  shows "(\<exists>x. r = Inr x) \<and> (\<exists>k. snd w1 = snd w @ k \<and> owners_released native webview k)"
  using assms
proof (cases rule: shell_loop_run)
  case (turned native0 h0 w2 x)
  have held: "app_held (native, snd w) (native0, h0 @ [LSelect HEALTH_POLL_INTERVAL])"
    using turned(1) app_held_more by (rule app_held_trans)
  from turned(3) win show ?thesis
  proof (cases rule: shell_turn_run)
    case (ends y forced)
    obtain k where k: "snd w2 = (h0 @ [LSelect HEALTH_POLL_INTERVAL]) @ k" "owners_released native0 webview k"
      using shutdown_owners_releases [OF ends(3) win] by auto
    obtain kh where kh: "h0 @ [LSelect HEALTH_POLL_INTERVAL] = snd w @ kh"
      "(job_open native \<longrightarrow> job_open native0 \<or> LCloseJob \<in> set kh)"
      "no_proxy native \<noteq> None \<longrightarrow> no_proxy native0 \<noteq> None \<or> LStopProxy \<in> set kh" using held by (auto simp: app_held_def)
    have "owners_released native webview (kh @ k)"
      using k(2) kh by (auto simp: owners_released_def app_released_def view_released_def proxy_ended_def)
    then show ?thesis using k kh turned(4,5) by auto
  next
    case (sick n1 h1 e v2 h2 vr)
    have "app_held (native, snd w) (n1, h1)" using held app_held_poll [OF sick(2)] by (rule app_held_trans)
    from closing_releases [OF this sick(3) win sick(4)] show ?thesis using turned(4,5) by auto
  qed simp_all
qed

subsection \<open>The run\<close>

text \<open>An application that was launched holds its Job and its proxy.\<close>

lemma native_launched:
  assumes "native_launch os path parent ll traffic w = Some (w1, Inr (Inr native))"
  shows "native_ok native \<and> job_open native \<and> no_proxy native \<noteq> None \<and> (\<exists>browser. native_browser_launch native = Inr browser)"
  using assms
proof (cases rule: native_launch_run)
  case (launched ow rt proxy port resources)
  note l = launch_outcome [OF launched(10), unfolded sum.case]
  then have "ro_process rt \<noteq> None" by (auto simp: owner_ok_def holds_all_def)
  with l launched(1,5,6) show ?thesis
    by (simp add: native_ok_def job_open_def native_browser_launch_def ok_or_def rbind_def)
qed simp_all

lemma view_launch_window:
  "view_launch os browser parent preflight config limits w = Some (w1, Inr (Inr webview)) \<Longrightarrow>
     vw_window webview \<and> (\<exists>k. snd w1 = snd w @ k) \<and> (\<exists>p. sp_path (vw_profile webview) = Some p)
       \<and> vw_runtime_version webview = pf_actual_version preflight"
  by (drule view_launch_outcome) (auto simp: Let_def)

lemma view_launch_withdrawn:
  assumes "view_launch os browser parent preflight config limits w = Some (w1, Inr (Inl e))"
  shows "view_withdrawn os parent (snd w) (snd w1) \<and> (\<exists>k. snd w1 = snd w @ k)"
  using view_launch_outcome [OF assms] by (auto simp: view_withdrawn_def)

definition shell_launch ::
  "shell_env \<Rightarrow> shell_options \<Rightarrow> (unit, native_app_error, native_owner) tried" where
  "shell_launch env options =
     native_launch (se_app env) (so_bundle options) (se_win_path env (so_session_parent options))
       default_lifecycle_limits default_limits"

definition shell_open ::
  "shell_env \<Rightarrow> shell_options \<Rightarrow> native_owner \<Rightarrow> preflight \<Rightarrow>
     (unit, webview_error, webview_owner) tried" where
  "shell_open env options native preflight w =
     (case native_browser_launch native of
        Inl _ \<Rightarrow> None
      | Inr browser \<Rightarrow>
          view_launch (se_view env) browser (so_profile_parent options) preflight default_window_config
            default_webview_limits w)"

lemma run_shell_run:
  assumes "run_shell env options w = Some (w1, r)"
  obtains (unfit) "snd w1 = snd w" "r = Inr (Inl ShellPreflight)"
    | (unlaunched) e where "shell_launch env options w = Some (w1, Inr (Inl e))" "r = Inr (Inl ShellNativeStartup)"
    | (unopened) native w2 preflight w3 e n1 h4 x w5 where
        "shell_launch env options w = Some (w2, Inr (Inr native))"
        "shell_open env options native preflight w2 = Some (w3, Inr (Inl e))"
        "native_force_shutdown (se_app env) (native, snd w3) = Some ((n1, h4), Inr x)"
        "native_drop (se_app env) (n1, h4) = Some (w5, Inr ())" "snd w1 = snd w5" "r = Inr (Inl ShellWebviewStartup)"
    | (opened) native w2 preflight webview w3 where
        "preflight_verify (se_policy env) APPLICATION_ID = Inr preflight"
        "shell_launch env options w = Some (w2, Inr (Inr native))"
        "shell_open env options native preflight w2 = Some (w3, Inr (Inr webview))"
        "(if so_close_after_ready options
          then shutdown_owners env native webview (vw_runtime_version webview) False
          else shell_loop env native webview (vw_runtime_version webview)) w3 = Some (w1, r)"
proof (cases "preflight_verify (se_policy env) APPLICATION_ID")
  case (Inl e)
  with assms show thesis
    by (intro unfit) (auto simp: run_shell_def app_bind_lift map_err_def app_fail_def aret_def app_bind_def app_lift_def abind_def)
next
  case pf: (Inr preflight)
  let ?native = "native_launch (se_app env) (so_bundle options) (se_win_path env (so_session_parent options))
              default_lifecycle_limits default_limits"
  let ?open = "\<lambda>browser. view_launch (se_view env) browser (so_profile_parent options) preflight default_window_config
                       default_webview_limits"
  let ?cont = "\<lambda>native opened. case opened of
                Inl _ \<Rightarrow>
                  abind (on_part native (native_force_shutdown (se_app env))) (\<lambda>(native1, _).
                  abind (on_part native1 (native_drop (se_app env))) (\<lambda>_. app_fail ShellWebviewStartup))
              | Inr webview \<Rightarrow>
                  if so_close_after_ready options
                  then shutdown_owners env native webview (vw_runtime_version webview) False
                  else shell_loop env native webview (vw_runtime_version webview)"
  have "abind ?native (\<lambda>launched.
     case launched of
       Inl _ \<Rightarrow> app_fail ShellNativeStartup
     | Inr native \<Rightarrow>
         (case native_browser_launch native of
            Inl _ \<Rightarrow> abind (on_part native (native_drop (se_app env))) (\<lambda>_. app_fail ShellBrowserMaterial)
          | Inr browser \<Rightarrow> abind (?open browser) (?cont native))) w = Some (w1, r)"
    using assms pf by (simp add: run_shell_def app_bind_lift map_err_def)
  then obtain w2 launched where n: "?native w = Some (w2, Inr launched)"
    and run: "(case launched of
       Inl _ \<Rightarrow> app_fail ShellNativeStartup
     | Inr native \<Rightarrow>
         (case native_browser_launch native of
            Inl _ \<Rightarrow> abind (on_part native (native_drop (se_app env))) (\<lambda>_. app_fail ShellBrowserMaterial)
          | Inr browser \<Rightarrow> abind (?open browser) (?cont native))) w2 = Some (w1, r)"
    by (rule abind_answers) (erule native_launch_run, blast, blast)
  note n = n [folded shell_launch_def]
  show thesis
  proof (cases launched)
    case (Inl e)
    with run n show thesis by (intro unlaunched [of e]) (auto simp: app_fail_def aret_def)
  next
    case launched: (Inr native)
    from native_launched n launched obtain browser where b: "native_browser_launch native = Inr browser"
      unfolding shell_launch_def by blast
    from run launched b have "abind (?open browser) (?cont native) w2 = Some (w1, r)" by simp
    then obtain w3 opened where v: "?open browser w2 = Some (w3, Inr opened)" and rest: "?cont native opened w3 = Some (w1, r)"
    proof (rule abind_answers)
      show "\<exists>x. r2 = Inr x" if "?open browser w2 = Some (w3, r2)" for w3 r2
        using view_launch_outcome [OF that] by (cases r2) simp_all
    qed
    have v': "shell_open env options native preflight w2 = Some (w3, Inr opened)" using v b by (simp add: shell_open_def)
    show thesis
    proof (cases opened)
      case (Inr webview)
      with rest show thesis by (intro opened [OF pf n [unfolded launched] v' [unfolded Inr]]) simp
    next
      case (Inl e)
      with rest have "abind (on_part native (native_force_shutdown (se_app env))) (\<lambda>(native1, _).
                  abind (on_part native1 (native_drop (se_app env))) (\<lambda>_. app_fail ShellWebviewStartup)) w3 = Some (w1, r)"
        by simp
      then obtain w4 y where f: "on_part native (native_force_shutdown (se_app env)) w3 = Some (w4, Inr y)"
        and run4: "abind (on_part (fst y) (native_drop (se_app env))) (\<lambda>_. app_fail ShellWebviewStartup) w4 = Some (w1, r)"
        by (rule abind_answers) (erule on_part_answers, erule native_force_answers, simp add: split_def)
      from run4 obtain w5 u where d: "on_part (fst y) (native_drop (se_app env)) w4 = Some (w5, Inr u)"
        and last: "w1 = w5" "r = Inr (Inl ShellWebviewStartup)"
        by (rule abind_answers) (erule on_part_answers, use native_drop_releases in blast, simp add: app_fail_def aret_def)
      from f obtain a where a: "native_force_shutdown (se_app env) (native, snd w3) = Some (a, Inr (snd y))" "w4 = (fst w3, snd a)" "fst y = fst a"
        by (rule on_part_Inr) auto
      from d obtain c q where c: "native_drop (se_app env) (fst y, snd w4) = Some (c, Inr q)" "w5 = (fst w4, snd c)"
        by (rule on_part_Inr) auto
      show thesis
        by (rule unopened [OF n [unfolded launched] v' [unfolded Inl], of "fst a" "snd a" "snd y" c]) (use a c last in auto)
    qed
  qed
qed

text \<open>What the rest of a run did after \<open>h0\<close>, when the application is running and the WebView was opened or not.\<close>

definition run_released :: "shell_env \<Rightarrow> shell_options \<Rightarrow> life_op list \<Rightarrow> life_op list \<Rightarrow> webview_error + webview_owner \<Rightarrow>
    life_op list \<Rightarrow> shell_failure + shell_success \<Rightarrow> bool" where
  "run_released env options h0 h1 opened h r \<longleftrightarrow>
     (\<exists>k0. h1 = h0 @ k0)
   \<and> (\<exists>k. h = h1 @ k \<and> LCloseJob \<in> set k \<and> (LStopProxy \<in> set k \<or> LDropProxy \<in> set k)
        \<and> (case opened of
             Inl _ \<Rightarrow> True
           | Inr webview \<Rightarrow>
               (\<exists>p. sp_path (vw_profile webview) = Some p \<and> {LView VDestroy, LView (VRemoveProfile p)} \<subseteq> set k)))
   \<and> (case opened of
        Inl _ \<Rightarrow> r = Inl ShellWebviewStartup \<and> view_withdrawn (se_view env) (so_profile_parent options) h0 h1
      | Inr _ \<Rightarrow> True)"

subsection \<open>Success\<close>

text \<open>The end of a run that reports success.  \<open>h0\<close> is the history in which the WebView was open.\<close>

definition shell_closed ::
  "shell_env \<Rightarrow> native_owner \<Rightarrow> webview_owner \<Rightarrow> life_op list \<Rightarrow> life_op list \<Rightarrow> shell_success \<Rightarrow> bool" where
  "shell_closed env native webview h0 h s \<longleftrightarrow>
     (\<exists>rt0 rt rt1 a k q. h = h0 @ a @ k @ q
        \<and> no_runtime native = Some rt0 \<and> ro_process rt = ro_process rt0 \<and> ro_session rt = ro_session rt0
        \<and> (if ss_forced s then force_shutdown (ao_life (se_app env)) else shutdown (ao_life (se_app env))) (rt, h0 @ a)
            = Some ((rt1, h0 @ a @ k), Inr (nr_runtime (ss_native s)))
        \<and> report_true (ao_life (se_app env)) (rt1, h0 @ a @ k) (nr_runtime (ss_native s))
        \<and> session_gone (ao_life (se_app env)) rt (h0 @ a @ k)
        \<and> (sr_kind (nr_runtime (ss_native s)) = Forced \<longleftrightarrow> (\<exists>c. LTerminate c \<in> set k)))
   \<and> (\<exists>a q. h = h0 @ a @ [LStopProxy] @ q \<and> proxy_ended_cleanly (se_app env) (h0 @ a @ [LStopProxy]))
   \<and> (\<exists>g a q cookies. h = h0 @ g @ a @ [LView VClearData, LView VDestroy] @ q
        \<and> cookie_cleanup (se_view env) (wl_poll_interval (vw_limits webview)) (h0 @ g) a True
        \<and> vo_cookies (se_view env) (h0 @ g @ a) = Some cookies \<and> no_session_cookie cookies
        \<and> vo_cleared (se_view env) (h0 @ g @ a @ [LView VClearData])
        \<and> vo_destroyed (se_view env) (h0 @ g @ a @ [LView VClearData, LView VDestroy]))
   \<and> profile_gone (se_view env) (vw_profile webview) h"

lemma shell_closed_later:
  "shell_closed env native webview (h0 @ k0) h s \<Longrightarrow> shell_closed env native webview h0 h s"
  unfolding shell_closed_def append_assoc by (elim conjE, intro conjI) (metis append_assoc)+

lemma shell_closed_same:
  "same_app native n1 \<Longrightarrow> shell_closed env n1 webview h0 h s \<Longrightarrow> shell_closed env native webview h0 h s"
  unfolding shell_closed_def same_app_def by (elim conjE exE, intro conjI) metis+

definition success_flags :: "shell_success \<Rightarrow> bool" where
  "success_flags s \<longleftrightarrow> nr_proxy_stopped (ss_native s)
   \<and> sr_job_empty (nr_runtime (ss_native s)) \<and> sr_session_removed (nr_runtime (ss_native s))
   \<and> (ss_forced s \<longrightarrow> sr_kind (nr_runtime (ss_native s)) = Forced)
   \<and> ss_webview s = \<lparr>vr_session_cookie_absent = True, vr_browsing_data_clear_queued = True,
                    vr_window_destroyed = True, vr_profile_removed = True\<rparr>"

lemma forced_kind:
  assumes "force_shutdown os w = Some (w1, Inr report)"
  shows "sr_kind report = Forced"
proof -
  have "force_and_cleanup os (marked w) = Some (w1, Inr report)" using force_shutdown_run [OF assms] by blast
  then show ?thesis by (cases rule: force_and_cleanup_run) auto
qed

text \<open>Dropping owners that hold nothing has no effect.\<close>

lemma drop_owners_nothing:
  assumes "drop_owners env native webview w = Some (w1, r)"
    and "no_proxy native = None" "no_runtime native = None" "\<not> vw_window webview" "is_removed (vw_profile webview)"
  shows "snd w1 = snd w"
  using assms(1)
proof (cases rule: drop_owners_run)
  case (1 k w2 k2)
  have "snd w2 = snd w"
    using 1(5) assms(4,5) by (auto simp: view_drop_def abind_def act_defs drop_profile_def is_removed_def)
  moreover have "snd w3 = snd w2" if "native_drop (se_app env) (native, snd w2) = Some (w3, Inr ())" for w3
    using that assms(2,3) by (auto simp: native_drop_def abind_def act_defs)
  ultimately show ?thesis using 1(7) by auto
qed

lemma shutdown_owners_success:
  assumes "shutdown_owners env native webview version forced w = Some (w1, Inr (Inr s))"
    and win: "vw_window webview" and ok: "native_ok native" and proxy: "no_proxy native \<noteq> None"
  shows "ss_webview2_version s = version \<and> ss_forced s = forced \<and> success_flags s
    \<and> shell_closed env native webview (snd w) (snd w1) s"
  using assms(1) win
proof (cases rule: shutdown_owners_run)
  case (1 n1 h1 nr v2 h2 vr)
  let ?h = "snd w @ [LView VHide]"
  from 1(4) obtain n v where nv: "nr = Inr n" "vr = Inr v"
    and s: "s = \<lparr>ss_webview2_version = version, ss_native = n, ss_webview = v, ss_forced = forced\<rparr>"
    by (auto split: sum.splits)
  have ok': "native_ok (fst (native, ?h))" using ok by simp
  have run: "native_shutdown (se_app env) (native, ?h) = Some ((n1, h1), Inr (Inr n)) \<and> forced = False
       \<or> native_force_shutdown (se_app env) (native, ?h) = Some ((n1, h1), Inr (Inr n)) \<and> forced = True"
    using 1(1) nv(1) by (cases forced) simp_all
  define stop where "stop = [LStopProxy]"
  define a where "a = (if forced then stop else [])"
  define q where "q = (if forced then [] else stop)"
  from native_report_outcome [OF ok' run] obtain rt rt1 k where
      gone: "nr_proxy_stopped n" "no_proxy n1 = None" "no_runtime n1 = None"
    and rt: "(if forced then force_shutdown (ao_life (se_app env)) else shutdown (ao_life (se_app env))) (rt, ?h @ a)
        = Some ((rt1, ?h @ a @ k), Inr (nr_runtime n))"
      "h1 = ?h @ a @ k @ q" "report_true (ao_life (se_app env)) (rt1, ?h @ a @ k) (nr_runtime n)"
      "session_gone (ao_life (se_app env)) rt (?h @ a @ k)" "no_runtime native = Some rt"
      "proxy_ended_cleanly (se_app env) (if forced then ?h @ a else h1)"
    using proxy by (cases forced) (auto simp: Let_def stop_def a_def q_def)
  have out: "shutdown (ao_life (se_app env)) (rt, ?h @ a) = Some ((rt1, ?h @ a @ k), Inr (nr_runtime n))
      \<or> force_shutdown (ao_life (se_app env)) (rt, ?h @ a) = Some ((rt1, ?h @ a @ k), Inr (nr_runtime n))"
    using rt(1) by (cases forced) simp_all
  have kind: "sr_kind (nr_runtime n) = Forced \<longleftrightarrow> (\<exists>c. LTerminate c \<in> set k)"
    using shutdown_outcome [OF out] by simp
  from view_shutdown_outcome [OF 1(2) [unfolded nv(2)]] obtain b q2 cookies where
      v: "v = \<lparr>vr_session_cookie_absent = True, vr_browsing_data_clear_queued = True,
                  vr_window_destroyed = True, vr_profile_removed = True\<rparr>"
        "\<not> vw_window v2" "is_removed (vw_profile v2)" "profile_gone (se_view env) (vw_profile webview) h2"
    and b: "h2 = (h1 @ b) @ [LView VClearData, LView VDestroy] @ q2"
        "cookie_cleanup (se_view env) (wl_poll_interval (vw_limits webview)) h1 b True"
        "vo_cookies (se_view env) (h1 @ b) = Some cookies" "no_session_cookie cookies"
        "vo_cleared (se_view env) ((h1 @ b) @ [LView VClearData])"
        "vo_destroyed (se_view env) ((h1 @ b) @ [LView VClearData, LView VDestroy])"
    by (auto simp: Let_def)
  have w1: "snd w1 = h2" using drop_owners_nothing [OF 1(3) gone(2,3) v(2,3)] by simp
  have closed: "shell_closed env native webview ?h (snd w1) s"
    unfolding shell_closed_def
  proof (intro conjI)
    show "\<exists>rt0 rt rt1 a k q. snd w1 = ?h @ a @ k @ q
        \<and> no_runtime native = Some rt0 \<and> ro_process rt = ro_process rt0 \<and> ro_session rt = ro_session rt0
        \<and> (if ss_forced s then force_shutdown (ao_life (se_app env)) else shutdown (ao_life (se_app env))) (rt, ?h @ a)
            = Some ((rt1, ?h @ a @ k), Inr (nr_runtime (ss_native s)))
        \<and> report_true (ao_life (se_app env)) (rt1, ?h @ a @ k) (nr_runtime (ss_native s))
        \<and> session_gone (ao_life (se_app env)) rt (?h @ a @ k)
        \<and> (sr_kind (nr_runtime (ss_native s)) = Forced \<longleftrightarrow> (\<exists>c. LTerminate c \<in> set k))"
      using rt kind w1 b(1) s
      by (intro exI [of _ rt] exI [of _ rt] exI [of _ rt1] exI [of _ a] exI [of _ k]
          exI [of _ "q @ b @ [LView VClearData, LView VDestroy] @ q2"]) simp
    show "\<exists>a q. snd w1 = ?h @ a @ [LStopProxy] @ q \<and> proxy_ended_cleanly (se_app env) (?h @ a @ [LStopProxy])"
    proof (cases forced)
      case True
      then show ?thesis using rt(2,6) w1 b(1)
        by (intro exI [of _ "[]"] exI [of _ "k @ q @ b @ [LView VClearData, LView VDestroy] @ q2"])
          (simp add: a_def stop_def)
    next
      case False
      then show ?thesis using rt(2,6) w1 b(1)
        by (intro exI [of _ "a @ k"] exI [of _ "b @ [LView VClearData, LView VDestroy] @ q2"])
          (simp add: q_def stop_def)
    qed
    show "\<exists>g a q cookies. snd w1 = ?h @ g @ a @ [LView VClearData, LView VDestroy] @ q
        \<and> cookie_cleanup (se_view env) (wl_poll_interval (vw_limits webview)) (?h @ g) a True
        \<and> vo_cookies (se_view env) (?h @ g @ a) = Some cookies \<and> no_session_cookie cookies
        \<and> vo_cleared (se_view env) (?h @ g @ a @ [LView VClearData])
        \<and> vo_destroyed (se_view env) (?h @ g @ a @ [LView VClearData, LView VDestroy])"
      using b w1 rt(2) by (intro exI [of _ "a @ k @ q"] exI [of _ b] exI [of _ q2] exI [of _ cookies]) simp
    show "profile_gone (se_view env) (vw_profile webview) (snd w1)" using v w1 by simp
  qed
  have "sr_kind (nr_runtime n) = Forced" if forced using that rt(1) forced_kind by simp
  then have "success_flags s" using gone(1) rt(3) v(1) s by (simp add: success_flags_def report_true_def)
  then show ?thesis using shell_closed_later [OF closed] s by simp
qed

lemma shell_loop_success:
  assumes "shell_loop env native webview version w = Some (w1, Inr (Inr s))"
    and win: "vw_window webview" and ok: "native_ok native" and proxy: "no_proxy native \<noteq> None"
  shows "ss_webview2_version s = version \<and> success_flags s \<and> shell_closed env native webview (snd w) (snd w1) s"
  using assms(1) win
proof (cases rule: shell_loop_run)
  case (turned native0 h0 w2 x)
  obtain kh where kh: "h0 @ [LSelect HEALTH_POLL_INTERVAL] = snd w @ kh" using turned(1) by (auto simp: app_held_def)
  from turned(3) win show ?thesis
  proof (cases rule: shell_turn_run)
    case (ends y forced)
    have "shutdown_owners env native0 webview version forced ((native0, webview), snd w @ kh) = Some (w2, Inr (Inr s))"
      using ends(1,3) turned(5) kh by simp
    moreover have "no_proxy native0 \<noteq> None" using turned(6) proxy by (simp add: same_app_def)
    ultimately have "ss_webview2_version s = version \<and> success_flags s
        \<and> shell_closed env native0 webview (snd w @ kh) (snd w2) s"
      using shutdown_owners_success [OF _ win, of env native0 version forced "((native0, webview), snd w @ kh)" w2 s]
        turned(2) ok by simp
    then show ?thesis
      using shell_closed_same [OF turned(6) shell_closed_later [of env native0 webview "snd w" kh "snd w2" s]] turned(4) by simp
  next
    case (sick n1 h1 e v2 h2 vr)
    then show ?thesis using turned(5) by simp
  qed simp_all
qed

subsection \<open>Signals\<close>

text \<open>The events of the main thread, with the moment the task of the shell ends and lets the application exit.\<close>

datatype ui_event = UiWindow string window_event | UiExitRequested | UiAllowExit

fun ui_step :: "ui_event \<Rightarrow> shell_flags \<Rightarrow> shell_flags \<times> bool" where
  "ui_step (UiWindow label event) fl = on_window_event label event fl"
| "ui_step UiExitRequested fl = on_exit_requested fl"
| "ui_step UiAllowExit fl = (fl\<lparr>fl_allow_exit := True\<rparr>, False)"

definition ui_run :: "ui_event list \<Rightarrow> shell_flags" where
  "ui_run events = foldl (\<lambda>fl event. fst (ui_step event fl))
     \<lparr>fl_cleanup_started = False, fl_allow_exit = False, fl_signals = []\<rparr> events"

definition signals_ok :: "shell_flags \<Rightarrow> bool" where
  "signals_ok fl \<longleftrightarrow> length (fl_signals fl) = (if fl_cleanup_started fl then 1 else 0)"

lemmas ui_defs = on_window_event_def on_exit_requested_def request_cleanup_def

lemma ui_step_ok: "signals_ok fl \<Longrightarrow> signals_ok (fst (ui_step event fl))"
  by (cases event) (auto simp: ui_defs signals_ok_def split: window_event.splits)

lemma ui_step_prevents:
  assumes "snd (ui_step event fl)"
  shows "\<not> fl_allow_exit fl \<and> fl_cleanup_started (fst (ui_step event fl))"
  using assms by (cases event) (auto simp: ui_defs split: window_event.splits if_splits)

lemma ui_run_snoc: "ui_run (events @ [event]) = fst (ui_step event (ui_run events))"
  by (simp add: ui_run_def)

lemma ui_run_ok: "signals_ok (ui_run events)"
proof (induction events rule: rev_induct)
  case Nil
  show ?case by (simp add: ui_run_def signals_ok_def)
next
  case (snoc event events)
  then show ?case by (simp add: ui_run_snoc ui_step_ok)
qed

lemma ui_step_keeps: "fl_signals (fst (ui_step event fl)) = fl_signals fl \<or> \<not> fl_cleanup_started fl"
  by (cases event) (auto simp: ui_defs split: window_event.splits)

section \<open>Properties\<close>

text \<open>C27: Whatever the run of the shell returns, nothing it started is left.  It never got to the processes, or the
  launch of the application withdrew everything, or an application was launched: then after the launch the
  Job was closed and the proxy stopped or dropped; a WebView that did not open withdrew its
  profile and window, and one that opened was destroyed and the removal of its profile tried.\<close>

theorem shell_leaves_nothing:
  assumes "run_shell env options w = Some (w1, r)"
  shows "case r of
      Inl _ \<Rightarrow> False
    | Inr x \<Rightarrow>
        x = Inl ShellPreflight \<and> snd w1 = snd w
      \<or> x = Inl ShellNativeStartup \<and> launch_withdrawn (se_app env) (snd w) (snd w1)
      \<or> (\<exists>native w2 preflight w3 opened.
           shell_launch env options w = Some (w2, Inr (Inr native))
         \<and> shell_open env options native preflight w2 = Some (w3, Inr opened)
         \<and> run_released env options (snd w2) (snd w3) opened (snd w1) x)"
  using assms
proof (cases rule: run_shell_run)
  case unfit
  then show ?thesis by simp
next
  case (unlaunched e)
  then have "launch_withdrawn (se_app env) (snd w) (snd w1)"
    unfolding shell_launch_def by (auto elim: native_launch_run)
  with unlaunched show ?thesis by simp
next
  case (unopened native w2 preflight w3 e n1 h4 x w5)
  have n: "job_open native" "no_proxy native \<noteq> None"
    using native_launched unopened(1) unfolding shell_launch_def by blast+
  have v: "view_withdrawn (se_view env) (so_profile_parent options) (snd w2) (snd w3)" "\<exists>k. snd w3 = snd w2 @ k"
    using view_launch_withdrawn unopened(2) by (auto simp: shell_open_def split: sum.splits)
  obtain k where "snd w5 = snd (n1, h4) @ k" "app_released n1 k"
    using native_drop_releases [OF unopened(4)] by auto
  then obtain k1 where "snd w1 = snd w3 @ k1" "app_released native k1"
    using app_held_released [OF app_held_force [OF unopened(3)], of w5 "[]" k] unopened(5) by auto
  then have "run_released env options (snd w2) (snd w3) (Inl e) (snd w1) (Inl ShellWebviewStartup)"
    using n v by (auto simp: run_released_def app_released_def proxy_ended_def)
  then show ?thesis using unopened(1,2) unfolding unopened(6) sum.case by blast
next
  case (opened native w2 preflight webview w3)
  have n: "job_open native" "no_proxy native \<noteq> None"
    using native_launched opened(2) unfolding shell_launch_def by blast+
  have v: "vw_window webview" "\<exists>k. snd w3 = snd w2 @ k" "\<exists>p. sp_path (vw_profile webview) = Some p"
    using view_launch_window opened(3) by (auto simp: shell_open_def split: sum.splits)
  have "(\<exists>x. r = Inr x) \<and> (\<exists>k. snd w1 = snd w3 @ k \<and> owners_released native webview k)"
  proof (cases "so_close_after_ready options")
    case True
    with opened(4) shutdown_owners_releases [OF _ v(1)] show ?thesis by simp blast
  next
    case False
    with opened(4) shell_loop_releases [OF _ v(1)] show ?thesis by simp blast
  qed
  then obtain k x where r: "r = Inr x" and k: "snd w1 = snd w3 @ k" "owners_released native webview k" by blast
  have "run_released env options (snd w2) (snd w3) (Inr webview) (snd w1) x"
    using n v k by (auto simp: run_released_def owners_released_def app_released_def view_released_def proxy_ended_def)
  then show ?thesis using opened(2,3) unfolding r sum.case by blast
qed

text \<open>C28: Success means that everything was cleaned up.  When the run of the shell reports success, every
  flag of the evidence it writes is true, the version is the one the preflight verified, and the shutdown is reported as
  forced only with a runtime that was terminated.  The flags are facts of the history: the Job of the launched
  runtime was seen empty before it was closed and its private session removed; the proxy was stopped and its
  shutdown answered Ok, every listener having returned without an error and no task having panicked; every session
  cookie that was seen was deleted and the last look found none before data was cleared and the window
  destroyed; and the removal of the profile, the last effect of all, was seen to succeed.\<close>

theorem shell_success_truthful:
  assumes "run_shell env options w = Some (w1, Inr (Inr s))"
  shows "\<exists>preflight native w2 webview w3.
      preflight_verify (se_policy env) APPLICATION_ID = Inr preflight
    \<and> shell_launch env options w = Some (w2, Inr (Inr native))
    \<and> shell_open env options native preflight w2 = Some (w3, Inr (Inr webview))
    \<and> (so_close_after_ready options \<longrightarrow> \<not> ss_forced s)
    \<and> (let graceful = (sr_kind (nr_runtime (ss_native s)) = Graceful) in
         evidence_success s =
           \<lparr>ev_schema_version = 1, ev_success = True, ev_failure_stage = None,
            ev_webview2_version = Some (pf_actual_version preflight), ev_forced_shutdown = ss_forced s,
            ev_graceful_runtime_shutdown = graceful, ev_proxy_stopped = True, ev_job_empty = True,
            ev_private_session_removed = True, ev_session_cookie_absent = True, ev_browsing_data_clear_queued = True,
            ev_window_destroyed = True, ev_profile_removed = True\<rparr>
       \<and> (ss_forced s \<longrightarrow> \<not> graceful))
    \<and> shell_closed env native webview (snd w3) (snd w1) s"
  using assms
proof (cases rule: run_shell_run)
  case (opened native w2 preflight webview w3)
  have ok: "native_ok native" "no_proxy native \<noteq> None"
    using native_launched opened(2) unfolding shell_launch_def by blast+
  have v: "vw_window webview" "vw_runtime_version webview = pf_actual_version preflight"
    using view_launch_window opened(3) by (auto simp: shell_open_def split: sum.splits)
  have "ss_webview2_version s = pf_actual_version preflight \<and> success_flags s
      \<and> (so_close_after_ready options \<longrightarrow> \<not> ss_forced s) \<and> shell_closed env native webview (snd w3) (snd w1) s"
  proof (cases "so_close_after_ready options")
    case True
    with opened(4) have "shutdown_owners env native webview (vw_runtime_version webview) False w3 = Some (w1, Inr (Inr s))" by simp
    from shutdown_owners_success [OF this v(1) ok] v(2) show ?thesis by simp
  next
    case False
    with opened(4) have "shell_loop env native webview (vw_runtime_version webview) w3 = Some (w1, Inr (Inr s))" by simp
    from shell_loop_success [OF this v(1) ok] v(2) False show ?thesis by simp
  qed
  then show ?thesis using opened(1-3)
    by (intro exI [of _ preflight] exI [of _ native] exI [of _ w2] exI [of _ webview] exI [of _ w3])
      (simp add: evidence_success_def success_flags_def)
qed simp_all

text \<open>The main thread signals the cleanup once.  Whatever window and exit events arrive and in whatever order,
  at most one signal is sent and it is never replaced; a closing or an exit that is prevented finds it sent; and
  nothing is prevented once the task of the shell has ended.\<close>

lemma cleanup_signalled_once:
  "length (fl_signals (ui_run events)) \<le> 1
   \<and> (snd (ui_step event (ui_run events)) \<longrightarrow>
        \<not> fl_allow_exit (ui_run events) \<and> length (fl_signals (ui_run (events @ [event]))) = 1)
   \<and> (fl_signals (ui_run events) \<noteq> [] \<longrightarrow> fl_signals (ui_run (events @ [event])) = fl_signals (ui_run events))"
  using ui_run_ok [of events] ui_run_ok [of "events @ [event]"] ui_step_prevents [of event "ui_run events"]
    ui_step_keeps [of event "ui_run events"]
  by (auto simp: signals_ok_def ui_run_snoc split: if_splits)

lemma cleanup_signalled_once_witness:
  "fl_signals (ui_run [UiWindow MAIN_WINDOW_LABEL CloseRequested]) = [SignalGraceful]
   \<and> fl_signals (ui_run [UiWindow MAIN_WINDOW_LABEL CloseRequested, UiWindow MAIN_WINDOW_LABEL WindowDestroyed]) = [SignalGraceful]"
proof -
  have one: "fl_signals (ui_run [UiWindow MAIN_WINDOW_LABEL CloseRequested]) = [SignalGraceful]"
    by code_simp
  with cleanup_signalled_once [of "[UiWindow MAIN_WINDOW_LABEL CloseRequested]" "UiWindow MAIN_WINDOW_LABEL WindowDestroyed"]
  show ?thesis by simp
qed

end
