(* ===== verification/Shell_Example.thy ===== *)
theory Shell_Example
  imports Windows_Shell
begin

text \<open>
  A run of the whole shell, evaluated: preflight, resource bundle, proxy, private session, interpreter command, native
  launch, monitors, readiness, WebView, one forced signal, and the shutdown of everything.  It shows that the
  hypotheses of the properties of \<open>Windows_Shell\<close> can hold together with a success.
\<close>

section \<open>The interpreter command\<close>

definition example_home :: win_path where
  "example_home = [Prefix (Disk 0x43), RootDir] @ map (Normal \<circ> wide_of) [''bundle'', ''resources'', ''R'']"

definition example_bin :: win_path where
  "example_bin = example_home @ [Normal (wide_of ''bin'')]"

definition example_library :: wide where
  "example_library = path_text (example_home @ [Normal (wide_of ''library'')])"

definition example_rscript :: win_path where
  "example_rscript = example_bin @ [Normal (wide_of ''x64''), Normal (wide_of ''Rscript.exe'')]"

definition example_path :: wide where
  "example_path = search_path example_runtime_env (butlast example_rscript) example_bin"

text \<open>The environment after the first \<open>n\<close> variables were set.\<close>

definition example_variables :: "nat \<Rightarrow> launch_environment" where
  "example_variables n = \<lparr>le_entries =
     (if n < 6 then [] else [\<lparr>en_name = wide_of ''PATH'', en_value = example_path\<rparr>])
   @ (if n < 5 then [] else [\<lparr>en_name = wide_of ''RPACKIT_LAUNCH_PROTOCOL'', en_value = wide_of ''2''\<rparr>])
   @ take n (\<lparr>en_name = wide_of ''R_HOME'', en_value = path_text example_home\<rparr>
         # map (\<lambda>x. \<lparr>en_name = wide_of x, en_value = example_library\<rparr>) [''R_LIBS'', ''R_LIBS_SITE'', ''R_LIBS_USER''])\<rparr>"

lemma example_removed:
  "rbind (map_err Launch (env_from_current ordinal_compare (rv_vars example_runtime_env)))
     (\<lambda>e. remove_variables ordinal_compare e AMBIENT_R_VARIABLES) = Inr (example_variables 0)"
  by code_simp

lemma example_set1:
  "set_variable ordinal_compare (example_variables 0) ''R_HOME'' (path_text example_home) = Inr (example_variables 1)"
  by code_simp

lemma example_set2:
  "set_variable ordinal_compare (example_variables 1) ''R_LIBS'' example_library = Inr (example_variables 2)"
  by code_simp

lemma example_set3:
  "set_variable ordinal_compare (example_variables 2) ''R_LIBS_SITE'' example_library = Inr (example_variables 3)"
  by code_simp

lemma example_set4:
  "set_variable ordinal_compare (example_variables 3) ''R_LIBS_USER'' example_library = Inr (example_variables 4)"
  by code_simp

lemma example_set5:
  "set_variable ordinal_compare (example_variables 4) ''RPACKIT_LAUNCH_PROTOCOL'' (wide_of ''2'') = Inr (example_variables 5)"
  by code_simp

lemma example_set6:
  "set_variable ordinal_compare (example_variables 5) ''PATH'' example_path = Inr (example_variables 6)"
  by code_simp

lemma example_paths:
  "Option.bind (win_parent (rv_native example_runtime_env (vb_rscript example_bundle))) win_parent
     = Some ([Prefix (VerbatimDisk 0x43), RootDir] @ map (Normal \<circ> wide_of) [''bundle'', ''resources'', ''R''])"
  "r_compatible_existing_path example_runtime_env ([Prefix (VerbatimDisk 0x43), RootDir]
     @ map (Normal \<circ> wide_of) [''bundle'', ''resources'', ''R'']) = Inr example_home"
  "map_option (r_compatible_existing_path example_runtime_env)
     (win_parent (rv_native example_runtime_env (vb_rscript example_bundle))) = Some (Inr example_bin)"
  "map_err id (r_compatible_existing_path example_runtime_env (rv_native example_runtime_env (vb_library example_bundle)))
     = Inr (example_home @ [Normal (wide_of ''library'')])"
  "win_parent example_rscript = Some (butlast example_rscript)"
  by code_simp+

lemma example_built: "bundled_r_environment example_runtime_env example_bundle example_rscript = Inr (example_variables 6)"
proof -
  obtain e0 where e0: "env_from_current ordinal_compare (rv_vars example_runtime_env) = Inr e0"
      "remove_variables ordinal_compare e0 AMBIENT_R_VARIABLES = Inr (example_variables 0)"
    using example_removed by (cases "env_from_current ordinal_compare (rv_vars example_runtime_env)")
      (simp_all add: map_err_def rbind_def)
  obtain directory where d: "win_parent (rv_native example_runtime_env (vb_rscript example_bundle)) = Some directory"
      "r_compatible_existing_path example_runtime_env directory = Inr example_bin"
      "win_parent directory = Some ([Prefix (VerbatimDisk 0x43), RootDir] @ map (Normal \<circ> wide_of) [''bundle'', ''resources'', ''R''])"
    using example_paths(1,3) by (cases "win_parent (rv_native example_runtime_env (vb_rscript example_bundle))") auto
  have library: "r_compatible_existing_path example_runtime_env (rv_native example_runtime_env (vb_library example_bundle))
      = Inr (example_home @ [Normal (wide_of ''library'')])"
    using example_paths(4) by (auto simp: map_err_def split: sum.splits)
  have cmp: "rv_compare_ordinal example_runtime_env = ordinal_compare" by (simp add: example_runtime_env_def)
  show ?thesis
    unfolding bundled_r_environment_def Let_def cmp
    by (simp only: e0 d library example_paths(2,5) map_err_def ok_or_def rbind_def sum.case option.case
        example_library_def [symmetric] example_path_def [symmetric]
        example_set1 example_set2 example_set3 example_set4 example_set5 example_set6)
qed

definition example_r_command :: launch_command where
  "example_r_command =
     (case bundled_r_command example_runtime_env example_bundle example_rscript 3838
        (px_token_path Private_Session.example_session) (px_control_path Private_Session.example_session) (example_variables 6) of
        Inr c \<Rightarrow> c | Inl _ \<Rightarrow> command_new [] [])"

lemma example_interprets:
  "interpreter_command example_runtime_env example_bundle 3838 Private_Session.example_session = Inr example_r_command"
proof -
  have i: "rbind (bundled_r_interpreter example_runtime_env example_bundle) (r_compatible_existing_path example_runtime_env)
      = Inr example_rscript"
    and c: "case bundled_r_command example_runtime_env example_bundle example_rscript 3838
        (px_token_path Private_Session.example_session) (px_control_path Private_Session.example_session) (example_variables 6) of
        Inl _ \<Rightarrow> False | Inr _ \<Rightarrow> True"
    by code_simp+
  show ?thesis
    unfolding interpreter_command_def i
    unfolding rbind_def sum.case example_built
    unfolding sum.case example_r_command_def
    using c by (auto split: sum.splits)
qed

section \<open>The native launch\<close>

text \<open>With a Windows that answers every call, a launch succeeds once the command can be encoded.\<close>

lemma example_created:
  assumes "nul_terminated_wide (lc_program c) ''program path'' = Inr a"
    and "nul_terminated_wide (lc_current_directory c) ''current directory'' = Inr b"
    and "build_command_line (lc_program c) (lc_arguments c) = Inr l"
    and "encode_optional_block (lc_environment c) = Inr e"
  shows "snd (launch_process example_oracle c []) = Inr \<lparr>pi_pid = 41, pi_creation_time_100ns = 4294967298\<rparr>"
proof -
  have flags: "policy_of JOB_OBJECT_LIMIT_KILL_ON_JOB_CLOSE = \<lparr>jo_kill_on_close = True, jo_breakaway_allowed = False,
      jo_silent_breakaway_allowed = False\<rparr>" "and (0 :: 32 word) HANDLE_FLAG_INHERIT = 0"
      "or (push_bit 32 (ucast (1 :: 32 word))) (ucast (2 :: 32 word)) = (4294967298 :: 64 word)"
    by code_simp+
  show ?thesis
    by (simp add: launch_process_def validate_command_def create_kill_on_close_job_def query_job_policy_def
        launch_in_job_def output_pipe_def inheritable_pipe_def clear_inherit_flag_def closed_stdin_pipe_def
        with_handle_list_def create_suspended_def assign_and_resume_def process_identity_of_def process_is_in_job_def
        scope_def native_defs example_oracle_def flags assms)
qed

lemma example_encoded:
  "case nul_terminated_wide (lc_program example_r_command) ''program path'' of Inl _ \<Rightarrow> False | Inr _ \<Rightarrow> True"
  "case nul_terminated_wide (lc_current_directory example_r_command) ''current directory'' of Inl _ \<Rightarrow> False | Inr _ \<Rightarrow> True"
  "case build_command_line (lc_program example_r_command) (lc_arguments example_r_command) of Inl _ \<Rightarrow> False | Inr _ \<Rightarrow> True"
  "case encode_optional_block (lc_environment example_r_command) of Inl _ \<Rightarrow> False | Inr _ \<Rightarrow> True"
  by code_simp+

lemma example_process_launched:
  "snd (launch_process example_oracle example_r_command []) = Inr \<lparr>pi_pid = 41, pi_creation_time_100ns = 4294967298\<rparr>"
proof -
  have Inr: "\<exists>y. x = Inr y" if "case x of Inl _ \<Rightarrow> False | Inr _ \<Rightarrow> True" for x :: "launch_error + 'a"
    using that by (cases x) simp_all
  show ?thesis
    using Inr [OF example_encoded(1)] Inr [OF example_encoded(2)] Inr [OF example_encoded(3)] Inr [OF example_encoded(4)]
    by (elim exE) (rule example_created)
qed

section \<open>The application\<close>

definition example_secret :: secret where
  "example_secret = \<lparr>secret_value = ''rp-'' @ hex_encode (replicate 32 (CHR 0x07))\<rparr>"

definition example_generated :: transport_secrets where
  "example_generated = \<lparr>ts_session = example_secret, ts_upstream = example_secret, ts_bootstrap = example_secret\<rparr>"

definition example_running :: runtime_owner where
  "example_running =
     (new_owner example_bundle 3838 example_secret default_lifecycle_limits Private_Session.example_session
        \<lparr>pi_pid = 41, pi_creation_time_100ns = 4294967298\<rparr>)
     \<lparr>ro_monitor_state := LsListening, ro_runtime := Some example_runtime, ro_owner_state := OwnerReady\<rparr>"

lemma example_launched:
  assumes "quiet h"
  shows "\<exists>k. launch_validated example_life example_runtime_env example_bundle example_parent 3838 example_generated
      default_lifecycle_limits (v, h) = Some ((v, h @ k), Inr example_running)"
proof -
  let ?process = "\<lparr>pi_pid = 41, pi_creation_time_100ns = 4294967298\<rparr>"
  let ?h = "h @ [LCreateSession example_parent, LWriteToken (secret_value example_secret), LLaunch example_r_command,
      LTakeStdout, LTakeStderr, LSpawnStderr, LSpawnStdout]"
  have limits: "limits_valid default_lifecycle_limits" by code_simp
  have token: "snd (write_token_file example_session_oracle Private_Session.example_session (secret_value example_secret) []) = Inr ()"
    by code_simp
  have http: "authenticated_http_ready (wo_http example_life h) 3838 example_secret = Inr True" for h
    by code_simp
  have answers: "wo_session example_life h = example_session_oracle" "wo_launch example_life h = example_oracle"
      "wo_taken example_life h" "wo_spawned example_life h" for h
    by (simp_all add: example_life_def)
  have "quiet ?h" using assms by (simp add: quiet_def receives_def)
  from example_starts [OF this http, of example_bundle ?process] obtain k where
    start: "wait_until_ready example_life (new_owner example_bundle 3838 example_secret default_lifecycle_limits
        Private_Session.example_session ?process, ?h) = Some ((example_running, ?h @ k), Inr ())"
    by (auto simp: example_running_def)
  have "launch_validated example_life example_runtime_env example_bundle example_parent 3838 example_generated
      default_lifecycle_limits (v, h) = Some ((v, ?h @ k), Inr example_running)"
    using start
    by (simp add: launch_validated_def limits launch_validated_inner_def abind_def act_defs Let_def answers
        map_err_def example_session_created example_generated_def token example_interprets example_process_launched
        attach_monitors_def start_owner_def on_owner_def)
  then show ?thesis by auto
qed

definition example_native_address :: proxy_address where
  "example_native_address =
     \<lparr>pa_hostname = ''rpackit-'' @ hex_encode (replicate 16 (CHR 0x09)) @ ''.localhost'', pa_port = 4000\<rparr>"

definition example_proxy_started :: proxy_state where
  "example_proxy_started =
     \<lparr>ps_expected_authority = address_authority example_native_address,
      ps_expected_origin = address_origin example_native_address, ps_address = example_native_address,
      ps_upstream = \<lparr>v4_addr = 127 * 2 ^ 24 + 1, v4_port = 3838\<rparr>, ps_secrets = example_generated,
      ps_limits = default_limits, ps_permits = max_connections default_limits,
      ps_bootstrap_consumed = False, ps_tasks = tasks_new\<rparr>"

definition example_native_owner :: native_owner where
  "example_native_owner =
     \<lparr>no_proxy = Some \<lparr>rp_address = example_native_address, rp_secrets = example_generated,
        rp_state = example_proxy_started\<rparr>,
      no_runtime = Some example_running, no_host_resolution = Unavailable\<rparr>"

definition example_shell_app :: app_oracle where
  "example_shell_app = example_app\<lparr>ao_resolved := (\<lambda>h. None)\<rparr>"

lemma example_native_launched:
  "\<exists>h. native_launch example_shell_app [''C:'', ''bundle''] example_parent default_lifecycle_limits default_limits ((), [])
     = Some (((), h), Inr (Inr example_native_owner))"
proof -
  let ?h = "[LReservePort, LBindProxy, LResolveHost]"
  have parts: "limits_valid default_lifecycle_limits" "limits_is_valid default_limits"
      "select_upstream_port True (Some 3838) = Inr 3838"
      "secrets_generate (ao_random example_app) = Some example_generated"
      "case resolve_hostname None of Unavailable \<Rightarrow> True | _ \<Rightarrow> False"
    by code_simp+
  have resolved: "resolve_hostname None = Unavailable" by (simp add: resolve_hostname_def)
  have "quiet ?h" by code_simp
  from example_launched [OF this, of "()"] obtain k where
    launch: "launch_validated example_life example_runtime_env example_bundle example_parent 3838 example_generated
      default_lifecycle_limits ((), ?h) = Some (((), ?h @ k), Inr example_running)" by blast
  have fields: "ao_life example_shell_app = example_life" "ao_env example_shell_app = example_runtime_env"
      "ao_files example_shell_app = example_bundle_env" "ao_reserved example_shell_app g = (True, Some 3838)"
      "ao_random example_shell_app = ao_random example_app" "ao_nonce example_shell_app = Some (replicate 16 (CHR 0x09))"
      "ao_bound example_shell_app g = Inr 4000" "ao_resolved example_shell_app g = None" "ao_worker example_shell_app g" for g
    by (simp_all add: example_shell_app_def example_app_def)
  have runtime: "launch_runtime example_shell_app example_bundle example_parent 3838 example_generated default_lifecycle_limits
      proxy Unavailable ((), ?h) = Some (((), ?h @ k),
        Inr (Inr \<lparr>no_proxy = Some proxy, no_runtime = Some example_running, no_host_resolution = Unavailable\<rparr>))" for proxy
    using launch by (simp add: launch_runtime_def fields abind_def attempt_def app_ok_def aret_def)
  have port: "unat (3838 :: 16 word) = 3838" by simp
  have "native_launch example_shell_app [''C:'', ''bundle''] example_parent default_lifecycle_limits default_limits ((), [])
     = Some (((), ?h @ k), Inr (Inr example_native_owner))"
    using parts runtime example_bundle_loads
    by (simp add: native_launch_def Let_def app_bind_lift abind_ask app_bind_ask map_err_def ok_or_def generate_with_secrets_def
        upstream_v4_def rbind_def proxy_started_def with_limits_def proxy_start_def resolved fields example_native_owner_def
        example_proxy_started_def example_native_address_def)
  then show ?thesis by blast
qed

lemma example_native_stops:
  "\<exists>w1 report. native_force_shutdown example_shell_app (example_native_owner, h) = Some (w1, Inr (Inr report))"
proof -
  let ?stopped = "(example_native_owner\<lparr>no_proxy := None\<rparr>, h @ [LStopProxy])"
  have life: "ao_life example_shell_app = example_life" "ao_worker example_shell_app g" for g
    by (simp_all add: example_shell_app_def example_app_def)
  have "snd (proxy_shutdown Proxy.example_state [ListenerReturned (Inr ())] (\<lambda>i. TaskDone)) = Inr ()"
    by code_simp
  then have proxy: "stop_proxy example_shell_app (example_native_owner, h) = Some (?stopped, Inr (Inr ()))"
    by (simp add: stop_proxy_def proxy_stopped_def abind_def act_defs Let_def example_native_owner_def
        example_shell_app_def example_app_def map_err_def)
  have fields: "ro_owner_state example_running = OwnerReady" "ro_process example_running \<noteq> None"
      "ro_runtime example_running \<noteq> None" "ro_session example_running = Some Private_Session.example_session"
      "ro_stdout_thread example_running" "ro_stderr_thread example_running"
    by (simp_all add: example_running_def new_owner_def)
  obtain w1 report where run: "force_shutdown example_life (example_running, h @ [LStopProxy]) = Some (w1, Inr report)"
    using example_forces [OF fields] by blast
  obtain rt h1 where w1: "w1 = (rt, h1)" by (cases w1)
  have "owner_ok example_running"
    by (simp add: owner_ok_def holds_all_def example_running_def new_owner_def)
  moreover have step: "owner_step example_life (example_running, h @ [LStopProxy]) w1" using run by (rule owner_step.forced)
  ultimately have "owner_ok rt" "ro_owner_state rt = OwnerCleaned"
    using owner_step_ok [OF step] shutdown_outcome [of example_life "(example_running, h @ [LStopProxy])" w1 report] run w1
    by simp_all
  then have "owner_drop example_life (rt, h1) = Some ((rt, h1), Inr ())" by (rule drop_cleaned)
  then have "stop_runtime example_shell_app StopForced ?stopped = Some ((fst ?stopped\<lparr>no_runtime := None\<rparr>, h1), Inr (Inr report))"
    using run w1
    by (simp add: stop_runtime_def abind_def act_defs on_worker_def on_owner_def life app_ok_def example_native_owner_def)
  then show ?thesis
    using proxy
    by (simp add: native_force_shutdown_def abind_def act_defs finish_shutdown_def app_lift_def) (simp add: example_native_owner_def)
qed

section \<open>The shell\<close>

text \<open>One forced signal arrives.\<close>

definition example_shell_browser :: browser_launch where
  "example_shell_browser =
     \<lparr>bl_address = example_native_address,
      bl_session = example_secret, bl_bootstrap = example_secret\<rparr>"

definition example_shell :: shell_env where
  "example_shell =
     \<lparr>se_policy = example_policy_env, se_app = example_shell_app, se_view = example_view example_shell_browser,
      se_events = (\<lambda>h. SignalReceived SignalForced), se_win_path = (\<lambda>p. example_parent)\<rparr>"

definition example_options :: shell_options where
  "example_options =
     \<lparr>so_bundle = [''C:'', ''bundle''], so_session_parent = [''C:'', ''sessions''],
      so_profile_parent = [''C:'', ''profiles''], so_close_after_ready = False\<rparr>"

lemma example_shell_opened:
  "\<exists>h k. shell_launch example_shell example_options ((), []) = Some (((), h), Inr (Inr example_native_owner))
     \<and> native_browser_launch example_native_owner = Inr example_shell_browser
     \<and> shell_open example_shell example_options example_native_owner example_preflight ((), h)
         = Some (((), h @ k), Inr (Inr (example_window example_shell_browser)))"
proof -
  obtain h where h: "native_launch example_shell_app [''C:'', ''bundle''] example_parent default_lifecycle_limits default_limits ((), [])
     = Some (((), h), Inr (Inr example_native_owner))"
    using example_native_launched by blast
  have browser: "native_browser_launch example_native_owner = Inr example_shell_browser"
    by (simp add: native_browser_launch_def example_native_owner_def example_shell_browser_def example_generated_def
        ok_or_def rbind_def)
  have "case bootstrap_run (example_view_config example_shell_browser) (vo_startup (example_view example_shell_browser) [])
      bootstrap_new of Some st \<Rightarrow> bt_sent st = Some (Inr ()) | None \<Rightarrow> False"
    by code_simp
  from example_view_opens [OF this, of "((), h)"] obtain k where
    "view_launch (example_view example_shell_browser) example_shell_browser [''C:'', ''profiles''] example_preflight
       default_window_config default_webview_limits ((), h)
     = Some (((), h @ k), Inr (Inr (example_window example_shell_browser)))" by auto
  with h browser show ?thesis
    by (auto simp: shell_launch_def shell_open_def example_shell_def example_options_def)
qed

lemma example_shell_runs:
  "\<exists>h s. run_shell example_shell example_options ((), []) = Some (((), h), Inr (Inr s)) \<and> ss_forced s"
proof -
  let ?view = "example_window example_shell_browser" and ?os = "example_view example_shell_browser"
  obtain h k where launch: "shell_launch example_shell example_options ((), []) = Some (((), h), Inr (Inr example_native_owner))"
    and browser: "native_browser_launch example_native_owner = Inr example_shell_browser"
    and opened: "shell_open example_shell example_options example_native_owner example_preflight ((), h)
         = Some (((), h @ k), Inr (Inr ?view))"
    using example_shell_opened by blast
  let ?h = "h @ k @ [LSelect HEALTH_POLL_INTERVAL, LView VHide]"
  have pf: "preflight_verify example_policy_env APPLICATION_ID = Inr example_preflight"
    by code_simp
  obtain n1 h1 nr where stop: "native_force_shutdown example_shell_app (example_native_owner, ?h) = Some ((n1, h1), Inr (Inr nr))"
    using example_native_stops [of ?h] by (metis surj_pair)
  have ok: "native_ok (fst (example_native_owner, ?h))"
    by (simp add: native_ok_def example_native_owner_def owner_ok_def holds_all_def example_running_def new_owner_def)
  have n1: "no_proxy n1 = None" "no_runtime n1 = None"
    using native_report_outcome [OF ok, of example_shell_app "(n1, h1)" nr True] stop by simp_all
  obtain v2 h2 vr where shut: "view_shutdown ?os (?view, h1) = Some ((v2, h2), Inr (Inr vr))"
    using example_view_closes by (metis surj_pair)
  have v2: "\<not> vw_window v2" "is_removed (vw_profile v2)" using view_shutdown_outcome [OF shut] by auto
  have drops: "drop_owners example_shell n1 v2 w = Some (w, Inr ())" for w :: "(native_owner \<times> webview_owner) world"
    using n1 v2
    by (simp add: drop_owners_def on_part_def view_drop_def native_drop_def drop_profile_def abind_def act_defs is_removed_def)
  have hidden: "view_hide ?os (?view, g) = Some ((?view, g @ [LView VHide]), Inr (Inr ()))" for g
    by (simp add: view_hide_def abind_def act_defs Let_def example_window_def) (simp add: example_view_def)
  have parts: "se_app example_shell = example_shell_app" "se_view example_shell = ?os"
      "se_events example_shell g = SignalReceived SignalForced" "se_policy example_shell = example_policy_env" for g
    by (simp_all add: example_shell_def)
  let ?s = "\<lparr>ss_webview2_version = vw_runtime_version ?view, ss_native = nr, ss_webview = vr, ss_forced = True\<rparr>"
  let ?owners = "(example_native_owner, ?view)"
  have turn: "shell_turn example_shell (vw_runtime_version ?view) (?owners, h @ k) = Some ((?owners, h2), Inr (Some (Inr ?s)))"
    using stop shut drops
    by (simp add: shell_turn_def shutdown_owners_def abind_ask abind_def [of "owner _"] abind_def [of "on_part _ _"]
        abind_def [of "drop_owners _ _ _"] abind_def [of "abind _ _"] owner_def on_part_def parts hidden app_ok_def aret_def)
  have "loop_act (shell_turn example_shell (vw_runtime_version ?view)) (?owners, h @ k) = Some ((?owners, h2), Inr (Inr ?s))"
    using turn by (rule loop_once)
  then have loop: "shell_loop example_shell example_native_owner ?view (vw_runtime_version ?view) ((), h @ k)
      = Some (((), h2), Inr (Inr ?s))"
    by (simp add: shell_loop_def abind_def on_part_def app_lift_def aret_def)
  have "run_shell example_shell example_options ((), []) = Some (((), h2), Inr (Inr ?s))"
    using launch opened browser loop pf
    by (simp add: run_shell_def app_bind_lift map_err_def parts shell_launch_def shell_open_def abind_def) (simp add: example_options_def)
  then show ?thesis by auto
qed

section \<open>Witnesses\<close>

lemma shell_leaves_nothing_witness:
  "\<exists>h s native h2 h3 opened. run_shell example_shell example_options ((), []) = Some (((), h), Inr (Inr s))
     \<and> shell_launch example_shell example_options ((), []) = Some (((), h2), Inr (Inr native))
     \<and> run_released example_shell example_options h2 h3 opened h (Inr s)"
proof -
  obtain h s where run: "run_shell example_shell example_options ((), []) = Some (((), h), Inr (Inr s))"
    using example_shell_runs by blast
  with shell_leaves_nothing [OF run] show ?thesis by auto
qed

lemma shell_success_truthful_witness:
  "\<exists>h s. run_shell example_shell example_options ((), []) = Some (((), h), Inr (Inr s))
     \<and> ss_forced s \<and> ev_job_empty (evidence_success s) \<and> ev_profile_removed (evidence_success s)
     \<and> \<not> ev_graceful_runtime_shutdown (evidence_success s)"
proof -
  obtain h s where run: "run_shell example_shell example_options ((), []) = Some (((), h), Inr (Inr s))" "ss_forced s"
    using example_shell_runs by blast
  from shell_success_truthful [OF run(1)] run show ?thesis by (auto simp: Let_def)
qed

end
