(* ===== verification/Spec2Isabelle.thy ===== *)
theory Spec2Isabelle
  imports Shell_Example
begin

text \<open>
  Verification of the rpackit native transport and launch boundary.

  \<^bold>\<open>The program.\<close>  rpackit starts a bundled R process that serves a Shiny application on the
  loopback interface and shows it in a WebView.  Four parts carry the security of that arrangement.
  The \<^emph>\<open>loopback proxy\<close> (\<open>crates/transport\<close>) stands between the WebView and the R process: it
  admits request heads byte by byte, authenticates every request with a session cookie that only the
  one-time bootstrap request can install, rewrites requests and responses, and bounds bodies in
  size, rate and time.  The \<^emph>\<open>launcher protocol\<close> (\<open>crates/launcher-protocol\<close>) decodes the events the R
  process prints and checks their order.  The \<^emph>\<open>resource bundle\<close> validator
  (\<open>crates/resource-bundle\<close>) checks a bundle before anything in it runs.  The \<^emph>\<open>Windows launcher\<close>
  (\<open>crates/windows-launcher\<close>) starts the R process suspended inside a kill-on-close Job object,
  and verifies that the reported process owns the one listener on the agreed port.  The runtime
  owner and the application owner (\<open>crates/windows-lifecycle\<close>) compose bundle, launcher, protocol and proxy; the
  WebView owner (\<open>crates/windows-webview\<close>) drives the proxy's bootstrap in a hardened browser; and the
  shell (\<open>apps/windows-shell\<close>) runs both owners around the events of the main thread.

  \<^bold>\<open>The theories.\<close>  Sources are relative to \<open>src/crates\<close>.
  \<^item> \<open>Rust_Prelude\<close>: results and the question-mark operator (\<^term>\<open>rbind\<close>), checked and saturating
    arithmetic, bytes, ASCII and UTF-8, \<open>trim\<close>, \<open>split\<close>, decimal and hexadecimal text.
  \<^item> \<open>Http_Api\<close>: header maps and URI parsing of the \<open>http\<close> crate as a record of functions; the locale
    \<open>http_laws\<close> states what the code relies on and is interpreted on an association list.
  \<^item> \<open>Transport_Limits\<close>: \<open>transport/src/limits.rs\<close> and \<open>secret.rs\<close>.
  \<^item> \<open>Admission\<close>: \<open>transport/src/admission.rs\<close>, with \<open>httparse\<close> as the argument \<open>request_parser\<close>.
  \<^item> \<open>Cookie\<close>: \<open>transport/src/cookie.rs\<close>.
  \<^item> \<open>Body_Guards\<close>: \<open>request_body.rs\<close> and \<open>response_body.rs\<close>, state machines driven by polls that carry
    the clock; the locale \<open>bounded_guard\<close> is interpreted for the three guards.
  \<^item> \<open>Stream_Io\<close>: \<open>read_request_prefix\<close>, \<open>replay_io.rs\<close> and \<open>response_guard_io.rs\<close> over a reader that may
    deliver any number of bytes per read; the locale \<open>stream_reader\<close> states its contract.
  \<^item> \<open>Websocket_Io\<close>: the token bucket of \<open>websocket_io.rs\<close>.
  \<^item> \<open>Response_Decode\<close>: \<open>response_decode.rs\<close>; the decoders themselves are parameters.
  \<^item> \<open>Proxy_Http\<close>, \<open>Websocket_Handshake\<close>, \<open>Proxy\<close>, \<open>Proxy_Lifecycle\<close>: \<open>proxy.rs\<close>, split into addresses and
    header rewriting, the WebSocket handshake, the request path (\<open>handle_request\<close> with everything it
    calls), and binding, accepting, task tracking and shutdown as a step relation.
  \<^item> \<open>Launcher_Protocol\<close>: \<open>launcher-protocol/src/lib.rs\<close>; \<open>serde_json\<close> is the argument \<open>from_slice\<close>.
  \<^item> \<open>Resource_Bundle\<close>: \<open>resource-bundle/src/lib.rs\<close>; the file system, \<open>serde_json\<close> and \<open>Url::parse\<close>
    are the fields of \<open>bundle_env\<close>.
  \<^item> \<open>Launch_Environment\<close>: the environment block and the command line of
    \<open>windows-launcher/src/lib.rs\<close>; the locale \<open>ordinal_names\<close> is the contract of
    \<open>CompareStringOrdinal\<close>.
  \<^item> \<open>Windows_Launcher\<close>: the launch sequence of the same file as a function to the history of its native
    calls, with Windows as an oracle over histories and scopes that close owned handles.
  \<^item> \<open>Job_Listener\<close>: Job members, owner-PID listener tables, listener verification and waits.
  \<^item> \<open>Call_History\<close>: the state monad of histories of native calls that the launcher and the session share.
  \<^item> \<open>Private_Session\<close>: \<open>windows-launcher/src/private_fs.rs\<close>, the protected session directory, the one-time
    token and the control file, with Windows as an oracle over the history of its calls.
  \<^item> \<open>Runtime_Monitor\<close>, \<open>Runtime_Command\<close>: the limits, the two monitor threads and the readiness request of
    \<open>windows-lifecycle/src/lib.rs\<close>; the Windows paths, the environment and the command of the interpreter.
  \<^item> \<open>Runtime_Owner\<close>: \<open>RuntimeOwner\<close> of the same file.  Its methods are actions on the owner and the history of
    effects (clock, sleeps, messages, process and Job handles, session, socket, threads); each effect is
    answered by an oracle over that history, through the model of the layer below.  The locale \<open>frame\<close>
    states what every step of an action keeps, and is interpreted once for each relation of the proofs.
  \<^item> \<open>Owner_Cleanup\<close>, \<open>Owner_Progress\<close>: what shutdown and cleanup leave, the owner invariant, that the operations
    return, and that the reports are true.
  \<^item> \<open>Runtime_Launch\<close>: \<open>RuntimeOwner::launch\<close> and the cleanup of its failing exits.
  \<^item> \<open>Desktop_Owner\<close>: \<open>windows-lifecycle/src/desktop.rs\<close>, the application owner, whose actions run those of the
    proxy and of the runtime owner on one history, and hold Job and proxy until they release them.
    \<open>Desktop_Release\<close>: what dropping it releases.
  \<^item> \<open>Webview_Policy\<close>, \<open>Webview_Profile\<close>: \<open>policy.rs\<close> and \<open>profile.rs\<close> of \<open>windows-webview/src\<close>, with limits and window
    settings; environment, registry and file system are parameters.
  \<^item> \<open>Webview_Bootstrap\<close>: the handlers \<open>SecureWebviewOwner::launch\<close> installs.  Page loads, the thread that
    checks the cookies and their shared state are the steps of \<open>bootstrap_run\<close>, in any interleaving.
  \<^item> \<open>Webview_Owner\<close>: launch, hiding, shutdown, retry and drop of \<open>SecureWebviewOwner\<close>, with the decisions of
    \<open>native.rs\<close>, on the same history of effects; the browser is the oracle \<open>view_oracle\<close>.
  \<^item> \<open>Windows_Shell\<close>: \<open>windows_app.rs\<close>, from the options to the evidence; the run composes preflight, application
    owner and WebView owner.  \<open>Shell_Example\<close>: one such run, evaluated from the launch to a success, as the
    witness of its properties.

  \<^bold>\<open>What is shown.\<close>  For the proxy: nothing reaches the upstream without the origin and session
  checks, and what reaches it carries the upstream secret exactly once; the session cookie is
  installed only by the exact bootstrap secret and at most once in any sequence of requests; an
  admitted head is unambiguous and bounded; cookie authentication accepts exactly the well-formed
  headers with the secret and forwards the other cookies in order; every response but a protocol
  switch closes the connection; reading a head returns and loses no byte; body guards, decoded
  bodies and tunnels stay within their limits; a running proxy never holds more connections than
  permits, and shutdown is final.  For the launcher protocol: chunking does not matter, a push
  returns exactly the events of the completed lines, every event is well formed, errors latch, and
  the tracker accepts exactly the specified event sequences.  For the bundle: loading accepts exactly
  the conforming bundles, everything it returns lies inside the bundle, and its content obeys the
  protocol-2 contract.  For the launcher: the started process reads back exactly its arguments and
  environment (the program name by the rules that hold for it alone, hence without a quote or a quoted trailing
  backslash), the environment refines a map, a process is resumed only as a verified member of a
  verified Job and every failure cleans up, a listener is verified exactly when it is exclusive, and
  waiting for an empty Job ends.  For the private session: directory and files carry the verified DACL, which names
  SYSTEM and the account the system answered for the process token, under a name drawn at random, or are removed
  again.  For the runtime owner: the monitor reports exactly the accepted events however the
  output is split; the interpreter sees the sanitised environment; a launch gives a verified owner or
  leaves no process; the owner holds all, only the session, or nothing, and never closes a Job it has not
  seen empty (a comment in \<open>finish_cleanup\<close> says otherwise of query errors, but the code returns first); every operation returns; and a shutdown report says what was observed.  For the application: the proxy is
  bound before the process exists, forwards to the port of the verified runtime and never outlives a failed launch,
  and its reports are true of the runtime and of what the tasks of the proxy answered.  For the WebView:
  the preflight accepts exactly the unmodified runtimes of at least the reviewed version; nothing but the
  per-launch profile is ever removed; navigation stays on the origin of the proxy; readiness means that the
  session cookie was verified, in every interleaving; the bootstrap credential is sent after the hardening; and a
  shutdown skips no step, from the deletion of exactly the session cookies on, and reports only what was seen.  For the shell: whatever a run returns, the Job was
  closed, the proxy ended, the window destroyed and the removal of the profile tried; success means that
  all of it was seen to succeed.

  \<^bold>\<open>Bounds and fuel.\<close>  \<open>usize\<close> is 64 bits wide.  Loops recurse on the input they consume or have a
  measure: reading a head, for instance, shrinks the distance to the head limit with every non-empty
  read.  Fuel appears only in the specification \<open>argv\<close>, where the length of the line is enough
  because every argument takes a code unit.  The wait for an empty Job and the loops of the runtime owner are
  partial functions; theorems show that they return when sleeping advances the clock and the monitor
  threads send finitely many messages.

  \<^bold>\<open>Not modelled.\<close>  The connection driver of \<open>hyper\<close>, the byte copy of an upgraded tunnel, \<open>tokio\<close>'s
  scheduler (interleavings appear as the steps of the step relation), zeroisation of freed memory,
  and the write sides of the stream adapters, which delegate.  \<open>RunningProxy::shutdown\<close> is one step, although the
  task lock is released between aborting and taking the tasks; a worker thread that terminates did nothing
  before its runtime is dropped, although the panic may come in the middle of the operation; and the contract of
  \<open>read_request_prefix\<close> is about sockets whose reads succeed.  \<open>windows_socket.rs\<close> is one native call and
  appears as a socket operation.  Dropping an owner and failing to set up its monitors close the Job without
  waiting for it to be empty, as the code does; the property on closed Jobs is about the public operations.
  In the WebView crate: the COM calls themselves (their results are answers of the browser), \<open>Debug\<close> formatting, and
  the overflow of \<open>Instant::now() + timeout\<close>, which the limits keep small.  In the shell: building the \<open>tauri\<close>
  application, its event loop and the exit of the process; the handlers and the task it runs are modelled.
  The spike application, the test kit and the fixture processes only exercise the code above against real
  services.
\<close>

end
